(* ===== verification/Prelude.thy ===== *)
theory Prelude
  imports Complex_Main "HOL-Library.Monad_Syntax"
begin

text \<open>
  Vocabulary shared by every component theory.

  The program is a set of Python services over PostgreSQL tables, a Neo4j graph and a message
  broker.  This theory fixes how the language and the database primitives are read:
  \<^item> identifiers drawn from \<^verbatim>\<open>uuid.uuid4()\<close> are natural numbers, instants are UTC microseconds and
    dates are Python ordinals (\<^verbatim>\<open>date.toordinal\<close>, day 1 is a Monday);
  \<^item> an exception is the left injection of a sum, \<open>bind_result\<close> is the propagation of the first
    exception;
  \<^item> a Python \<^verbatim>\<open>dict\<close> keeps insertion order, so it is an association list with \<open>dict_get\<close>,
    \<open>dict_set\<close> and \<open>dict_setdefault\<close>;
  \<^item> a database table is the list of its rows in insertion order; \<open>update_where\<close> is an
    \<^verbatim>\<open>UPDATE ... WHERE\<close>, and \<^verbatim>\<open>ORDER BY k LIMIT n\<close> is \<open>take n\<close> of the stable \<open>sort_key\<close>.
\<close>

named_theorems wf_intros \<open>preservation of well-formedness invariants\<close>
named_theorems frame \<open>what an operation leaves unchanged\<close>
named_theorems table_simps \<open>rewrite rules on tables and dictionaries\<close>

type_synonym uuid = nat
type_synonym instant = int
type_synonym date = int
type_synonym flt = rat
type_synonym dec = rat
type_synonym ('e, 'a) result = "'e + 'a"
type_synonym ('k, 'v) dict = "('k \<times> 'v) list"

subsection \<open>Exceptions\<close>

definition bind_result :: "('e, 'a) result \<Rightarrow> ('a \<Rightarrow> ('e, 'b) result) \<Rightarrow> ('e, 'b) result" where
  "bind_result r f = (case r of Inl e \<Rightarrow> Inl e | Inr a \<Rightarrow> f a)"

lemma bind_result_simps [simp]:
  "bind_result (Inl e) f = Inl e" "bind_result (Inr a) f = f a"
  by (simp_all add: bind_result_def)

lemma bind_result_Inr_iff: "bind_result r f = Inr b \<longleftrightarrow> (\<exists>a. r = Inr a \<and> f a = Inr b)"
  by (cases r) auto

lemma bind_result_Inl_iff:
  "bind_result r f = Inl e \<longleftrightarrow> r = Inl e \<or> (\<exists>a. r = Inr a \<and> f a = Inl e)"
  by (cases r) auto

definition require :: "bool \<Rightarrow> 'e \<Rightarrow> ('e, unit) result" where
  "require b e = (if b then Inr () else Inl e)"

lemma require_Inr_iff [simp]: "require b e = Inr u \<longleftrightarrow> b"
  by (simp add: require_def)

lemma require_Inl_iff [simp]: "require b e = Inl e' \<longleftrightarrow> \<not> b \<and> e' = e"
  by (auto simp: require_def)

fun map_result :: "('a \<Rightarrow> ('e, 'b) result) \<Rightarrow> 'a list \<Rightarrow> ('e, 'b list) result" where
  "map_result f [] = Inr []"
| "map_result f (x # xs) =
     bind_result (f x) (\<lambda>y. bind_result (map_result f xs) (\<lambda>ys. Inr (y # ys)))"

lemma map_result_Inr_iff:
  "map_result f xs = Inr ys \<longleftrightarrow> list_all2 (\<lambda>x y. f x = Inr y) xs ys"
proof (induction xs arbitrary: ys)
  case Nil
  then show ?case by auto
next
  case (Cons x xs)
  then show ?case by (cases ys) (auto simp: bind_result_Inr_iff)
qed

lemma map_result_all:
  "(\<And>x. x \<in> set xs \<Longrightarrow> f x = Inr (g x)) \<Longrightarrow> map_result f xs = Inr (map g xs)"
  by (induction xs) auto

lemma map_result_mem: "map_result f xs = Inr ys \<Longrightarrow> y \<in> set ys \<Longrightarrow> \<exists>x \<in> set xs. f x = Inr y"
  by (induction xs arbitrary: ys) (auto simp: bind_result_Inr_iff)

subsection \<open>Effects\<close>

text \<open>
  A handler that reads and writes the stores and may raise is a function from the state to its
  outcome and the state it leaves behind: what was committed before an exception stays committed.
\<close>

type_synonym ('s, 'e, 'a) prog = "'s \<Rightarrow> ('e, 'a) result \<times> 's"

definition return_p :: "'a \<Rightarrow> ('s, 'e, 'a) prog" where
  "return_p a s = (Inr a, s)"

definition raise_p :: "'e \<Rightarrow> ('s, 'e, 'a) prog" where
  "raise_p e s = (Inl e, s)"

definition bind_p :: "('s, 'e, 'a) prog \<Rightarrow> ('a \<Rightarrow> ('s, 'e, 'b) prog) \<Rightarrow> ('s, 'e, 'b) prog" where
  "bind_p m f s = (case m s of (Inl e, s') \<Rightarrow> (Inl e, s') | (Inr a, s') \<Rightarrow> f a s')"

definition read_p :: "('s \<Rightarrow> 'a) \<Rightarrow> ('s, 'e, 'a) prog" where
  "read_p f s = (Inr (f s), s)"

definition write_p :: "('s \<Rightarrow> 's) \<Rightarrow> ('s, 'e, unit) prog" where
  "write_p f s = (Inr (), f s)"

definition lift_p :: "('e, 'a) result \<Rightarrow> ('s, 'e, 'a) prog" where
  "lift_p r s = (r, s)"

fun fold_p :: "('x \<Rightarrow> 'a \<Rightarrow> ('s, 'e, 'a) prog) \<Rightarrow> 'x list \<Rightarrow> 'a \<Rightarrow> ('s, 'e, 'a) prog" where
  "fold_p f [] a = return_p a"
| "fold_p f (x # xs) a = bind_p (f x a) (fold_p f xs)"

named_theorems prog_simps \<open>unfolding of the effect combinators\<close>

lemmas [prog_simps] = return_p_def raise_p_def bind_p_def read_p_def write_p_def lift_p_def

text \<open>An invariant every step keeps is kept by the loop, whether it ends or raises.\<close>

lemma bind_p_inv:
  "P (snd (m s)) \<Longrightarrow> (\<And>a s'. m s = (Inr a, s') \<Longrightarrow> P s' \<Longrightarrow> P (snd (f a s'))) \<Longrightarrow> P (snd (bind_p m f s))"
  by (auto simp: bind_p_def split: prod.splits sum.splits)

lemma fold_p_inv:
  assumes "\<And>x a s. x \<in> set xs \<Longrightarrow> P s \<Longrightarrow> P (snd (f x a s))" and "P s"
  shows "P (snd (fold_p f xs a s))"
  using assms
proof (induction xs arbitrary: a s)
  case Nil
  then show ?case by (simp add: return_p_def)
next
  case (Cons x xs)
  show ?case
    unfolding fold_p.simps
  proof (rule bind_p_inv [where P = P])
    show "P (snd (f x a s))" using Cons.prems by simp
    show "P (snd (fold_p f xs b s'))" if "P s'" for b s'
      using Cons.prems(1) that by (intro Cons.IH) simp_all
  qed
qed

subsection \<open>Insertion-ordered dictionaries\<close>

definition dict_get :: "('k, 'v) dict \<Rightarrow> 'k \<Rightarrow> 'v option" where
  "dict_get d k = map_of d k"

fun dict_set :: "('k, 'v) dict \<Rightarrow> 'k \<Rightarrow> 'v \<Rightarrow> ('k, 'v) dict" where
  "dict_set [] k v = [(k, v)]"
| "dict_set ((k', v') # d) k v = (if k' = k then (k, v) # d else (k', v') # dict_set d k v)"

definition dict_setdefault :: "('k, 'v) dict \<Rightarrow> 'k \<Rightarrow> 'v \<Rightarrow> ('v \<Rightarrow> 'v) \<Rightarrow> ('k, 'v) dict" where
  \<comment> \<open>\<^verbatim>\<open>d.setdefault(k, v0)\<close> followed by the in-place update \<open>f\<close> of the stored value\<close>
  "dict_setdefault d k v0 f =
     dict_set d k (f (case dict_get d k of None \<Rightarrow> v0 | Some v \<Rightarrow> v))"

abbreviation dict_keys :: "('k, 'v) dict \<Rightarrow> 'k list" where
  "dict_keys d \<equiv> map fst d"

abbreviation dict_values :: "('k, 'v) dict \<Rightarrow> 'v list" where
  "dict_values d \<equiv> map snd d"

lemma dict_get_simps [simp]:
  "dict_get [] k = None"
  "dict_get ((k', v) # d) k = (if k' = k then Some v else dict_get d k)"
  by (auto simp: dict_get_def)

lemma dict_get_set [table_simps, simp]:
  "dict_get (dict_set d k v) k' = (if k = k' then Some v else dict_get d k')"
  by (induction d) (auto simp: dict_get_def)

lemma dict_get_None_iff: "dict_get d k = None \<longleftrightarrow> k \<notin> set (dict_keys d)"
  by (simp add: dict_get_def map_of_eq_None_iff)

lemma dict_set_fresh: "k \<notin> set (dict_keys d) \<Longrightarrow> dict_set d k v = d @ [(k, v)]"
  by (induction d) auto

lemma set_dict_keys_set [table_simps, simp]:
  "set (dict_keys (dict_set d k v)) = insert k (set (dict_keys d))"
proof (induction d)
  case Nil
  then show ?case by simp
next
  case (Cons kv d)
  then show ?case by (cases kv) (simp add: insert_commute)
qed

lemma distinct_dict_set [wf_intros, simp]:
  "distinct (dict_keys d) \<Longrightarrow> distinct (dict_keys (dict_set d k v))"
proof (induction d)
  case Nil
  then show ?case by simp
next
  case (Cons kv d)
  have "set (map fst (dict_set d k v)) = insert k (set (map fst d))"
    by (rule set_dict_keys_set)
  with Cons show ?case by (cases kv) auto
qed

lemma dict_get_mem: "dict_get d k = Some v \<Longrightarrow> (k, v) \<in> set d"
  by (simp add: dict_get_def map_of_SomeD)

lemma dict_get_in: "distinct (dict_keys d) \<Longrightarrow> (k, v) \<in> set d \<Longrightarrow> dict_get d k = Some v"
  by (simp add: dict_get_def)

subsection \<open>Tables\<close>

definition update_where :: "('r \<Rightarrow> bool) \<Rightarrow> ('r \<Rightarrow> 'r) \<Rightarrow> 'r list \<Rightarrow> 'r list" where
  "update_where p f rows = map (\<lambda>r. if p r then f r else r) rows"

lemma update_where_Nil [simp]: "update_where p f [] = []"
  by (simp add: update_where_def)

lemma update_where_Cons [simp]:
  "update_where p f (r # rs) = (if p r then f r else r) # update_where p f rs"
  by (simp add: update_where_def)

lemma update_where_append [table_simps, simp]:
  "update_where p f (rs @ rs') = update_where p f rs @ update_where p f rs'"
  by (simp add: update_where_def)

lemma length_update_where [table_simps, simp]: "length (update_where p f rs) = length rs"
  by (simp add: update_where_def)

lemma map_update_where [table_simps]:
  "(\<And>r. p r \<Longrightarrow> g (f r) = g r) \<Longrightarrow> map g (update_where p f rs) = map g rs"
  by (induction rs) auto

lemma update_where_id: "(\<And>r. r \<in> set rs \<Longrightarrow> \<not> p r) \<Longrightarrow> update_where p f rs = rs"
  by (induction rs) auto

lemma set_update_where: "set (update_where p f rs) = (\<lambda>r. if p r then f r else r) ` set rs"
  by (simp add: update_where_def)

lemma ball_update_where: "(\<forall>r \<in> set (update_where p f rs). q r) \<longleftrightarrow> (\<forall>r \<in> set rs. q (if p r then f r else r))"
  by (induction rs) auto

lemma bex_update_where: "(\<exists>r \<in> set (update_where p f rs). q r) \<longleftrightarrow> (\<exists>r \<in> set rs. q (if p r then f r else r))"
  by (induction rs) auto

definition fetch_first :: "('r \<Rightarrow> bool) \<Rightarrow> 'r list \<Rightarrow> 'r option" where
  "fetch_first p rows = List.find p rows"

lemma fetch_first_None_iff: "fetch_first p rs = None \<longleftrightarrow> (\<forall>r \<in> set rs. \<not> p r)"
  by (auto simp: fetch_first_def find_None_iff)

lemma fetch_first_Some: "fetch_first p rs = Some r \<Longrightarrow> r \<in> set rs \<and> p r"
  by (auto simp: fetch_first_def find_Some_iff)

text \<open>\<^verbatim>\<open>ORDER BY k DESC LIMIT 1\<close>: the first row with the greatest key.\<close>

definition fetch_latest :: "('r \<Rightarrow> bool) \<Rightarrow> ('r \<Rightarrow> 'k::linorder) \<Rightarrow> 'r list \<Rightarrow> 'r option" where
  "fetch_latest p k rows =
     foldl (\<lambda>best r. if p r \<and> (case best of None \<Rightarrow> True | Some b \<Rightarrow> k b < k r) then Some r else best)
       None rows"

lemma fetch_latest_snoc:
  "fetch_latest p k (rs @ [r]) =
     (if p r \<and> (case fetch_latest p k rs of None \<Rightarrow> True | Some b \<Rightarrow> k b < k r)
      then Some r else fetch_latest p k rs)"
  by (simp add: fetch_latest_def)

lemma fetch_latest_Nil [simp]: "fetch_latest p k [] = None"
  by (simp add: fetch_latest_def)

lemma fetch_latest_None_iff: "fetch_latest p k rs = None \<longleftrightarrow> (\<forall>r \<in> set rs. \<not> p r)"
  by (induction rs rule: rev_induct) (auto simp: fetch_latest_snoc split: option.splits)

lemma fetch_latest_Some:
  "fetch_latest p k rs = Some r \<Longrightarrow> r \<in> set rs \<and> p r \<and> (\<forall>r' \<in> set rs. p r' \<longrightarrow> k r' \<le> k r)"
proof (induction rs arbitrary: r rule: rev_induct)
  case Nil
  then show ?case by simp
next
  case (snoc x rs)
  show ?case
  proof (cases "fetch_latest p k rs")
    case None
    then have none: "\<forall>r \<in> set rs. \<not> p r" by (simp add: fetch_latest_None_iff)
    from snoc.prems None have "p x" and "r = x"
      by (auto simp: fetch_latest_snoc split: if_splits)
    with none show ?thesis by auto
  next
    case (Some b)
    with snoc.IH [OF Some] snoc.prems show ?thesis
      by (fastforce simp: fetch_latest_snoc split: if_splits)
  qed
qed

text \<open>\<^verbatim>\<open>SELECT ... WHERE p ORDER BY k LIMIT n\<close>.\<close>

definition select_ordered :: "('r \<Rightarrow> bool) \<Rightarrow> ('r \<Rightarrow> 'k::linorder) \<Rightarrow> nat \<Rightarrow> 'r list \<Rightarrow> 'r list" where
  "select_ordered p k n rows = take n (sort_key k (filter p rows))"

lemma set_select_ordered: "set (select_ordered p k n rows) \<subseteq> {r \<in> set rows. p r}"
  using set_take_subset [of n "sort_key k (filter p rows)"]
  by (auto simp: select_ordered_def)

lemma length_select_ordered: "length (select_ordered p k n rows) \<le> n"
  by (simp add: select_ordered_def)

lemma sorted_select_ordered: "sorted (map k (select_ordered p k n rows))"
  by (simp add: select_ordered_def take_map [symmetric] sorted_wrt_take)

text \<open>\<^verbatim>\<open>INSERT ... ON CONFLICT (k) DO NOTHING\<close>.\<close>

definition insert_new :: "('r \<Rightarrow> 'k) \<Rightarrow> 'r \<Rightarrow> 'r list \<Rightarrow> 'r list" where
  "insert_new k x rows = (if k x \<in> set (map k rows) then rows else rows @ [x])"

lemma distinct_insert_new [wf_intros, simp]: "distinct (map k rows) \<Longrightarrow> distinct (map k (insert_new k x rows))"
  by (auto simp: insert_new_def)

lemma insert_new_subset: "set (insert_new k x rows) \<subseteq> insert x (set rows)"
  by (auto simp: insert_new_def)

lemma insert_new_keeps: "r \<in> set rows \<Longrightarrow> r \<in> set (insert_new k x rows)"
  by (auto simp: insert_new_def)

lemma insert_new_key: "k x \<in> k ` set (insert_new k x rows)"
  by (auto simp: insert_new_def)

lemma insert_new_fresh: "k x \<notin> k ` set rows \<Longrightarrow> insert_new k x rows = rows @ [x]"
  by (simp add: insert_new_def)

subsection \<open>Code points\<close>

text \<open>
  Python strings are sequences of Unicode code points; the few texts whose length or non-ASCII
  characters matter are lists of code points, built from ASCII literals by \<open>ascii\<close>.
\<close>

type_synonym ustring = "nat list"

definition ascii :: "string \<Rightarrow> ustring" where
  "ascii s = map of_char s"

lemma length_ascii [simp]: "length (ascii s) = length s"
  by (simp add: ascii_def)

fun ujoin :: "ustring \<Rightarrow> ustring list \<Rightarrow> ustring" where
  "ujoin sep [] = []"
| "ujoin sep [x] = x"
| "ujoin sep (x # y # xs) = x @ sep @ ujoin sep (y # xs)"

fun digits10 :: "nat \<Rightarrow> ustring" where
  "digits10 n = (if n < 10 then [48 + n] else digits10 (n div 10) @ [48 + n mod 10])"

declare digits10.simps [simp del]

lemma digits10_nonempty [simp]: "digits10 n \<noteq> []"
  by (subst digits10.simps) simp

subsection \<open>Substring search\<close>

text \<open>\<^verbatim>\<open>s.partition(sep)\<close>: the text before the first separator, whether it occurs, the rest.\<close>

fun partition_at :: "string \<Rightarrow> string \<Rightarrow> string \<times> bool \<times> string" where
  "partition_at sep [] = ([], sep = [], [])"
| "partition_at sep (c # cs) =
     (if take (length sep) (c # cs) = sep then ([], True, drop (length sep) (c # cs))
      else (let (l, f, r) = partition_at sep cs in (c # l, f, r)))"

lemma partition_at_notin:
  "sep = s # ss \<Longrightarrow> s \<notin> set l \<Longrightarrow> partition_at sep (l @ sep @ r) = (l, True, r)"
  by (induction l) (auto simp: Let_def)

lemma partition_at_absent:
  "sep = s # ss \<Longrightarrow> s \<notin> set l \<Longrightarrow> partition_at sep l = (l, False, [])"
  by (induction l) (auto simp: Let_def)

text \<open>\<^verbatim>\<open>s.split(c)\<close> for a single character.\<close>

definition split_char :: "char \<Rightarrow> string \<Rightarrow> string list" where
  "split_char sep s =
     foldr (\<lambda>c parts. if c = sep then [] # parts else (c # hd parts) # tl parts) s [[]]"

end
