(* ===== verification/Rounding.thy ===== *)
theory Rounding
  imports Prelude
begin

text \<open>
  Python's two inexact number types, executably.

  A \<^verbatim>\<open>float\<close> is an IEEE binary64 number and a \<^verbatim>\<open>Decimal\<close> result is rounded to the default context
  (28 significant digits, \<^verbatim>\<open>Emin = -999999\<close>); both round to nearest, ties to even.  Values are exact
  rationals and every inexact operation of the source is followed by its rounding:
  \<open>fl64\<close> for floats and \<open>dec28\<close> for decimals.  Both are instances of \<open>fround\<close>, rounding in base
  \<open>b\<close> to \<open>p\<close> digits with least exponent \<open>emin\<close> (so subnormal results are included); overflow to
  infinity and NaN are outside the model, the operations of the program stay in range.

  The laws the components use are collected in the locale \<open>rounding\<close>, which both roundings
  interpret.
\<close>

subsection \<open>Rounding to an integer, ties to even\<close>

definition rhe :: "rat \<Rightarrow> int" where
  "rhe x = (let n = \<lfloor>x\<rfloor>; d = x - of_int n
            in if d < 1 / 2 then n else if 1 / 2 < d then n + 1 else if even n then n else n + 1)"

lemma rhe_of_int [simp]: "rhe (of_int n) = n"
  by (simp add: rhe_def)

lemma rhe_floor: "rhe x = \<lfloor>x\<rfloor> \<or> rhe x = \<lfloor>x\<rfloor> + 1"
  by (simp add: rhe_def Let_def)

lemma rhe_error: "\<bar>of_int (rhe x) - x\<bar> \<le> 1 / 2"
proof -
  have "of_int \<lfloor>x\<rfloor> \<le> x" and "x < of_int \<lfloor>x\<rfloor> + 1" by linarith+
  then show ?thesis by (simp add: rhe_def Let_def abs_le_iff)
qed

lemma rhe_mono: assumes "x \<le> y" shows "rhe x \<le> rhe y"
proof (cases "\<lfloor>x\<rfloor> = \<lfloor>y\<rfloor>")
  case True
  with assms show ?thesis by (auto simp: rhe_def Let_def)
next
  case False
  with floor_mono [OF assms] have "\<lfloor>x\<rfloor> + 1 \<le> \<lfloor>y\<rfloor>" by linarith
  moreover have "rhe x \<le> \<lfloor>x\<rfloor> + 1" using rhe_floor [of x] by auto
  moreover have "\<lfloor>y\<rfloor> \<le> rhe y" using rhe_floor [of y] by auto
  ultimately show ?thesis by linarith
qed

lemma rhe_minus: "rhe (- x) = - rhe x"
proof (cases "x = of_int \<lfloor>x\<rfloor>")
  case True
  then have "rhe x = \<lfloor>x\<rfloor>" and "- x = of_int (- \<lfloor>x\<rfloor>)"
    by (metis rhe_of_int, simp)
  then show ?thesis by (metis rhe_of_int)
next
  case False
  have fl: "\<lfloor>- x\<rfloor> = - \<lfloor>x\<rfloor> - 1"
  proof (rule floor_unique)
    show "of_int (- \<lfloor>x\<rfloor> - 1) \<le> - x" by simp linarith
    have "of_int \<lfloor>x\<rfloor> < x" using False by linarith
    then show "- x < of_int (- \<lfloor>x\<rfloor> - 1) + 1" by simp
  qed
  show ?thesis by (auto simp: rhe_def Let_def fl)
qed

subsection \<open>Exponents\<close>

fun ndigits :: "nat \<Rightarrow> nat \<Rightarrow> nat" where
  "ndigits b n = (if b < 2 \<or> n = 0 then 0 else Suc (ndigits b (n div b)))"

declare ndigits.simps [simp del]

lemma ndigits_upper: "2 \<le> b \<Longrightarrow> n < b ^ ndigits b n"
proof (induction b n rule: ndigits.induct)
  case (1 b n)
  show ?case
  proof (cases "n = 0")
    case True
    with "1.prems" show ?thesis by (simp add: ndigits.simps)
  next
    case False
    with 1 have "n div b < b ^ ndigits b (n div b)" by simp
    then have "n < b * b ^ ndigits b (n div b)"
      using "1.prems" by (metis div_less_iff_less_mult less_le_trans mult.commute pos2)
    with False "1.prems" show ?thesis by (simp add: ndigits.simps [of b n])
  qed
qed

lemma ndigits_lower: "2 \<le> b \<Longrightarrow> 0 < n \<Longrightarrow> b ^ (ndigits b n - 1) \<le> n"
proof (induction b n rule: ndigits.induct)
  case (1 b n)
  show ?case
  proof (cases "n div b = 0")
    case True
    with 1 show ?thesis by (simp add: ndigits.simps [of b n] ndigits.simps [of b 0])
  next
    case False
    with 1 have "b ^ (ndigits b (n div b) - 1) \<le> n div b" by simp
    then have "b * b ^ (ndigits b (n div b) - 1) \<le> n"
      by (metis mult_le_mono2 order.trans times_div_less_eq_dividend)
    moreover have "ndigits b (n div b) \<noteq> 0"
      using False "1.prems" by (simp add: ndigits.simps [of b "n div b"])
    ultimately show ?thesis using 1
      by (simp add: ndigits.simps [of b n] power_eq_if)
  qed
qed

definition bpow :: "nat \<Rightarrow> int \<Rightarrow> rat" where
  "bpow b k = (if 0 \<le> k then of_nat b ^ nat k else 1 / of_nat b ^ nat (- k))"

lemma bpow_powi: "bpow b k = of_nat b powi k"
  by (simp add: bpow_def power_int_def divide_inverse power_inverse)

definition ilog :: "nat \<Rightarrow> rat \<Rightarrow> int" where
  "ilog b x = (if 1 \<le> x then int (ndigits b (nat \<lfloor>x\<rfloor>)) - 1
               else - int (ndigits b (nat (\<lceil>1 / x\<rceil> - 1))))"

lemma bpow_pos [simp]: "2 \<le> b \<Longrightarrow> 0 < bpow b k"
  by (simp add: bpow_powi)

lemma bpow_add: "2 \<le> b \<Longrightarrow> bpow b (j + k) = bpow b j * bpow b k"
  by (simp add: bpow_powi power_int_add)

lemma bpow_diff: "2 \<le> b \<Longrightarrow> bpow b (j - k) = bpow b j / bpow b k"
  by (simp add: bpow_powi power_int_diff)

lemma bpow_mono: "2 \<le> b \<Longrightarrow> j \<le> k \<Longrightarrow> bpow b j \<le> bpow b k"
  by (simp add: bpow_powi power_int_increasing)

lemma bpow_nonneg_int: "0 \<le> k \<Longrightarrow> bpow b k = of_int (int b ^ nat k)"
  by (simp add: bpow_def)

lemma ilog_bounds:
  assumes "2 \<le> b" and "0 < x"
  shows "bpow b (ilog b x) \<le> x" and "x < bpow b (ilog b x + 1)"
proof -
  have "bpow b (ilog b x) \<le> x \<and> x < bpow b (ilog b x + 1)"
  proof (cases "1 \<le> x")
    case True
    define n where "n = nat \<lfloor>x\<rfloor>"
    from True have n: "0 < n" "of_nat n \<le> x" "x < of_nat n + 1"
      unfolding n_def by (simp_all, linarith)
    have nd: "ndigits b n \<noteq> 0" using n assms by (simp add: ndigits.simps [of b n])
    have "bpow b (ilog b x) = of_nat (b ^ (ndigits b n - 1))"
      using True nd by (simp add: ilog_def n_def bpow_def nat_diff_distrib)
    also have "\<dots> \<le> of_nat n"
      using ndigits_lower [OF assms(1) n(1)] by (simp only: of_nat_le_iff)
    finally have lo: "bpow b (ilog b x) \<le> x" using n by linarith
    have "Suc n \<le> b ^ ndigits b n" using ndigits_upper [OF assms(1)] by (simp add: Suc_leI)
    then have "of_nat (Suc n) \<le> (of_nat (b ^ ndigits b n) :: rat)" by (simp only: of_nat_le_iff)
    with n have "x < of_nat (b ^ ndigits b n)" by simp
    moreover have "bpow b (ilog b x + 1) = of_nat (b ^ ndigits b n)"
      using True by (simp add: ilog_def n_def bpow_def)
    ultimately show ?thesis using lo by simp
  next
    case False
    define n where "n = nat (\<lceil>1 / x\<rceil> - 1)"
    from False assms have "1 < 1 / x" by (simp add: field_simps)
    then have n: "of_nat n < 1 / x" "1 / x \<le> of_nat n + 1" "0 < n"
      unfolding n_def by linarith+
    define k where "k = ndigits b n"
    have nd: "k \<noteq> 0" using n assms by (simp add: k_def ndigits.simps [of b n])
    have il: "ilog b x = - int k" using False by (simp add: ilog_def n_def k_def)
    have "of_nat (Suc n) \<le> (of_nat (b ^ k) :: rat)"
      using ndigits_upper [OF assms(1), of n] by (simp only: of_nat_le_iff k_def Suc_leI)
    then have up: "1 / x \<le> of_nat b ^ k" using n by simp
    have "(of_nat (b ^ (k - 1)) :: rat) \<le> of_nat n"
      using ndigits_lower [OF assms(1) n(3)] by (simp only: of_nat_le_iff k_def)
    then have "of_nat b ^ (k - 1) \<le> (of_nat n :: rat)" by (simp only: of_nat_power)
    then have lo: "of_nat b ^ (k - 1) < 1 / x" using n(1) by (rule le_less_trans)
    have "bpow b (ilog b x) = 1 / of_nat b ^ k" using nd by (simp add: il bpow_def)
    moreover from up assms have "1 / of_nat b ^ k \<le> x" by (simp add: field_simps)
    ultimately have "bpow b (ilog b x) \<le> x" by simp
    moreover have "bpow b (ilog b x + 1) = 1 / of_nat b ^ (k - 1)"
    proof (cases "k = 1")
      case True
      then show ?thesis by (simp add: il bpow_def)
    next
      case False
      with nd have "\<not> 0 \<le> ilog b x + 1" and "nat (- (ilog b x + 1)) = k - 1" by (auto simp: il)
      then show ?thesis by (simp add: bpow_def)
    qed
    moreover from lo assms have "x < 1 / of_nat b ^ (k - 1)" by (simp add: field_simps)
    ultimately show ?thesis by simp
  qed
  then show "bpow b (ilog b x) \<le> x" and "x < bpow b (ilog b x + 1)" by auto
qed

lemma ilog_mono:
  assumes "2 \<le> b" and "0 < x" and "x \<le> y"
  shows "ilog b x \<le> ilog b y"
proof (rule ccontr)
  assume "\<not> ?thesis"
  then have "bpow b (ilog b y + 1) \<le> bpow b (ilog b x)" using assms(1) by (simp add: bpow_mono)
  with ilog_bounds [OF assms(1,2)] ilog_bounds [OF assms(1), of y] assms(2,3)
  show False by linarith
qed

subsection \<open>Rounding to a floating-point format\<close>

definition fexp :: "nat \<Rightarrow> nat \<Rightarrow> int \<Rightarrow> rat \<Rightarrow> int" where
  "fexp b p emin x = max (ilog b \<bar>x\<bar> - int p + 1) emin"

definition fround :: "nat \<Rightarrow> nat \<Rightarrow> int \<Rightarrow> rat \<Rightarrow> rat" where
  "fround b p emin x =
     (if x = 0 then 0
      else let u = bpow b (fexp b p emin x) in of_int (rhe (x / u)) * u)"

lemma fround_0 [simp]: "fround b p emin 0 = 0"
  by (simp add: fround_def)

lemma fround_minus: "fround b p emin (- x) = - fround b p emin x"
  by (simp add: fround_def fexp_def Let_def rhe_minus)

text \<open>A power of the base that is at least one unit in the last place is a bound rounding keeps.\<close>

lemma rhe_scaled_le:
  assumes b: "2 \<le> b" and "x \<le> bpow b k" and "e \<le> k"
  shows "of_int (rhe (x / bpow b e)) * bpow b e \<le> bpow b k"
proof -
  have "x / bpow b e \<le> bpow b (k - e)"
    using assms by (simp add: bpow_diff divide_right_mono less_imp_le)
  also have "\<dots> = of_int (int b ^ nat (k - e))" using assms by (simp add: bpow_nonneg_int)
  finally have "rhe (x / bpow b e) \<le> int b ^ nat (k - e)" by (metis rhe_mono rhe_of_int)
  then have "of_int (rhe (x / bpow b e)) \<le> (of_int (int b ^ nat (k - e)) :: rat)"
    by (simp only: of_int_le_iff)
  also have "\<dots> = bpow b (k - e)" using assms by (simp add: bpow_nonneg_int)
  finally show ?thesis using b by (simp add: bpow_diff field_simps)
qed

lemma rhe_scaled_ge:
  assumes b: "2 \<le> b" and "bpow b k \<le> x" and "e \<le> k"
  shows "bpow b k \<le> of_int (rhe (x / bpow b e)) * bpow b e"
proof -
  have eq: "of_int (int b ^ nat (k - e)) = bpow b (k - e)" using assms by (simp add: bpow_nonneg_int)
  also have "\<dots> \<le> x / bpow b e"
    using assms by (simp add: bpow_diff divide_right_mono less_imp_le)
  finally have "int b ^ nat (k - e) \<le> rhe (x / bpow b e)" by (metis rhe_mono rhe_of_int)
  then have "(of_int (int b ^ nat (k - e)) :: rat) \<le> of_int (rhe (x / bpow b e))"
    by (simp only: of_int_le_iff)
  with eq show ?thesis using b by (simp add: bpow_diff field_simps)
qed

lemma fround_pos_mono:
  assumes b: "2 \<le> b" and p: "1 \<le> p" and x: "0 < x" and xy: "x \<le> y"
  shows "fround b p emin x \<le> fround b p emin y"
proof (cases "fexp b p emin x = fexp b p emin y")
  case True
  have "rhe (x / bpow b (fexp b p emin y)) \<le> rhe (y / bpow b (fexp b p emin y))"
    using b xy by (intro rhe_mono divide_right_mono) (auto simp: less_imp_le)
  with True x xy b show ?thesis
    by (simp add: fround_def Let_def mult_right_mono less_imp_le)
next
  case False
  have ab: "\<bar>x\<bar> = x" "\<bar>y\<bar> = y" using x xy by auto
  have "fexp b p emin x \<le> fexp b p emin y"
    using ilog_mono [OF b x xy] by (simp add: fexp_def ab)
  with False have lt: "fexp b p emin x < fexp b p emin y" by simp
  then have ey: "fexp b p emin y = ilog b y - int p + 1" by (auto simp: fexp_def ab split: if_splits)
  from lt have lxy: "ilog b x + 1 \<le> ilog b y" and ek: "fexp b p emin x \<le> ilog b y"
    unfolding ey using p by (simp_all add: fexp_def ab)
  have "x \<le> bpow b (ilog b y)"
    using ilog_bounds(2) [OF b x] bpow_mono [OF b lxy] by linarith
  then have "fround b p emin x \<le> bpow b (ilog b y)"
    using x rhe_scaled_le [OF b _ ek] by (simp add: fround_def Let_def)
  also have "\<dots> \<le> fround b p emin y"
    using x xy ilog_bounds(1) [OF b, of y] p rhe_scaled_ge [OF b, of "ilog b y" y "fexp b p emin y"]
    by (simp add: fround_def Let_def ey)
  finally show ?thesis .
qed

lemma fround_nonneg: "2 \<le> b \<Longrightarrow> 0 \<le> x \<Longrightarrow> 0 \<le> fround b p emin x"
proof -
  assume b: "2 \<le> b" and x: "0 \<le> x"
  have "rhe 0 \<le> rhe (x / bpow b (fexp b p emin x))"
    using b x by (intro rhe_mono) (simp add: less_imp_le)
  moreover have "rhe 0 = 0" using rhe_of_int [of 0] by simp
  ultimately show ?thesis using b by (simp add: fround_def Let_def less_imp_le)
qed

lemma fround_mono:
  assumes b: "2 \<le> b" and p: "1 \<le> p" and xy: "x \<le> y"
  shows "fround b p emin x \<le> fround b p emin y"
proof -
  consider "0 < x" | "x \<le> 0" "0 \<le> y" | "y < 0" by linarith
  then show ?thesis
  proof cases
    case 1
    then show ?thesis using assms by (intro fround_pos_mono)
  next
    case 2
    have "fround b p emin x \<le> 0"
      using fround_nonneg [OF b, of "- x" p emin] 2 by (simp add: fround_minus)
    with fround_nonneg [OF b 2(2), of p emin] show ?thesis by linarith
  next
    case 3
    then have "fround b p emin (- y) \<le> fround b p emin (- x)"
      using assms by (intro fround_pos_mono) auto
    then show ?thesis by (simp add: fround_minus)
  qed
qed

text \<open>Integers of at most \<open>p\<close> digits are representable.\<close>

lemma fround_pos_int:
  assumes b: "2 \<le> b" and em: "emin \<le> 0" and n: "0 < n" "of_int n < bpow b (int p)"
  shows "fround b p emin (of_int n) = of_int n"
proof -
  define e where "e = fexp b p emin (of_int n)"
  have "bpow b (ilog b (of_int n)) < bpow b (int p)"
    using ilog_bounds(1) [OF b, of "of_int n"] n by simp
  then have "ilog b (of_int n) < int p" using bpow_mono [OF b] by (meson leD leI)
  then have e: "e \<le> 0" using em n by (simp add: e_def fexp_def)
  have "of_int n / bpow b e = of_int (n * int b ^ nat (- e))"
    using e b by (cases "e = 0") (simp_all add: bpow_def)
  then have "rhe (of_int n / bpow b e) = n * int b ^ nat (- e)" by (simp only: rhe_of_int)
  moreover have "of_int (n * int b ^ nat (- e)) * bpow b e = of_int n"
    using e b by (cases "e = 0") (simp_all add: bpow_def)
  ultimately show ?thesis using n by (simp add: fround_def Let_def e_def [symmetric])
qed

text \<open>The rounding error is at most half a unit in the last place.\<close>

lemma fround_error:
  assumes b: "2 \<le> b"
  shows "\<bar>fround b p emin x - x\<bar> \<le> bpow b (fexp b p emin x) / 2"
proof (cases "x = 0")
  case True
  then show ?thesis using b by (simp add: less_imp_le)
next
  case False
  define u where "u = bpow b (fexp b p emin x)"
  have u: "0 < u" using b by (simp add: u_def)
  have "fround b p emin x - x = (of_int (rhe (x / u)) - x / u) * u"
    using False u by (simp add: fround_def Let_def u_def [symmetric] field_simps)
  then have "\<bar>fround b p emin x - x\<bar> = \<bar>of_int (rhe (x / u)) - x / u\<bar> * u"
    using u by (simp add: abs_mult)
  also have "\<dots> \<le> (1 / 2) * u" using rhe_error u by (intro mult_right_mono) auto
  finally show ?thesis by (simp add: u_def)
qed

text \<open>Rounding a representable number changes nothing.\<close>

lemma bpow_int: "0 \<le> k \<Longrightarrow> bpow b k \<in> \<int>"
  by (simp add: bpow_nonneg_int)

lemma fround_exact: "2 \<le> b \<Longrightarrow> y / bpow b (fexp b p emin y) \<in> \<int> \<Longrightarrow> fround b p emin y = y"
proof -
  assume b: "2 \<le> b" and "y / bpow b (fexp b p emin y) \<in> \<int>"
  then obtain n where n: "y / bpow b (fexp b p emin y) = of_int n" by (auto elim: Ints_cases)
  have "bpow b (fexp b p emin y) \<noteq> 0" using bpow_pos [OF b] by (metis less_irrefl)
  then have "y = of_int n * bpow b (fexp b p emin y)" using n by (simp add: field_simps)
  then show ?thesis using n by (simp add: fround_def Let_def rhe_of_int)
qed

lemma fround_idem_pos:
  assumes b: "2 \<le> b" and p: "1 \<le> p" and x: "0 < x"
  shows "fround b p emin (fround b p emin x) = fround b p emin x"
proof -
  define e where "e = fexp b p emin x"
  define y where "y = fround b p emin x"
  have y: "y = of_int (rhe (x / bpow b e)) * bpow b e" using x by (simp add: y_def fround_def e_def Let_def)
  show ?thesis
  proof (cases "y = 0")
    case True
    then show ?thesis by (simp add: y_def [symmetric])
  next
    case False
    with fround_nonneg [OF b, of x p emin] x have y0: "0 < y" by (simp add: y_def)
    have "y / bpow b (fexp b p emin y) \<in> \<int>"
    proof (cases "fexp b p emin y \<le> e")
      case True
      have "y / bpow b (fexp b p emin y) = of_int (rhe (x / bpow b e)) * bpow b (e - fexp b p emin y)"
        by (simp add: y bpow_diff [OF b])
      then show ?thesis using True bpow_int by simp
    next
      case False
      define k where "k = max (ilog b x + 1) e"
      have "x \<le> bpow b k"
        using ilog_bounds(2) [OF b x] bpow_mono [OF b, of "ilog b x + 1" k] by (simp add: k_def)
      then have "y \<le> bpow b k" unfolding y using b by (intro rhe_scaled_le) (auto simp: k_def)
      moreover from False have fy: "fexp b p emin y = ilog b y - int p + 1"
        using x y0 by (auto simp: e_def fexp_def split: if_splits)
      with False have "k \<le> ilog b y" using p x by (auto simp: k_def e_def fexp_def)
      ultimately have "y = bpow b (ilog b y)"
        using ilog_bounds(1) [OF b y0] bpow_mono [OF b, of k "ilog b y"] by linarith
      then have "y / bpow b (fexp b p emin y) = bpow b (ilog b y - fexp b p emin y)"
        by (simp add: bpow_diff [OF b])
      then show ?thesis using bpow_int [of "ilog b y - fexp b p emin y" b] fy p by simp
    qed
    then show ?thesis using fround_exact [OF b] by (simp add: y_def)
  qed
qed

lemma fround_idem:
  assumes "2 \<le> b" and "1 \<le> p"
  shows "fround b p emin (fround b p emin x) = fround b p emin x"
  using fround_idem_pos [OF assms, of x] fround_idem_pos [OF assms, of "- x"]
  by (cases x "0 :: rat" rule: linorder_cases) (auto simp: fround_minus)

subsection \<open>The two formats\<close>

definition fl64 :: "rat \<Rightarrow> flt" where
  "fl64 = fround 2 53 (- 1074)"

definition dec28 :: "rat \<Rightarrow> dec" where
  "dec28 = fround 10 28 (- 1000026)"

text \<open>\<^verbatim>\<open>round(x, n)\<close>: the decimal with \<open>n\<close> places nearest to the exact value, read back as a float.\<close>

definition py_round :: "nat \<Rightarrow> flt \<Rightarrow> flt" where
  "py_round n x = fl64 (of_int (rhe (x * 10 ^ n)) / 10 ^ n)"

text \<open>
  \<^verbatim>\<open>sum\<close> over floats.  Since Python 3.12 the built-in compensates the rounding error (Neumaier's
  algorithm): the running sum \<open>s\<close>, the running compensation \<open>c\<close>, added once at the end.  The start
  value is the integer 0, so the first item becomes the running sum unchanged.
\<close>

fun neumaier :: "flt \<Rightarrow> flt \<Rightarrow> flt list \<Rightarrow> flt" where
  "neumaier s c [] = (if c = 0 then s else fl64 (s + c))"
| "neumaier s c (x # xs) =
     (let t = fl64 (s + x);
          e = (if \<bar>x\<bar> \<le> \<bar>s\<bar> then fl64 (fl64 (s - t) + x) else fl64 (fl64 (x - t) + s))
      in neumaier t (fl64 (c + e)) xs)"

definition py_sum :: "flt list \<Rightarrow> flt" where
  "py_sum xs = (case xs of [] \<Rightarrow> 0 | x # xs' \<Rightarrow> neumaier x 0 xs')"

subsection \<open>The laws of rounding\<close>

locale rounding =
  fixes rnd :: "rat \<Rightarrow> rat"
  assumes rnd_mono: "x \<le> y \<Longrightarrow> rnd x \<le> rnd y"
    and rnd_minus: "rnd (- x) = - rnd x"
    and rnd_int: "\<bar>n\<bar> < 2 ^ 53 \<Longrightarrow> rnd (of_int n) = of_int n"
    and rnd_idem [simp]: "rnd (rnd x) = rnd x"
begin

lemma rnd_0 [simp]: "rnd 0 = 0"
  using rnd_int [of 0] by simp

lemma rnd_1 [simp]: "rnd 1 = 1"
  using rnd_int [of 1] by simp

lemma rnd_ge_int: "\<bar>n\<bar> < 2 ^ 53 \<Longrightarrow> of_int n \<le> x \<Longrightarrow> of_int n \<le> rnd x"
  using rnd_mono [of "of_int n" x] by (simp add: rnd_int)

lemma rnd_le_int: "\<bar>n\<bar> < 2 ^ 53 \<Longrightarrow> x \<le> of_int n \<Longrightarrow> rnd x \<le> of_int n"
  using rnd_mono [of x "of_int n"] by (simp add: rnd_int)

lemma rnd_nonneg: "0 \<le> x \<Longrightarrow> 0 \<le> rnd x"
  using rnd_ge_int [of 0] by simp

lemma rnd_nonpos: "x \<le> 0 \<Longrightarrow> rnd x \<le> 0"
  using rnd_le_int [of 0] by simp

lemma rnd_le_1: "x \<le> 1 \<Longrightarrow> rnd x \<le> 1"
  using rnd_le_int [of 1] by simp

lemma rnd_abs: "\<bar>rnd x\<bar> = rnd \<bar>x\<bar>"
  by (cases "0 \<le> x") (auto simp: rnd_nonneg rnd_nonpos rnd_minus [symmetric])

lemma rnd_pos_arg: "0 < rnd x \<Longrightarrow> 0 < x"
  using rnd_nonpos [of x] by linarith

lemma rnd_neg_arg: "rnd x < 0 \<Longrightarrow> x < 0"
  using rnd_nonneg [of x] by linarith

text \<open>A quotient of a part by the whole is a number of the unit interval.\<close>

lemma rnd_ratio:
  assumes "0 \<le> a" and "a \<le> b"
  shows "0 \<le> rnd (a / b)" and "rnd (a / b) \<le> 1"
  using assms by (auto intro!: rnd_nonneg rnd_le_1 simp: divide_le_eq_1)

text \<open>A product of two numbers of the unit interval is one.\<close>

lemma rnd_unit_mult:
  assumes "0 \<le> x" "x \<le> 1" "0 \<le> y" "y \<le> 1"
  shows "0 \<le> rnd (x * y)" and "rnd (x * y) \<le> 1"
  using assms by (auto intro!: rnd_nonneg rnd_le_1 mult_le_one)

text \<open>Adding a nonnegative number to a representable one does not go below it.\<close>

lemma rnd_add_ge: "rnd a = a \<Longrightarrow> 0 \<le> b \<Longrightarrow> a \<le> rnd (a + b)"
  using rnd_mono [of a "a + b"] by simp

lemma rnd_diff_le: "rnd a = a \<Longrightarrow> 0 \<le> b \<Longrightarrow> rnd (a - b) \<le> a"
  using rnd_mono [of "a - b" a] by simp

text \<open>A running signed sum never exceeds the running sum of the magnitudes.\<close>

lemma rnd_signed_step:
  assumes "\<bar>n\<bar> \<le> t" and "\<bar>d\<bar> = s"
  shows "\<bar>rnd (n + d)\<bar> \<le> rnd (t + s)"
proof -
  have "\<bar>n + d\<bar> \<le> t + s" using assms by linarith
  then show ?thesis by (simp add: rnd_abs rnd_mono)
qed

end

interpretation b64: rounding fl64
proof
  fix x y :: rat
  assume "x \<le> y"
  then show "fl64 x \<le> fl64 y" by (simp add: fl64_def fround_mono)
next
  fix x
  show "fl64 (- x) = - fl64 x" by (simp add: fl64_def fround_minus)
next
  fix n :: int
  assume n: "\<bar>n\<bar> < 2 ^ 53"
  have pos: "fl64 (of_int m) = of_int m" if "0 < m" "m < 2 ^ 53" for m
  proof -
    have "(of_int m :: rat) < of_int (2 ^ 53)" using that(2) by (simp only: of_int_less_iff)
    then show ?thesis using that(1) by (simp add: fl64_def fround_pos_int bpow_def)
  qed
  show "fl64 (of_int n) = of_int n"
    using pos [of n] pos [of "- n"] n
    by (cases n "0 :: int" rule: linorder_cases) (auto simp: fl64_def fround_minus)
next
  fix x
  show "fl64 (fl64 x) = fl64 x" by (simp add: fl64_def fround_idem)
qed

interpretation d28: rounding dec28
proof
  fix x y :: rat
  assume "x \<le> y"
  then show "dec28 x \<le> dec28 y" by (simp add: dec28_def fround_mono)
next
  fix x
  show "dec28 (- x) = - dec28 x" by (simp add: dec28_def fround_minus)
next
  fix n :: int
  assume n: "\<bar>n\<bar> < 2 ^ 53"
  have pos: "dec28 (of_int m) = of_int m" if "0 < m" "m < 2 ^ 53" for m
  proof -
    have "(of_int m :: rat) < of_int (2 ^ 53)" using that(2) by (simp only: of_int_less_iff)
    then show ?thesis using that(1) by (simp add: dec28_def fround_pos_int bpow_def)
  qed
  show "dec28 (of_int n) = of_int n"
    using pos [of n] pos [of "- n"] n
    by (cases n "0 :: int" rule: linorder_cases) (auto simp: dec28_def fround_minus)
next
  fix x
  show "dec28 (dec28 x) = dec28 x" by (simp add: dec28_def fround_idem)
qed

definition is_flt :: "rat \<Rightarrow> bool" where
  \<comment> \<open>the value of a Python \<^verbatim>\<open>float\<close>\<close>
  "is_flt x \<longleftrightarrow> fl64 x = x"

lemma is_flt_fl64 [simp, intro]: "is_flt (fl64 x)"
  by (simp add: is_flt_def)

lemma is_flt_0 [simp]: "is_flt 0" and is_flt_1 [simp]: "is_flt 1"
  by (simp_all add: is_flt_def)

lemma is_flt_min_max [simp]:
  "is_flt x \<Longrightarrow> is_flt y \<Longrightarrow> is_flt (min x y)" "is_flt x \<Longrightarrow> is_flt y \<Longrightarrow> is_flt (max x y)"
  by (simp_all add: min_def max_def)

lemma ilog_unique:
  assumes b: "2 \<le> b" and "0 < x" "bpow b k \<le> x" "x < bpow b (k + 1)"
  shows "ilog b x = k"
proof -
  have "\<not> ilog b x < k" "\<not> k < ilog b x"
    using ilog_bounds [OF b assms(2)] assms(3,4) bpow_mono [OF b, of "ilog b x + 1" k]
      bpow_mono [OF b, of "k + 1" "ilog b x"] by linarith+
  then show ?thesis by simp
qed

lemma bpow_small: "bpow 2 1 = 2" "bpow 2 2 = 4"
  by (simp_all add: bpow_def)

lemma is_flt_double_pos:
  assumes "is_flt x" "0 < x"
  shows "is_flt (2 * x)"
proof -
  have il: "ilog 2 (2 * x) = ilog 2 x + 1"
    using ilog_bounds [of 2 x] assms(2) by (intro ilog_unique) (simp_all add: bpow_add bpow_small)
  define e where "e = fexp 2 53 (- 1074) x"
  have fx: "x = of_int (rhe (x / bpow 2 e)) * bpow 2 e"
    using assms by (simp add: is_flt_def fl64_def fround_def Let_def e_def [symmetric])
  have ne: "bpow 2 e \<noteq> 0" using bpow_pos [of 2 e] by linarith
  define e' where "e' = fexp 2 53 (- 1074) (2 * x)"
  have e': "e' = e \<or> e' = e + 1" using assms(2) il by (auto simp: e_def e'_def fexp_def)
  have "2 * x / bpow 2 e' \<in> \<int>"
  proof (cases "e' = e")
    case True
    then have "2 * x / bpow 2 e' = of_int (2 * rhe (x / bpow 2 e))" using ne by (subst fx) simp
    then show ?thesis by (simp only: Ints_of_int)
  next
    case False
    with e' have "2 * x / bpow 2 e' = x / bpow 2 e" by (simp add: bpow_add bpow_small)
    also have "\<dots> = of_int (rhe (x / bpow 2 e))" using ne by (subst fx) simp
    finally show ?thesis by (simp only: Ints_of_int)
  qed
  then have "fround 2 53 (- 1074) (2 * x) = 2 * x" unfolding e'_def by (intro fround_exact) simp_all
  then show ?thesis by (simp add: is_flt_def fl64_def)
qed

lemma fl64_0 [simp]: "fl64 0 = 0" by (rule b64.rnd_0)

lemma fl64_1 [simp]: "fl64 1 = 1" by (rule b64.rnd_1)

lemma py_round_nonneg: "0 \<le> x \<Longrightarrow> 0 \<le> py_round n x"
  using rhe_mono [of 0 "x * 10 ^ n"] rhe_of_int [of 0]
  by (auto simp: py_round_def intro!: b64.rnd_nonneg)

lemma py_round_le_1: "x \<le> 1 \<Longrightarrow> py_round n x \<le> 1"
proof -
  assume "x \<le> 1"
  then have "rhe (x * 10 ^ n) \<le> rhe (of_int (10 ^ n))" by (intro rhe_mono) simp
  then have "rhe (x * 10 ^ n) \<le> 10 ^ n" by (simp only: rhe_of_int)
  then have "(of_int (rhe (x * 10 ^ n)) :: rat) \<le> of_int (10 ^ n)" by (simp only: of_int_le_iff)
  then show ?thesis by (auto simp: py_round_def intro!: b64.rnd_le_1)
qed

lemma py_round_0 [simp]: "py_round n 0 = 0"
  using rhe_of_int [of 0] by (simp add: py_round_def)

lemma py_round_mono: "x \<le> y \<Longrightarrow> py_round n x \<le> py_round n y"
  unfolding py_round_def
  by (intro b64.rnd_mono divide_right_mono) (auto intro!: rhe_mono)

subsection \<open>Evaluation\<close>

text \<open>
  Closed roundings evaluate by simplification with the bundle \<open>flt_eval\<close>.
\<close>

lemma floor_rat_numerals [simp]:
  "\<lfloor>numeral a / numeral b :: rat\<rfloor> = numeral a div numeral b"
  "\<lfloor>1 / numeral b :: rat\<rfloor> = 1 div numeral b"
  "\<lfloor>- (numeral a / numeral b) :: rat\<rfloor> = - numeral a div numeral b"
  "\<lfloor>- (1 / numeral b) :: rat\<rfloor> = - 1 div numeral b"
  using floor_divide_of_int_eq [of "numeral a" "numeral b", where 'a = rat]
    floor_divide_of_int_eq [of 1 "numeral b", where 'a = rat]
    floor_divide_of_int_eq [of "- numeral a" "numeral b", where 'a = rat]
    floor_divide_of_int_eq [of "- 1" "numeral b", where 'a = rat]
  by simp_all

lemma ndigits_numerals [simp]:
  "ndigits k 0 = 0"
  "ndigits (numeral b) (numeral n) =
     (if numeral b < (2 :: nat) then 0 else Suc (ndigits (numeral b) (numeral n div numeral b)))"
  "ndigits (numeral b) (Suc 0) =
     (if numeral b < (2 :: nat) then 0 else Suc (ndigits (numeral b) (Suc 0 div numeral b)))"
  "ndigits (numeral b) 1 =
     (if numeral b < (2 :: nat) then 0 else Suc (ndigits (numeral b) (1 div numeral b)))"
  by (simp_all add: ndigits.simps)

lemmas flt_eval =
  fl64_def dec28_def fround_def fexp_def ilog_def bpow_def rhe_def ceiling_def Let_def

lemma fl64_numeral: "(numeral n :: nat) < 2 ^ 53 \<Longrightarrow> fl64 (numeral n) = numeral n"
  using b64.rnd_int [of "numeral n"] by simp

end
