(* ===== verification/Calendar.thy ===== *)
theory Calendar
  imports Rounding
begin

text \<open>
  The shared market-session calendar (\<^verbatim>\<open>shared/calendar/sessions.py\<close>).

  An instant counts microseconds from the midnight that starts ordinal day 0, so the date of a
  wall-clock value is its quotient by the length of a day.  The tz database behind \<^verbatim>\<open>zoneinfo\<close> is not
  part of the program: it is the parameter \<open>tzdb\<close>, mapping a zone name to its two conversions, and a
  theorem that needs a property of a zone names it (\<open>clock_unambiguous\<close>: the wall clock passes the
  closing time of every date exactly once).  The two weekday loops are terminating functions.
\<close>

subsection \<open>Instants, durations and dates\<close>

definition seconds :: "int \<Rightarrow> int" where "seconds n = n * 1000000"
definition minutes :: "int \<Rightarrow> int" where "minutes n = n * 60000000"
definition days :: "int \<Rightarrow> int" where "days n = n * 86400000000"

lemmas duration_defs = seconds_def minutes_def days_def

definition total_seconds :: "int \<Rightarrow> flt" where
  "total_seconds d = fl64 (of_int d / 1000000)"

definition date_of :: "int \<Rightarrow> date" where
  "date_of wall = wall div 86400000000"

definition weekday :: "date \<Rightarrow> int" where
  "weekday d = (d + 6) mod 7"

record zone =
  offset_at :: "instant \<Rightarrow> int"     \<comment> \<open>UTC offset in force at an instant\<close>
  offset_local :: "int \<Rightarrow> int"      \<comment> \<open>UTC offset chosen for a wall-clock value (fold 0)\<close>

definition local_of :: "zone \<Rightarrow> instant \<Rightarrow> int" where
  "local_of z t = t + offset_at z t"

definition utc_of :: "zone \<Rightarrow> int \<Rightarrow> instant" where
  "utc_of z wall = wall - offset_local z wall"

type_synonym tzdb = "string \<Rightarrow> zone option"

datatype calendar_error = UnsupportedTimezoneError string

subsection \<open>Sessions\<close>

definition SESSION_COMPLETION_HOUR :: int where "SESSION_COMPLETION_HOUR = 17"
definition SESSION_COMPLETION_MINUTE :: int where "SESSION_COMPLETION_MINUTE = 0"

definition zone_of :: "tzdb \<Rightarrow> string \<Rightarrow> (calendar_error, zone) result" where
  "zone_of tz name = (case tz name of None \<Rightarrow> Inl (UnsupportedTimezoneError name) | Some z \<Rightarrow> Inr z)"

definition market_offset :: "tzdb \<Rightarrow> date \<Rightarrow> string \<Rightarrow> (calendar_error, int) result" where
  "market_offset tz d name =
     bind_result (zone_of tz name) (\<lambda>z. Inr (offset_local z (days d + minutes (12 * 60))))"

definition new_york_offset :: "tzdb \<Rightarrow> date \<Rightarrow> (calendar_error, int) result" where
  "new_york_offset tz d = market_offset tz d ''America/New_York''"

definition provider_bar_to_session :: "tzdb \<Rightarrow> instant \<Rightarrow> string \<Rightarrow> (calendar_error, date) result" where
  "provider_bar_to_session tz t name = bind_result (zone_of tz name) (\<lambda>z. Inr (date_of (local_of z t)))"

definition close_wall :: "date \<Rightarrow> int \<Rightarrow> int \<Rightarrow> int" where
  "close_wall session hour minute = days session + minutes (hour * 60 + minute)"

definition session_completed_at ::
  "tzdb \<Rightarrow> date \<Rightarrow> string \<Rightarrow> int \<Rightarrow> int \<Rightarrow> (calendar_error, instant) result" where
  "session_completed_at tz session name hour minute =
     bind_result (zone_of tz name) (\<lambda>z. Inr (utc_of z (close_wall session hour minute)))"

definition is_session_complete ::
  "tzdb \<Rightarrow> date \<Rightarrow> string \<Rightarrow> instant \<Rightarrow> int \<Rightarrow> int \<Rightarrow> (calendar_error, bool) result" where
  "is_session_complete tz session name now hour minute =
     bind_result (session_completed_at tz session name hour minute) (\<lambda>t. Inr (t \<le> now))"

definition is_trading_day :: "date \<Rightarrow> bool" where
  "is_trading_day d = (weekday d < 5)"

lemma weekday_bounds: "0 \<le> weekday d" "weekday d < 7"
  by (simp_all add: weekday_def)

lemma weekday_step: "\<not> is_trading_day d \<Longrightarrow> weekday (d - 1) = weekday d - 1"
  by (simp add: is_trading_day_def weekday_def) presburger

lemma weekday_step_up: "\<not> is_trading_day d \<Longrightarrow> \<not> is_trading_day (d + 1) \<Longrightarrow> weekday (d + 1) = weekday d + 1"
  by (simp add: is_trading_day_def weekday_def) presburger

function back_to_session :: "date \<Rightarrow> date" where
  "back_to_session d = (if is_trading_day d then d else back_to_session (d - 1))"
  by pat_completeness auto
termination
  using weekday_step weekday_bounds
  by (relation "measure (\<lambda>d. nat (weekday d))") (auto simp: is_trading_day_def)

function forward_to_session :: "date \<Rightarrow> date" where
  "forward_to_session d = (if is_trading_day d then d else forward_to_session (d + 1))"
  by pat_completeness auto
termination
proof (relation "measure (\<lambda>d. nat (if is_trading_day d then 0 else 7 - weekday d))")
  fix d
  assume "\<not> is_trading_day d"
  then show "(d + 1, d) \<in> measure (\<lambda>d. nat (if is_trading_day d then 0 else 7 - weekday d))"
    using weekday_step_up [of d] weekday_bounds [of d] by (auto simp: is_trading_day_def)
qed simp

declare back_to_session.simps [simp del] forward_to_session.simps [simp del]

definition previous_session :: "date \<Rightarrow> date" where
  "previous_session d = back_to_session (d - 1)"

definition next_session :: "date \<Rightarrow> date" where
  "next_session d = forward_to_session (d + 1)"

definition local_date_in :: "tzdb \<Rightarrow> instant \<Rightarrow> string \<Rightarrow> (calendar_error, date) result" where
  "local_date_in tz t name = bind_result (zone_of tz name) (\<lambda>z. Inr (date_of (local_of z t)))"

definition resolve_baseline_settlement ::
  "tzdb \<Rightarrow> instant \<Rightarrow> string \<Rightarrow> int \<Rightarrow> int \<Rightarrow> (calendar_error, date \<times> date) result" where
  "resolve_baseline_settlement tz decision_at name hour minute =
     bind_result (local_date_in tz decision_at name) (\<lambda>local_date.
       let baseline = back_to_session local_date
       in bind_result (is_session_complete tz baseline name decision_at hour minute) (\<lambda>complete.
            let baseline' = (if complete then baseline else previous_session baseline)
            in Inr (baseline', next_session baseline')))"

subsection \<open>The weekday loops\<close>

lemma back_to_session_correct:
  "is_trading_day (back_to_session d) \<and> back_to_session d \<le> d \<and>
   (\<forall>d'. back_to_session d < d' \<longrightarrow> d' \<le> d \<longrightarrow> \<not> is_trading_day d')"
proof (induction d rule: back_to_session.induct)
  case (1 d)
  show ?case
  proof (cases "is_trading_day d")
    case True
    then show ?thesis by (simp add: back_to_session.simps)
  next
    case False
    then have eq: "back_to_session d = back_to_session (d - 1)" by (simp add: back_to_session.simps)
    have "\<not> is_trading_day d'" if "back_to_session (d - 1) < d'" "d' \<le> d" for d'
      using that "1.IH" [OF False] False by (cases "d' = d") auto
    with "1.IH" [OF False] show ?thesis unfolding eq by auto
  qed
qed

lemma forward_to_session_correct:
  "is_trading_day (forward_to_session d) \<and> d \<le> forward_to_session d \<and>
   (\<forall>d'. d \<le> d' \<longrightarrow> d' < forward_to_session d \<longrightarrow> \<not> is_trading_day d')"
proof (induction d rule: forward_to_session.induct)
  case (1 d)
  show ?case
  proof (cases "is_trading_day d")
    case True
    then show ?thesis by (simp add: forward_to_session.simps)
  next
    case False
    then have eq: "forward_to_session d = forward_to_session (d + 1)"
      by (simp add: forward_to_session.simps)
    have "\<not> is_trading_day d'" if "d \<le> d'" "d' < forward_to_session (d + 1)" for d'
      using that "1.IH" [OF False] False by (cases "d' = d") auto
    with "1.IH" [OF False] show ?thesis unfolding eq by auto
  qed
qed

lemma previous_session_lt: "previous_session d < d" "is_trading_day (previous_session d)"
  using back_to_session_correct [of "d - 1"] by (auto simp: previous_session_def)

lemma next_session_gt: "d < next_session d" "is_trading_day (next_session d)"
  using forward_to_session_correct [of "d + 1"] by (auto simp: next_session_def)

lemma no_session_between_next: "d < d' \<Longrightarrow> d' < next_session d \<Longrightarrow> \<not> is_trading_day d'"
  using forward_to_session_correct [of "d + 1"] by (auto simp: next_session_def)

lemma no_session_between_previous: "previous_session d < d' \<Longrightarrow> d' < d \<Longrightarrow> \<not> is_trading_day d'"
  using back_to_session_correct [of "d - 1"] by (auto simp: previous_session_def)

lemma next_previous: "is_trading_day d \<Longrightarrow> next_session (previous_session d) = d"
  using next_session_gt [of "previous_session d"] previous_session_lt [of d]
    no_session_between_next [of "previous_session d" d]
    no_session_between_previous [of d "next_session (previous_session d)"]
  by (metis linorder_neqE)

lemma previous_next: "is_trading_day d \<Longrightarrow> previous_session (next_session d) = d"
  using next_session_gt [of d] previous_session_lt [of "next_session d"]
    no_session_between_next [of d "previous_session (next_session d)"]
    no_session_between_previous [of "next_session d" d]
  by (metis linorder_neqE)

subsection \<open>No look-ahead\<close>

text \<open>
  What the resolution relies on of a zone: on every date the wall clock reaches the closing time
  once, so comparing wall clocks and comparing instants agree.  Outside a DST transition at the
  closing time this is the documented behaviour of the tz database.
\<close>

definition clock_unambiguous :: "zone \<Rightarrow> int \<Rightarrow> int \<Rightarrow> bool" where
  "clock_unambiguous z hour minute \<longleftrightarrow>
     (\<forall>d t. close_wall d hour minute \<le> local_of z t \<longleftrightarrow> utc_of z (close_wall d hour minute) \<le> t)"

lemma date_of_bounds: "days (date_of w) \<le> w" "w < days (date_of w + 1)"
  by (simp_all add: date_of_def days_def)

lemma close_wall_within:
  "0 \<le> h \<Longrightarrow> h \<le> 23 \<Longrightarrow> 0 \<le> m \<Longrightarrow> m \<le> 59 \<Longrightarrow> days d \<le> close_wall d h m \<and> close_wall d h m < days (d + 1)"
  by (simp add: close_wall_def duration_defs)

lemma completed_before:
  assumes "clock_unambiguous z h m" and "0 \<le> h" "h \<le> 23" "0 \<le> m" "m \<le> 59"
    and "d < date_of (local_of z t)"
  shows "utc_of z (close_wall d h m) \<le> t"
proof -
  have "close_wall d h m < days (d + 1)" using close_wall_within assms by blast
  also have "\<dots> \<le> days (date_of (local_of z t))" using assms(6) by (simp add: days_def)
  also have "\<dots> \<le> local_of z t" by (rule date_of_bounds)
  finally have "close_wall d h m \<le> local_of z t" by (rule less_imp_le)
  then show ?thesis using assms(1) by (simp add: clock_unambiguous_def)
qed

lemma not_completed_after:
  assumes "clock_unambiguous z h m" and "0 \<le> h" "h \<le> 23" "0 \<le> m" "m \<le> 59"
    and "date_of (local_of z t) < d"
  shows "t < utc_of z (close_wall d h m)"
proof -
  have "local_of z t < days (date_of (local_of z t) + 1)" by (rule date_of_bounds)
  also have "\<dots> \<le> days d" using assms(6) by (simp add: days_def)
  also have "\<dots> \<le> close_wall d h m" using close_wall_within assms by blast
  finally have "\<not> close_wall d h m \<le> local_of z t" by simp
  then show ?thesis using assms(1) by (simp add: clock_unambiguous_def)
qed

lemma next_session_beyond: "back_to_session d = b \<Longrightarrow> d < next_session b"
  using back_to_session_correct [of d] next_session_gt [of b] by fastforce


definition fixed_zone :: "int \<Rightarrow> zone" where
  "fixed_zone off = \<lparr>offset_at = (\<lambda>_. off), offset_local = (\<lambda>_. off)\<rparr>"

lemma fixed_zone_unambiguous: "clock_unambiguous (fixed_zone off) h m"
  by (auto simp: clock_unambiguous_def fixed_zone_def local_of_def utc_of_def)


subsection \<open>Exchange calendars and slots\<close>

text \<open>
  The package \<^verbatim>\<open>exchange_calendars\<close> is a parameter of its users: a function from a calendar name to what
  \<^verbatim>\<open>get_calendar\<close> returns for it, if it is a known name.  Three services collect or expect samples at a
  fixed cadence inside a session; \<open>slot_times\<close> is their common loop.
\<close>

record exchange_calendar =
  xc_tz :: string
  xc_local_date :: "instant \<Rightarrow> date"
  xc_date_to_session_next :: "date \<Rightarrow> date"
  xc_next_session :: "date \<Rightarrow> date"
  xc_session_open :: "date \<Rightarrow> instant"
  xc_session_close :: "date \<Rightarrow> instant"
  xc_has_break :: "date \<Rightarrow> bool"

definition MINUTE :: int where
  "MINUTE = minutes 1"

function slot_times :: "instant \<Rightarrow> instant \<Rightarrow> int \<Rightarrow> instant list" where
  \<comment> \<open>\<^verbatim>\<open>while at < closes_at: expected.add(at); at += interval\<close>; the schemas admit positive intervals only\<close>
  "slot_times at0 closes step =
     (if closes \<le> at0 \<or> step \<le> 0 then [] else at0 # slot_times (at0 + step) closes step)"
  by auto
termination
  by (relation "measure (\<lambda>(at0, closes, step). nat (closes - at0))") auto

declare slot_times.simps [simp del]

lemma slot_times_mem:
  "0 < step \<Longrightarrow> t \<in> set (slot_times at0 closes step) \<longleftrightarrow> t < closes \<and> (\<exists>i::nat. t = at0 + int i * step)"
proof (induction at0 closes step rule: slot_times.induct)
  case (1 at0 closes step)
  show ?case
  proof (cases "closes \<le> at0")
    case True
    have "at0 \<le> at0 + int i * step" for i :: nat using 1(2) by simp
    then show ?thesis using True by (subst slot_times.simps) (auto simp: not_less intro: order_trans)
  next
    case False
    have "(\<exists>i::nat. t = at0 + int i * step) \<longleftrightarrow> t = at0 \<or> (\<exists>i::nat. t = at0 + step + int i * step)"
    proof
      assume "\<exists>i::nat. t = at0 + int i * step"
      then obtain i :: nat where "t = at0 + int i * step" ..
      then show "t = at0 \<or> (\<exists>i::nat. t = at0 + step + int i * step)"
        by (cases i) (auto simp: algebra_simps)
    next
      assume "t = at0 \<or> (\<exists>i::nat. t = at0 + step + int i * step)"
      then show "\<exists>i::nat. t = at0 + int i * step"
        by (auto intro: exI [of _ "0::nat"] exI [of _ "Suc i" for i] simp: algebra_simps)
    qed
    then show ?thesis using False 1(1) 1(2) by (subst slot_times.simps) auto
  qed
qed

lemma distinct_slot_times: "0 < step \<Longrightarrow> distinct (slot_times at0 closes step)"
proof (induction at0 closes step rule: slot_times.induct)
  case (1 at0 closes step)
  have "at0 + step + int i * step \<noteq> at0" for i :: nat
  proof -
    have "0 \<le> int i * step" using 1(2) by simp
    then show ?thesis using 1(2) by linarith
  qed
  then show ?case using 1 by (subst slot_times.simps) (auto simp: slot_times_mem)
qed

end
