(* ===== verification/Windows.thy ===== *)
theory Windows
  imports Calendar
begin

text \<open>
  Event-time windows of the Prediction service (\<^verbatim>\<open>services/prediction/prediction/context.py\<close>).

  \<^verbatim>\<open>window_bounds\<close> buckets by floating-point minutes: \<^verbatim>\<open>total_seconds()\<close> and the division by 60 are
  both rounded, the float floor division by the window size is exact for quotients of this size.
\<close>

definition day_start :: "instant \<Rightarrow> instant" where
  \<comment> \<open>\<^verbatim>\<open>t.replace(hour=0, minute=0, second=0, microsecond=0)\<close> of a UTC datetime\<close>
  "day_start t = t - t mod days 1"

definition elapsed_minutes :: "instant \<Rightarrow> flt" where
  "elapsed_minutes t = fl64 (total_seconds (t - day_start t) / 60)"

definition window_bounds :: "instant \<Rightarrow> int \<Rightarrow> instant \<times> instant" where
  "window_bounds t window_minutes =
     (let bucket = \<lfloor>elapsed_minutes t / of_int window_minutes\<rfloor>;
          start = day_start t + minutes (bucket * window_minutes)
      in (start, start + minutes window_minutes))"

definition is_ready :: "instant \<Rightarrow> instant \<Rightarrow> int \<Rightarrow> bool" where
  "is_ready window_end now grace_minutes = (now \<ge> window_end + minutes grace_minutes)"

subsection \<open>Float bucketing is exact\<close>

lemma fl64_error_below:
  assumes "0 < x" and "x < 2 ^ k" and "0 < k"
  shows "fl64 x \<le> x + 2 ^ k / 2 ^ 53"
proof -
  have il: "ilog 2 x < int k"
  proof (rule ccontr)
    assume "\<not> ?thesis"
    then have "bpow 2 (int k) \<le> bpow 2 (ilog 2 x)" by (intro bpow_mono) auto
    with ilog_bounds(1) [of 2 x] assms show False by (simp add: bpow_def)
  qed
  then have "fexp 2 53 (- 1074) x \<le> int k - 53" using assms(1) by (simp add: fexp_def)
  then have "bpow 2 (fexp 2 53 (- 1074) x) \<le> bpow 2 (int k - 53)" by (intro bpow_mono) auto
  also have "\<dots> = 2 ^ k / 2 ^ 53" by (simp add: bpow_diff) (simp add: bpow_def)
  finally have "bpow 2 (fexp 2 53 (- 1074) x) / 2 \<le> 2 ^ k / 2 ^ 53"
    using bpow_pos [of 2 "fexp 2 53 (- 1074) x"] by linarith
  moreover have "\<bar>fl64 x - x\<bar> \<le> bpow 2 (fexp 2 53 (- 1074) x) / 2"
    unfolding fl64_def by (rule fround_error) simp
  ultimately show ?thesis by linarith
qed

text \<open>The rounded minutes of a time of day are at least \<open>n\<close> exactly when the exact ones are.\<close>

lemma minutes_ge_iff:
  assumes us: "0 \<le> us" "us < 86400000000" and n: "0 \<le> n" "n \<le> 1440"
  shows "of_int n \<le> fl64 (fl64 (of_int us / 1000000) / 60) \<longleftrightarrow> n * 60000000 \<le> us"
proof
  assume le: "n * 60000000 \<le> us"
  have "of_int (n * 60) \<le> (of_int us / 1000000 :: rat)"
  proof -
    have "(of_int (n * 60000000) :: rat) \<le> of_int us" using le by (simp only: of_int_le_iff)
    then show ?thesis by simp
  qed
  then have "of_int (n * 60) \<le> fl64 (of_int us / 1000000)" using n by (intro b64.rnd_ge_int) auto
  then have "of_int n \<le> fl64 (of_int us / 1000000) / 60" by simp
  then show "of_int n \<le> fl64 (fl64 (of_int us / 1000000) / 60)" using n by (intro b64.rnd_ge_int) auto
next
  assume ge: "of_int n \<le> fl64 (fl64 (of_int us / 1000000) / 60)"
  show "n * 60000000 \<le> us"
  proof (rule ccontr)
    assume "\<not> ?thesis"
    then have lt: "us + 1 \<le> n * 60000000" by simp
    define x :: rat where "x = of_int us / 1000000"
    have "(of_int (us + 1) :: rat) \<le> of_int (n * 60000000)" using lt by (simp only: of_int_le_iff)
    then have x_le: "x + 1 / 1000000 \<le> 60 * of_int n" by (simp add: x_def field_simps)
    have x0: "0 \<le> x" and xk: "x < 2 ^ 17" using us by (simp_all add: x_def field_simps)
    have fx: "fl64 x \<le> x + 2 ^ 17 / 2 ^ 53"
    proof (cases "x = 0")
      case False
      then show ?thesis using x0 xk by (intro fl64_error_below) auto
    qed simp
    define y where "y = fl64 x / 60"
    have y_le: "y \<le> of_int n - 1 / 70000000" using fx x_le by (simp add: y_def field_simps)
    have yk: "y < 2 ^ 11" using y_le n by (simp add: y_def)
    have "fl64 y \<le> y + 2 ^ 11 / 2 ^ 53"
    proof (cases "y = 0")
      case False
      moreover have "0 \<le> y" using x0 b64.rnd_nonneg [of x] by (simp add: y_def)
      ultimately show ?thesis using yk by (intro fl64_error_below) auto
    qed simp
    with y_le have "fl64 y < of_int n" by (simp add: field_simps)
    with ge show False by (simp add: x_def y_def)
  qed
qed

lemma bucket_exact:
  assumes "0 < w"
  shows "\<lfloor>elapsed_minutes t / of_int w\<rfloor> = (t mod days 1) div minutes w"
proof -
  define us where "us = t mod days 1"
  have us: "0 \<le> us" "us < 86400000000" by (simp_all add: us_def days_def)
  define k where "k = us div minutes w"
  have w: "0 < minutes w" using assms by (simp add: minutes_def)
  have k: "k * minutes w \<le> us" "us < (k + 1) * minutes w" "0 \<le> k"
    using w us by (simp_all add: k_def pos_imp_zdiv_nonneg_iff)
      (simp_all add: minus_mod_eq_div_mult [symmetric] distrib_right)
  have el: "elapsed_minutes t = fl64 (fl64 (of_int us / 1000000) / 60)"
    by (simp add: elapsed_minutes_def total_seconds_def day_start_def us_def)
  have lo: "of_int (k * w) \<le> elapsed_minutes t"
    unfolding el using k us assms by (subst minutes_ge_iff) (simp_all add: minutes_def)
  have hi: "\<not> of_int ((k + 1) * w) \<le> elapsed_minutes t"
  proof (cases "(k + 1) * w \<le> 1440")
    case True
    then show ?thesis
      unfolding el using k us assms by (subst minutes_ge_iff) (simp_all add: minutes_def)
  next
    case False
    have "\<not> of_int 1440 \<le> elapsed_minutes t" unfolding el using us by (subst minutes_ge_iff) auto
    moreover have "(of_int 1440 :: rat) \<le> of_int ((k + 1) * w)" using False by (simp only: of_int_le_iff)
    ultimately show ?thesis by linarith
  qed
  have "of_int k \<le> elapsed_minutes t / of_int w"
    using lo assms by (simp add: pos_le_divide_eq)
  moreover have "\<not> of_int (k + 1) \<le> elapsed_minutes t / of_int w"
    using hi assms by (simp add: pos_le_divide_eq)
  ultimately show ?thesis unfolding k_def [symmetric] us_def [symmetric] by (simp add: floor_eq_iff)
qed

text \<open>
  The event-time windows tumble.  Despite the two roundings, the float computation buckets by exact
  integer arithmetic: the window covers the event, starts a whole number of window lengths after
  midnight UTC of the event's day, and two events of one day share the window exactly when their
  integer buckets agree.
\<close>

theorem window_bounds_tumbling:
  assumes "0 < w"
  shows "case window_bounds t w of (start, stop) \<Rightarrow>
    start \<le> t \<and> t < stop \<and> stop = start + minutes w \<and>
    start = day_start t + minutes w * ((t - day_start t) div minutes w) \<and>
    (\<forall>t'. day_start t' = day_start t \<longrightarrow>
       (window_bounds t' w = (start, stop) \<longleftrightarrow>
        (t' - day_start t) div minutes w = (t - day_start t) div minutes w))"
proof -
  have m: "minutes (b * w) = minutes w * b" for b by (simp add: minutes_def)
  have wb: "window_bounds x w = (day_start x + minutes w * ((x - day_start x) div minutes w),
      day_start x + minutes w * ((x - day_start x) div minutes w) + minutes w)" for x
    unfolding window_bounds_def Let_def bucket_exact [OF assms] m by (simp add: day_start_def)
  have w: "0 < minutes w" using assms by (simp add: minutes_def)
  define d where "d = t - day_start t"
  have "minutes w * (d div minutes w) \<le> d" "d < minutes w * (d div minutes w) + minutes w"
    using w by (simp_all add: minus_mod_eq_mult_div [symmetric])
  then have "day_start t + minutes w * (d div minutes w) \<le> t" "t < day_start t + minutes w * (d div minutes w) + minutes w"
    by (simp_all add: d_def)
  then show ?thesis unfolding wb prod.case d_def using w by auto
qed

theorem window_bounds_tumbling_witness:
  "case window_bounds 55799999999 15 of (start, stop) \<Rightarrow> start = 54900000000 \<and> stop = 55800000000"
  using window_bounds_tumbling [of 15 55799999999]
  by (simp add: split_def day_start_def days_def minutes_def)

lemma is_ready_cutoff: "is_ready window_end now g \<longleftrightarrow> window_end \<le> now - minutes g"
  by (auto simp: is_ready_def)

end
