(* ===== verification/Schemas.thy ===== *)
theory Schemas
  imports Calendar
begin

text \<open>
  The message contracts (\<^verbatim>\<open>shared/schemas/messages.py\<close>).

  Each \<^verbatim>\<open>StrEnum\<close> is a datatype with its constructor names, the function from a member to its string
  and the list of its members; \<open>enum_of\<close> is the constructor call on a string.  Each message is a
  record, and each \<^verbatim>\<open>model_validator\<close> is a function returning the \<^verbatim>\<open>ValueError\<close> it raises.  A message
  that other code holds has passed its validator, so the predicates \<open>valid_\<dots>\<close> are the invariants the
  services rely on.
\<close>

subsection \<open>Enumerations\<close>

definition enum_of :: "'e list \<Rightarrow> ('e \<Rightarrow> string) \<Rightarrow> string \<Rightarrow> 'e option" where
  "enum_of members val s = List.find (\<lambda>e. val e = s) members"

locale str_enum =
  fixes members :: "'e list" and val :: "'e \<Rightarrow> string"
  assumes members_complete: "e \<in> set members"
    and distinct_values: "distinct (map val members)"
begin

lemma val_inj: "val e = val e' \<longleftrightarrow> e = e'"
  using distinct_values members_complete by (auto simp: distinct_map inj_on_def)

lemma enum_of_val [simp]: "enum_of members val (val e) = Some e"
proof -
  have "\<exists>x \<in> set members. val x = val e" using members_complete by blast
  then obtain x where "List.find (\<lambda>x. val x = val e) members = Some x"
    by (metis (mono_tags, lifting) find_None_iff not_Some_eq)
  moreover from this have "val x = val e" by (auto simp: find_Some_iff)
  ultimately show ?thesis by (simp add: enum_of_def val_inj)
qed

lemma enum_of_Some_iff: "enum_of members val s = Some e \<longleftrightarrow> s = val e"
proof
  assume "enum_of members val s = Some e"
  then show "s = val e" by (auto simp: enum_of_def find_Some_iff)
qed simp

end

datatype EventType =
    MILITARY_CONFLICT | STRAIT_CLOSURE | SUPPLY_DISRUPTION | SANCTIONS | RATE_DECISION
  | INFLATION_CHANGE | RECESSION_SIGNAL | CORPORATE_EARNINGS | POLITICAL_TRANSITION
  | NATURAL_DISASTER | CORPORATE_ACQUISITION | EXECUTIVE_CHANGE | REGULATORY_ACTION
  | DEBT_CRISIS | RESTRUCTURING | LEGAL_DISPUTE | PRODUCT_RECALL | DIVIDEND_CHANGE
  | CONTRACT_WIN | SHARE_BUYBACK | IPO_LISTING | CYBERSECURITY_INCIDENT | TRADE_POLICY
  | FISCAL_POLICY | CURRENCY_CRISIS | SOVEREIGN_DEBT | GEOPOLITICAL_TENSION
  | COMMODITY_PRICE_SHOCK | ECONOMIC_DATA_RELEASE | PANDEMIC_OUTBREAK | ENERGY_POLICY | OTHER
  | SPORT | ENTERTAINMENT | LIFESTYLE

fun EventType_value :: "EventType \<Rightarrow> string" where
  "EventType_value MILITARY_CONFLICT = ''MILITARY_CONFLICT''"
| "EventType_value STRAIT_CLOSURE = ''STRAIT_CLOSURE''"
| "EventType_value SUPPLY_DISRUPTION = ''SUPPLY_DISRUPTION''"
| "EventType_value SANCTIONS = ''SANCTIONS''"
| "EventType_value RATE_DECISION = ''RATE_DECISION''"
| "EventType_value INFLATION_CHANGE = ''INFLATION_CHANGE''"
| "EventType_value RECESSION_SIGNAL = ''RECESSION_SIGNAL''"
| "EventType_value CORPORATE_EARNINGS = ''CORPORATE_EARNINGS''"
| "EventType_value POLITICAL_TRANSITION = ''POLITICAL_TRANSITION''"
| "EventType_value NATURAL_DISASTER = ''NATURAL_DISASTER''"
| "EventType_value CORPORATE_ACQUISITION = ''CORPORATE_ACQUISITION''"
| "EventType_value EXECUTIVE_CHANGE = ''EXECUTIVE_CHANGE''"
| "EventType_value REGULATORY_ACTION = ''REGULATORY_ACTION''"
| "EventType_value DEBT_CRISIS = ''DEBT_CRISIS''"
| "EventType_value RESTRUCTURING = ''RESTRUCTURING''"
| "EventType_value LEGAL_DISPUTE = ''LEGAL_DISPUTE''"
| "EventType_value PRODUCT_RECALL = ''PRODUCT_RECALL''"
| "EventType_value DIVIDEND_CHANGE = ''DIVIDEND_CHANGE''"
| "EventType_value CONTRACT_WIN = ''CONTRACT_WIN''"
| "EventType_value SHARE_BUYBACK = ''SHARE_BUYBACK''"
| "EventType_value IPO_LISTING = ''IPO_LISTING''"
| "EventType_value CYBERSECURITY_INCIDENT = ''CYBERSECURITY_INCIDENT''"
| "EventType_value TRADE_POLICY = ''TRADE_POLICY''"
| "EventType_value FISCAL_POLICY = ''FISCAL_POLICY''"
| "EventType_value CURRENCY_CRISIS = ''CURRENCY_CRISIS''"
| "EventType_value SOVEREIGN_DEBT = ''SOVEREIGN_DEBT''"
| "EventType_value GEOPOLITICAL_TENSION = ''GEOPOLITICAL_TENSION''"
| "EventType_value COMMODITY_PRICE_SHOCK = ''COMMODITY_PRICE_SHOCK''"
| "EventType_value ECONOMIC_DATA_RELEASE = ''ECONOMIC_DATA_RELEASE''"
| "EventType_value PANDEMIC_OUTBREAK = ''PANDEMIC_OUTBREAK''"
| "EventType_value ENERGY_POLICY = ''ENERGY_POLICY''"
| "EventType_value OTHER = ''OTHER''"
| "EventType_value SPORT = ''SPORT''"
| "EventType_value ENTERTAINMENT = ''ENTERTAINMENT''"
| "EventType_value LIFESTYLE = ''LIFESTYLE''"

definition EventType_all :: "EventType list" where
  "EventType_all =
     [MILITARY_CONFLICT, STRAIT_CLOSURE, SUPPLY_DISRUPTION, SANCTIONS, RATE_DECISION,
      INFLATION_CHANGE, RECESSION_SIGNAL, CORPORATE_EARNINGS, POLITICAL_TRANSITION,
      NATURAL_DISASTER, CORPORATE_ACQUISITION, EXECUTIVE_CHANGE, REGULATORY_ACTION,
      DEBT_CRISIS, RESTRUCTURING, LEGAL_DISPUTE, PRODUCT_RECALL, DIVIDEND_CHANGE,
      CONTRACT_WIN, SHARE_BUYBACK, IPO_LISTING, CYBERSECURITY_INCIDENT, TRADE_POLICY,
      FISCAL_POLICY, CURRENCY_CRISIS, SOVEREIGN_DEBT, GEOPOLITICAL_TENSION,
      COMMODITY_PRICE_SHOCK, ECONOMIC_DATA_RELEASE, PANDEMIC_OUTBREAK, ENERGY_POLICY, OTHER,
      SPORT, ENTERTAINMENT, LIFESTYLE]"

datatype Direction =
    UP | DOWN | NEUTRAL

fun Direction_value :: "Direction \<Rightarrow> string" where
  "Direction_value UP = ''UP''"
| "Direction_value DOWN = ''DOWN''"
| "Direction_value NEUTRAL = ''NEUTRAL''"

definition Direction_all :: "Direction list" where
  "Direction_all =
     [UP, DOWN, NEUTRAL]"

datatype Magnitude =
    SMALL | MEDIUM | LARGE

fun Magnitude_value :: "Magnitude \<Rightarrow> string" where
  "Magnitude_value SMALL = ''SMALL''"
| "Magnitude_value MEDIUM = ''MEDIUM''"
| "Magnitude_value LARGE = ''LARGE''"

definition Magnitude_all :: "Magnitude list" where
  "Magnitude_all =
     [SMALL, MEDIUM, LARGE]"

datatype EventPolarity =
    OCCURRENCE | RESOLUTION

fun EventPolarity_value :: "EventPolarity \<Rightarrow> string" where
  "EventPolarity_value OCCURRENCE = ''OCCURRENCE''"
| "EventPolarity_value RESOLUTION = ''RESOLUTION''"

definition EventPolarity_all :: "EventPolarity list" where
  "EventPolarity_all =
     [OCCURRENCE, RESOLUTION]"

datatype ConditionCode =
    TRANSPORT_AFFECTED | SAFE_HAVEN_ONLY | RISK_PREMIUM_ELEVATED | UPSTREAM_UP | UPSTREAM_DOWN

fun ConditionCode_value :: "ConditionCode \<Rightarrow> string" where
  "ConditionCode_value TRANSPORT_AFFECTED = ''TRANSPORT_AFFECTED''"
| "ConditionCode_value SAFE_HAVEN_ONLY = ''SAFE_HAVEN_ONLY''"
| "ConditionCode_value RISK_PREMIUM_ELEVATED = ''RISK_PREMIUM_ELEVATED''"
| "ConditionCode_value UPSTREAM_UP = ''UPSTREAM_UP''"
| "ConditionCode_value UPSTREAM_DOWN = ''UPSTREAM_DOWN''"

definition ConditionCode_all :: "ConditionCode list" where
  "ConditionCode_all =
     [TRANSPORT_AFFECTED, SAFE_HAVEN_ONLY, RISK_PREMIUM_ELEVATED, UPSTREAM_UP, UPSTREAM_DOWN]"

datatype PriceKind =
    PROVIDER_DAILY_CLOSE | OFFICIAL_SETTLEMENT | AVANZA_SAMPLED_CLOSE

fun PriceKind_value :: "PriceKind \<Rightarrow> string" where
  "PriceKind_value PROVIDER_DAILY_CLOSE = ''PROVIDER_DAILY_CLOSE''"
| "PriceKind_value OFFICIAL_SETTLEMENT = ''OFFICIAL_SETTLEMENT''"
| "PriceKind_value AVANZA_SAMPLED_CLOSE = ''AVANZA_SAMPLED_CLOSE''"

definition PriceKind_all :: "PriceKind list" where
  "PriceKind_all =
     [PROVIDER_DAILY_CLOSE, OFFICIAL_SETTLEMENT, AVANZA_SAMPLED_CLOSE]"

interpretation event_type: str_enum EventType_all EventType_value
proof
  fix e :: EventType
  show "e \<in> set EventType_all" by (cases e) (simp_all add: EventType_all_def)
  show "distinct (map EventType_value EventType_all)" by (simp add: EventType_all_def)
qed

interpretation direction: str_enum Direction_all Direction_value
proof
  fix e :: Direction
  show "e \<in> set Direction_all" by (cases e) (simp_all add: Direction_all_def)
  show "distinct (map Direction_value Direction_all)" by (simp add: Direction_all_def)
qed

interpretation magnitude: str_enum Magnitude_all Magnitude_value
proof
  fix e :: Magnitude
  show "e \<in> set Magnitude_all" by (cases e) (simp_all add: Magnitude_all_def)
  show "distinct (map Magnitude_value Magnitude_all)" by (simp add: Magnitude_all_def)
qed

interpretation polarity: str_enum EventPolarity_all EventPolarity_value
proof
  fix e :: EventPolarity
  show "e \<in> set EventPolarity_all" by (cases e) (simp_all add: EventPolarity_all_def)
  show "distinct (map EventPolarity_value EventPolarity_all)" by (simp add: EventPolarity_all_def)
qed

interpretation condition_code: str_enum ConditionCode_all ConditionCode_value
proof
  fix e :: ConditionCode
  show "e \<in> set ConditionCode_all" by (cases e) (simp_all add: ConditionCode_all_def)
  show "distinct (map ConditionCode_value ConditionCode_all)" by (simp add: ConditionCode_all_def)
qed

interpretation price_kind: str_enum PriceKind_all PriceKind_value
proof
  fix e :: PriceKind
  show "e \<in> set PriceKind_all" by (cases e) (simp_all add: PriceKind_all_def)
  show "distinct (map PriceKind_value PriceKind_all)" by (simp add: PriceKind_all_def)
qed

subsection \<open>Value objects\<close>

datatype py_error = ValueError string | ZeroDivisionError | KeyError

datatype Horizon = ONE_TRADING_DAY
datatype ExtractionMethod = LOCAL | LLM_ASSISTED
datatype DecisionMethod = GRAPH_ONLY | LLM_ARBITRATED
datatype LlmStatus = SUCCESS | FAILED
datatype SampleQuality = FRESH | STALE | FRESHNESS_UNKNOWN | SESSION_MISMATCH
datatype SampleKind = REGULAR | CLOSE_CHECK
datatype MarketState = PRE_OPEN | REGULAR_OPEN | REGULAR_CLOSED | EXTENDED_HOURS | HALTED | MARKET_UNKNOWN

type_synonym AssetId = string

record SourceRef =
  sr_article_id :: uuid
  sr_source_id :: string
  sr_canonical_url :: string
  sr_title :: string
  sr_published_at :: instant

record FactConflictValue =
  fcv_source_id :: string
  fcv_value :: string

record FactConflict =
  fc_field :: string
  fc_values :: "FactConflictValue list"
  fc_resolution :: "string option"

record LlmMetadata =
  lm_prompt_version :: string
  lm_model :: string
  lm_context_hash :: string
  lm_input_tokens :: nat
  lm_output_tokens :: nat
  lm_latency_ms :: nat
  lm_attempt_count :: nat
  lm_status :: LlmStatus

record ContributingEdge =
  ce_edge_id :: string
  ce_direction :: Direction
  ce_current_weight :: flt
  ce_influence_weight :: flt
  ce_path :: string

definition valid_ContributingEdge :: "ContributingEdge \<Rightarrow> bool" where
  "valid_ContributingEdge e \<longleftrightarrow>
     ce_edge_id e \<noteq> [] \<and> ce_path e \<noteq> [] \<and>
     0 \<le> ce_current_weight e \<and> ce_current_weight e \<le> 1 \<and>
     0 \<le> ce_influence_weight e \<and> ce_influence_weight e \<le> 1"

record PropagationHop =
  hop_source_asset_id :: AssetId
  hop_target_asset_id :: AssetId
  hop_condition :: ConditionCode
  hop_direction :: Direction
  hop_edge_weight :: flt

record SampleProvenance =
  sp_sample_id :: uuid
  sp_scheduled_at :: instant
  sp_observed_at :: instant
  sp_expires_at :: instant
  sp_interval_seconds :: int
  sp_mapping_version :: string
  sp_currency :: string
  sp_provider_quote_at :: "instant option"
  sp_quote_delay_seconds :: "nat option"
  sp_quality :: SampleQuality

definition valid_availability :: "SampleProvenance \<Rightarrow> (py_error, SampleProvenance) result" where
  "valid_availability s =
     (if \<not> (sp_scheduled_at s \<le> sp_observed_at s \<and> sp_observed_at s < sp_expires_at s)
      then Inl (ValueError ''invalid original observation window'')
      else if total_seconds (sp_observed_at s - sp_scheduled_at s) > 120
      then Inl (ValueError ''observation exceeded its collection deadline'')
      else if total_seconds (sp_expires_at s - sp_scheduled_at s) > of_int (sp_interval_seconds s)
      then Inl (ValueError ''carry-forward cannot exceed collection interval'')
      else if (case sp_provider_quote_at s of None \<Rightarrow> False | Some q \<Rightarrow> q > sp_observed_at s)
      then Inl (ValueError ''provider quote cannot be in the future'')
      else if sp_quality s = FRESH \<and> sp_provider_quote_at s = None
      then Inl (ValueError ''freshness requires provider quote time'')
      else Inr s)"

record CloseObservation =
  co_session :: date
  co_close :: dec
  co_provider_bar_time :: "instant option"
  co_fetched_at :: instant
  co_source :: string
  co_provider_symbol :: string
  co_price_kind :: PriceKind
  co_is_adjusted :: bool
  co_registry_version :: string
  co_sample :: "SampleProvenance option"
  co_fallback_reason :: "string option"

definition valid_sampled_close :: "CloseObservation \<Rightarrow> (py_error, CloseObservation) result" where
  "valid_sampled_close c =
     (if co_price_kind c = AVANZA_SAMPLED_CLOSE then
        (case co_sample c of
           None \<Rightarrow> Inl (ValueError ''sampled close requires unadjusted Avanza provenance'')
         | Some s \<Rightarrow>
             if co_source c \<noteq> ''avanza'' \<or> co_is_adjusted c
             then Inl (ValueError ''sampled close requires unadjusted Avanza provenance'')
             else if co_provider_bar_time c \<noteq> None \<or> sp_observed_at s > co_fetched_at c
             then Inl (ValueError ''sampled close has an invented or future timestamp'')
             else Inr c)
      else if co_sample c \<noteq> None
      then Inl (ValueError ''provider close cannot contain sampled provenance'')
      else Inr c)"

subsection \<open>Messages\<close>

record FeedMessage =
  message_id :: uuid
  correlation_id :: uuid
  causation_id :: "uuid option"
  occurred_at :: instant

record EventDetected = FeedMessage +
  ed_event_id :: uuid
  ed_cluster_id :: uuid
  ed_canonical_summary :: string
  ed_event_type :: EventType
  ed_actor :: "string option"
  ed_action :: "string option"
  ed_object :: "string option"
  ed_entities :: "string list"
  ed_affected_asset_ids :: "AssetId list"
  ed_polarity :: EventPolarity
  ed_context_tags :: "ConditionCode list"
  ed_first_seen_at :: instant
  ed_last_seen_at :: instant
  ed_sources :: "SourceRef list"
  ed_fact_conflicts :: "FactConflict list"
  ed_extraction_method :: ExtractionMethod
  ed_llm_metadata :: "LlmMetadata option"

record PredictionMade = FeedMessage +
  pm_prediction_id :: uuid
  pm_context_id :: uuid
  pm_context_version :: int
  pm_event_ids :: "uuid list"
  pm_asset_id :: AssetId
  pm_direction :: Direction
  pm_magnitude :: Magnitude
  pm_confidence :: flt
  pm_horizon :: Horizon
  pm_rationale :: ustring
  pm_contributing_edges :: "ContributingEdge list"
  pm_decision_at :: instant
  pm_publication_attempt_at :: "instant option"
  pm_supersedes_prediction_id :: "uuid option"
  pm_decision_method :: DecisionMethod
  pm_llm_metadata :: "LlmMetadata option"
  pm_propagation_depth :: nat
  pm_propagation_chain :: "PropagationHop list"

definition valid_PredictionMade :: "PredictionMade \<Rightarrow> bool" where
  "valid_PredictionMade m \<longleftrightarrow>
     0 \<le> pm_confidence m \<and> pm_confidence m \<le> 1 \<and>
     1 \<le> length (pm_rationale m) \<and> length (pm_rationale m) \<le> 2000 \<and>
     list_all valid_ContributingEdge (pm_contributing_edges m)"

record PriceRequested = FeedMessage +
  pr_request_id :: uuid
  pr_prediction_id :: uuid
  pr_asset_id :: AssetId
  pr_baseline_session :: date
  pr_settlement_session :: date
  pr_market_calendar :: string

record PriceObserved = FeedMessage +
  po_request_id :: uuid
  po_prediction_id :: uuid
  po_asset_id :: AssetId
  po_baseline :: CloseObservation
  po_settlement :: CloseObservation

definition consistent_sampled_pair :: "PriceObserved \<Rightarrow> (py_error, PriceObserved) result" where
  "consistent_sampled_pair m =
     (let b = po_baseline m; s = po_settlement m
      in if co_price_kind b = AVANZA_SAMPLED_CLOSE \<or> co_price_kind s = AVANZA_SAMPLED_CLOSE then
           (if co_price_kind b \<noteq> co_price_kind s
            then Inl (ValueError ''cannot mix sampled and provider closes'')
            else (case (co_sample b, co_sample s) of
                    (Some x, Some y) \<Rightarrow>
                      if sp_currency x \<noteq> sp_currency y \<or> sp_mapping_version x \<noteq> sp_mapping_version y
                      then Inl (ValueError ''sampled pair currency/mapping mismatch'')
                      else Inr m
                  | _ \<Rightarrow> Inl (ValueError ''sampled pair currency/mapping mismatch'')))
         else Inr m)"

datatype PricePolicy = DAILY_CLOSE_V1 | AVANZA_SAMPLED_CLOSE_V1

record PredictionScored = FeedMessage +
  sc_prediction_id :: uuid
  sc_context_id :: uuid
  sc_asset_id :: AssetId
  sc_predicted_direction :: Direction
  sc_actual_direction :: Direction
  sc_predicted_magnitude :: Magnitude
  sc_actual_magnitude :: Magnitude
  sc_confidence :: flt
  sc_actual_return :: flt
  sc_is_correct :: bool
  sc_score :: flt
  sc_contributing_edges :: "ContributingEdge list"
  sc_source_ids :: "string list"
  sc_baseline :: CloseObservation
  sc_settlement :: CloseObservation
  sc_scored_at :: instant
  sc_price_policy :: PricePolicy
  sc_propagation_chain :: "PropagationHop list"

record IntradayBar =
  ib_start :: instant
  ib_open :: dec
  ib_high :: dec
  ib_low :: dec
  ib_close :: dec
  ib_sample :: "SampleProvenance option"
  ib_carried_forward :: bool

definition floor_minute :: "instant \<Rightarrow> instant" where
  \<comment> \<open>\<^verbatim>\<open>t.replace(second=0, microsecond=0)\<close>\<close>
  "floor_minute t = t - t mod minutes 1"

definition coherent_bar :: "IntradayBar \<Rightarrow> (py_error, IntradayBar) result" where
  "coherent_bar b =
     (if ib_start b mod minutes 1 \<noteq> 0
      then Inl (ValueError ''minute bar timestamp must be minute aligned'')
      else if \<not> (ib_low b \<le> min (ib_open b) (ib_close b) \<and> max (ib_open b) (ib_close b) \<le> ib_high b)
      then Inl (ValueError ''inconsistent OHLC bounds'')
      else (case ib_sample b of
              None \<Rightarrow> if ib_carried_forward b
                       then Inl (ValueError ''carry-forward requires original sample provenance'')
                       else Inr b
            | Some s \<Rightarrow>
                if \<not> (ib_open b = ib_high b \<and> ib_high b = ib_low b \<and> ib_low b = ib_close b)
                then Inl (ValueError ''last-known minute must contain a single observed price'')
                else if \<not> (floor_minute (sp_observed_at s) \<le> ib_start b \<and> ib_start b < sp_expires_at s)
                then Inl (ValueError ''sample minute outside its availability window'')
                else if ib_carried_forward b \<noteq> (ib_start b > floor_minute (sp_observed_at s))
                then Inl (ValueError ''incorrect carry-forward flag'')
                else Inr b))"

datatype IntradayPricePolicy = PROVIDER_MINUTE_V1 | LAST_KNOWN_PRICE_V1

record IntradayRequested = FeedMessage +
  ir_stream_id :: uuid
  ir_asset_id :: AssetId
  ir_registry_version :: string
  ir_calendar_id :: string
  ir_opens_at :: instant
  ir_closes_at :: instant
  ir_price_policy :: IntradayPricePolicy

definition valid_session :: "IntradayRequested \<Rightarrow> (py_error, IntradayRequested) result" where
  "valid_session r =
     (let secs = total_seconds (ir_closes_at r - ir_opens_at r)
      in if \<not> (0 < secs \<and> secs \<le> 24 * 3600) \<or> secs / 60 \<noteq> of_int \<lfloor>secs / 60\<rfloor>
         then Inl (ValueError ''invalid regular session interval'')
         else if ir_opens_at r mod minutes 1 \<noteq> 0
         then Inl (ValueError ''session must start on a minute boundary'')
         else Inr r)"

record IntradayObserved = FeedMessage +
  io_stream_id :: uuid
  io_asset_id :: AssetId
  io_registry_version :: string
  io_revision :: nat
  io_bars :: "IntradayBar list"
  io_final :: bool
  io_failure :: "string option"
  io_replaces_previous :: bool
  io_source :: string
  io_fallback_reason :: "string option"

record PriceSampleObserved = FeedMessage +
  ps_sample_id :: uuid
  ps_asset_id :: AssetId
  ps_mapping_version :: string
  ps_registry_version :: string
  ps_session :: date
  ps_opens_at :: instant
  ps_closes_at :: instant
  ps_scheduled_at :: instant
  ps_observed_at :: instant
  ps_provider_quote_at :: "instant option"
  ps_price :: dec
  ps_quote_delay_seconds :: "nat option"
  ps_currency :: string
  ps_quote_unit :: string
  ps_interval_seconds :: int
  ps_kind :: SampleKind
  ps_market_state :: MarketState
  ps_quality :: SampleQuality

definition valid_sample :: "PriceSampleObserved \<Rightarrow> (py_error, PriceSampleObserved) result" where
  "valid_sample s =
     (if \<not> ps_opens_at s < ps_closes_at s then Inl (ValueError ''invalid sample session'')
      else if ps_observed_at s < ps_scheduled_at s
      then Inl (ValueError ''sample observed before its slot'')
      else if (case ps_provider_quote_at s of None \<Rightarrow> False | Some q \<Rightarrow> q > ps_observed_at s)
      then Inl (ValueError ''quote timestamp is in the future'')
      else if ps_quality s = FRESH \<and> ps_provider_quote_at s = None
      then Inl (ValueError ''freshness requires a provider timestamp'')
      else if ps_kind s = REGULAR \<and>
        \<not> (ps_opens_at s \<le> ps_scheduled_at s \<and> ps_scheduled_at s < ps_closes_at s)
      then Inl (ValueError ''regular sample outside its session'')
      else if ps_kind s = CLOSE_CHECK \<and> \<not> ps_closes_at s \<le> ps_scheduled_at s
      then Inl (ValueError ''close check before close'')
      else Inr s)"

record ArticleIngested = FeedMessage +
  ai_article_id :: uuid
  ai_source_id :: string
  ai_canonical_url :: string
  ai_title :: string
  ai_body :: string
  ai_published_at :: instant
  ai_language :: string
  ai_country :: string
  ai_content_hash :: string

subsection \<open>What the validators guarantee\<close>

lemma valid_availability_Inr:
  "valid_availability s = Inr s' \<Longrightarrow>
     s' = s \<and> sp_scheduled_at s \<le> sp_observed_at s \<and> sp_observed_at s < sp_expires_at s"
  by (auto simp: valid_availability_def split: if_splits)

lemma floor_minute_le: "floor_minute t \<le> t" "t < floor_minute t + minutes 1"
  by (simp_all add: floor_minute_def duration_defs)

lemma coherent_bar_range:
  assumes "coherent_bar b = Inr b'"
  shows "ib_low b \<le> ib_open b" "ib_open b \<le> ib_high b" "ib_low b \<le> ib_close b" "ib_close b \<le> ib_high b"
  using assms by (auto simp: coherent_bar_def split: if_splits)

end
