(* ===== verification/Registry.thy ===== *)
theory Registry
  imports Schemas
begin

text \<open>
  The JSON asset registry (\<^verbatim>\<open>shared/reference/loader.py\<close>, \<^verbatim>\<open>asset_registry.py\<close>,
  \<^verbatim>\<open>shared/schemas/asset_id.py\<close>): validation of a decoded registry document and the lookups every
  service makes against the loaded registry.

  The decoded document is a \<open>json\<close> value.  \<^verbatim>\<open>str()\<close> of a value that is not a string is the parameter
  \<open>pystr\<close> (Python's \<^verbatim>\<open>repr\<close> of numbers and containers is not modelled).  The process-wide cache is
  the registry argument of the lookups.
\<close>

subsection \<open>Decoded documents\<close>

datatype json =
    JNull
  | JBool bool
  | JNum rat
  | JStr string
  | JList "json list"
  | JObj "(string \<times> json) list"

fun truthy :: "json \<Rightarrow> bool" where
  "truthy JNull = False"
| "truthy (JBool b) = b"
| "truthy (JNum n) = (n \<noteq> 0)"
| "truthy (JStr s) = (s \<noteq> [])"
| "truthy (JList l) = (l \<noteq> [])"
| "truthy (JObj kvs) = (kvs \<noteq> [])"

fun jget :: "json \<Rightarrow> string \<Rightarrow> json option" where
  "jget (JObj kvs) k = dict_get kvs k"
| "jget _ k = None"

definition jget_truthy :: "json \<Rightarrow> string \<Rightarrow> bool" where
  "jget_truthy j k = (case jget j k of None \<Rightarrow> False | Some v \<Rightarrow> truthy v)"

fun is_obj :: "json \<Rightarrow> bool" where
  "is_obj (JObj _) = True"
| "is_obj _ = False"

fun json_str :: "(json \<Rightarrow> string) \<Rightarrow> json \<Rightarrow> string" where
  "json_str pystr (JStr s) = s"
| "json_str pystr j = pystr j"

definition jfield :: "(json \<Rightarrow> string) \<Rightarrow> json \<Rightarrow> string \<Rightarrow> string \<Rightarrow> string" where
  "jfield pystr j k dflt = (case jget j k of None \<Rightarrow> dflt | Some v \<Rightarrow> json_str pystr v)"

definition is_digit :: "char \<Rightarrow> bool" where
  "is_digit c = (48 \<le> (of_char c :: nat) \<and> (of_char c :: nat) \<le> 57)"

definition is_upper :: "char \<Rightarrow> bool" where
  "is_upper c = (65 \<le> (of_char c :: nat) \<and> (of_char c :: nat) \<le> 90)"

definition is_lower :: "char \<Rightarrow> bool" where
  "is_lower c = (97 \<le> (of_char c :: nat) \<and> (of_char c :: nat) \<le> 122)"

definition is_alnum :: "char \<Rightarrow> bool" where
  "is_alnum c = (is_digit c \<or> is_upper c \<or> is_lower c)"

definition is_space :: "char \<Rightarrow> bool" where
  "is_space c = ((of_char c :: nat) = 32 \<or> (9 \<le> (of_char c :: nat) \<and> (of_char c :: nat) \<le> 13) \<or>
     (28 \<le> (of_char c :: nat) \<and> (of_char c :: nat) \<le> 31))"

definition lower_char :: "char \<Rightarrow> char" where
  "lower_char c = (if is_upper c then char_of ((of_char c :: nat) + 32) else c)"

definition lower :: "string \<Rightarrow> string" where
  "lower s = map lower_char s"

definition strip :: "string \<Rightarrow> string" where
  "strip s = rev (dropWhile is_space (rev (dropWhile is_space s)))"

fun nat_of_digits :: "nat \<Rightarrow> string \<Rightarrow> nat" where
  "nat_of_digits acc [] = acc"
| "nat_of_digits acc (c # cs) = nat_of_digits (10 * acc + (of_char c - 48)) cs"

subsection \<open>Entries\<close>

record AssetEntry =
  ae_asset_id :: AssetId
  ae_name :: string
  ae_code :: string
  ae_provider :: string
  ae_provider_symbol :: string
  ae_economic_identity :: string
  ae_expected_exchange :: string
  ae_currency :: string
  ae_timezone :: string
  ae_session_complete_at :: string
  ae_keywords :: "string list"
  ae_price_kind :: string
  ae_is_adjusted :: bool
  ae_fallback :: "string option"
  ae_group_id :: string

definition session_hour :: "AssetEntry \<Rightarrow> nat" where
  "session_hour e = nat_of_digits 0 (fst (partition_at '':'' (ae_session_complete_at e)))"

definition session_minute :: "AssetEntry \<Rightarrow> nat" where
  "session_minute e = nat_of_digits 0 (snd (snd (partition_at '':'' (ae_session_complete_at e))))"

record AssetGroup =
  ag_group_id :: string
  ag_display_name :: string
  ag_industry_keywords :: "string list"
  ag_members :: "AssetId list"

record Registry =
  rg_registry_version :: string
  rg_rollover_policy :: string
  rg_assets :: "(AssetId, AssetEntry) dict"
  rg_groups :: "(string, AssetGroup) dict"

datatype registry_error = InvalidRegistryError string | UnknownAssetError string | NotIterable

definition KNOWN_PROVIDERS :: "string list" where
  "KNOWN_PROVIDERS = [''biquote.io'', ''yahoo'']"

definition REQUIRED_ASSET_FIELDS :: "string list" where
  "REQUIRED_ASSET_FIELDS =
     [''asset_id'', ''name'', ''code'', ''provider'', ''provider_symbol'', ''economic_identity'',
      ''expected_exchange'', ''currency'', ''timezone'', ''session_complete_at'']"

definition parse_session_close :: "json \<Rightarrow> (registry_error, string) result" where
  "parse_session_close raw =
     (case raw of
        JStr text \<Rightarrow>
          bind_result (require (count_list text (CHR '':'') = 1)
            (InvalidRegistryError ''session_complete_at must be HH:MM'')) (\<lambda>_.
          let (hour, _, minute) = partition_at '':'' text
          in bind_result (require
               (hour \<noteq> [] \<and> list_all is_digit hour \<and> minute \<noteq> [] \<and> list_all is_digit minute \<and>
                nat_of_digits 0 hour \<le> 23 \<and> nat_of_digits 0 minute \<le> 59)
               (InvalidRegistryError ''session_complete_at is not a valid time''))
               (\<lambda>_. Inr text))
      | _ \<Rightarrow> Inl (InvalidRegistryError ''session_complete_at must be HH:MM''))"

definition parse_keywords :: "json option \<Rightarrow> (registry_error, string list) result" where
  "parse_keywords raw =
     (case raw of
        None \<Rightarrow> Inr []
      | Some JNull \<Rightarrow> Inr []
      | Some (JList items) \<Rightarrow>
          map_result (\<lambda>item. case item of
              JStr s \<Rightarrow> if strip s \<noteq> [] then Inr (lower (strip s))
                        else Inl (InvalidRegistryError ''keywords must be non-empty strings'')
            | _ \<Rightarrow> Inl (InvalidRegistryError ''keywords must be non-empty strings'')) items
      | Some _ \<Rightarrow> Inl (InvalidRegistryError ''keywords must be a list''))"

definition upper_snake :: "string \<Rightarrow> bool" where
  "upper_snake s = (filter (\<lambda>c. c \<noteq> CHR ''_'') s \<noteq> [] \<and>
     list_all is_alnum (filter (\<lambda>c. c \<noteq> CHR ''_'') s) \<and> \<not> list_ex is_lower s)"

definition build_asset ::
  "(json \<Rightarrow> string) \<Rightarrow> string \<Rightarrow> json \<Rightarrow> (registry_error, AssetEntry) result" where
  "build_asset pystr group_id raw =
     bind_result (require (is_obj raw) (InvalidRegistryError ''each asset entry must be an object'')) (\<lambda>_.
     let asset_id = jfield pystr raw ''asset_id'' ''<missing>'' in
     bind_result (require (list_all (jget_truthy raw) REQUIRED_ASSET_FIELDS)
       (InvalidRegistryError (asset_id @ '': missing required field(s)''))) (\<lambda>_.
     bind_result (require (CHR '':'' \<notin> set asset_id)
       (InvalidRegistryError (asset_id @ '': asset_id must not contain a colon''))) (\<lambda>_.
     bind_result (require (upper_snake asset_id)
       (InvalidRegistryError (asset_id @ '': asset_id must be UPPER_SNAKE_CASE alphanumerics''))) (\<lambda>_.
     let provider = jfield pystr raw ''provider'' [] in
     bind_result (require (provider \<in> set KNOWN_PROVIDERS)
       (InvalidRegistryError (asset_id @ '': unknown provider''))) (\<lambda>_.
     bind_result (parse_session_close (the (jget raw ''session_complete_at''))) (\<lambda>close_at.
     bind_result (parse_keywords (jget raw ''keywords'')) (\<lambda>keywords.
     Inr \<lparr>ae_asset_id = asset_id,
          ae_name = jfield pystr raw ''name'' [],
          ae_code = jfield pystr raw ''code'' [],
          ae_provider = provider,
          ae_provider_symbol = jfield pystr raw ''provider_symbol'' [],
          ae_economic_identity = jfield pystr raw ''economic_identity'' [],
          ae_expected_exchange = jfield pystr raw ''expected_exchange'' [],
          ae_currency = jfield pystr raw ''currency'' [],
          ae_timezone = jfield pystr raw ''timezone'' [],
          ae_session_complete_at = close_at,
          ae_keywords = keywords,
          ae_price_kind = jfield pystr raw ''price_kind'' ''PROVIDER_DAILY_CLOSE'',
          ae_is_adjusted = jget_truthy raw ''is_adjusted'',
          ae_fallback = (case jget raw ''fallback'' of
                           None \<Rightarrow> None
                         | Some JNull \<Rightarrow> None
                         | Some (JStr s) \<Rightarrow> if s = [] then None else Some s
                         | Some v \<Rightarrow> Some (json_str pystr v)),
          ae_group_id = group_id\<rparr>)))))))"

subsection \<open>The document\<close>

fun add_members ::
  "(json \<Rightarrow> string) \<Rightarrow> string \<Rightarrow> json list \<Rightarrow> (AssetId, AssetEntry) dict \<Rightarrow> AssetId list \<Rightarrow>
   (registry_error, (AssetId, AssetEntry) dict \<times> AssetId list) result" where
  "add_members pystr group_id [] assets members = Inr (assets, members)"
| "add_members pystr group_id (raw # raws) assets members =
     bind_result (build_asset pystr group_id raw) (\<lambda>entry.
     bind_result (require (ae_asset_id entry \<notin> set (dict_keys assets))
       (InvalidRegistryError (''duplicate asset_id '' @ ae_asset_id entry))) (\<lambda>_.
     add_members pystr group_id raws (dict_set assets (ae_asset_id entry) entry)
       (members @ [ae_asset_id entry])))"

definition group_assets :: "json \<Rightarrow> (registry_error, json list) result" where
  \<comment> \<open>\<^verbatim>\<open>group.get("assets") or []\<close>, which must be a list\<close>
  "group_assets raw =
     (case jget raw ''assets'' of
        None \<Rightarrow> Inr []
      | Some v \<Rightarrow> if \<not> truthy v then Inr []
                   else (case v of JList l \<Rightarrow> Inr l
                         | _ \<Rightarrow> Inl (InvalidRegistryError ''assets must be a list'')))"

definition add_group ::
  "(json \<Rightarrow> string) \<Rightarrow> json \<Rightarrow> (AssetId, AssetEntry) dict \<times> (string, AssetGroup) dict \<Rightarrow>
   (registry_error, (AssetId, AssetEntry) dict \<times> (string, AssetGroup) dict) result" where
  "add_group pystr raw acc =
     (let (assets, groups) = acc in
     bind_result (require (is_obj raw) (InvalidRegistryError ''each group entry must be an object'')) (\<lambda>_.
     let group_id = jfield pystr raw ''group_id'' ''<missing>'' in
     bind_result (require (jget_truthy raw ''group_id'')
       (InvalidRegistryError ''group_id is required for every group'')) (\<lambda>_.
     bind_result (require (jget_truthy raw ''display_name'')
       (InvalidRegistryError (group_id @ '': display_name is required''))) (\<lambda>_.
     bind_result (require (group_id \<notin> set (dict_keys groups))
       (InvalidRegistryError (''duplicate group_id '' @ group_id))) (\<lambda>_.
     bind_result (group_assets raw) (\<lambda>raws.
     bind_result (add_members pystr group_id raws assets []) (\<lambda>(assets', members).
     bind_result (require (members \<noteq> [])
       (InvalidRegistryError (group_id @ '': a group must declare at least one asset''))) (\<lambda>_.
     bind_result (parse_keywords (jget raw ''industry_keywords'')) (\<lambda>kws.
     Inr (assets', dict_set groups group_id
            \<lparr>ag_group_id = group_id, ag_display_name = jfield pystr raw ''display_name'' [],
             ag_industry_keywords = kws, ag_members = members\<rparr>))))))))))"

fun add_groups ::
  "(json \<Rightarrow> string) \<Rightarrow> json list \<Rightarrow> (AssetId, AssetEntry) dict \<times> (string, AssetGroup) dict \<Rightarrow>
   (registry_error, (AssetId, AssetEntry) dict \<times> (string, AssetGroup) dict) result" where
  "add_groups pystr [] acc = Inr acc"
| "add_groups pystr (raw # raws) acc =
     bind_result (add_group pystr raw acc) (\<lambda>acc'. add_groups pystr raws acc')"

definition keyword_claims :: "(AssetId, AssetEntry) dict \<Rightarrow> (string, AssetId list) dict" where
  "keyword_claims assets =
     foldl (\<lambda>claims entry.
       foldl (\<lambda>claims kw. dict_setdefault claims kw [] (\<lambda>ids. ids @ [ae_asset_id entry]))
         claims (ae_keywords entry)) [] (dict_values assets)"

definition doc_groups :: "json \<Rightarrow> (registry_error, json list) result" where
  \<comment> \<open>the items \<^verbatim>\<open>for raw_group in doc.get("groups") or []\<close> iterates over\<close>
  "doc_groups doc =
     (case jget doc ''groups'' of
        None \<Rightarrow> Inr []
      | Some v \<Rightarrow> if \<not> truthy v then Inr []
                   else (case v of
                           JList l \<Rightarrow> Inr l
                         | JObj kvs \<Rightarrow> Inr (map (\<lambda>(k, _). JStr k) kvs)
                         | JStr t \<Rightarrow> Inr (map (\<lambda>c. JStr [c]) t)
                         | _ \<Rightarrow> Inl NotIterable))"

definition parse_registry :: "(json \<Rightarrow> string) \<Rightarrow> json \<Rightarrow> (registry_error, Registry) result" where
  "parse_registry pystr doc =
     bind_result (require (is_obj doc) (InvalidRegistryError ''registry root must be an object'')) (\<lambda>_.
     bind_result (require (jget_truthy doc ''registry_version'')
       (InvalidRegistryError ''registry_version is required'')) (\<lambda>_.
     bind_result (require (jget_truthy doc ''rollover_policy'')
       (InvalidRegistryError ''rollover_policy is required'')) (\<lambda>_.
     bind_result (doc_groups doc) (\<lambda>raw_groups.
     bind_result (add_groups pystr raw_groups ([], [])) (\<lambda>(assets, groups).
     bind_result (require (assets \<noteq> []) (InvalidRegistryError ''the registry declares no assets'')) (\<lambda>_.
     bind_result (require (set (dict_keys groups) \<inter> set (dict_keys assets) = {})
       (InvalidRegistryError ''group_id/asset_id collision'')) (\<lambda>_.
     bind_result (require (list_all (\<lambda>(kw, ids). length ids \<le> 1) (keyword_claims assets))
       (InvalidRegistryError ''keyword claimants by multiple assets'')) (\<lambda>_.
     bind_result (require (list_all (\<lambda>e. case ae_fallback e of None \<Rightarrow> True
                                         | Some f \<Rightarrow> f \<in> set (dict_keys assets)) (dict_values assets))
       (InvalidRegistryError ''fallback is not a declared asset'')) (\<lambda>_.
     Inr \<lparr>rg_registry_version = jfield pystr doc ''registry_version'' [],
          rg_rollover_policy = jfield pystr doc ''rollover_policy'' [],
          rg_assets = assets, rg_groups = groups\<rparr>)))))))))"

subsection \<open>Lookups\<close>

record AssetReferenceSeries =
  rs_asset_id :: AssetId
  rs_provider :: string
  rs_provider_symbol :: string
  rs_economic_identity :: string
  rs_expected_exchange :: string
  rs_timezone :: string
  rs_currency :: string
  rs_price_kind :: string
  rs_is_adjusted :: bool
  rs_rollover_policy :: string
  rs_fallback :: "string option"
  rs_registry_version :: string
  rs_session_completion_hour :: int
  rs_session_completion_minute :: int
  rs_code :: string
  rs_display_name :: string
  rs_group_id :: string

definition to_series :: "AssetEntry \<Rightarrow> string \<Rightarrow> string \<Rightarrow> AssetReferenceSeries" where
  "to_series e version rollover =
     \<lparr>rs_asset_id = ae_asset_id e, rs_provider = ae_provider e,
      rs_provider_symbol = ae_provider_symbol e, rs_economic_identity = ae_economic_identity e,
      rs_expected_exchange = ae_expected_exchange e, rs_timezone = ae_timezone e,
      rs_currency = ae_currency e, rs_price_kind = ae_price_kind e,
      rs_is_adjusted = ae_is_adjusted e, rs_rollover_policy = rollover,
      rs_fallback = ae_fallback e, rs_registry_version = version,
      rs_session_completion_hour = int (session_hour e),
      rs_session_completion_minute = int (session_minute e), rs_code = ae_code e,
      rs_display_name = ae_name e, rs_group_id = ae_group_id e\<rparr>"

definition resolve :: "Registry \<Rightarrow> AssetId \<Rightarrow> (registry_error, AssetReferenceSeries) result" where
  "resolve reg asset_id =
     (case dict_get (rg_assets reg) asset_id of
        None \<Rightarrow> Inl (UnknownAssetError asset_id)
      | Some e \<Rightarrow> Inr (to_series e (rg_registry_version reg) (rg_rollover_policy reg)))"

definition group_of :: "Registry \<Rightarrow> AssetId \<Rightarrow> (registry_error, string) result" where
  "group_of reg asset_id =
     (case dict_get (rg_assets reg) asset_id of
        None \<Rightarrow> Inl (UnknownAssetError asset_id) | Some e \<Rightarrow> Inr (ae_group_id e))"

definition members_of :: "Registry \<Rightarrow> string \<Rightarrow> AssetId list" where
  "members_of reg group_id =
     (case dict_get (rg_groups reg) group_id of None \<Rightarrow> [] | Some g \<Rightarrow> ag_members g)"

definition is_known_asset :: "Registry \<Rightarrow> string \<Rightarrow> bool" where
  "is_known_asset reg a = (a \<in> set (dict_keys (rg_assets reg)))"

definition AssetId_new :: "Registry \<Rightarrow> string \<Rightarrow> (py_error, AssetId) result" where
  \<comment> \<open>\<^verbatim>\<open>AssetId(text)\<close>\<close>
  "AssetId_new reg text =
     (if is_known_asset reg text then Inr text else Inl (ValueError (''unknown asset_id '' @ text)))"

definition supported_assets :: "Registry \<Rightarrow> AssetId list" where
  "supported_assets reg = dict_keys (rg_assets reg)"

definition provider_of :: "Registry \<Rightarrow> AssetId \<Rightarrow> (registry_error, string) result" where
  "provider_of reg a = bind_result (resolve reg a) (\<lambda>s. Inr (rs_provider s))"

subsection \<open>Validated registries\<close>

definition entry_ok :: "AssetId \<Rightarrow> AssetEntry \<Rightarrow> bool" where
  "entry_ok a e \<longleftrightarrow> ae_asset_id e = a \<and> upper_snake a \<and> CHR '':'' \<notin> set a \<and>
     ae_provider e \<in> set KNOWN_PROVIDERS \<and> session_hour e \<le> 23 \<and> session_minute e \<le> 59"

definition groups_ok :: "(AssetId, AssetEntry) dict \<Rightarrow> (string, AssetGroup) dict \<Rightarrow> bool" where
  "groups_ok assets groups \<longleftrightarrow> distinct (dict_keys groups) \<and>
     (\<forall>g grp. dict_get groups g = Some grp \<longrightarrow>
        ag_group_id grp = g \<and> ag_members grp \<noteq> [] \<and> distinct (ag_members grp) \<and>
        (\<forall>m \<in> set (ag_members grp). \<exists>e. dict_get assets m = Some e \<and> ae_group_id e = g))"

definition grouped :: "(string, AssetGroup) dict \<Rightarrow> AssetId \<Rightarrow> AssetEntry \<Rightarrow> bool" where
  "grouped groups a e \<longleftrightarrow> (\<exists>grp. dict_get groups (ae_group_id e) = Some grp \<and> a \<in> set (ag_members grp))"

definition tables_ok :: "(AssetId, AssetEntry) dict \<Rightarrow> (string, AssetGroup) dict \<Rightarrow> bool" where
  "tables_ok assets groups \<longleftrightarrow> distinct (dict_keys assets) \<and> groups_ok assets groups \<and>
     (\<forall>a e. dict_get assets a = Some e \<longrightarrow> entry_ok a e \<and> grouped groups a e)"

definition wf_registry :: "Registry \<Rightarrow> bool" where
  "wf_registry reg \<longleftrightarrow> rg_assets reg \<noteq> [] \<and> tables_ok (rg_assets reg) (rg_groups reg) \<and>
     set (dict_keys (rg_groups reg)) \<inter> set (dict_keys (rg_assets reg)) = {} \<and>
     (\<forall>a e a' e' kw. dict_get (rg_assets reg) a = Some e \<and> dict_get (rg_assets reg) a' = Some e' \<and>
        kw \<in> set (ae_keywords e) \<and> kw \<in> set (ae_keywords e') \<longrightarrow> a = a') \<and>
     (\<forall>a e f. dict_get (rg_assets reg) a = Some e \<and> ae_fallback e = Some f \<longrightarrow> is_known_asset reg f)"

lemma parse_session_close_Inr:
  assumes "parse_session_close raw = Inr t"
  shows "nat_of_digits 0 (fst (partition_at '':'' t)) \<le> 23 \<and>
         nat_of_digits 0 (snd (snd (partition_at '':'' t))) \<le> 59"
proof -
  from assms obtain t0 where "raw = JStr t0" by (cases raw) (auto simp: parse_session_close_def)
  with assms show ?thesis
    by (auto simp: parse_session_close_def bind_result_Inr_iff split: prod.splits)
qed

lemma build_asset_Inr:
  assumes "build_asset pystr g raw = Inr e"
  shows "entry_ok (ae_asset_id e) e" and "ae_group_id e = g"
  using assms
  by (auto simp: build_asset_def bind_result_Inr_iff Let_def entry_ok_def session_hour_def
      session_minute_def dest: parse_session_close_Inr)

text \<open>The members loop keeps the tables consistent up to the group under construction.\<close>

definition building ::
  "string \<Rightarrow> (AssetId, AssetEntry) dict \<Rightarrow> (string, AssetGroup) dict \<Rightarrow> AssetId list \<Rightarrow> bool" where
  "building g assets groups members \<longleftrightarrow> distinct (dict_keys assets) \<and> distinct members \<and>
     g \<notin> set (dict_keys groups) \<and> groups_ok assets groups \<and>
     (\<forall>m \<in> set members. \<exists>e. dict_get assets m = Some e \<and> ae_group_id e = g) \<and>
     (\<forall>a e. dict_get assets a = Some e \<longrightarrow> entry_ok a e \<and>
        (if ae_group_id e = g then a \<in> set members else grouped groups a e))"

lemma groups_ok_extend:
  assumes "groups_ok assets groups" and "a \<notin> set (dict_keys assets)"
  shows "groups_ok (dict_set assets a e) groups"
  using assms unfolding groups_ok_def dict_get_set
  by (metis dict_get_None_iff option.distinct(1))

lemma building_step:
  assumes "building g assets groups members" and "build_asset pystr g raw = Inr e"
    and new: "ae_asset_id e \<notin> set (dict_keys assets)"
  shows "building g (dict_set assets (ae_asset_id e) e) groups (members @ [ae_asset_id e])"
proof -
  have none: "dict_get assets (ae_asset_id e) = None" using new by (rule iffD2 [OF dict_get_None_iff])
  then have nm: "ae_asset_id e \<notin> set members"
    using assms(1) unfolding building_def by (metis option.distinct(1))
  show ?thesis
    unfolding building_def
  proof (intro conjI)
    show "distinct (dict_keys (dict_set assets (ae_asset_id e) e))"
      using assms(1) unfolding building_def by (intro distinct_dict_set) simp
    show "groups_ok (dict_set assets (ae_asset_id e) e) groups"
      using assms(1) new unfolding building_def by (intro groups_ok_extend) simp_all
  qed (use assms(1) nm none build_asset_Inr [OF assms(2)] in
      \<open>auto simp: building_def simp del: set_map\<close>)
qed

lemma add_members_building:
  "add_members pystr g raws assets members = Inr (assets', members') \<Longrightarrow>
   building g assets groups members \<Longrightarrow> building g assets' groups members'"
proof (induction raws arbitrary: assets members)
  case Nil
  then show ?case by simp
next
  case (Cons raw raws)
  then show ?case by (auto simp: bind_result_Inr_iff simp del: set_map intro: building_step)
qed

lemma building_start:
  "tables_ok assets groups \<Longrightarrow> g \<notin> set (dict_keys groups) \<Longrightarrow> building g assets groups []"
  unfolding building_def tables_ok_def grouped_def
  by (metis dict_get_None_iff distinct.simps(1) empty_iff list.set(1) option.distinct(1))

lemma building_finish:
  assumes "building (ag_group_id grp) assets groups (ag_members grp)" and "ag_members grp \<noteq> []"
  shows "tables_ok assets (dict_set groups (ag_group_id grp) grp)"
  using assms unfolding building_def tables_ok_def groups_ok_def grouped_def
  by (auto simp del: set_map split: if_splits)

lemma add_group_ok:
  assumes "add_group pystr raw (assets, groups) = Inr (assets', groups')"
    and "tables_ok assets groups"
  shows "tables_ok assets' groups'"
proof -
  define gid where "gid = jfield pystr raw ''group_id'' ''<missing>''"
  from assms(1) obtain raws members kws where g: "gid \<notin> set (dict_keys groups)"
    and mem: "add_members pystr gid raws assets [] = Inr (assets', members)" and ne: "members \<noteq> []"
    and gs: "groups' = dict_set groups gid
      \<lparr>ag_group_id = gid, ag_display_name = jfield pystr raw ''display_name'' [],
       ag_industry_keywords = kws, ag_members = members\<rparr>"
    unfolding add_group_def Let_def prod.case gid_def [symmetric] bind_result_Inr_iff require_Inr_iff
    by (auto simp del: set_map simp: bind_result_Inr_iff)
  have "building gid assets' groups members"
    using add_members_building [OF mem building_start [OF assms(2) g]] .
  then show ?thesis
    using building_finish [of "\<lparr>ag_group_id = gid, ag_display_name = jfield pystr raw ''display_name'' [],
       ag_industry_keywords = kws, ag_members = members\<rparr>"] ne gs by simp
qed

lemma add_groups_ok:
  "add_groups pystr raws acc = Inr acc' \<Longrightarrow> tables_ok (fst acc) (snd acc) \<Longrightarrow>
   tables_ok (fst acc') (snd acc')"
proof (induction raws arbitrary: acc)
  case Nil
  then show ?case by simp
next
  case (Cons raw raws)
  then show ?case
    by (cases acc) (fastforce simp: bind_result_Inr_iff dest: add_group_ok)
qed

subsection \<open>Keyword claims\<close>

definition claimants :: "(string, AssetId list) dict \<Rightarrow> string \<Rightarrow> AssetId list" where
  "claimants claims kw = (case dict_get claims kw of None \<Rightarrow> [] | Some ids \<Rightarrow> ids)"

lemma claimed_setdefault:
  "claimants (dict_setdefault claims kw [] (\<lambda>ids. ids @ [a])) kw' =
     (if kw = kw' then claimants claims kw @ [a] else claimants claims kw')"
  by (simp add: claimants_def dict_setdefault_def)

lemma claimed_entry:
  "set (claimants (foldl (\<lambda>c kw. dict_setdefault c kw [] (\<lambda>ids. ids @ [a])) claims kws) kw) =
     set (claimants claims kw) \<union> (if kw \<in> set kws then {a} else {})"
  by (induction kws arbitrary: claims) (auto simp: claimed_setdefault)

lemma claimed_all:
  "set (claimants (foldl (\<lambda>claims entry.
       foldl (\<lambda>c kw. dict_setdefault c kw [] (\<lambda>ids. ids @ [ae_asset_id entry]))
         claims (ae_keywords entry)) claims es) kw) =
     set (claimants claims kw) \<union> {ae_asset_id e | e. e \<in> set es \<and> kw \<in> set (ae_keywords e)}"
  by (induction es arbitrary: claims) (auto simp: claimed_entry)

lemma keyword_claims_set:
  "set (claimants (keyword_claims assets) kw) =
     {ae_asset_id e | e. e \<in> set (dict_values assets) \<and> kw \<in> set (ae_keywords e)}"
  unfolding keyword_claims_def claimed_all by (simp add: claimants_def)

lemma keyword_unique:
  assumes "list_all (\<lambda>(kw, ids). length ids \<le> 1) (keyword_claims assets)"
    and "e \<in> set (dict_values assets)" "kw \<in> set (ae_keywords e)"
    and "e' \<in> set (dict_values assets)" "kw \<in> set (ae_keywords e')"
  shows "ae_asset_id e = ae_asset_id e'"
proof -
  have "length (claimants (keyword_claims assets) kw) \<le> 1"
    using assms(1) by (auto simp: claimants_def list_all_iff split: option.splits dest!: dict_get_mem)
  moreover have "ae_asset_id e \<in> set (claimants (keyword_claims assets) kw)"
    and "ae_asset_id e' \<in> set (claimants (keyword_claims assets) kw)"
    using assms(2-5) unfolding keyword_claims_set by blast+
  ultimately show ?thesis
    by (cases "claimants (keyword_claims assets) kw" rule: remdups_adj.cases) auto
qed

lemma parse_registry_tables:
  assumes "parse_registry pystr doc = Inr reg"
  shows "tables_ok (rg_assets reg) (rg_groups reg)" and "rg_assets reg \<noteq> []"
    and "set (dict_keys (rg_groups reg)) \<inter> set (dict_keys (rg_assets reg)) = {}"
    and "list_all (\<lambda>(kw, ids). length ids \<le> 1) (keyword_claims (rg_assets reg))"
    and "\<And>a e f. dict_get (rg_assets reg) a = Some e \<Longrightarrow> ae_fallback e = Some f \<Longrightarrow> is_known_asset reg f"
proof -
  from assms obtain raws assets groups where add: "add_groups pystr raws ([], []) = Inr (assets, groups)"
    and rest: "assets \<noteq> []" "set (dict_keys groups) \<inter> set (dict_keys assets) = {}"
      "list_all (\<lambda>(kw, ids). length ids \<le> 1) (keyword_claims assets)"
      "list_all (\<lambda>e. case ae_fallback e of None \<Rightarrow> True
          | Some f \<Rightarrow> f \<in> set (dict_keys assets)) (dict_values assets)"
    and reg: "rg_assets reg = assets" "rg_groups reg = groups"
    unfolding parse_registry_def bind_result_Inr_iff require_Inr_iff
    by (auto simp del: set_map simp: bind_result_Inr_iff)
  have "tables_ok [] []" by (simp add: tables_ok_def groups_ok_def)
  with add_groups_ok [OF add] show "tables_ok (rg_assets reg) (rg_groups reg)" by (simp add: reg)
  show "rg_assets reg \<noteq> []" "set (dict_keys (rg_groups reg)) \<inter> set (dict_keys (rg_assets reg)) = {}"
    "list_all (\<lambda>(kw, ids). length ids \<le> 1) (keyword_claims (rg_assets reg))"
    unfolding reg by (fact rest)+
  show "is_known_asset reg f" if "dict_get (rg_assets reg) a = Some e" "ae_fallback e = Some f" for a e f
    using rest(4) dict_get_mem [OF that(1)] that(2) by (force simp: reg is_known_asset_def list_all_iff)
qed

lemma parse_registry_wf_aux:
  assumes "parse_registry pystr doc = Inr reg"
  shows "wf_registry reg"
proof -
  note tabs = parse_registry_tables [OF assms]
  have "a = a'" if "dict_get (rg_assets reg) a = Some e" "dict_get (rg_assets reg) a' = Some e'"
    "kw \<in> set (ae_keywords e)" "kw \<in> set (ae_keywords e')" for a e a' e' kw
  proof -
    have "ae_asset_id e = ae_asset_id e'"
      by (rule keyword_unique [OF tabs(4) _ that(3) _ that(4)])
        (use dict_get_mem [OF that(1)] dict_get_mem [OF that(2)] in force)+
    with that(1,2) tabs(1) show ?thesis by (auto simp: tables_ok_def entry_ok_def)
  qed
  with tabs show ?thesis unfolding wf_registry_def by blast
qed

text \<open>
  C37: Registry validation is sound.  A document the loader accepts yields a registry in which every
  asset has an upper-snake-case id without a colon, a known provider and a valid closing time,
  belongs to exactly the group that lists it, shares no company keyword with another asset, and names
  only declared assets as fallback; no group id is an asset id, and every group lists distinct
  declared assets.
\<close>

theorem parse_registry_wf:
  assumes "parse_registry pystr doc = Inr reg"
  shows "wf_registry reg"
  using assms by (rule parse_registry_wf_aux)

definition sample_doc :: json where
  "sample_doc = JObj [(''registry_version'', JStr ''1''), (''rollover_policy'', JStr ''front''),
     (''groups'', JList [JObj [(''group_id'', JStr ''METALS''), (''display_name'', JStr ''Metals''),
        (''assets'', JList [JObj [
          (''asset_id'', JStr ''GOLD''), (''name'', JStr ''Gold''), (''code'', JStr ''XAU''),
          (''provider'', JStr ''yahoo''), (''provider_symbol'', JStr ''GC=F''),
          (''economic_identity'', JStr ''gold''), (''expected_exchange'', JStr ''COMEX''),
          (''currency'', JStr ''USD''), (''timezone'', JStr ''America/New_York''),
          (''session_complete_at'', JStr ''17:00''), (''keywords'', JList [JStr '' Bullion'']),
          (''fallback'', JStr ''GOLD'')]])]])]"

lemma sample_doc_parses: "\<exists>reg. parse_registry (\<lambda>_. []) sample_doc = Inr reg \<and> supported_assets reg = [''GOLD''] \<and> members_of reg ''METALS'' = [''GOLD'']"
proof -
  have "(case parse_registry (\<lambda>_. []) sample_doc of Inl _ \<Rightarrow> False | Inr reg \<Rightarrow> 
     supported_assets reg = [''GOLD''] \<and> members_of reg ''METALS'' = [''GOLD''])"
    by code_simp
  then show ?thesis by (auto split: sum.splits)
qed

theorem parse_registry_wf_witness:
  "\<exists>reg. parse_registry (\<lambda>_. []) sample_doc = Inr reg \<and> wf_registry reg"
  using sample_doc_parses parse_registry_wf by blast

lemma wf_registry_member:
  assumes "wf_registry reg"
  shows "a \<in> set (members_of reg g) \<longleftrightarrow> group_of reg a = Inr g"
proof
  assume "a \<in> set (members_of reg g)"
  then obtain grp where "dict_get (rg_groups reg) g = Some grp" "a \<in> set (ag_members grp)"
    by (cases "dict_get (rg_groups reg) g") (auto simp: members_of_def)
  with assms show "group_of reg a = Inr g"
    unfolding wf_registry_def tables_ok_def groups_ok_def group_of_def by fastforce
next
  assume "group_of reg a = Inr g"
  then obtain e where "dict_get (rg_assets reg) a = Some e" "ae_group_id e = g"
    by (cases "dict_get (rg_assets reg) a") (auto simp: group_of_def)
  with assms have "grouped (rg_groups reg) a e" "ae_group_id e = g"
    unfolding wf_registry_def tables_ok_def by auto
  then show "a \<in> set (members_of reg g)"
    by (auto simp: grouped_def members_of_def)
qed

lemma wf_registry_resolve:
  assumes "wf_registry reg" and "is_known_asset reg a"
  shows "\<exists>s. resolve reg a = Inr s \<and> rs_asset_id s = a \<and> group_of reg a = Inr (rs_group_id s) \<and>
     0 \<le> rs_session_completion_hour s \<and> rs_session_completion_hour s \<le> 23 \<and>
     0 \<le> rs_session_completion_minute s \<and> rs_session_completion_minute s \<le> 59"
proof -
  from assms(2) obtain e where e: "dict_get (rg_assets reg) a = Some e"
    unfolding is_known_asset_def by (metis dict_get_None_iff option.exhaust)
  with assms(1) have "entry_ok a e" unfolding wf_registry_def tables_ok_def by blast
  with e show ?thesis by (simp add: resolve_def group_of_def to_series_def entry_ok_def)
qed

text \<open>
  Groups and assets are two views of one relation: in a registry the loader accepted, an asset is
  listed by \<^verbatim>\<open>members_of\<close> a group exactly when \<^verbatim>\<open>group_of\<close> maps it to that group, and every
  known asset resolves to a series with its own id, that group and a closing time of day.
\<close>

theorem registry_lookups_agree:
  assumes "parse_registry pystr doc = Inr reg"
  shows "(a \<in> set (members_of reg g) \<longleftrightarrow> group_of reg a = Inr g) \<and>
    (is_known_asset reg a \<longrightarrow> (\<exists>s. resolve reg a = Inr s \<and> rs_asset_id s = a \<and>
       a \<in> set (members_of reg (rs_group_id s)) \<and>
       rs_session_completion_hour s \<in> {0..23} \<and> rs_session_completion_minute s \<in> {0..59}))"
  using wf_registry_member wf_registry_resolve parse_registry_wf_aux [OF assms] by fastforce

theorem registry_lookups_agree_witness:
  "\<exists>reg s. parse_registry (\<lambda>_. []) sample_doc = Inr reg \<and> resolve reg ''GOLD'' = Inr s \<and>
     ''GOLD'' \<in> set (members_of reg (rs_group_id s)) \<and> group_of reg ''GOLD'' = Inr ''METALS''"
proof -
  obtain reg where reg: "parse_registry (\<lambda>_. []) sample_doc = Inr reg"
    "supported_assets reg = [''GOLD'']" "members_of reg ''METALS'' = [''GOLD'']"
    using sample_doc_parses by blast
  then have "is_known_asset reg ''GOLD''" by (simp add: is_known_asset_def supported_assets_def)
  with reg registry_lookups_agree [OF reg(1), of "''GOLD''" "''METALS''"] show ?thesis by auto
qed

subsection \<open>A small registry for evaluation\<close>

definition sample_entry :: "AssetId \<Rightarrow> string \<Rightarrow> AssetEntry" where
  "sample_entry a g =
     \<lparr>ae_asset_id = a, ae_name = a, ae_code = a, ae_provider = ''yahoo'', ae_provider_symbol = a,
      ae_economic_identity = a, ae_expected_exchange = ''NYSE'', ae_currency = ''USD'',
      ae_timezone = ''America/New_York'', ae_session_complete_at = ''17:00'', ae_keywords = [],
      ae_price_kind = ''PROVIDER_DAILY_CLOSE'', ae_is_adjusted = False, ae_fallback = None,
      ae_group_id = g\<rparr>"

definition sample_registry :: Registry where
  "sample_registry =
     \<lparr>rg_registry_version = ''1'', rg_rollover_policy = ''front'',
      rg_assets = [(''GOLD'', sample_entry ''GOLD'' ''METALS''), (''NEM'', sample_entry ''NEM'' ''METALS''),
                   (''XOM'', sample_entry ''XOM'' ''OIL'')],
      rg_groups = [(''METALS'', \<lparr>ag_group_id = ''METALS'', ag_display_name = ''Metals'',
                     ag_industry_keywords = [], ag_members = [''GOLD'', ''NEM'']\<rparr>),
                   (''OIL'', \<lparr>ag_group_id = ''OIL'', ag_display_name = ''Oil'',
                     ag_industry_keywords = [], ag_members = [''XOM'']\<rparr>)]\<rparr>"

lemma sample_registry_known [simp]:
  "is_known_asset sample_registry a \<longleftrightarrow> a = ''GOLD'' \<or> a = ''NEM'' \<or> a = ''XOM''"
  by (auto simp: is_known_asset_def sample_registry_def)

end
