(* ===== verification/Graph.thy ===== *)
theory Graph
  imports Registry
begin

text \<open>
  The causal knowledge graph (\<^verbatim>\<open>shared/graph/models.py\<close>, \<^verbatim>\<open>shared/graph/client.py\<close>).

  The property graph is a store of relationships: \<^verbatim>\<open>CAUSES\<close> from a factor to an asset or an industry
  group, \<^verbatim>\<open>MEMBER_OF\<close> from assets to groups and \<^verbatim>\<open>CORRELATES_WITH\<close> between assets.  Every Cypher
  statement of the client is a function on the store; a query returns its rows in the order the store
  keeps them (Neo4j leaves it open).  The driver's transport failures are not part of the store: the
  services take the client's operations as arguments that may fail.
\<close>

subsection \<open>Value objects\<close>

record FiringEdge =
  fe_factor_id :: "EventType option"
  fe_asset_id :: AssetId
  fe_direction :: Direction
  fe_weight :: flt
  fe_confidence :: flt
  fe_alpha :: flt
  fe_beta :: flt
  fe_condition :: "ConditionCode option"
  fe_inherited_from :: "string option"
  fe_correlation_source_id :: "AssetId option"

definition valid_weights :: "flt \<Rightarrow> flt \<Rightarrow> flt \<Rightarrow> flt \<Rightarrow> bool" where
  "valid_weights w c a b \<longleftrightarrow> 0 \<le> w \<and> w \<le> 1 \<and> 0 \<le> c \<and> c \<le> 1 \<and> 0 < a \<and> 0 < b"

definition valid_FiringEdge :: "FiringEdge \<Rightarrow> bool" where
  "valid_FiringEdge e \<longleftrightarrow> valid_weights (fe_weight e) (fe_confidence e) (fe_alpha e) (fe_beta e)"

definition edge_key_text :: "string \<Rightarrow> ConditionCode option \<Rightarrow> string \<Rightarrow> string" where
  "edge_key_text prefix condition target =
     (case condition of
        None \<Rightarrow> prefix @ ''->'' @ target
      | Some c \<Rightarrow> prefix @ ''|'' @ ConditionCode_value c @ ''->'' @ target)"

definition fe_target :: "FiringEdge \<Rightarrow> string" where
  "fe_target e = (case fe_inherited_from e of
      None \<Rightarrow> fe_asset_id e | Some g \<Rightarrow> if g = [] then fe_asset_id e else g)"

definition fe_prefix :: "FiringEdge \<Rightarrow> string" where
  "fe_prefix e = (case (fe_factor_id e, fe_correlation_source_id e) of
      (None, Some src) \<Rightarrow> src
    | (Some f, _) \<Rightarrow> EventType_value f
    | (None, None) \<Rightarrow> ''CORRELATION'')"

definition edge_id :: "FiringEdge \<Rightarrow> string" where
  "edge_id e = edge_key_text (fe_prefix e) (fe_condition e) (fe_target e)"

definition beta_mean :: "flt \<Rightarrow> flt \<Rightarrow> flt" where
  "beta_mean alpha beta = fl64 (alpha / fl64 (alpha + beta))"

definition fe_reliability :: "FiringEdge \<Rightarrow> flt" where
  "fe_reliability e = beta_mean (fe_alpha e) (fe_beta e)"

record CorrelationEdge =
  coe_source_asset_id :: AssetId
  coe_target_asset_id :: AssetId
  coe_condition :: ConditionCode
  coe_direction :: Direction
  coe_weight :: flt
  coe_confidence :: flt
  coe_alpha :: flt
  coe_beta :: flt

definition coe_reliability :: "CorrelationEdge \<Rightarrow> flt" where
  "coe_reliability e = beta_mean (coe_alpha e) (coe_beta e)"

definition coe_edge_id :: "CorrelationEdge \<Rightarrow> string" where
  "coe_edge_id e = coe_source_asset_id e @ ''|'' @ ConditionCode_value (coe_condition e) @ ''->'' @
     coe_target_asset_id e"

subsection \<open>The store\<close>

datatype causes_target = AssetNode string | GroupNode string

record causes_rel =
  cr_factor :: EventType
  cr_target :: causes_target
  cr_condition :: "ConditionCode option"
  cr_direction :: Direction
  cr_weight :: flt
  cr_confidence :: flt
  cr_alpha :: flt
  cr_beta :: flt

record correlates_rel =
  kr_source :: string
  kr_target :: string
  kr_condition :: ConditionCode
  kr_direction :: Direction
  kr_weight :: flt
  kr_confidence :: flt
  kr_alpha :: flt
  kr_beta :: flt

record graph_store =
  gs_factors :: "EventType list"
  gs_assets :: "string list"
  gs_causes :: "causes_rel list"
  gs_members :: "(string \<times> string) list"
  gs_correlates :: "correlates_rel list"

type_synonym causes_key = "EventType \<times> causes_target \<times> ConditionCode option"
type_synonym correlates_key = "string \<times> string \<times> ConditionCode"

definition causes_key :: "causes_rel \<Rightarrow> causes_key" where
  "causes_key r = (cr_factor r, cr_target r, cr_condition r)"

definition correlates_key :: "correlates_rel \<Rightarrow> correlates_key" where
  "correlates_key r = (kr_source r, kr_target r, kr_condition r)"

datatype graph_error = GraphTransportError string | GraphValueError string

subsection \<open>Firing edges\<close>

definition asset_selected :: "string list option \<Rightarrow> string \<Rightarrow> bool" where
  "asset_selected ids a = (case ids of None \<Rightarrow> True | Some l \<Rightarrow> a \<in> set l)"

definition condition_active :: "ConditionCode list option \<Rightarrow> ConditionCode option \<Rightarrow> bool" where
  "condition_active conds c =
     (case c of None \<Rightarrow> True | Some c \<Rightarrow> (case conds of None \<Rightarrow> True | Some cs \<Rightarrow> c \<in> set cs))"

definition own_rows ::
  "graph_store \<Rightarrow> EventType \<Rightarrow> string list option \<Rightarrow> ConditionCode list option \<Rightarrow>
   (string \<times> string option \<times> causes_rel) list" where
  \<comment> \<open>\<^verbatim>\<open>_FIRING_EDGES_CYPHER\<close>\<close>
  "own_rows gs f ids conds =
     concat (map (\<lambda>r. case cr_target r of
         AssetNode a \<Rightarrow> if cr_factor r = f \<and> asset_selected ids a \<and> condition_active conds (cr_condition r)
                        then [(a, None, r)] else []
       | GroupNode g \<Rightarrow> []) (gs_causes gs))"

definition has_own_edge ::
  "graph_store \<Rightarrow> EventType \<Rightarrow> ConditionCode list option \<Rightarrow> string \<Rightarrow> bool" where
  "has_own_edge gs f conds a =
     list_ex (\<lambda>r. cr_factor r = f \<and> cr_target r = AssetNode a \<and> condition_active conds (cr_condition r))
       (gs_causes gs)"

definition group_rows ::
  "graph_store \<Rightarrow> EventType \<Rightarrow> string list option \<Rightarrow> ConditionCode list option \<Rightarrow>
   (string \<times> string option \<times> causes_rel) list" where
  \<comment> \<open>\<^verbatim>\<open>_GROUP_FIRING_EDGES_CYPHER\<close>\<close>
  "group_rows gs f ids conds =
     concat (map (\<lambda>r. case cr_target r of
         AssetNode a \<Rightarrow> []
       | GroupNode g \<Rightarrow>
           if cr_factor r = f \<and> condition_active conds (cr_condition r)
           then map (\<lambda>(a, _). (a, Some g, r))
                  (filter (\<lambda>(a, g'). g' = g \<and> asset_selected ids a \<and> \<not> has_own_edge gs f conds a)
                    (gs_members gs))
           else []) (gs_causes gs))"

definition firing_edge_of :: "string \<Rightarrow> string option \<Rightarrow> causes_rel \<Rightarrow> FiringEdge" where
  "firing_edge_of a grp r =
     \<lparr>fe_factor_id = Some (cr_factor r), fe_asset_id = a, fe_direction = cr_direction r,
      fe_weight = cr_weight r, fe_confidence = cr_confidence r, fe_alpha = cr_alpha r,
      fe_beta = cr_beta r, fe_condition = cr_condition r, fe_inherited_from = grp,
      fe_correlation_source_id = None\<rparr>"

definition mk_FiringEdge ::
  "Registry \<Rightarrow> string \<times> string option \<times> causes_rel \<Rightarrow> (graph_error, FiringEdge) result" where
  "mk_FiringEdge reg row =
     (let (a, grp, r) = row in
      bind_result (require (is_known_asset reg a) (GraphValueError (''unknown asset_id '' @ a))) (\<lambda>_.
      bind_result (require (valid_weights (cr_weight r) (cr_confidence r) (cr_alpha r) (cr_beta r))
        (GraphValueError ''FiringEdge validation'')) (\<lambda>_.
      Inr (firing_edge_of a grp r))))"

definition get_firing_edges ::
  "Registry \<Rightarrow> graph_store \<Rightarrow> EventType \<Rightarrow> string list option \<Rightarrow> ConditionCode list option \<Rightarrow> bool \<Rightarrow>
   (graph_error, FiringEdge list) result" where
  "get_firing_edges reg gs f ids conds inherit =
     map_result (mk_FiringEdge reg)
       (own_rows gs f ids conds @ (if inherit then group_rows gs f ids conds else []))"

subsection \<open>Reads and writes of one CAUSES edge\<close>

definition get_group_edge_counts ::
  "graph_store \<Rightarrow> EventType \<Rightarrow> string \<Rightarrow> ConditionCode option \<Rightarrow> (flt \<times> flt \<times> flt) option" where
  "get_group_edge_counts gs f g c =
     (case fetch_first (\<lambda>r. cr_factor r = f \<and> cr_target r = GroupNode g \<and> cr_condition r = c) (gs_causes gs) of
        None \<Rightarrow> None | Some r \<Rightarrow> Some (cr_alpha r, cr_beta r, cr_weight r))"

definition update_edge_weight ::
  "graph_store \<Rightarrow> EventType \<Rightarrow> string \<Rightarrow> flt \<Rightarrow> ConditionCode option \<Rightarrow> bool \<Rightarrow>
   (graph_error, graph_store) result" where
  "update_edge_weight gs f target_id w c target_is_group =
     (let target = (if target_is_group then GroupNode target_id else AssetNode target_id);
          hit = (\<lambda>r. cr_factor r = f \<and> cr_target r = target \<and> cr_condition r = c)
      in if list_ex hit (gs_causes gs)
         then Inr (gs\<lparr>gs_causes := update_where hit (\<lambda>r. r\<lparr>cr_weight := w\<rparr>) (gs_causes gs)\<rparr>)
         else Inl (GraphTransportError
           (''no CAUSES edge for '' @ edge_key_text (EventType_value f) c target_id)))"

definition merge_node :: "'a list \<Rightarrow> 'a \<Rightarrow> 'a list" where
  "merge_node ns n = (if n \<in> set ns then ns else ns @ [n])"

definition upsert_conditioned_edge ::
  "graph_store \<Rightarrow> EventType \<Rightarrow> ConditionCode \<Rightarrow> AssetId \<Rightarrow> Direction \<Rightarrow> flt \<Rightarrow> flt \<Rightarrow> flt \<Rightarrow> flt \<Rightarrow>
   graph_store \<times> bool" where
  "upsert_conditioned_edge gs f c a d w conf alpha beta =
     (let gs' = gs\<lparr>gs_factors := merge_node (gs_factors gs) f, gs_assets := merge_node (gs_assets gs) a\<rparr>
      in if (f, AssetNode a, Some c) \<in> set (map causes_key (gs_causes gs)) then (gs', False)
         else (gs'\<lparr>gs_causes := gs_causes gs @
                 [\<lparr>cr_factor = f, cr_target = AssetNode a, cr_condition = Some c, cr_direction = d,
                   cr_weight = w, cr_confidence = conf, cr_alpha = alpha, cr_beta = beta\<rparr>]\<rparr>, True))"

subsection \<open>Correlation edges\<close>

definition mk_CorrelationEdge ::
  "Registry \<Rightarrow> correlates_rel \<Rightarrow> (graph_error, CorrelationEdge) result" where
  "mk_CorrelationEdge reg r =
     bind_result (require (is_known_asset reg (kr_source r) \<and> is_known_asset reg (kr_target r))
       (GraphValueError ''unknown asset_id'')) (\<lambda>_.
     bind_result (require (valid_weights (kr_weight r) (kr_confidence r) (kr_alpha r) (kr_beta r))
       (GraphValueError ''CorrelationEdge validation'')) (\<lambda>_.
     Inr \<lparr>coe_source_asset_id = kr_source r, coe_target_asset_id = kr_target r,
          coe_condition = kr_condition r, coe_direction = kr_direction r, coe_weight = kr_weight r,
          coe_confidence = kr_confidence r, coe_alpha = kr_alpha r, coe_beta = kr_beta r\<rparr>))"

definition get_correlation_edges ::
  "Registry \<Rightarrow> graph_store \<Rightarrow> AssetId \<Rightarrow> ConditionCode \<Rightarrow> (graph_error, CorrelationEdge list) result" where
  "get_correlation_edges reg gs src c =
     map_result (mk_CorrelationEdge reg)
       (filter (\<lambda>r. kr_source r = src \<and> kr_condition r = c) (gs_correlates gs))"

definition get_correlation_edge_counts ::
  "graph_store \<Rightarrow> AssetId \<Rightarrow> AssetId \<Rightarrow> ConditionCode \<Rightarrow> (flt \<times> flt \<times> flt) option" where
  "get_correlation_edge_counts gs src tgt c =
     (case fetch_first (\<lambda>r. correlates_key r = (src, tgt, c)) (gs_correlates gs) of
        None \<Rightarrow> None | Some r \<Rightarrow> Some (kr_alpha r, kr_beta r, kr_weight r))"

definition update_correlation_weight ::
  "graph_store \<Rightarrow> AssetId \<Rightarrow> AssetId \<Rightarrow> ConditionCode \<Rightarrow> flt \<Rightarrow> (graph_error, graph_store) result" where
  "update_correlation_weight gs src tgt c w =
     (let hit = (\<lambda>r. correlates_key r = (src, tgt, c))
      in if list_ex hit (gs_correlates gs)
         then Inr (gs\<lparr>gs_correlates := update_where hit (\<lambda>r. r\<lparr>kr_weight := w\<rparr>) (gs_correlates gs)\<rparr>)
         else Inl (GraphTransportError (''no CORRELATES_WITH edge for '' @ edge_key_text src (Some c) tgt)))"

definition upsert_correlation_edge ::
  "graph_store \<Rightarrow> AssetId \<Rightarrow> ConditionCode \<Rightarrow> AssetId \<Rightarrow> Direction \<Rightarrow> flt \<Rightarrow> flt \<Rightarrow> flt \<Rightarrow> flt \<Rightarrow>
   graph_store \<times> bool" where
  "upsert_correlation_edge gs src c tgt d w conf alpha beta =
     (let gs' = gs\<lparr>gs_assets := merge_node (merge_node (gs_assets gs) src) tgt\<rparr>
      in if (src, tgt, c) \<in> set (map correlates_key (gs_correlates gs)) then (gs', False)
         else (gs'\<lparr>gs_correlates := gs_correlates gs @
                 [\<lparr>kr_source = src, kr_target = tgt, kr_condition = c, kr_direction = d,
                   kr_weight = w, kr_confidence = conf, kr_alpha = alpha, kr_beta = beta\<rparr>]\<rparr>, True))"

subsection \<open>Reliability\<close>

definition float_weights :: "flt \<Rightarrow> flt \<Rightarrow> flt \<Rightarrow> flt \<Rightarrow> bool" where
  "float_weights w c a b \<longleftrightarrow> is_flt w \<and> is_flt c \<and> is_flt a \<and> is_flt b"

definition wf_FiringEdge :: "FiringEdge \<Rightarrow> bool" where
  "wf_FiringEdge e \<longleftrightarrow> valid_FiringEdge e \<and>
     float_weights (fe_weight e) (fe_confidence e) (fe_alpha e) (fe_beta e)"

lemma beta_mean_unit:
  assumes "0 < a" "0 < b" "is_flt a"
  shows "0 \<le> beta_mean a b" and "beta_mean a b \<le> 1"
proof -
  have "a \<le> fl64 (a + b)" using assms by (intro b64.rnd_add_ge) (auto simp: is_flt_def)
  then show "0 \<le> beta_mean a b" and "beta_mean a b \<le> 1"
    unfolding beta_mean_def using assms(1) by (auto intro!: b64.rnd_ratio)
qed

lemma is_flt_beta_mean [simp]: "is_flt (beta_mean a b)"
  by (simp add: beta_mean_def)

lemma fe_reliability_unit:
  "wf_FiringEdge e \<Longrightarrow> 0 \<le> fe_reliability e" "wf_FiringEdge e \<Longrightarrow> fe_reliability e \<le> 1"
  by (auto simp: wf_FiringEdge_def valid_FiringEdge_def valid_weights_def float_weights_def
      fe_reliability_def intro: beta_mean_unit)

subsection \<open>Well-formed stores\<close>

definition wf_causes :: "causes_rel \<Rightarrow> bool" where
  "wf_causes r \<longleftrightarrow> valid_weights (cr_weight r) (cr_confidence r) (cr_alpha r) (cr_beta r) \<and>
     float_weights (cr_weight r) (cr_confidence r) (cr_alpha r) (cr_beta r)"

definition wf_correlates :: "correlates_rel \<Rightarrow> bool" where
  "wf_correlates r \<longleftrightarrow> valid_weights (kr_weight r) (kr_confidence r) (kr_alpha r) (kr_beta r) \<and>
     float_weights (kr_weight r) (kr_confidence r) (kr_alpha r) (kr_beta r)"

text \<open>One relationship per key, every relationship readable by the client.\<close>

definition wf_graph :: "graph_store \<Rightarrow> bool" where
  "wf_graph gs \<longleftrightarrow> distinct (map causes_key (gs_causes gs)) \<and> list_all wf_causes (gs_causes gs) \<and>
     distinct (map correlates_key (gs_correlates gs)) \<and> list_all wf_correlates (gs_correlates gs)"

definition known_targets :: "Registry \<Rightarrow> graph_store \<Rightarrow> bool" where
  "known_targets reg gs \<longleftrightarrow>
     list_all (\<lambda>r. case cr_target r of AssetNode a \<Rightarrow> is_known_asset reg a | GroupNode g \<Rightarrow> g \<noteq> [])
       (gs_causes gs) \<and>
     list_all (\<lambda>(a, g). is_known_asset reg a) (gs_members gs) \<and>
     list_all (\<lambda>r. is_known_asset reg (kr_source r) \<and> is_known_asset reg (kr_target r)) (gs_correlates gs)"

lemma update_edge_weight_wf [wf_intros]:
  assumes "update_edge_weight gs f t w c grp = Inr gs'" "wf_graph gs" "0 \<le> w" "w \<le> 1" "is_flt w"
  shows "wf_graph gs'"
  using assms
  by (auto simp: update_edge_weight_def wf_graph_def Let_def wf_causes_def valid_weights_def
      float_weights_def list_all_iff set_update_where causes_key_def map_update_where split: if_splits)

lemma update_correlation_weight_wf [wf_intros]:
  assumes "update_correlation_weight gs a b c w = Inr gs'" "wf_graph gs" "0 \<le> w" "w \<le> 1" "is_flt w"
  shows "wf_graph gs'"
  using assms
  by (auto simp: update_correlation_weight_def wf_graph_def Let_def wf_correlates_def valid_weights_def
      float_weights_def list_all_iff set_update_where correlates_key_def map_update_where split: if_splits)

lemma upsert_conditioned_edge_wf [wf_intros]:
  assumes "wf_graph gs" "valid_weights w conf alpha beta" "float_weights w conf alpha beta"
  shows "wf_graph (fst (upsert_conditioned_edge gs f c a d w conf alpha beta))"
  using assms
  by (auto simp: upsert_conditioned_edge_def wf_graph_def Let_def wf_causes_def causes_key_def)

lemma upsert_correlation_edge_wf [wf_intros]:
  assumes "wf_graph gs" "valid_weights w conf alpha beta" "float_weights w conf alpha beta"
  shows "wf_graph (fst (upsert_correlation_edge gs a c b d w conf alpha beta))"
  using assms
  by (auto simp: upsert_correlation_edge_def wf_graph_def Let_def wf_correlates_def correlates_key_def)

text \<open>
  Discovery is add-only and idempotent.  Upserting an edge never changes or removes a
  relationship that already exists, for both kinds of edge; a second upsert of the same key creates
  nothing, whatever values it carries.
\<close>

theorem upsert_add_only:
  "(\<exists>new. gs_causes (fst (upsert_conditioned_edge gs f c a d w conf alpha beta)) = gs_causes gs @ new \<and>
       gs_correlates (fst (upsert_conditioned_edge gs f c a d w conf alpha beta)) = gs_correlates gs \<and>
       (snd (upsert_conditioned_edge gs f c a d w conf alpha beta) \<longleftrightarrow> new \<noteq> [])) \<and>
   upsert_conditioned_edge (fst (upsert_conditioned_edge gs f c a d w conf alpha beta)) f c a d' w' conf' alpha' beta' =
     (fst (upsert_conditioned_edge gs f c a d w conf alpha beta), False) \<and>
   (\<exists>new. gs_correlates (fst (upsert_correlation_edge gs x c y d w conf alpha beta)) = gs_correlates gs @ new \<and>
       gs_causes (fst (upsert_correlation_edge gs x c y d w conf alpha beta)) = gs_causes gs \<and>
       (snd (upsert_correlation_edge gs x c y d w conf alpha beta) \<longleftrightarrow> new \<noteq> [])) \<and>
   upsert_correlation_edge (fst (upsert_correlation_edge gs x c y d w conf alpha beta)) x c y d' w' conf' alpha' beta' =
     (fst (upsert_correlation_edge gs x c y d w conf alpha beta), False)"
  by (auto simp: upsert_conditioned_edge_def upsert_correlation_edge_def Let_def merge_node_def
      causes_key_def correlates_key_def)

subsection \<open>The contract of an edge with a learned weight\<close>

text \<open>
  What Credibility relies on when it moves a weight: the read returns the counts and weight of the
  key, the write replaces the weight of that key and nothing else, and fails exactly on a missing key.
\<close>

locale weighted_edges =
  fixes counts :: "'s \<Rightarrow> 'k \<Rightarrow> (flt \<times> flt \<times> flt) option"
    and set_weight :: "'s \<Rightarrow> 'k \<Rightarrow> flt \<Rightarrow> (graph_error, 's) result"
  assumes write_missing: "counts s k = None \<Longrightarrow> \<exists>e. set_weight s k w = Inl e"
    and write_present: "counts s k = Some (a, b, w0) \<Longrightarrow>
      \<exists>s'. set_weight s k w = Inr s' \<and> counts s' k = Some (a, b, w)"
    and write_other: "set_weight s k w = Inr s' \<Longrightarrow> k' \<noteq> k \<Longrightarrow> counts s' k' = counts s k'"
begin

lemma write_ok_iff: "(\<exists>s'. set_weight s k w = Inr s') \<longleftrightarrow> counts s k \<noteq> None"
proof (cases "counts s k")
  case None
  with write_missing [OF None, of w] show ?thesis by auto
next
  case (Some abw)
  then show ?thesis using write_present [of s k _ _ _ w] by (cases abw) fastforce
qed

lemma write_counts:
  assumes "set_weight s k w = Inr s'"
  shows "\<exists>a b w0. counts s k = Some (a, b, w0) \<and> counts s' k = Some (a, b, w)"
proof -
  obtain a b w0 where "counts s k = Some (a, b, w0)" using assms write_ok_iff by fastforce
  with write_present [OF this, of w] assms show ?thesis by auto
qed

lemma write_keeps_keys:
  assumes "set_weight s k w = Inr s'"
  shows "counts s' k' = None \<longleftrightarrow> counts s k' = None"
  using write_counts [OF assms] write_other [OF assms, of k'] by (cases "k' = k") auto

lemma last_write_wins:
  assumes "set_weight s k w = Inr s1" and "set_weight s1 k w' = Inr s2"
  shows "\<exists>a b w0. counts s k = Some (a, b, w0) \<and> counts s2 k = Some (a, b, w')"
  using write_counts [OF assms(1)] write_counts [OF assms(2)] by auto

end

definition causes_counts :: "graph_store \<Rightarrow> causes_key \<Rightarrow> (flt \<times> flt \<times> flt) option" where
  "causes_counts gs k =
     (case fetch_first (\<lambda>r. causes_key r = k) (gs_causes gs) of
        None \<Rightarrow> None | Some r \<Rightarrow> Some (cr_alpha r, cr_beta r, cr_weight r))"

fun causes_set_weight :: "graph_store \<Rightarrow> causes_key \<Rightarrow> flt \<Rightarrow> (graph_error, graph_store) result" where
  "causes_set_weight gs (f, AssetNode a, c) w = update_edge_weight gs f a w c False"
| "causes_set_weight gs (f, GroupNode g, c) w = update_edge_weight gs f g w c True"

lemma causes_set_weight_unfold:
  "causes_set_weight gs k w =
     (if list_ex (\<lambda>r. causes_key r = k) (gs_causes gs)
      then Inr (gs\<lparr>gs_causes := update_where (\<lambda>r. causes_key r = k) (\<lambda>r. r\<lparr>cr_weight := w\<rparr>) (gs_causes gs)\<rparr>)
      else Inl (GraphTransportError (''no CAUSES edge for '' @ (case k of (f, t, c) \<Rightarrow>
        edge_key_text (EventType_value f) c (case t of AssetNode a \<Rightarrow> a | GroupNode g \<Rightarrow> g)))))"
proof -
  obtain f t c where k: "k = (f, t, c)" by (cases k)
  have hit: "(\<lambda>r. causes_key r = (f, t, c)) = (\<lambda>r. cr_factor r = f \<and> cr_target r = t \<and> cr_condition r = c)"
    by (auto simp: causes_key_def fun_eq_iff)
  show ?thesis unfolding k hit by (cases t) (simp_all add: update_edge_weight_def Let_def)
qed

text \<open>Updating the rows of one key and looking up any key, for any table.\<close>

lemma fetch_update_key:
  assumes "\<And>r. key (f r) = key r"
  shows "fetch_first (\<lambda>r. key r = k') (update_where (\<lambda>r. key r = k) f rs) =
     (if k' = k then map_option f (fetch_first (\<lambda>r. key r = k) rs)
      else fetch_first (\<lambda>r. key r = k') rs)"
  using assms by (induction rs) (auto simp: fetch_first_def)

lemma key_weight_update [simp]:
  "causes_key (r\<lparr>cr_weight := w\<rparr>) = causes_key r"
  "correlates_key (q\<lparr>kr_weight := w\<rparr>) = correlates_key q"
  by (simp_all add: causes_key_def correlates_key_def)

lemma fetch_first_list_ex: "list_ex p rs \<longleftrightarrow> fetch_first p rs \<noteq> None"
  by (auto simp: fetch_first_None_iff list_ex_iff)

interpretation causes_edges: weighted_edges causes_counts causes_set_weight
proof
  fix s k w
  assume "causes_counts s k = None"
  then show "\<exists>e. causes_set_weight s k w = Inl e"
    by (auto simp: causes_counts_def causes_set_weight_unfold fetch_first_list_ex split: option.splits)
next
  fix s k a b w0 w
  assume "causes_counts s k = Some (a, b, w0)"
  then show "\<exists>s'. causes_set_weight s k w = Inr s' \<and> causes_counts s' k = Some (a, b, w)"
    by (auto simp: causes_counts_def causes_set_weight_unfold fetch_first_list_ex fetch_update_key
        split: option.splits)
next
  fix s k w s' k'
  assume "causes_set_weight s k w = Inr s'" "k' \<noteq> k"
  then show "causes_counts s' k' = causes_counts s k'"
    by (auto simp: causes_counts_def causes_set_weight_unfold fetch_update_key
        split: if_splits)
qed

definition correlates_counts :: "graph_store \<Rightarrow> correlates_key \<Rightarrow> (flt \<times> flt \<times> flt) option" where
  "correlates_counts gs k = (case k of (a, b, c) \<Rightarrow> get_correlation_edge_counts gs a b c)"

definition correlates_set_weight ::
  "graph_store \<Rightarrow> correlates_key \<Rightarrow> flt \<Rightarrow> (graph_error, graph_store) result" where
  "correlates_set_weight gs k w = (case k of (a, b, c) \<Rightarrow> update_correlation_weight gs a b c w)"

interpretation correlation_edges: weighted_edges correlates_counts correlates_set_weight
proof
  fix s k w
  assume "correlates_counts s k = None"
  then show "\<exists>e. correlates_set_weight s k w = Inl e"
    by (cases k) (auto simp: correlates_counts_def correlates_set_weight_def get_correlation_edge_counts_def
        update_correlation_weight_def Let_def fetch_first_list_ex split: option.splits)
next
  fix s k a b w0 w
  assume "correlates_counts s k = Some (a, b, w0)"
  then show "\<exists>s'. correlates_set_weight s k w = Inr s' \<and> correlates_counts s' k = Some (a, b, w)"
    by (cases k) (auto simp: correlates_counts_def correlates_set_weight_def get_correlation_edge_counts_def
        update_correlation_weight_def Let_def fetch_first_list_ex fetch_update_key
        split: option.splits)
next
  fix s k w s' k'
  assume "correlates_set_weight s k w = Inr s'" "k' \<noteq> k"
  then show "correlates_counts s' k' = correlates_counts s k'"
    by (cases k; cases k') (auto simp: correlates_counts_def correlates_set_weight_def
        get_correlation_edge_counts_def update_correlation_weight_def Let_def fetch_update_key
        split: if_splits)
qed

lemma group_counts_causes: "get_group_edge_counts gs f g c = causes_counts gs (f, GroupNode g, c)"
  by (simp add: get_group_edge_counts_def causes_counts_def causes_key_def)

subsection \<open>What fires\<close>

lemma set_own_rows:
  "row \<in> set (own_rows gs f ids conds) \<longleftrightarrow>
     (\<exists>a r. row = (a, None, r) \<and> r \<in> set (gs_causes gs) \<and> cr_factor r = f \<and> cr_target r = AssetNode a \<and>
        asset_selected ids a \<and> condition_active conds (cr_condition r))"
  by (auto simp: own_rows_def split: causes_target.splits if_splits)

lemma has_own_edge_iff:
  "has_own_edge gs f conds a \<longleftrightarrow>
     (\<exists>r \<in> set (gs_causes gs). cr_factor r = f \<and> cr_target r = AssetNode a \<and> condition_active conds (cr_condition r))"
  by (auto simp: has_own_edge_def list_ex_iff)

lemma set_group_rows:
  "row \<in> set (group_rows gs f ids conds) \<longleftrightarrow>
     (\<exists>a g r. row = (a, Some g, r) \<and> r \<in> set (gs_causes gs) \<and> cr_factor r = f \<and> cr_target r = GroupNode g \<and>
        (a, g) \<in> set (gs_members gs) \<and> asset_selected ids a \<and> condition_active conds (cr_condition r) \<and>
        \<not> has_own_edge gs f conds a)"
  (is "?l \<longleftrightarrow> ?r")
proof
  assume ?l
  then show ?r by (auto simp: group_rows_def split: causes_target.splits if_splits)
next
  assume ?r
  then obtain a g r where "row = (a, Some g, r)" and r: "r \<in> set (gs_causes gs)" "cr_factor r = f"
    "cr_target r = GroupNode g" "(a, g) \<in> set (gs_members gs)" "asset_selected ids a"
    "condition_active conds (cr_condition r)" "\<not> has_own_edge gs f conds a" by blast
  then show ?l by (simp add: group_rows_def) (rule bexI [OF _ r(1)]; force simp: image_iff)
qed

lemma mk_FiringEdge_Inr_iff:
  "mk_FiringEdge reg (a, grp, r) = Inr e \<longleftrightarrow>
     is_known_asset reg a \<and> valid_weights (cr_weight r) (cr_confidence r) (cr_alpha r) (cr_beta r) \<and>
     e = firing_edge_of a grp r"
  by (auto simp: mk_FiringEdge_def bind_result_Inr_iff)

lemma get_firing_edges_ok:
  assumes "wf_graph gs" "known_targets reg gs"
  shows "get_firing_edges reg gs f ids conds inherit =
    Inr (map (\<lambda>(a, grp, r). firing_edge_of a grp r)
      (own_rows gs f ids conds @ (if inherit then group_rows gs f ids conds else [])))"
  unfolding get_firing_edges_def
proof (rule map_result_all)
  fix row
  assume "row \<in> set (own_rows gs f ids conds @ (if inherit then group_rows gs f ids conds else []))"
  then obtain a grp r where row: "row = (a, grp, r)" and r: "r \<in> set (gs_causes gs)"
    and a: "cr_target r = AssetNode a \<or> (\<exists>g. (a, g) \<in> set (gs_members gs))"
    by (fastforce simp: set_own_rows set_group_rows split: if_splits)
  have "is_known_asset reg a" using assms(2) r a by (fastforce simp: known_targets_def list_all_iff)
  with assms(1) r show "mk_FiringEdge reg row = Inr (case row of (a, grp, r) \<Rightarrow> firing_edge_of a grp r)"
    by (simp add: row mk_FiringEdge_Inr_iff wf_graph_def list_all_iff wf_causes_def)
qed

lemma firing_edge_of_sel [simp]:
  "fe_factor_id (firing_edge_of a grp r) = Some (cr_factor r)"
  "fe_asset_id (firing_edge_of a grp r) = a"
  "fe_direction (firing_edge_of a grp r) = cr_direction r"
  "fe_weight (firing_edge_of a grp r) = cr_weight r"
  "fe_confidence (firing_edge_of a grp r) = cr_confidence r"
  "fe_alpha (firing_edge_of a grp r) = cr_alpha r"
  "fe_beta (firing_edge_of a grp r) = cr_beta r"
  "fe_condition (firing_edge_of a grp r) = cr_condition r"
  "fe_inherited_from (firing_edge_of a grp r) = grp"
  "fe_correlation_source_id (firing_edge_of a grp r) = None"
  by (simp_all add: firing_edge_of_def)

lemma get_firing_edges_wf:
  assumes "wf_graph gs" "get_firing_edges reg gs f ids conds inherit = Inr es" "e \<in> set es"
  shows "wf_FiringEdge e"
proof -
  from assms(2,3) obtain a grp r where
    row: "(a, grp, r) \<in> set (own_rows gs f ids conds @ (if inherit then group_rows gs f ids conds else []))"
    and e: "mk_FiringEdge reg (a, grp, r) = Inr e"
    unfolding get_firing_edges_def by (metis map_result_mem prod_cases3)
  from row have "r \<in> set (gs_causes gs)"
    by (auto simp: set_own_rows set_group_rows split: if_splits)
  then show ?thesis using assms(1) e
    by (auto simp: mk_FiringEdge_Inr_iff wf_FiringEdge_def valid_FiringEdge_def wf_graph_def
        wf_causes_def list_all_iff)
qed


definition sample_rel :: "EventType \<Rightarrow> causes_target \<Rightarrow> ConditionCode option \<Rightarrow> Direction \<Rightarrow> flt \<Rightarrow> causes_rel" where
  "sample_rel f t c d w = \<lparr>cr_factor = f, cr_target = t, cr_condition = c, cr_direction = d,
     cr_weight = w, cr_confidence = 1, cr_alpha = 1, cr_beta = 1\<rparr>"

definition sample_graph :: graph_store where
  "sample_graph =
     \<lparr>gs_factors = [MILITARY_CONFLICT], gs_assets = [''GOLD'', ''NEM''],
      gs_causes = [sample_rel MILITARY_CONFLICT (AssetNode ''NEM'') (Some SAFE_HAVEN_ONLY) UP 1,
                   sample_rel MILITARY_CONFLICT (GroupNode ''METALS'') None UP 1],
      gs_members = [(''GOLD'', ''METALS''), (''NEM'', ''METALS'')],
      gs_correlates = [\<lparr>kr_source = ''GOLD'', kr_target = ''NEM'', kr_condition = UPSTREAM_UP,
        kr_direction = UP, kr_weight = 1, kr_confidence = 1, kr_alpha = 1, kr_beta = 1\<rparr>]\<rparr>"

lemma sample_graph_wf: "wf_graph sample_graph" "known_targets sample_registry sample_graph"
  by (simp_all add: wf_graph_def sample_graph_def sample_rel_def causes_key_def correlates_key_def
      wf_causes_def wf_correlates_def valid_weights_def float_weights_def known_targets_def)


end
