(* ===== verification/Decision.thy ===== *)
theory Decision
  imports Graph
begin

text \<open>
  The graph-only decision policy of the Prediction service
  (\<^verbatim>\<open>services/prediction/prediction/decision.py\<close>, \<^verbatim>\<open>models.py\<close>).

  Every floating-point operation of the source is followed by \<open>fl64\<close>.  The two divisions that can
  meet an empty list of agreeing edges are the \<open>ZeroDivisionError\<close> branch of \<open>decide\<close>.
\<close>

record Decision =
  de_direction :: Direction
  de_magnitude :: Magnitude
  de_confidence :: flt
  de_rationale :: ustring
  de_contributing_edges :: "ContributingEdge list"
  de_contributing_factors :: "EventType set"

type_synonym polarities = "EventType \<Rightarrow> EventPolarity option"

fun arrow :: "Direction \<Rightarrow> ustring" where
  "arrow UP = [8593]"
| "arrow DOWN = [8595]"
| "arrow NEUTRAL = [8594]"

fun flip :: "Direction \<Rightarrow> Direction" where
  "flip UP = DOWN"
| "flip DOWN = UP"
| "flip NEUTRAL = NEUTRAL"

definition is_resolution :: "FiringEdge \<Rightarrow> polarities \<Rightarrow> bool" where
  "is_resolution e pol =
     (case fe_factor_id e of None \<Rightarrow> False | Some f \<Rightarrow> pol f = Some RESOLUTION)"

definition effective_direction :: "FiringEdge \<Rightarrow> polarities \<Rightarrow> Direction" where
  "effective_direction e pol =
     (if is_resolution e pol then flip (fe_direction e) else fe_direction e)"

definition resolved_direction :: "FiringEdge \<Rightarrow> polarities \<Rightarrow> bool \<Rightarrow> Direction option" where
  "resolved_direction e pol elevated =
     (let direction = effective_direction e pol
      in if is_resolution e pol \<and> direction = DOWN \<and> \<not> elevated then None else Some direction)"

definition contributing_edge :: "FiringEdge \<Rightarrow> Direction \<Rightarrow> ContributingEdge" where
  "contributing_edge e d =
     \<lparr>ce_edge_id = edge_id e, ce_direction = d, ce_current_weight = py_round 6 (fe_reliability e),
      ce_influence_weight = fe_weight e, ce_path = edge_id e\<rparr>"

definition magnitude_of :: "flt \<Rightarrow> flt \<Rightarrow> flt \<Rightarrow> Magnitude" where
  "magnitude_of avg_weight small_max medium_max =
     (if avg_weight < small_max then SMALL else if avg_weight < medium_max then MEDIUM else LARGE)"

definition factor_label :: "FiringEdge \<Rightarrow> string" where
  "factor_label e = (case fe_factor_id e of Some f \<Rightarrow> EventType_value f | None \<Rightarrow> ''CORRELATION'')"

definition fmt2 :: "flt \<Rightarrow> ustring" where
  \<comment> \<open>the format \<^verbatim>\<open>.2f\<close> of a nonnegative float\<close>
  "fmt2 x = (let n = nat (rhe (x * 100))
             in digits10 (n div 100) @ ascii ''.'' @ [48 + n mod 100 div 10, 48 + n mod 10])"

definition rationale_of ::
  "AssetId \<Rightarrow> Direction \<Rightarrow> Magnitude \<Rightarrow> flt \<Rightarrow> (FiringEdge \<times> Direction) list \<Rightarrow> ustring" where
  "rationale_of asset_id direction magnitude confidence edges =
     (let parts = map (\<lambda>(e, eff). ascii (factor_label e) @ arrow eff @ fmt2 (fe_weight e)) edges;
          text = ascii asset_id @ ascii '' '' @ ascii (Direction_value direction) @ ascii '' ('' @
                 ascii (Magnitude_value magnitude) @ ascii '', conf '' @ fmt2 confidence @ ascii '') '' @
                 ascii ''from '' @ digits10 (length edges) @ ascii '' causal edge(s): '' @
                 ujoin (ascii '', '') parts
      in take 2000 text)"

definition effective_edges ::
  "FiringEdge list \<Rightarrow> polarities \<Rightarrow> bool \<Rightarrow> (FiringEdge \<times> Direction) list" where
  "effective_edges edges pol elevated =
     concat (map (\<lambda>e. case resolved_direction e pol elevated of None \<Rightarrow> [] | Some eff \<Rightarrow> [(e, eff)]) edges)"

definition strength :: "FiringEdge \<Rightarrow> flt" where
  "strength e = fl64 (fe_weight e * fe_reliability e)"

definition force_step :: "flt \<times> flt \<Rightarrow> FiringEdge \<times> Direction \<Rightarrow> flt \<times> flt" where
  "force_step acc ed =
     (let (net, tot) = acc; (e, eff) = ed; sign = (if eff = UP then 1 else - 1)
      in (fl64 (net + fl64 (sign * strength e)), fl64 (tot + strength e)))"

definition forces :: "(FiringEdge \<times> Direction) list \<Rightarrow> flt \<times> flt" where
  "forces directional = foldl force_step (0, 0) directional"

definition confidence_of :: "flt \<Rightarrow> flt \<Rightarrow> flt \<Rightarrow> flt" where
  "confidence_of net tot halfpoint =
     (let consensus = (if tot > 0 then fl64 (\<bar>net\<bar> / tot) else 0);
          mass = (if tot > 0 then fl64 (tot / fl64 (tot + halfpoint)) else 0)
      in py_round 4 (min 1 (fl64 (consensus * mass))))"

definition decide ::
  "AssetId \<Rightarrow> FiringEdge list \<Rightarrow> flt \<Rightarrow> flt \<Rightarrow> flt \<Rightarrow> polarities \<Rightarrow> bool \<Rightarrow> flt \<Rightarrow>
   (py_error, Decision option) result" where
  "decide asset_id edges deadband small_max medium_max pol elevated halfpoint =
     (let effective = effective_edges edges pol elevated;
          directional = filter (\<lambda>(e, eff). eff = UP \<or> eff = DOWN) effective
      in if directional = [] then Inr None
         else
           let (net, tot) = forces directional;
               confidence = confidence_of net tot halfpoint;
               direction = (if confidence < deadband then NEUTRAL else if net > 0 then UP else DOWN);
               agreeing = (if direction = NEUTRAL then map fst directional
                           else map fst (filter (\<lambda>(e, eff). eff = direction) directional))
           in if agreeing = [] then Inl ZeroDivisionError
              else
                let avg_weight = fl64 (py_sum (map fe_weight agreeing) / of_nat (length agreeing));
                    magnitude = magnitude_of avg_weight small_max medium_max
                in Inr (Some
                     \<lparr>de_direction = direction, de_magnitude = magnitude, de_confidence = confidence,
                      de_rationale = rationale_of asset_id direction magnitude confidence effective,
                      de_contributing_edges = map (\<lambda>(e, eff). contributing_edge e eff) effective,
                      de_contributing_factors =
                        set (concat (map (\<lambda>(e, _). case fe_factor_id e of None \<Rightarrow> [] | Some f \<Rightarrow> [f])
                          effective))\<rparr>))"

subsection \<open>Forces\<close>

lemma strength_unit:
  assumes "wf_FiringEdge e"
  shows "0 \<le> strength e" and "strength e \<le> 1"
proof -
  have w: "0 \<le> fe_weight e" "fe_weight e \<le> 1"
    using assms by (auto simp: wf_FiringEdge_def valid_FiringEdge_def valid_weights_def)
  show "0 \<le> strength e" "strength e \<le> 1"
    unfolding strength_def using w fe_reliability_unit [OF assms] by (intro b64.rnd_unit_mult; simp)+
qed

lemma fl64_strength [simp]: "fl64 (strength e) = strength e" "fl64 (- strength e) = - strength e"
  by (simp_all add: strength_def b64.rnd_minus)

lemma force_step_simps [simp]:
  "force_step (n, t) (e, UP) = (fl64 (n + strength e), fl64 (t + strength e))"
  "force_step (n, t) (e, DOWN) = (fl64 (n - strength e), fl64 (t + strength e))"
  by (simp_all add: force_step_def)

definition forces_inv :: "(FiringEdge \<times> Direction) list \<Rightarrow> flt \<times> flt \<Rightarrow> bool" where
  "forces_inv ds acc \<longleftrightarrow> \<bar>fst acc\<bar> \<le> snd acc \<and> is_flt (fst acc) \<and> is_flt (snd acc) \<and>
     (0 < fst acc \<longrightarrow> UP \<in> snd ` set ds) \<and> (fst acc < 0 \<longrightarrow> DOWN \<in> snd ` set ds)"

definition directional_ok :: "(FiringEdge \<times> Direction) list \<Rightarrow> bool" where
  "directional_ok ds \<longleftrightarrow> (\<forall>(e, d) \<in> set ds. wf_FiringEdge e \<and> (d = UP \<or> d = DOWN))"

lemma forces_snoc: "forces (ds @ [x]) = force_step (forces ds) x"
  by (simp add: forces_def)

lemma forces_inv_step:
  assumes "forces_inv ds acc" "wf_FiringEdge e" "d = UP \<or> d = DOWN"
  shows "forces_inv (ds @ [(e, d)]) (force_step acc (e, d))"
proof -
  obtain n t where acc: "acc = (n, t)" by (cases acc)
  have s: "0 \<le> strength e" using strength_unit assms by blast
  from assms(1) have n: "is_flt n" "0 < n \<Longrightarrow> UP \<in> snd ` set ds" "n < 0 \<Longrightarrow> DOWN \<in> snd ` set ds"
    by (auto simp: forces_inv_def acc)
  from assms(3) show ?thesis
  proof
    assume d: "d = UP"
    have "\<bar>fl64 (n + strength e)\<bar> \<le> fl64 (t + strength e)"
      using assms(1) s by (intro b64.rnd_signed_step) (auto simp: forces_inv_def acc)
    moreover have "fl64 (n + strength e) < 0 \<Longrightarrow> n < 0" using s b64.rnd_neg_arg [of "n + strength e"] by linarith
    ultimately show ?thesis using n d by (auto simp: forces_inv_def acc)
  next
    assume d: "d = DOWN"
    have "\<bar>fl64 (n + - strength e)\<bar> \<le> fl64 (t + strength e)"
      using assms(1) s by (intro b64.rnd_signed_step) (auto simp: forces_inv_def acc)
    moreover have "0 < fl64 (n - strength e) \<Longrightarrow> 0 < n" using s b64.rnd_pos_arg [of "n - strength e"] by linarith
    ultimately show ?thesis using n d by (auto simp: forces_inv_def acc)
  qed
qed

lemma forces_ok: "directional_ok ds \<Longrightarrow> forces_inv ds (forces ds)"
proof (induction ds rule: rev_induct)
  case Nil
  then show ?case by (simp add: forces_def forces_inv_def)
next
  case (snoc x ds)
  obtain e d where x: "x = (e, d)" by (cases x)
  with snoc have "forces_inv ds (forces ds)" "wf_FiringEdge e" "d = UP \<or> d = DOWN"
    by (auto simp: directional_ok_def)
  then show ?case unfolding x forces_snoc by (rule forces_inv_step)
qed

subsection \<open>Confidence\<close>

lemma confidence_unit: "0 \<le> confidence_of n t h" if "0 \<le> t" "0 < h"
  using that unfolding confidence_of_def Let_def
  by (auto intro!: py_round_nonneg b64.rnd_nonneg mult_nonneg_nonneg divide_nonneg_nonneg)

lemma confidence_le_1: "confidence_of n t h \<le> 1"
  by (simp add: confidence_of_def Let_def py_round_le_1)

lemma confidence_pos_net: "0 < confidence_of n t h \<Longrightarrow> n \<noteq> 0"
  by (cases "0 < t"; cases "n = 0") (simp_all add: confidence_of_def Let_def)

lemma confidence_of_neg: "confidence_of (- n) t h = confidence_of n t h"
  by (simp add: confidence_of_def)

lemma confidence_unanimous:
  assumes "\<bar>n\<bar> = t" "0 < t" "0 < h" "is_flt t"
  shows "confidence_of n t h = py_round 4 (fl64 (t / fl64 (t + h)))"
proof -
  have "t \<le> fl64 (t + h)" using assms by (intro b64.rnd_add_ge) (auto simp: is_flt_def)
  then have "fl64 (t / fl64 (t + h)) \<le> 1" using assms by (intro b64.rnd_ratio) auto
  then show ?thesis using assms by (simp add: confidence_of_def Let_def)
qed

subsection \<open>The decision\<close>

lemma effective_edges_mem:
  "(e, d) \<in> set (effective_edges edges pol elevated) \<longleftrightarrow>
     e \<in> set edges \<and> resolved_direction e pol elevated = Some d"
  by (auto simp: effective_edges_def split: option.splits)

abbreviation directional :: "FiringEdge list \<Rightarrow> polarities \<Rightarrow> bool \<Rightarrow> (FiringEdge \<times> Direction) list" where
  "directional edges pol elevated \<equiv>
     filter (\<lambda>(e, eff). eff = UP \<or> eff = DOWN) (effective_edges edges pol elevated)"

lemma directional_ok:
  "\<forall>e \<in> set edges. wf_FiringEdge e \<Longrightarrow> directional_ok (directional edges pol elevated)"
  by (auto simp: directional_ok_def effective_edges_mem)

lemma decide_None_iff:
  "decide a edges db sm mm pol el h = Inr None \<longleftrightarrow> directional edges pol el = []"
  by (simp add: decide_def Let_def split: prod.splits)

definition agreeing :: "Direction \<Rightarrow> (FiringEdge \<times> Direction) list \<Rightarrow> FiringEdge list" where
  "agreeing d ds = (if d = NEUTRAL then map fst ds else map fst (filter (\<lambda>(e, eff). eff = d) ds))"

definition stance :: "flt \<Rightarrow> flt \<Rightarrow> flt \<Rightarrow> Direction" where
  "stance c net db = (if c < db then NEUTRAL else if net > 0 then UP else DOWN)"

text \<open>The direction the policy picks has an edge that agrees with it.\<close>

lemma decide_agreeing:
  assumes wf: "\<forall>e \<in> set edges. wf_FiringEdge e" and db: "0 < db"
    and f: "forces (directional edges pol el) = (n, t)"
    and d: "d = stance (confidence_of n t h) n db"
  shows "d = NEUTRAL \<or> d \<in> snd ` set (directional edges pol el)"
proof (cases "confidence_of n t h < db")
  case False
  then have "n \<noteq> 0" using db confidence_pos_net [of n t h] by simp
  moreover have "forces_inv (directional edges pol el) (n, t)"
    using forces_ok [OF directional_ok [OF wf], of pol el] unfolding f .
  ultimately show ?thesis using d False by (auto simp: forces_inv_def stance_def split: if_splits)
qed (simp add: d stance_def)

lemma decide_unfold:
  assumes "forces (directional edges pol el) = (n, t)" and "d = stance (confidence_of n t h) n db"
    and "ag = agreeing d (directional edges pol el)"
    and "m = magnitude_of (fl64 (py_sum (map fe_weight ag) / of_nat (length ag))) sm mm"
  shows "decide a edges db sm mm pol el h =
    (if directional edges pol el = [] then Inr None
     else if ag = [] then Inl ZeroDivisionError
     else Inr (Some \<lparr>de_direction = d, de_magnitude = m, de_confidence = confidence_of n t h,
        de_rationale = rationale_of a d m (confidence_of n t h) (effective_edges edges pol el),
        de_contributing_edges = map (\<lambda>(e, eff). contributing_edge e eff) (effective_edges edges pol el),
        de_contributing_factors = set (concat (map (\<lambda>(e, _). case fe_factor_id e of None \<Rightarrow> [] | Some f \<Rightarrow> [f])
          (effective_edges edges pol el)))\<rparr>))"
  using assms unfolding decide_def Let_def stance_def agreeing_def by simp

lemma decide_Some:
  assumes wf: "\<forall>e \<in> set edges. wf_FiringEdge e" and db: "0 < db"
    and ne: "directional edges pol el \<noteq> []" and f: "forces (directional edges pol el) = (n, t)"
  shows "\<exists>d. decide a edges db sm mm pol el h = Inr (Some d)"
proof -
  let ?d = "stance (confidence_of n t h) n db"
  have "?d \<noteq> NEUTRAL \<Longrightarrow> filter (\<lambda>(e, eff). eff = ?d) (directional edges pol el) \<noteq> []"
    using decide_agreeing [OF wf db f refl, of h] unfolding filter_empty_conv by fastforce
  then have "agreeing ?d (directional edges pol el) \<noteq> []" using ne by (auto simp: agreeing_def simp del: filter_filter)
  then show ?thesis unfolding decide_unfold [OF f refl refl refl] using ne by (simp del: filter_filter)
qed

lemma decide_parts:
  assumes "decide a edges db sm mm pol el h = Inr (Some dec)" and "forces (directional edges pol el) = (n, t)"
  shows "de_confidence dec = confidence_of n t h"
    and "de_direction dec = stance (confidence_of n t h) n db"
    and "de_magnitude dec = (let ws = map fe_weight (agreeing (de_direction dec) (directional edges pol el))
        in magnitude_of (fl64 (py_sum ws / of_nat (length ws))) sm mm)"
    and "de_rationale dec = rationale_of a (de_direction dec) (de_magnitude dec) (de_confidence dec)
          (effective_edges edges pol el)"
    and "de_contributing_edges dec = map (\<lambda>(e, eff). contributing_edge e eff) (effective_edges edges pol el)"
  using assms(1) unfolding decide_unfold [OF assms(2) refl refl refl]
  by (auto split: if_splits simp: Let_def)

lemma contributing_edge_valid: "wf_FiringEdge e \<Longrightarrow> valid_ContributingEdge (contributing_edge e d)"
  using fe_reliability_unit [of e]
  by (auto simp: valid_ContributingEdge_def contributing_edge_def edge_id_def edge_key_text_def
      wf_FiringEdge_def valid_FiringEdge_def valid_weights_def py_round_nonneg py_round_le_1
      split: option.splits)

lemma rationale_length: "1 \<le> length (rationale_of a d m c es) \<and> length (rationale_of a d m c es) \<le> 2000"
proof -
  have *: "xs \<noteq> [] \<Longrightarrow> 1 \<le> length (take 2000 xs) \<and> length (take 2000 xs) \<le> 2000" for xs :: ustring
    by (cases xs) simp_all
  show ?thesis unfolding rationale_of_def Let_def by (rule *) (simp add: ascii_def)
qed

text \<open>
  C4: The decision is total and bounded.  For edges the graph client can return and a positive
  deadband, \<^verbatim>\<open>decide\<close> never raises: it returns no decision exactly when no edge pushes up or down,
  and otherwise a decision with confidence in [0, 1], a rationale of 1 to 2000 characters and
  contributing edges the message schema accepts; the decision is \<^verbatim>\<open>NEUTRAL\<close> exactly when the
  confidence is below the deadband, and a directional decision is the direction of a firing edge.
\<close>

theorem decide_total:
  assumes "\<forall>e \<in> set edges. wf_FiringEdge e" and "0 < db" and "0 < h"
  shows "(directional edges pol el = [] \<and> decide a edges db sm mm pol el h = Inr None) \<or>
    (\<exists>d. decide a edges db sm mm pol el h = Inr (Some d) \<and>
       0 \<le> de_confidence d \<and> de_confidence d \<le> 1 \<and>
       1 \<le> length (de_rationale d) \<and> length (de_rationale d) \<le> 2000 \<and>
       list_all valid_ContributingEdge (de_contributing_edges d) \<and>
       (de_direction d = NEUTRAL \<longleftrightarrow> de_confidence d < db) \<and>
       (de_direction d \<noteq> NEUTRAL \<longrightarrow>
          (\<exists>e \<in> set edges. resolved_direction e pol el = Some (de_direction d))))"
proof (cases "directional edges pol el = []")
  case True
  then show ?thesis by (simp add: decide_None_iff)
next
  case False
  obtain n t where f: "forces (directional edges pol el) = (n, t)" by fastforce
  have inv: "forces_inv (directional edges pol el) (n, t)"
    using forces_ok [OF directional_ok [OF assms(1)], of pol el] unfolding f .
  then have "0 \<le> t" by (auto simp: forces_inv_def)
  then have c: "0 \<le> confidence_of n t h" "confidence_of n t h \<le> 1"
    using assms(3) by (auto simp: confidence_unit confidence_le_1)
  have v: "list_all valid_ContributingEdge
      (map (\<lambda>(e, eff). contributing_edge e eff) (effective_edges edges pol el))"
    using assms(1) by (auto simp: list_all_iff effective_edges_mem contributing_edge_valid)
  obtain d where d: "decide a edges db sm mm pol el h = Inr (Some d)"
    using decide_Some [OF assms(1,2) False f] by blast
  note p = decide_parts [OF this f]
  have "de_direction d \<noteq> NEUTRAL \<Longrightarrow> \<exists>e \<in> set edges. resolved_direction e pol el = Some (de_direction d)"
    using decide_agreeing [OF assms(1,2) f p(2)] by (auto simp: effective_edges_mem)
  moreover have "de_direction d = NEUTRAL \<longleftrightarrow> de_confidence d < db" using p(1,2) by (simp add: stance_def)
  ultimately show ?thesis using d c v rationale_length p(1,4,5) by (intro disjI2 exI [of _ d]) metis
qed

subsection \<open>Mirror symmetry\<close>

definition mirror :: "FiringEdge \<Rightarrow> FiringEdge" where
  "mirror e = e\<lparr>fe_direction := flip (fe_direction e)\<rparr>"

abbreviation no_polarity :: polarities where
  "no_polarity \<equiv> \<lambda>_. None"

lemma mirror_simps [simp]:
  "strength (mirror e) = strength e" "fe_weight (mirror e) = fe_weight e"
  "fe_direction (mirror e) = flip (fe_direction e)" "wf_FiringEdge (mirror e) = wf_FiringEdge e"
  by (simp_all add: mirror_def strength_def fe_reliability_def wf_FiringEdge_def valid_FiringEdge_def)

lemma flip_flip [simp]: "flip (flip d) = d"
  by (cases d) simp_all

lemma flip_eq [simp]: "flip d = UP \<longleftrightarrow> d = DOWN" "flip d = DOWN \<longleftrightarrow> d = UP" "flip d = NEUTRAL \<longleftrightarrow> d = NEUTRAL"
  by (cases d; simp)+

lemma flip_inj [simp]: "flip d = flip d' \<longleftrightarrow> d = d'"
  by (metis flip_flip)

lemma resolved_no_polarity [simp]: "resolved_direction e no_polarity el = Some (fe_direction e)"
  by (simp add: resolved_direction_def effective_direction_def is_resolution_def split: option.splits)

lemma effective_no_polarity: "effective_edges edges no_polarity el = map (\<lambda>e. (e, fe_direction e)) edges"
  by (simp add: effective_edges_def comp_def)

lemma directional_mirror:
  "directional (map mirror edges) no_polarity el =
     map (\<lambda>(e, d). (mirror e, flip d)) (directional edges no_polarity el)"
  by (induction edges) (auto simp: effective_no_polarity)

lemma forces_mirror:
  "\<forall>(e, d) \<in> set ds. d = UP \<or> d = DOWN \<Longrightarrow>
   forces (map (\<lambda>(e, d). (mirror e, flip d)) ds) = (- fst (forces ds), snd (forces ds))"
proof (induction ds rule: rev_induct)
  case Nil
  then show ?case by (simp add: forces_def)
next
  case (snoc x ds)
  obtain e d n t where x: "x = (e, d)" and f: "forces ds = (n, t)" by (metis surj_pair)
  have neg: "fl64 (- n - y) = - fl64 (n + y)" "fl64 (- n + y) = - fl64 (n - y)" for y
    using b64.rnd_minus [of "n + y"] b64.rnd_minus [of "n - y"] by (simp_all add: algebra_simps)
  from snoc x have "d = UP \<or> d = DOWN" by auto
  then show ?case using snoc f neg by (auto simp: x forces_snoc)
qed

lemma agreeing_mirror:
  "map fe_weight (agreeing (flip d) (map (\<lambda>(e, d). (mirror e, flip d)) ds)) = map fe_weight (agreeing d ds)"
  by (induction ds) (auto simp: agreeing_def)

text \<open>
  The decision treats up and down alike.  With no resolved factor and a positive deadband, flipping
  the direction of every firing edge flips the decided direction and leaves the confidence and the
  magnitude bucket unchanged, including every rounding of the arithmetic.
\<close>

theorem decide_mirror:
  assumes "\<forall>e \<in> set edges. wf_FiringEdge e" and "0 < db"
    and "decide a edges db sm mm no_polarity el h = Inr (Some d)"
  shows "\<exists>d'. decide a (map mirror edges) db sm mm no_polarity el h = Inr (Some d') \<and>
    de_direction d' = flip (de_direction d) \<and> de_confidence d' = de_confidence d \<and>
    de_magnitude d' = de_magnitude d"
proof -
  let ?ds = "directional edges no_polarity el" and ?ms = "directional (map mirror edges) no_polarity el"
  obtain n t where f: "forces ?ds = (n, t)" by fastforce
  have ne: "?ds \<noteq> []" using assms(3) decide_None_iff [of a edges db sm mm no_polarity el h] by auto
  have f': "forces ?ms = (- n, t)" using forces_mirror [of ?ds] f by (auto simp: directional_mirror)
  have wf': "\<forall>e \<in> set (map mirror edges). wf_FiringEdge e" using assms(1) by auto
  have "?ms \<noteq> []" using ne by (simp add: directional_mirror)
  from decide_Some [OF wf' assms(2) this f'] obtain d'
    where d': "decide a (map mirror edges) db sm mm no_polarity el h = Inr (Some d')" by blast
  note p = decide_parts [OF assms(3) f] and p' = decide_parts [OF d' f']
  have conf: "de_confidence d' = de_confidence d" using p p' by (simp add: confidence_of_neg)
  have dir: "de_direction d' = flip (de_direction d)"
    using p(2) p'(2) assms(2) confidence_pos_net [of n t h]
    by (auto simp: confidence_of_neg stance_def split: if_splits)
  have "map fe_weight (agreeing (de_direction d') ?ms) = map fe_weight (agreeing (de_direction d) ?ds)"
    unfolding dir directional_mirror by (rule agreeing_mirror)
  then have "de_magnitude d' = de_magnitude d" unfolding p(3) p'(3) by presburger
  with d' dir conf show ?thesis by blast
qed

subsection \<open>Unanimous evidence\<close>

lemma half_share:
  assumes "is_flt t" "0 < t" "t \<le> 1 / 2"
  shows "fl64 (t / fl64 (t + 1 / 2)) \<le> 1 / 2"
proof -
  have "2 * t = fl64 (2 * t)" using is_flt_double_pos [OF assms(1,2)] by (simp add: is_flt_def)
  also have "\<dots> \<le> fl64 (t + 1 / 2)" using assms by (intro b64.rnd_mono) simp
  finally have "t / fl64 (t + 1 / 2) \<le> 1 / 2" using assms by (simp add: field_simps)
  then have "fl64 (t / fl64 (t + 1 / 2)) \<le> fl64 (1 / 2)" by (rule b64.rnd_mono)
  also have "fl64 (1 / 2) = 1 / 2" by (simp add: flt_eval)
  finally show ?thesis .
qed

lemma unanimous_forces:
  assumes "directional_ok ds" "\<forall>(e, d) \<in> set ds. d = d0"
  shows "\<bar>fst (forces ds)\<bar> = snd (forces ds)"
proof -
  have "(d0 = UP \<longrightarrow> fst (forces ds) = snd (forces ds)) \<and> (d0 = DOWN \<longrightarrow> fst (forces ds) = - snd (forces ds))"
    using assms
  proof (induction ds rule: rev_induct)
    case Nil
    then show ?case by (simp add: forces_def)
  next
    case (snoc x ds)
    obtain e d n t where x: "x = (e, d)" and f: "forces ds = (n, t)" by (metis surj_pair)
    have neg: "fl64 (- t - y) = - fl64 (t + y)" for y
      using b64.rnd_minus [of "t + y"] by (simp add: algebra_simps)
    from snoc show ?case by (auto simp: x f forces_snoc directional_ok_def neg)
  qed
  moreover have "0 \<le> snd (forces ds)" using forces_ok [OF assms(1)] by (auto simp: forces_inv_def)
  moreover have "ds = [] \<or> d0 = UP \<or> d0 = DOWN"
    using assms by (cases ds) (auto simp: directional_ok_def)
  ultimately show ?thesis by (auto simp: forces_def)
qed


text \<open>
  Unanimous evidence.  When every edge that pushes at all pushes the same way, opposing evidence
  cancels nothing: the consensus term is exactly 1 despite rounding, and the confidence is the rounded
  evidence mass \<^verbatim>\<open>total / (total + halfpoint)\<close> alone.
\<close>

theorem unanimous_confidence:
  assumes "\<forall>e \<in> set edges. wf_FiringEdge e" and "0 < db" and "0 < h"
    and "\<forall>(e, d) \<in> set (directional edges pol el). d = d0"
    and "0 < snd (forces (directional edges pol el))"
  shows "\<exists>d. decide a edges db sm mm pol el h = Inr (Some d) \<and>
    de_confidence d = py_round 4 (fl64 (snd (forces (directional edges pol el)) /
      fl64 (snd (forces (directional edges pol el)) + h)))"
proof -
  let ?ds = "directional edges pol el"
  obtain n t where f: "forces ?ds = (n, t)" by fastforce
  have ok: "directional_ok ?ds" by (rule directional_ok [OF assms(1)])
  have "?ds \<noteq> []" using assms(5) by (auto simp: forces_def)
  then obtain d where d: "decide a edges db sm mm pol el h = Inr (Some d)"
    using decide_Some [OF assms(1,2) _ f] by blast
  have "\<bar>n\<bar> = t" using unanimous_forces [OF ok assms(4)] f by simp
  moreover have "is_flt t" using forces_ok [OF ok] f by (simp add: forces_inv_def)
  ultimately have "confidence_of n t h = py_round 4 (fl64 (t / fl64 (t + h)))"
    using assms(3,5) f by (intro confidence_unanimous) auto
  with d decide_parts(1) [OF d f] f show ?thesis by auto
qed

definition sample_edge :: "EventType \<Rightarrow> Direction \<Rightarrow> flt \<Rightarrow> FiringEdge" where
  "sample_edge f d w = \<lparr>fe_factor_id = Some f, fe_asset_id = ''GOLD'', fe_direction = d, fe_weight = w,
     fe_confidence = 1, fe_alpha = 1, fe_beta = 1, fe_condition = None, fe_inherited_from = None,
     fe_correlation_source_id = None\<rparr>"

lemma sample_edge_wf: "wf_FiringEdge (sample_edge f d 1)" "wf_FiringEdge (sample_edge f d 0)"
  by (simp_all add: wf_FiringEdge_def sample_edge_def valid_FiringEdge_def valid_weights_def float_weights_def)

lemma beta_mean_1_1 [simp]: "beta_mean 1 1 = 1 / 2"
  by (simp add: beta_mean_def fl64_numeral) (simp add: flt_eval)

lemma fl64_half [simp]: "fl64 (1 / 2) = 1 / 2"
  by (simp add: flt_eval)

lemma sample_edge_strength [simp]: "strength (sample_edge f d 1) = 1 / 2" "strength (sample_edge f d 0) = 0"
  by (simp_all add: strength_def sample_edge_def fe_reliability_def)

lemma sample_directional:
  "directional [sample_edge f UP w] no_polarity el = [(sample_edge f UP w, UP)]"
  by (simp add: effective_no_polarity sample_edge_def)

lemma sample_forces:
  "forces (directional [sample_edge MILITARY_CONFLICT UP 1] no_polarity False) = (1 / 2, 1 / 2)"
  unfolding sample_directional by (simp add: forces_def)

lemma sample_decides:
  "\<exists>d. decide ''GOLD'' [sample_edge MILITARY_CONFLICT UP 1] (1 / 8) (2 / 5) (7 / 10) no_polarity False (1 / 2) =
     Inr (Some d)"
  by (rule decide_Some [OF _ _ _ sample_forces]) (simp_all add: sample_edge_wf sample_directional)

theorem unanimous_confidence_witness:
  "\<exists>d. decide ''GOLD'' [sample_edge MILITARY_CONFLICT UP 1] (1 / 8) (2 / 5) (7 / 10) no_polarity False (1 / 2) =
     Inr (Some d) \<and> de_confidence d = 1 / 2"
proof -
  note f = sample_forces
  have "\<exists>d. decide ''GOLD'' [sample_edge MILITARY_CONFLICT UP 1] (1 / 8) (2 / 5) (7 / 10) no_polarity False (1 / 2) =
     Inr (Some d) \<and> de_confidence d = py_round 4 (fl64 (1 / 2 / fl64 (1 / 2 + 1 / 2)))"
    using unanimous_confidence [of "[sample_edge MILITARY_CONFLICT UP 1]" "1 / 8" "1 / 2" no_polarity False UP
        "''GOLD''" "2 / 5" "7 / 10"]
    unfolding f by (simp add: sample_edge_wf sample_directional)
  moreover have "py_round 4 (fl64 (1 / 2 / fl64 (1 / 2 + 1 / 2))) = (1 / 2 :: rat)"
    by (simp add: py_round_def) (simp add: flt_eval)
  ultimately show ?thesis by metis
qed

theorem decide_total_witness:
  "\<exists>d. decide ''GOLD'' [sample_edge MILITARY_CONFLICT UP 1] (1 / 8) (2 / 5) (7 / 10) no_polarity False (1 / 2) =
     Inr (Some d) \<and> de_confidence d \<le> 1"
proof -
  have "directional [sample_edge MILITARY_CONFLICT UP 1] no_polarity False \<noteq> []"
    unfolding sample_directional by simp
  then show ?thesis
    using decide_total [of "[sample_edge MILITARY_CONFLICT UP 1]" "1 / 8" "1 / 2" no_polarity False
        "''GOLD''" "2 / 5" "7 / 10"] by (auto simp: sample_edge_wf)
qed

theorem decide_mirror_witness:
  "\<exists>d d'. decide ''GOLD'' [sample_edge MILITARY_CONFLICT UP 1] (1 / 8) (2 / 5) (7 / 10) no_polarity False (1 / 2) =
       Inr (Some d) \<and>
     decide ''GOLD'' [mirror (sample_edge MILITARY_CONFLICT UP 1)] (1 / 8) (2 / 5) (7 / 10) no_polarity False (1 / 2) =
       Inr (Some d') \<and> de_direction d' = flip (de_direction d)"
proof -
  obtain d where d: "decide ''GOLD'' [sample_edge MILITARY_CONFLICT UP 1] (1 / 8) (2 / 5) (7 / 10)
      no_polarity False (1 / 2) = Inr (Some d)"
    using sample_decides by blast
  from decide_mirror [OF _ _ d] show ?thesis using d by (auto simp: sample_edge_wf)
qed

subsection \<open>One edge with the seeded counts\<close>

text \<open>
  The confidence ceiling the propagation threshold is chosen for.  With the seeded counts
  \<^verbatim>\<open>alpha = beta = 1\<close> and the default half-point 0.5, a decision that rests on a single edge never has
  confidence above 0.5, whatever the edge's weight.
\<close>

theorem single_edge_ceiling:
  assumes "wf_FiringEdge e" and "fe_alpha e = 1" and "fe_beta e = 1" and "0 < db"
    and "decide a [e] db sm mm pol el (1 / 2) = Inr (Some d)"
  shows "de_confidence d \<le> 1 / 2"
proof -
  let ?ds = "directional [e] pol el"
  have "?ds \<noteq> []" using assms(5) decide_None_iff [of a "[e]" db sm mm pol el "1 / 2"] by auto
  then obtain dir where ds: "?ds = [(e, dir)]" and dir: "dir = UP \<or> dir = DOWN"
    by (auto simp: effective_edges_def split: option.splits if_splits)
  define t where "t = strength e"
  have f: "forces ?ds = (if dir = UP then t else - t, t)"
    using dir unfolding ds t_def by (auto simp: forces_def)
  have t: "0 \<le> t" "t \<le> 1 / 2" "is_flt t"
  proof -
    have w: "0 \<le> fe_weight e" "fe_weight e \<le> 1"
      using assms(1) by (auto simp: wf_FiringEdge_def valid_FiringEdge_def valid_weights_def)
    have "t = fl64 (fe_weight e * (1 / 2))" by (simp add: t_def strength_def fe_reliability_def assms(2,3))
    also have "\<dots> \<le> fl64 (1 / 2)" using w by (intro b64.rnd_mono) simp
    finally show "t \<le> 1 / 2" by simp
    show "0 \<le> t" using strength_unit(1) [OF assms(1)] by (simp add: t_def)
    show "is_flt t" by (simp add: t_def strength_def)
  qed
  have "de_confidence d = confidence_of (if dir = UP then t else - t) t (1 / 2)"
    using decide_parts(1) [OF assms(5) f] .
  also have "\<dots> \<le> 1 / 2"
  proof (cases "t = 0")
    case True
    then show ?thesis by (simp add: confidence_of_def)
  next
    case False
    with t have "confidence_of (if dir = UP then t else - t) t (1 / 2) = py_round 4 (fl64 (t / fl64 (t + 1 / 2)))"
      by (intro confidence_unanimous) auto
    also have "\<dots> \<le> py_round 4 (1 / 2)" using half_share [OF t(3) _ t(2)] t False by (intro py_round_mono) auto
    also have "\<dots> = 1 / 2" by (simp add: py_round_def) (simp add: flt_eval)
    finally show ?thesis .
  qed
  finally show ?thesis .
qed

theorem single_edge_ceiling_witness:
  "\<exists>d. decide ''GOLD'' [sample_edge MILITARY_CONFLICT UP 1] (1 / 8) (2 / 5) (7 / 10) no_polarity False (1 / 2) =
     Inr (Some d) \<and> de_confidence d \<le> 1 / 2"
proof -
  obtain d where d: "decide ''GOLD'' [sample_edge MILITARY_CONFLICT UP 1] (1 / 8) (2 / 5) (7 / 10)
      no_polarity False (1 / 2) = Inr (Some d)"
    using sample_decides by blast
  have "de_confidence d \<le> 1 / 2"
    by (rule single_edge_ceiling [OF sample_edge_wf(1) _ _ _ d]) (simp_all add: sample_edge_def)
  with d show ?thesis by blast
qed

subsection \<open>The price gate\<close>

lemma effective_gate:
  "effective_edges edges pol False =
   effective_edges (filter (\<lambda>e. \<not> (is_resolution e pol \<and> fe_direction e = UP)) edges) pol True"
  by (induction edges)
    (auto simp: effective_edges_def resolved_direction_def effective_direction_def Let_def)

text \<open>
  The Scope-B price gate removes evidence and does nothing else.  With a price that is not
  elevated the decision - errors included - is the one taken on the edges left after dropping every
  up-edge whose factor was resolved; in particular nothing is decided when only such edges fire.
\<close>

theorem price_gate_drops_edges:
  "decide a edges db sm mm pol False h =
     decide a (filter (\<lambda>e. \<not> (is_resolution e pol \<and> fe_direction e = UP)) edges) db sm mm pol True h"
  unfolding decide_def effective_gate ..

text \<open>
  The deadband must be positive.  The configuration admits a deadband of 0.0; with it, a single
  up-edge of weight 0 makes \<^verbatim>\<open>decide\<close> divide by the length of an empty list of agreeing edges.
\<close>

theorem decide_zero_deadband_raises:
  "decide ''GOLD'' [sample_edge MILITARY_CONFLICT UP 0] 0 (2 / 5) (7 / 10) no_polarity False (1 / 2) =
     Inl ZeroDivisionError"
proof -
  have f: "forces (directional [sample_edge MILITARY_CONFLICT UP 0] no_polarity False) = (0, 0)"
    unfolding sample_directional by (simp add: forces_def)
  have "stance (confidence_of 0 0 (1 / 2)) 0 0 = DOWN" by (simp add: stance_def confidence_of_def)
  then show ?thesis
    unfolding decide_unfold [OF f refl refl refl] sample_directional by (simp add: agreeing_def)
qed

end
