(* ===== verification/Outbox.thy ===== *)
theory Outbox
  imports Schemas
begin

text \<open>
  The transactional outbox relays (\<^verbatim>\<open>outbox.py\<close> of the prediction, verification and cleansing
  services).  The three publishers run the same loop over their own table: \<open>relay\<close> is that loop, with
  the decoding of a stored payload and the broker as arguments.  \<open>decode\<close> fails with the exception
  text on a payload it cannot read; \<open>send\<close> answers \<open>None\<close> when the broker accepted the message and the
  exception text otherwise.  What the relay hands to the broker is recorded in order.
\<close>

datatype DeliveryStatus = DS_PENDING | DS_DELIVERED

record 'm outbox_row =
  ob_message_id :: uuid
  ob_aggregate_id :: uuid
  ob_payload :: 'm
  ob_status :: DeliveryStatus
  ob_attempts :: nat
  ob_last_error :: "string option"
  ob_created_at :: instant
  ob_delivered_at :: "instant option"

definition new_outbox_row :: "uuid \<Rightarrow> uuid \<Rightarrow> 'm \<Rightarrow> instant \<Rightarrow> 'm outbox_row" where
  "new_outbox_row mid agg payload now =
     \<lparr>ob_message_id = mid, ob_aggregate_id = agg, ob_payload = payload, ob_status = DS_PENDING,
      ob_attempts = 0, ob_last_error = None, ob_created_at = now, ob_delivered_at = None\<rparr>"

definition mark_failed :: "string \<Rightarrow> 'm outbox_row \<Rightarrow> 'm outbox_row" where
  "mark_failed err r = r\<lparr>ob_attempts := ob_attempts r + 1, ob_last_error := Some err\<rparr>"

definition mark_delivered :: "instant \<Rightarrow> 'm outbox_row \<Rightarrow> 'm outbox_row" where
  "mark_delivered now r =
     r\<lparr>ob_status := DS_DELIVERED, ob_delivered_at := Some now, ob_last_error := None\<rparr>"

definition attempt ::
  "('m \<Rightarrow> (string, 'w) result) \<Rightarrow> ('w \<Rightarrow> string option) \<Rightarrow> 'm outbox_row \<Rightarrow> (string, 'w) result" where
  "attempt decode send r =
     bind_result (decode (ob_payload r)) (\<lambda>msg. case send msg of None \<Rightarrow> Inr msg | Some err \<Rightarrow> Inl err)"

definition relay_step ::
  "('m \<Rightarrow> (string, 'w) result) \<Rightarrow> ('w \<Rightarrow> string option) \<Rightarrow> instant \<Rightarrow>
   'm outbox_row list \<times> (uuid \<times> 'w) list \<Rightarrow> 'm outbox_row \<Rightarrow> 'm outbox_row list \<times> (uuid \<times> 'w) list" where
  "relay_step decode send now acc row =
     (let (rows, sent) = acc; hit = (\<lambda>r. ob_message_id r = ob_message_id row)
      in case attempt decode send row of
           Inl err \<Rightarrow> (update_where hit (mark_failed err) rows, sent)
         | Inr msg \<Rightarrow> (update_where hit (mark_delivered now) rows, sent @ [(ob_message_id row, msg)]))"

definition pending_batch :: "nat \<Rightarrow> 'm outbox_row list \<Rightarrow> 'm outbox_row list" where
  "pending_batch batch_size rows = select_ordered (\<lambda>r. ob_status r = DS_PENDING) ob_created_at batch_size rows"

definition relay ::
  "('m \<Rightarrow> (string, 'w) result) \<Rightarrow> ('w \<Rightarrow> string option) \<Rightarrow> instant \<Rightarrow> nat \<Rightarrow>
   'm outbox_row list \<Rightarrow> 'm outbox_row list \<times> (uuid \<times> 'w) list" where
  "relay decode send now batch_size rows =
     foldl (relay_step decode send now) (rows, []) (pending_batch batch_size rows)"

subsection \<open>The three publishers\<close>

definition prediction_publish_pending ::
  "(PredictionMade \<Rightarrow> string option) \<Rightarrow> instant \<Rightarrow> nat \<Rightarrow> PredictionMade outbox_row list \<Rightarrow>
   PredictionMade outbox_row list \<times> (uuid \<times> PredictionMade) list" where
  "prediction_publish_pending send now batch_size rows =
     relay (\<lambda>m. Inr (m\<lparr>pm_publication_attempt_at := Some now\<rparr>)) send now batch_size rows"

datatype verification_message =
    VIntradayRequested IntradayRequested
  | VPriceRequested PriceRequested
  | VPredictionScored PredictionScored

fun message_type :: "verification_message \<Rightarrow> string" where
  "message_type (VIntradayRequested _) = ''IntradayRequested''"
| "message_type (VPriceRequested _) = ''PriceRequested''"
| "message_type (VPredictionScored _) = ''PredictionScored''"

definition DECODERS :: "string list" where
  "DECODERS = [''IntradayRequested'', ''PriceRequested'', ''PredictionScored'']"

definition verification_decode ::
  "string \<times> verification_message \<Rightarrow> (string, verification_message) result" where
  \<comment> \<open>the row's \<^verbatim>\<open>message_type\<close> column selects the decoder; decoding a payload of another type fails\<close>
  "verification_decode row =
     (let (ty, msg) = row
      in if ty \<notin> set DECODERS then Inl (''unknown outbox message_type: '' @ ty)
         else if message_type msg \<noteq> ty then Inl ''validation error''
         else Inr msg)"

definition verification_publish_pending ::
  "(verification_message \<Rightarrow> string option) \<Rightarrow> instant \<Rightarrow> nat \<Rightarrow>
   (string \<times> verification_message) outbox_row list \<Rightarrow>
   (string \<times> verification_message) outbox_row list \<times> (uuid \<times> verification_message) list" where
  "verification_publish_pending send now batch_size rows = relay verification_decode send now batch_size rows"

definition cleansing_publish_pending ::
  "(EventDetected \<Rightarrow> string option) \<Rightarrow> instant \<Rightarrow> nat \<Rightarrow> EventDetected outbox_row list \<Rightarrow>
   EventDetected outbox_row list \<times> (uuid \<times> EventDetected) list" where
  "cleansing_publish_pending send now batch_size rows = relay Inr send now batch_size rows"

subsection \<open>One run\<close>

definition relayed ::
  "('m \<Rightarrow> (string, 'w) result) \<Rightarrow> ('w \<Rightarrow> string option) \<Rightarrow> instant \<Rightarrow> 'm outbox_row \<Rightarrow> 'm outbox_row" where
  "relayed decode send now r =
     (case attempt decode send r of Inl err \<Rightarrow> mark_failed err r | Inr _ \<Rightarrow> mark_delivered now r)"

lemma ob_message_id_marks [simp]:
  "ob_message_id (mark_failed err r) = ob_message_id r"
  "ob_message_id (mark_delivered now r) = ob_message_id r"
  "ob_message_id (relayed decode send now r) = ob_message_id r"
  by (simp_all add: mark_failed_def mark_delivered_def relayed_def split: sum.splits)

lemma relay_fold:
  assumes "distinct (map ob_message_id rows)" "distinct (map ob_message_id batch)"
    "set batch \<subseteq> set rows"
  shows "foldl (relay_step decode send now) (rows, sent) batch =
    (map (\<lambda>r. if r \<in> set batch then relayed decode send now r else r) rows,
     sent @ concat (map (\<lambda>r. case attempt decode send r of Inl _ \<Rightarrow> [] | Inr m \<Rightarrow> [(ob_message_id r, m)]) batch))"
  using assms
proof (induction batch arbitrary: sent rule: rev_induct)
  case Nil
  then show ?case by simp
next
  case (snoc b batch)
  have inj: "r = r'" if "r \<in> set rows" "r' \<in> set rows" "ob_message_id r = ob_message_id r'" for r r'
    using snoc.prems(1) that by (metis distinct_map inj_onD)
  have b: "b \<in> set rows" "b \<notin> set batch" "set batch \<subseteq> set rows" using snoc.prems(2,3) by auto
  have upd: "update_where (\<lambda>r. ob_message_id r = ob_message_id b) f
      (map (\<lambda>r. if r \<in> set batch then relayed decode send now r else r) rows) =
    map (\<lambda>r. if r = b then f r else if r \<in> set batch then relayed decode send now r else r) rows" for f
    unfolding update_where_def map_map comp_def
    by (rule map_cong [OF refl]) (use inj b in auto)
  show ?case
    using snoc b
    by (cases "attempt decode send b")
      (auto simp: relay_step_def Let_def upd relayed_def intro!: map_cong)
qed

lemma pending_batch_subset: "set (pending_batch n rows) \<subseteq> {r \<in> set rows. ob_status r = DS_PENDING}"
  unfolding pending_batch_def by (rule set_select_ordered)

lemma distinct_select_ordered:
  "distinct (map f rows) \<Longrightarrow> distinct (map f (select_ordered p k n rows))"
proof -
  assume "distinct (map f rows)"
  then have "distinct (map f (filter p rows))" by (rule distinct_map_filter)
  then have "distinct (map f (sort_key k (filter p rows)))" by (simp add: distinct_map)
  then show ?thesis unfolding select_ordered_def by (simp add: take_map [symmetric])
qed

lemma relay_eq:
  assumes "distinct (map ob_message_id rows)"
  shows "relay decode send now n rows =
    (map (\<lambda>r. if r \<in> set (pending_batch n rows) then relayed decode send now r else r) rows,
     concat (map (\<lambda>r. case attempt decode send r of Inl _ \<Rightarrow> [] | Inr m \<Rightarrow> [(ob_message_id r, m)])
       (pending_batch n rows)))"
  unfolding relay_def
  using relay_fold [OF assms, of "pending_batch n rows" decode send now "[]"] pending_batch_subset [of n rows]
    distinct_select_ordered [OF assms] by (fastforce simp: pending_batch_def)

text \<open>A run changes delivery fields only.\<close>

lemma relay_keeps:
  assumes "\<And>err r. g (mark_failed err r) = g r" "\<And>r. g (mark_delivered now r) = g r"
  shows "map g (fst (relay decode send now n rows)) = map g rows"
proof -
  have step: "map g (fst (relay_step decode send now acc x)) = map g (fst acc)" for acc x
    using assms by (auto simp: relay_step_def Let_def split: prod.splits sum.splits intro!: map_update_where)
  have "map g (fst (foldl (relay_step decode send now) acc xs)) = map g (fst acc)" for acc xs
    by (induction xs arbitrary: acc) (simp_all add: step)
  then show ?thesis by (simp add: relay_def)
qed

lemma relay_payloads:
  "map ob_payload (fst (relay decode send now n rows)) = map ob_payload rows"
  "map ob_message_id (fst (relay decode send now n rows)) = map ob_message_id rows"
  by (rule relay_keeps; simp add: mark_failed_def mark_delivered_def)+

subsection \<open>The contract of a relay\<close>

text \<open>
  A relay hands pending rows over at most once and removes exactly those from the pending set; a live
  relay hands over a full batch whenever it can.
\<close>

fun runs :: "('s \<Rightarrow> 's \<times> 'a list) \<Rightarrow> nat \<Rightarrow> 's \<Rightarrow> 's \<times> 'a list" where
  "runs run 0 s = (s, [])"
| "runs run (Suc k) s = (let (s', out) = runs run k s; (s'', out') = run s' in (s'', out @ out'))"

locale relay_contract =
  fixes pending :: "'s \<Rightarrow> uuid set" and run :: "'s \<Rightarrow> 's \<times> uuid list" and ok :: "'s \<Rightarrow> bool"
  assumes run_ok: "ok s \<Longrightarrow> ok (fst (run s))"
    and run_from_pending: "ok s \<Longrightarrow> set (snd (run s)) \<subseteq> pending s"
    and run_distinct: "ok s \<Longrightarrow> distinct (snd (run s))"
    and run_pending: "ok s \<Longrightarrow> pending (fst (run s)) = pending s - set (snd (run s))"
begin

lemma runs_invariant:
  "ok s \<Longrightarrow> ok (fst (runs run k s)) \<and> distinct (snd (runs run k s)) \<and> set (snd (runs run k s)) \<subseteq> pending s \<and>
     pending (fst (runs run k s)) = pending s - set (snd (runs run k s))"
proof (induction k)
  case 0
  then show ?case by simp
next
  case (Suc k)
  obtain s' out where k: "runs run k s = (s', out)" by fastforce
  obtain s'' out' where r: "run s' = (s'', out')" by fastforce
  from Suc k have "ok s'" "distinct out" "set out \<subseteq> pending s" "pending s' = pending s - set out" by auto
  with run_ok [of s'] run_from_pending [of s'] run_distinct [of s'] run_pending [of s'] r
  show ?case by (auto simp: k)
qed

end

locale live_relay = relay_contract +
  fixes batch :: nat
  assumes finite_pending: "ok s \<Longrightarrow> finite (pending s)"
    and full_batch: "ok s \<Longrightarrow> pending s = set (snd (run s)) \<or> batch \<le> card (set (snd (run s)))"
begin

lemma runs_progress:
  assumes "ok s"
  shows "pending (fst (runs run k s)) = {} \<or> card (pending (fst (runs run k s))) + k * batch \<le> card (pending s)"
proof (induction k)
  case 0
  then show ?case by simp
next
  case (Suc k)
  define s' where "s' = fst (runs run k s)"
  have ok': "ok s'" using runs_invariant [OF assms] by (simp add: s'_def)
  have next_state: "fst (runs run (Suc k) s) = fst (run s')" by (simp add: s'_def split_def Let_def)
  note after = run_pending [OF ok'] run_from_pending [OF ok']
  consider "pending s' = {}" | "pending s' = set (snd (run s'))"
    | "card (pending s') + k * batch \<le> card (pending s)" "batch \<le> card (set (snd (run s')))"
    using Suc full_batch [OF ok'] by (auto simp: s'_def)
  then show ?case
  proof cases
    case 3
    have "card (pending (fst (run s'))) = card (pending s') - card (set (snd (run s')))"
      using after finite_pending [OF ok'] by (simp add: card_Diff_subset finite_subset)
    moreover have "card (set (snd (run s'))) \<le> card (pending s')"
      using after finite_pending [OF ok'] by (intro card_mono)
    ultimately show ?thesis using 3 unfolding next_state mult_Suc by linarith
  qed (unfold next_state, use after in auto)
qed

lemma runs_drain:
  assumes "ok s" and "card (pending s) \<le> k * batch"
  shows "pending (fst (runs run k s)) = {}"
proof -
  have "finite (pending (fst (runs run k s)))" using runs_invariant [OF assms(1)] finite_pending by blast
  moreover have "pending (fst (runs run k s)) = {} \<or> card (pending (fst (runs run k s))) = 0"
    using runs_progress [OF assms(1), of k] assms(2) by linarith
  ultimately show ?thesis by (metis card_0_eq)
qed

end

definition pending_ids :: "'m outbox_row list \<Rightarrow> uuid set" where
  "pending_ids rows = set (map ob_message_id (filter (\<lambda>r. ob_status r = DS_PENDING) rows))"

definition relay_ids ::
  "('m \<Rightarrow> (string, 'w) result) \<Rightarrow> ('w \<Rightarrow> string option) \<Rightarrow> instant \<Rightarrow> nat \<Rightarrow>
   'm outbox_row list \<Rightarrow> 'm outbox_row list \<times> uuid list" where
  "relay_ids decode send now n rows =
     (let (rows', sent) = relay decode send now n rows in (rows', map fst sent))"

definition keys_ok :: "'m outbox_row list \<Rightarrow> bool" where
  "keys_ok rows \<longleftrightarrow> distinct (map ob_message_id rows)"

definition accepts ::
  "('m \<Rightarrow> (string, 'w) result) \<Rightarrow> ('w \<Rightarrow> string option) \<Rightarrow> 'm outbox_row list \<Rightarrow> bool" where
  "accepts decode send rows \<longleftrightarrow> (\<forall>r \<in> set rows. \<exists>m. attempt decode send r = Inr m)"

definition delivered_ids ::
  "('m \<Rightarrow> (string, 'w) result) \<Rightarrow> ('w \<Rightarrow> string option) \<Rightarrow> nat \<Rightarrow> 'm outbox_row list \<Rightarrow> uuid list" where
  "delivered_ids decode send n rows =
     map ob_message_id (filter (\<lambda>r. \<exists>m. attempt decode send r = Inr m) (pending_batch n rows))"

lemma relay_ids_eq:
  assumes "keys_ok rows"
  shows "relay_ids decode send now n rows =
    (map (\<lambda>r. if r \<in> set (pending_batch n rows) then relayed decode send now r else r) rows,
     delivered_ids decode send n rows)"
proof -
  have "map fst (concat (map (\<lambda>r. case attempt decode send r of Inl _ \<Rightarrow> [] | Inr m \<Rightarrow> [(ob_message_id r, m)]) rs)) =
    map ob_message_id (filter (\<lambda>r. \<exists>m. attempt decode send r = Inr m) rs)" for rs
    by (induction rs) (auto split: sum.splits)
  then show ?thesis
    using relay_eq [of rows decode send now n] assms by (simp add: relay_ids_def keys_ok_def delivered_ids_def)
qed

lemma ob_status_relayed:
  "ob_status (relayed decode send now r) = DS_PENDING \<longleftrightarrow>
     ob_status r = DS_PENDING \<and> \<not> (\<exists>m. attempt decode send r = Inr m)"
  by (auto simp: relayed_def mark_failed_def mark_delivered_def split: sum.splits)

lemma ids_inj:
  "keys_ok rows \<Longrightarrow> r \<in> set rows \<Longrightarrow> r' \<in> set rows \<Longrightarrow> ob_message_id r = ob_message_id r' \<Longrightarrow> r = r'"
  unfolding keys_ok_def by (metis distinct_map inj_onD)

lemma delivered_ids_pending: "set (delivered_ids decode send n rows) \<subseteq> pending_ids rows"
  using pending_batch_subset [of n rows] by (auto simp: delivered_ids_def pending_ids_def)

lemma delivered_ids_distinct: "keys_ok rows \<Longrightarrow> distinct (delivered_ids decode send n rows)"
  unfolding delivered_ids_def pending_batch_def keys_ok_def
  by (intro distinct_map_filter distinct_select_ordered)

lemma relay_keys_ok: "keys_ok rows \<Longrightarrow> keys_ok (fst (relay_ids decode send now n rows))"
proof -
  assume "keys_ok rows"
  moreover have "map ob_message_id (map (\<lambda>r. if P r then relayed decode send now r else r) rs) =
      map ob_message_id rs" for P rs
    by (induction rs) auto
  ultimately show ?thesis unfolding relay_ids_eq [OF \<open>keys_ok rows\<close>] fst_conv keys_ok_def by (simp only:)
qed

lemma relay_pending_ids:
  assumes "keys_ok rows"
  shows "pending_ids (fst (relay_ids decode send now n rows)) =
    pending_ids rows - set (delivered_ids decode send n rows)"
proof (intro set_eqI iffI)
  fix i
  assume "i \<in> pending_ids (fst (relay_ids decode send now n rows))"
  then obtain r where r: "r \<in> set rows" "ob_message_id r = i"
    "ob_status (if r \<in> set (pending_batch n rows) then relayed decode send now r else r) = DS_PENDING"
    by (auto simp: relay_ids_eq [OF assms] pending_ids_def split: if_splits)
  then have "ob_status r = DS_PENDING" by (auto simp: ob_status_relayed split: if_splits)
  moreover have "i \<notin> set (delivered_ids decode send n rows)"
  proof
    assume "i \<in> set (delivered_ids decode send n rows)"
    then obtain r' where r': "r' \<in> set (pending_batch n rows)" "\<exists>m. attempt decode send r' = Inr m"
      "ob_message_id r' = i" by (auto simp: delivered_ids_def)
    with pending_batch_subset [of n rows] r ids_inj [OF assms] have "r' = r" by blast
    with r' r(3) show False by (auto simp: ob_status_relayed)
  qed
  ultimately show "i \<in> pending_ids rows - set (delivered_ids decode send n rows)"
    using r by (auto simp: pending_ids_def)
next
  fix i
  assume i: "i \<in> pending_ids rows - set (delivered_ids decode send n rows)"
  then obtain r where r: "r \<in> set rows" "ob_message_id r = i" "ob_status r = DS_PENDING"
    by (auto simp: pending_ids_def)
  let ?r = "if r \<in> set (pending_batch n rows) then relayed decode send now r else r"
  have "ob_status ?r = DS_PENDING"
    using i r by (auto simp: delivered_ids_def ob_status_relayed)
  moreover have "ob_message_id ?r = i" using r by simp
  ultimately show "i \<in> pending_ids (fst (relay_ids decode send now n rows))"
    using r(1) by (force simp: relay_ids_eq [OF assms] pending_ids_def)
qed

interpretation outbox: relay_contract pending_ids "relay_ids decode send now n" keys_ok
  for decode send now n
proof
  fix s :: "'a outbox_row list"
  assume ok: "keys_ok s"
  then have sent: "snd (relay_ids decode send now n s) = delivered_ids decode send n s"
    by (simp add: relay_ids_eq)
  show "keys_ok (fst (relay_ids decode send now n s))" by (rule relay_keys_ok [OF ok])
  show "set (snd (relay_ids decode send now n s)) \<subseteq> pending_ids s"
    unfolding sent by (rule delivered_ids_pending)
  show "distinct (snd (relay_ids decode send now n s))"
    unfolding sent by (rule delivered_ids_distinct [OF ok])
  show "pending_ids (fst (relay_ids decode send now n s)) = pending_ids s - set (snd (relay_ids decode send now n s))"
    unfolding sent by (rule relay_pending_ids [OF ok])
qed

lemma accepts_relay:
  assumes "keys_ok rows" "accepts decode send rows"
  shows "accepts decode send (fst (relay_ids decode send now n rows))"
proof -
  have "attempt decode send (relayed decode send now r) = attempt decode send r" for r
    by (auto simp: attempt_def relayed_def mark_failed_def mark_delivered_def split: sum.splits)
  then show ?thesis using assms by (auto simp: relay_ids_eq accepts_def)
qed

lemma pending_batch_full: "pending_ids rows = ob_message_id ` set (pending_batch n rows) \<or> n \<le> length (pending_batch n rows)"
proof (cases "length (filter (\<lambda>r. ob_status r = DS_PENDING) rows) \<le> n")
  case True
  then show ?thesis by (auto simp: pending_batch_def select_ordered_def pending_ids_def)
next
  case False
  then show ?thesis by (simp add: pending_batch_def select_ordered_def)
qed

interpretation draining: live_relay pending_ids "relay_ids decode send now n"
    "\<lambda>rows. keys_ok rows \<and> accepts decode send rows" n
  for decode send now n
proof
  fix s :: "'a outbox_row list"
  assume ok: "keys_ok s \<and> accepts decode send s"
  then have k: "keys_ok s" by simp
  then show "keys_ok (fst (relay_ids decode send now n s)) \<and> accepts decode send (fst (relay_ids decode send now n s))"
    using outbox.run_ok accepts_relay ok by blast
  show "set (snd (relay_ids decode send now n s)) \<subseteq> pending_ids s"
    and "distinct (snd (relay_ids decode send now n s))"
    and "pending_ids (fst (relay_ids decode send now n s)) = pending_ids s - set (snd (relay_ids decode send now n s))"
    using outbox.run_from_pending outbox.run_distinct outbox.run_pending k by blast+
  show "finite (pending_ids s)" by (simp add: pending_ids_def)
  have "filter (\<lambda>r. \<exists>m. attempt decode send r = Inr m) (pending_batch n s) = pending_batch n s"
    using ok pending_batch_subset [of n s] by (auto simp: accepts_def filter_id_conv)
  then have d: "snd (relay_ids decode send now n s) = map ob_message_id (pending_batch n s)"
    by (simp add: relay_ids_eq [OF k] delivered_ids_def)
  then have "card (set (snd (relay_ids decode send now n s))) = length (pending_batch n s)"
    using outbox.run_distinct [OF k, of decode send now n] by (metis distinct_card length_map)
  then show "pending_ids s = set (snd (relay_ids decode send now n s)) \<or>
      n \<le> card (set (snd (relay_ids decode send now n s)))"
    using pending_batch_full [of s n] d by auto
qed

subsection \<open>Delivery over many runs\<close>

definition prediction_relay_ids ::
  "(PredictionMade \<Rightarrow> string option) \<Rightarrow> instant \<Rightarrow> nat \<Rightarrow> PredictionMade outbox_row list \<Rightarrow>
   PredictionMade outbox_row list \<times> uuid list" where
  "prediction_relay_ids send now n rows =
     (let (rows', sent) = prediction_publish_pending send now n rows in (rows', map fst sent))"

definition stamped :: "instant \<Rightarrow> PredictionMade \<Rightarrow> (string, PredictionMade) result" where
  "stamped now m = Inr (m\<lparr>pm_publication_attempt_at := Some now\<rparr>)"

lemma prediction_relay_ids_eq: "prediction_relay_ids send now n = relay_ids (stamped now) send now n"
  by (rule ext) (simp add: prediction_relay_ids_def prediction_publish_pending_def relay_ids_def stamped_def [abs_def])


text \<open>
  The relay drains.  When the broker accepts every message, \<^verbatim>\<open>k\<close> runs of batch size \<^verbatim>\<open>n\<close>
  deliver every pending row, provided there are at most \<^verbatim>\<open>k * n\<close> of them.
\<close>

theorem prediction_outbox_drains:
  assumes "distinct (map ob_message_id rows)" and "\<And>m. send m = None"
    and "card (pending_ids rows) \<le> k * n"
  shows "pending_ids (fst (runs (prediction_relay_ids send now n) k rows)) = {}"
proof -
  have "accepts (stamped now) send rows" using assms(2) by (simp add: accepts_def attempt_def stamped_def)
  then show ?thesis
    unfolding prediction_relay_ids_eq using assms(1,3) by (intro draining.runs_drain) (auto simp: keys_ok_def)
qed

definition sample_prediction :: "uuid \<Rightarrow> PredictionMade" where
  "sample_prediction i =
     \<lparr>message_id = i, correlation_id = i, causation_id = None, occurred_at = 0, pm_prediction_id = i,
      pm_context_id = 1, pm_context_version = 1, pm_event_ids = [], pm_asset_id = ''GOLD'',
      pm_direction = UP, pm_magnitude = SMALL, pm_confidence = 1, pm_horizon = ONE_TRADING_DAY,
      pm_rationale = [71], pm_contributing_edges = [], pm_decision_at = 0, pm_publication_attempt_at = None,
      pm_supersedes_prediction_id = None, pm_decision_method = GRAPH_ONLY, pm_llm_metadata = None,
      pm_propagation_depth = 0, pm_propagation_chain = []\<rparr>"

definition two_rows :: "PredictionMade outbox_row list" where
  "two_rows = [new_outbox_row 1 1 (sample_prediction 1) 10, new_outbox_row 2 2 (sample_prediction 2) 20]"


theorem prediction_outbox_drains_witness:
  "pending_ids (fst (runs (prediction_relay_ids (\<lambda>_. None) 50 1) 2 two_rows)) = {} \<and> pending_ids two_rows = {1, 2}"
proof -
  have ids: "pending_ids two_rows = {1, 2}" by (auto simp: pending_ids_def two_rows_def new_outbox_row_def)
  moreover have "distinct (map ob_message_id two_rows)" by (simp add: two_rows_def new_outbox_row_def)
  ultimately show ?thesis
    using prediction_outbox_drains [of two_rows "\<lambda>_. None" 2 1 50] by simp
qed

subsection \<open>Head-of-line blocking\<close>

lemma insort_key_map: "(\<And>x. k (g x) = k x) \<Longrightarrow> insort_key k (g x) (map g xs) = map g (insort_key k x xs)"
  by (induction xs) auto

lemma sort_key_map: "(\<And>x. k (g x) = k x) \<Longrightarrow> sort_key k (map g xs) = map g (sort_key k xs)"
  by (induction xs) (simp_all add: insort_key_map)

lemma pending_batch_map:
  fixes g :: "'m outbox_row \<Rightarrow> 'm outbox_row"
  assumes "\<And>r. ob_status (g r) = ob_status r" "\<And>r. ob_created_at (g r) = ob_created_at r"
  shows "pending_batch n (map g rows) = map g (pending_batch n rows)"
proof -
  have "filter (\<lambda>r. ob_status r = DS_PENDING) (map g rows) = map g (filter (\<lambda>r. ob_status r = DS_PENDING) rows)"
    using assms(1) by (simp add: filter_map comp_def)
  then show ?thesis
    by (simp add: pending_batch_def select_ordered_def sort_key_map [of ob_created_at g, OF assms(2)] take_map)
qed

definition blocked ::
  "('m \<Rightarrow> (string, 'w) result) \<Rightarrow> ('w \<Rightarrow> string option) \<Rightarrow> nat \<Rightarrow> 'm outbox_row list \<Rightarrow> bool" where
  "blocked decode send n rows \<longleftrightarrow>
     (\<forall>r \<in> set (pending_batch n rows). \<exists>err. attempt decode send r = Inl err)"

lemma blocked_run:
  assumes "keys_ok rows" "blocked decode send n rows"
  shows "snd (relay_ids decode send now n rows) = []"
    and "blocked decode send n (fst (relay_ids decode send now n rows))"
proof -
  show "snd (relay_ids decode send now n rows) = []"
    using assms by (auto simp: relay_ids_eq delivered_ids_def blocked_def filter_empty_conv)
  define g where "g = (\<lambda>r. if r \<in> set (pending_batch n rows)
    then (case attempt decode send r of Inl err \<Rightarrow> mark_failed err r | Inr _ \<Rightarrow> r) else r)"
  have "fst (relay_ids decode send now n rows) = map g rows"
    using assms by (auto simp: relay_ids_eq g_def relayed_def blocked_def split: sum.splits)
  moreover have "pending_batch n (map g rows) = map g (pending_batch n rows)"
    by (rule pending_batch_map) (auto simp: g_def mark_failed_def split: sum.splits)
  moreover have "attempt decode send (g r) = attempt decode send r" for r
    by (auto simp: g_def attempt_def mark_failed_def split: sum.splits)
  ultimately show "blocked decode send n (fst (relay_ids decode send now n rows))"
    using assms(2) by (auto simp: blocked_def)
qed

lemma blocked_runs:
  assumes "keys_ok rows" "blocked decode send n rows"
  shows "snd (runs (relay_ids decode send now n) k rows) = [] \<and>
    keys_ok (fst (runs (relay_ids decode send now n) k rows)) \<and>
    blocked decode send n (fst (runs (relay_ids decode send now n) k rows))"
proof (induction k)
  case 0
  then show ?case using assms by simp
next
  case (Suc k)
  then show ?case
    using blocked_run [of "fst (runs (relay_ids decode send now n) k rows)" decode send n now]
      outbox.run_ok [of "fst (runs (relay_ids decode send now n) k rows)" decode send now n]
    by (simp add: split_def Let_def)
qed

text \<open>
  Failing rows at the head of the queue block every later row.  When the broker refuses each of
  the \<^verbatim>\<open>batch_size\<close> oldest pending rows, no number of runs delivers anything, however many younger
  rows the broker would accept.
\<close>

theorem outbox_head_blocks:
  assumes "distinct (map ob_message_id rows)"
    and "\<forall>r \<in> set (pending_batch n rows). send ((ob_payload r)\<lparr>pm_publication_attempt_at := Some now\<rparr>) \<noteq> None"
  shows "snd (runs (prediction_relay_ids send now n) k rows) = []"
proof -
  have "blocked (stamped now) send n rows" using assms(2) by (auto simp: blocked_def attempt_def stamped_def)
  then show ?thesis unfolding prediction_relay_ids_eq using blocked_runs assms(1) keys_ok_def by blast
qed

theorem outbox_head_blocks_witness:
  "(\<forall>k. snd (runs (prediction_relay_ids (\<lambda>m. if pm_prediction_id m = 1 then Some ''refused'' else None) 50 1)
      k two_rows) = []) \<and> 2 \<in> pending_ids two_rows"
proof (intro conjI allI)
  fix k
  have "pending_batch 1 two_rows = [new_outbox_row 1 1 (sample_prediction 1) 10]"
    by (simp add: pending_batch_def select_ordered_def two_rows_def new_outbox_row_def)
  then show "snd (runs (prediction_relay_ids (\<lambda>m. if pm_prediction_id m = 1 then Some ''refused'' else None) 50 1)
      k two_rows) = []"
    by (intro outbox_head_blocks) (simp_all add: two_rows_def new_outbox_row_def sample_prediction_def)
qed (simp add: pending_ids_def two_rows_def new_outbox_row_def)

end
