(* ===== verification/PredictionRepo.thy ===== *)
theory PredictionRepo
  imports Windows Decision Outbox
begin

text \<open>
  The prediction schema and its repository (\<^verbatim>\<open>services/prediction/prediction/repository.py\<close>,
  \<^verbatim>\<open>models.py\<close>, the tables of \<^verbatim>\<open>db.py\<close>).

  Each repository method is one transaction and so one function on the tables.  \<^verbatim>\<open>uuid.uuid4()\<close> draws
  the next number of a counter kept in the state.  The idempotency key joins its fields by a character
  no asset id contains, so it is the tuple of the fields.  Bookkeeping columns no query reads
  (\<^verbatim>\<open>created_at\<close> of the tables, \<^verbatim>\<open>updated_at\<close>, \<^verbatim>\<open>added_at\<close>) are left out; the outbox row's
  \<^verbatim>\<open>created_at\<close>, which orders the relay, is the decision instant.
\<close>

datatype ContextState = OPEN | READY | PREDICTING | PREDICTED | ERROR_RETRYABLE

record ContextRecord =
  cx_context_id :: uuid
  cx_asset_id :: AssetId
  cx_context_version :: int
  cx_window_start :: instant
  cx_window_end :: instant
  cx_state :: ContextState

record context_row = ContextRecord +
  cx_watermark :: instant

record ActivePrediction =
  ap_prediction_id :: uuid
  ap_direction :: Direction
  ap_magnitude :: Magnitude

record ContextEvent =
  ev_event_id :: uuid
  ev_event_type :: EventType
  ev_first_seen_at :: instant
  ev_polarity :: EventPolarity
  ev_context_tags :: "ConditionCode list"

datatype PredictionStatus = PENDING | WITHDRAWN

type_synonym idempotency_key = "AssetId \<times> instant \<times> Horizon \<times> int \<times> nat"

record prediction_row =
  pd_prediction_id :: uuid
  pd_context_id :: uuid
  pd_context_version :: int
  pd_asset_id :: AssetId
  pd_direction :: Direction
  pd_magnitude :: Magnitude
  pd_confidence :: flt
  pd_horizon :: Horizon
  pd_rationale :: ustring
  pd_decision_method :: DecisionMethod
  pd_decision_at :: instant
  pd_supersedes_prediction_id :: "uuid option"
  pd_idempotency_key :: idempotency_key
  pd_status :: PredictionStatus

datatype research_call =
    RecordEvent EventDetected
  | Capture ContextRecord "ContextEvent list" "FiringEdge list" bool "Decision option" bool

record prediction_db =
  db_contexts :: "context_row list"
  db_context_events :: "(uuid \<times> ContextEvent) list"
  db_predictions :: "prediction_row list"
  db_contributing_edges :: "(uuid \<times> ContributingEdge) list"
  db_outbox :: "PredictionMade outbox_row list"
  db_next_uuid :: uuid
  db_research :: "research_call list"

subsection \<open>Contexts\<close>

definition JOINABLE_STATES :: "ContextState list" where
  "JOINABLE_STATES = [OPEN, READY]"

definition insert_context :: "context_row \<Rightarrow> context_row list \<Rightarrow> context_row list" where
  \<comment> \<open>\<^verbatim>\<open>ON CONFLICT (asset_id, window_start, context_version) DO NOTHING\<close>\<close>
  "insert_context c cs =
     (if list_ex (\<lambda>r. cx_asset_id r = cx_asset_id c \<and> cx_window_start r = cx_window_start c \<and>
        cx_context_version r = cx_context_version c) cs then cs else cs @ [c])"

definition insert_member :: "uuid \<Rightarrow> ContextEvent \<Rightarrow> (uuid \<times> ContextEvent) list \<Rightarrow> (uuid \<times> ContextEvent) list" where
  \<comment> \<open>\<^verbatim>\<open>ON CONFLICT (context_id, event_id) DO NOTHING\<close>\<close>
  "insert_member c e ms =
     (if list_ex (\<lambda>(c', e'). c' = c \<and> ev_event_id e' = ev_event_id e) ms then ms else ms @ [(c, e)])"

definition members :: "(uuid \<times> ContextEvent) list \<Rightarrow> uuid \<Rightarrow> ContextEvent list" where
  "members ms c = map snd (filter (\<lambda>(c', e). c' = c) ms)"

definition latest_context :: "prediction_db \<Rightarrow> AssetId \<Rightarrow> instant \<Rightarrow> context_row option" where
  "latest_context db a ws =
     fetch_latest (\<lambda>r. cx_asset_id r = a \<and> cx_window_start r = ws) cx_context_version (db_contexts db)"

definition new_context :: "uuid \<Rightarrow> AssetId \<Rightarrow> instant \<Rightarrow> instant \<Rightarrow> int \<Rightarrow> instant \<Rightarrow> context_row" where
  "new_context cid a ws we v seen =
     \<lparr>cx_context_id = cid, cx_asset_id = a, cx_context_version = v, cx_window_start = ws,
      cx_window_end = we, cx_state = OPEN, cx_watermark = seen\<rparr>"

definition assign_event ::
  "AssetId \<Rightarrow> ContextEvent \<Rightarrow> instant \<Rightarrow> instant \<Rightarrow> prediction_db \<Rightarrow> prediction_db" where
  "assign_event a e ws we db =
     (let fresh = db_next_uuid db; seen = ev_first_seen_at e
      in case latest_context db a ws of
           None \<Rightarrow>
             db\<lparr>db_contexts := insert_context (new_context fresh a ws we 1 seen) (db_contexts db),
                db_context_events := insert_member fresh e (db_context_events db),
                db_next_uuid := fresh + 1\<rparr>
         | Some latest \<Rightarrow>
             if cx_state latest \<in> set JOINABLE_STATES then
               db\<lparr>db_contexts := update_where (\<lambda>r. cx_context_id r = cx_context_id latest)
                    (\<lambda>r. r\<lparr>cx_watermark := max (cx_watermark r) seen\<rparr>) (db_contexts db),
                  db_context_events := insert_member (cx_context_id latest) e (db_context_events db)\<rparr>
             else
               db\<lparr>db_contexts := insert_context
                    (new_context fresh a ws we (cx_context_version latest + 1) seen) (db_contexts db),
                  db_context_events := insert_member fresh e
                    (foldl (\<lambda>ms e'. insert_member fresh e' ms) (db_context_events db)
                      (members (db_context_events db) (cx_context_id latest))),
                  db_next_uuid := fresh + 1\<rparr>)"

definition set_context_state :: "uuid \<Rightarrow> ContextState \<Rightarrow> prediction_db \<Rightarrow> prediction_db" where
  "set_context_state c st db =
     db\<lparr>db_contexts := update_where (\<lambda>r. cx_context_id r = c) (\<lambda>r. r\<lparr>cx_state := st\<rparr>) (db_contexts db)\<rparr>"

definition due :: "instant \<Rightarrow> context_row \<Rightarrow> bool" where
  "due cutoff r \<longleftrightarrow> (cx_state r = OPEN \<or> cx_state r = READY) \<and> cx_window_end r \<le> cutoff"

definition claim_ready_contexts ::
  "Registry \<Rightarrow> instant \<Rightarrow> int \<Rightarrow> nat \<Rightarrow> (prediction_db, py_error, ContextRecord list) prog" where
  \<comment> \<open>\<^verbatim>\<open>AssetId(row["asset_id"])\<close> raises for an asset the registry no longer has; the transaction
     then rolls back\<close>
  "claim_ready_contexts reg now grace limit db =
     (let cutoff = now - minutes grace;
          rows = select_ordered (due cutoff) cx_window_end limit (db_contexts db)
      in if list_all (\<lambda>r. is_known_asset reg (cx_asset_id r)) rows
         then (Inr (map (\<lambda>r. \<lparr>cx_context_id = cx_context_id r, cx_asset_id = cx_asset_id r,
                  cx_context_version = cx_context_version r, cx_window_start = cx_window_start r,
                  cx_window_end = cx_window_end r, cx_state = PREDICTING\<rparr>) rows),
               foldl (\<lambda>d r. set_context_state (cx_context_id r) PREDICTING d) db rows)
         else (Inl (ValueError ''unknown asset_id''), db))"

definition load_context_events :: "uuid \<Rightarrow> prediction_db \<Rightarrow> ContextEvent list" where
  "load_context_events c db = sort_key ev_first_seen_at (members (db_context_events db) c)"

subsection \<open>Predictions\<close>

definition latest_prediction_id :: "AssetId \<Rightarrow> instant \<Rightarrow> prediction_db \<Rightarrow> uuid option" where
  "latest_prediction_id a ws db =
     (let ids = map cx_context_id (filter (\<lambda>r. cx_asset_id r = a \<and> cx_window_start r = ws) (db_contexts db))
      in map_option pd_prediction_id
           (fetch_latest (\<lambda>p. pd_asset_id p = a \<and> pd_context_id p \<in> set ids) pd_context_version (db_predictions db)))"

definition latest_active_prediction :: "AssetId \<Rightarrow> prediction_db \<Rightarrow> ActivePrediction option" where
  "latest_active_prediction a db =
     map_option (\<lambda>p. \<lparr>ap_prediction_id = pd_prediction_id p, ap_direction = pd_direction p,
        ap_magnitude = pd_magnitude p\<rparr>)
       (fetch_latest (\<lambda>p. pd_asset_id p = a \<and> pd_status p = PENDING) pd_decision_at (db_predictions db))"

definition counts_on :: "AssetId \<Rightarrow> date \<Rightarrow> zone \<Rightarrow> prediction_row \<Rightarrow> bool" where
  "counts_on a d z p \<longleftrightarrow> pd_asset_id p = a \<and> pd_status p \<noteq> WITHDRAWN \<and> date_of (local_of z (pd_decision_at p)) = d"

definition count_predictions_on :: "AssetId \<Rightarrow> date \<Rightarrow> zone \<Rightarrow> prediction_db \<Rightarrow> nat" where
  "count_predictions_on a d z db = length (filter (counts_on a d z) (db_predictions db))"

definition prediction_row_of :: "PredictionMade \<Rightarrow> idempotency_key \<Rightarrow> prediction_row" where
  "prediction_row_of m key =
     \<lparr>pd_prediction_id = pm_prediction_id m, pd_context_id = pm_context_id m,
      pd_context_version = pm_context_version m, pd_asset_id = pm_asset_id m,
      pd_direction = pm_direction m, pd_magnitude = pm_magnitude m, pd_confidence = pm_confidence m,
      pd_horizon = pm_horizon m, pd_rationale = pm_rationale m,
      pd_decision_method = pm_decision_method m, pd_decision_at = pm_decision_at m,
      pd_supersedes_prediction_id = pm_supersedes_prediction_id m, pd_idempotency_key = key,
      pd_status = PENDING\<rparr>"

definition withdraw :: "uuid option \<Rightarrow> prediction_row list \<Rightarrow> prediction_row list" where
  "withdraw superseded ps =
     (case superseded of
        None \<Rightarrow> ps
      | Some pid \<Rightarrow> update_where (\<lambda>p. pd_prediction_id p = pid \<and> pd_status p = PENDING)
                      (\<lambda>p. p\<lparr>pd_status := WITHDRAWN\<rparr>) ps)"

definition store_prediction_with_outbox ::
  "PredictionMade \<Rightarrow> idempotency_key \<Rightarrow> bool \<Rightarrow> prediction_db \<Rightarrow> bool \<times> prediction_db" where
  "store_prediction_with_outbox m key withdraw_superseded db =
     (if key \<in> set (map pd_idempotency_key (db_predictions db))
      then (False, set_context_state (pm_context_id m) PREDICTED db)
      else
        let ps = db_predictions db @ [prediction_row_of m key];
            ps' = (if withdraw_superseded then withdraw (pm_supersedes_prediction_id m) ps else ps)
        in (True, set_context_state (pm_context_id m) PREDICTED
              (db\<lparr>db_predictions := ps',
                  db_contributing_edges := db_contributing_edges db @
                    map (\<lambda>e. (pm_prediction_id m, e)) (pm_contributing_edges m),
                  db_outbox := db_outbox db @
                    [new_outbox_row (message_id m) (pm_prediction_id m) m (pm_decision_at m)]\<rparr>)))"

subsection \<open>The schema invariant\<close>

definition context_key :: "context_row \<Rightarrow> AssetId \<times> instant \<times> int" where
  "context_key r = (cx_asset_id r, cx_window_start r, cx_context_version r)"

definition member_key :: "uuid \<times> ContextEvent \<Rightarrow> uuid \<times> uuid" where
  "member_key m = (fst m, ev_event_id (snd m))"

text \<open>Primary keys, unique constraints and foreign keys of the schema, fresh identifiers, and one
  outbox row per prediction in insertion order.\<close>

definition contexts_ok :: "uuid \<Rightarrow> context_row list \<Rightarrow> bool" where
  "contexts_ok n cs \<longleftrightarrow> distinct (map cx_context_id cs) \<and> distinct (map context_key cs) \<and>
     (\<forall>c \<in> set cs. cx_context_id c < n)"

definition members_ok :: "context_row list \<Rightarrow> (uuid \<times> ContextEvent) list \<Rightarrow> bool" where
  "members_ok cs ms \<longleftrightarrow> distinct (map member_key ms) \<and> fst ` set ms \<subseteq> cx_context_id ` set cs"

definition predictions_ok :: "uuid \<Rightarrow> prediction_row list \<Rightarrow> bool" where
  "predictions_ok n ps \<longleftrightarrow> distinct (map pd_prediction_id ps) \<and> distinct (map pd_idempotency_key ps) \<and>
     (\<forall>p \<in> set ps. pd_prediction_id p < n)"

definition outbox_ok :: "uuid \<Rightarrow> prediction_row list \<Rightarrow> PredictionMade outbox_row list \<Rightarrow> bool" where
  "outbox_ok n ps os \<longleftrightarrow> map ob_aggregate_id os = map pd_prediction_id ps \<and>
     distinct (map ob_message_id os) \<and> (\<forall>r \<in> set os. ob_message_id r < n)"

definition wf_db :: "prediction_db \<Rightarrow> bool" where
  "wf_db db \<longleftrightarrow> contexts_ok (db_next_uuid db) (db_contexts db) \<and>
     members_ok (db_contexts db) (db_context_events db) \<and>
     predictions_ok (db_next_uuid db) (db_predictions db) \<and>
     outbox_ok (db_next_uuid db) (db_predictions db) (db_outbox db) \<and>
     fst ` set (db_contributing_edges db) \<subseteq> pd_prediction_id ` set (db_predictions db)"

lemma contexts_ok_mono: "contexts_ok n cs \<Longrightarrow> n \<le> n' \<Longrightarrow> contexts_ok n' cs"
  by (fastforce simp: contexts_ok_def)

lemma predictions_ok_mono: "predictions_ok n ps \<Longrightarrow> n \<le> n' \<Longrightarrow> predictions_ok n' ps"
  by (fastforce simp: predictions_ok_def)

lemma outbox_ok_mono: "outbox_ok n ps os \<Longrightarrow> n \<le> n' \<Longrightarrow> outbox_ok n' ps os"
  by (fastforce simp: outbox_ok_def)

lemma contexts_update:
  assumes "\<And>r. cx_context_id (f r) = cx_context_id r" "\<And>r. context_key (f r) = context_key r"
  shows "contexts_ok n (update_where p f cs) = contexts_ok n cs"
    and "cx_context_id ` set (update_where p f cs) = cx_context_id ` set cs"
proof -
  have ids: "map cx_context_id (update_where p f cs) = map cx_context_id cs"
    and keys: "map context_key (update_where p f cs) = map context_key cs"
    using assms by (simp_all add: map_update_where)
  have img: "cx_context_id ` set (update_where p f cs) = cx_context_id ` set cs"
    using ids by (metis set_map)
  then show "cx_context_id ` set (update_where p f cs) = cx_context_id ` set cs" .
  have "(\<forall>c \<in> set cs'. cx_context_id c < n) \<longleftrightarrow> (\<forall>i \<in> cx_context_id ` set cs'. i < n)" for cs' :: "context_row list"
    by blast
  with ids keys img show "contexts_ok n (update_where p f cs) = contexts_ok n cs"
    unfolding contexts_ok_def by presburger
qed

lemma insert_context_fresh:
  assumes "\<And>r. r \<in> set cs \<Longrightarrow> context_key r \<noteq> context_key c"
  shows "insert_context c cs = cs @ [c]"
  using assms by (auto simp: insert_context_def list_ex_iff context_key_def)

lemma contexts_insert:
  assumes "contexts_ok n cs" "cx_context_id c = n"
  shows "contexts_ok (n + 1) (insert_context c cs)"
proof (cases "context_key c \<in> set (map context_key cs)")
  case True
  then have "insert_context c cs = cs" by (auto simp: insert_context_def list_ex_iff context_key_def)
  then show ?thesis using assms(1) contexts_ok_mono by fastforce
next
  case False
  then have "insert_context c cs = cs @ [c]" by (intro insert_context_fresh) (metis image_eqI set_map)
  moreover have "cx_context_id c \<notin> set (map cx_context_id cs)" using assms by (auto simp: contexts_ok_def)
  ultimately show ?thesis using assms False by (auto simp: contexts_ok_def)
qed

lemma members_insert:
  assumes "members_ok cs ms" "c \<in> cx_context_id ` set cs"
  shows "members_ok cs (insert_member c e ms)"
  using assms unfolding members_ok_def insert_member_def
  by (auto simp: list_ex_iff member_key_def)

lemma members_insert_all:
  assumes "members_ok cs ms" "c \<in> cx_context_id ` set cs"
  shows "members_ok cs (foldl (\<lambda>ms e. insert_member c e ms) ms es)"
  using assms
proof (induction es arbitrary: ms)
  case Nil
  then show ?case by simp
next
  case (Cons e es)
  then show ?case by (simp add: members_insert)
qed

lemma members_ok_mono: "members_ok cs ms \<Longrightarrow> cx_context_id ` set cs \<subseteq> cx_context_id ` set cs' \<Longrightarrow> members_ok cs' ms"
  unfolding members_ok_def by blast

lemma latest_context_None:
  "latest_context db a ws = None \<Longrightarrow> r \<in> set (db_contexts db) \<Longrightarrow> context_key r \<noteq> (a, ws, v)"
  by (auto simp: latest_context_def fetch_latest_None_iff context_key_def)

lemma latest_context_Some:
  assumes "latest_context db a ws = Some l"
  shows "l \<in> set (db_contexts db)" "cx_asset_id l = a" "cx_window_start l = ws"
    and "r \<in> set (db_contexts db) \<Longrightarrow> context_key r \<noteq> (a, ws, cx_context_version l + 1)"
  using fetch_latest_Some [OF assms [unfolded latest_context_def]]
  by (auto simp: context_key_def)

lemma assign_event_wf [wf_intros]:
  assumes wf: "wf_db db"
  shows "wf_db (assign_event a e ws we db)"
proof -
  let ?n = "db_next_uuid db"
  have c: "contexts_ok ?n (db_contexts db)" and m: "members_ok (db_contexts db) (db_context_events db)"
    and rest: "predictions_ok ?n (db_predictions db)" "outbox_ok ?n (db_predictions db) (db_outbox db)"
    using wf by (auto simp: wf_db_def)
  have rest': "predictions_ok (?n + 1) (db_predictions db)" "outbox_ok (?n + 1) (db_predictions db) (db_outbox db)"
    using rest predictions_ok_mono outbox_ok_mono by fastforce+
  have new: "contexts_ok (?n + 1) (insert_context (new_context ?n a ws we v seen) (db_contexts db))" for v seen
    by (rule contexts_insert [OF c]) (simp add: new_context_def)
  have grow: "members_ok (db_contexts db @ [x]) (db_context_events db)" for x
    using m by (rule members_ok_mono) auto
  show ?thesis
  proof (cases "latest_context db a ws")
    case None
    have "insert_context (new_context ?n a ws we 1 (ev_first_seen_at e)) (db_contexts db) =
        db_contexts db @ [new_context ?n a ws we 1 (ev_first_seen_at e)]"
      by (rule insert_context_fresh)
        (use latest_context_None [OF None] in \<open>auto simp: context_key_def new_context_def\<close>)
    then have "members_ok (insert_context (new_context ?n a ws we 1 (ev_first_seen_at e)) (db_contexts db))
        (insert_member ?n e (db_context_events db))"
      using members_insert [OF grow] by (simp add: new_context_def)
    with None new rest' wf show ?thesis by (simp add: assign_event_def Let_def wf_db_def)
  next
    case (Some l)
    note l = latest_context_Some [OF Some]
    show ?thesis
    proof (cases "cx_state l \<in> set JOINABLE_STATES")
      case True
      let ?cs = "update_where (\<lambda>r. cx_context_id r = cx_context_id l)
          (\<lambda>r. r\<lparr>cx_watermark := max (cx_watermark r) (ev_first_seen_at e)\<rparr>) (db_contexts db)"
      have "contexts_ok ?n ?cs" and ids: "cx_context_id ` set ?cs = cx_context_id ` set (db_contexts db)"
        using c contexts_update [of "\<lambda>r. r\<lparr>cx_watermark := max (cx_watermark r) (ev_first_seen_at e)\<rparr>"]
        by (simp_all add: context_key_def)
      moreover have "members_ok ?cs (insert_member (cx_context_id l) e (db_context_events db))"
        using l(1) ids by (intro members_insert members_ok_mono [OF m]) auto
      ultimately show ?thesis using Some True rest wf by (simp add: assign_event_def Let_def wf_db_def)
    next
      case False
      let ?c = "new_context ?n a ws we (cx_context_version l + 1) (ev_first_seen_at e)"
      have "insert_context ?c (db_contexts db) = db_contexts db @ [?c]"
        by (rule insert_context_fresh) (use l(4) in \<open>auto simp: context_key_def new_context_def\<close>)
      then have "members_ok (insert_context ?c (db_contexts db)) (insert_member ?n e
          (foldl (\<lambda>ms e'. insert_member ?n e' ms) (db_context_events db)
            (members (db_context_events db) (cx_context_id l))))"
        by (simp, intro members_insert members_insert_all grow) (simp_all add: new_context_def)
      with Some False new rest' wf show ?thesis by (simp add: assign_event_def Let_def wf_db_def)
    qed
  qed
qed

lemma set_context_state_wf [wf_intros]: "wf_db db \<Longrightarrow> wf_db (set_context_state c st db)"
  using contexts_update [where f = "\<lambda>r. r\<lparr>cx_state := st\<rparr>" and p = "\<lambda>r. cx_context_id r = c" and cs = "db_contexts db"]
  by (auto simp: wf_db_def set_context_state_def context_key_def members_ok_def)

lemma fold_state_wf: "wf_db db \<Longrightarrow> wf_db (foldl (\<lambda>d r. set_context_state (cx_context_id r) st d) db rows)"
  by (induction rows arbitrary: db) (auto intro: set_context_state_wf)

lemma claim_ready_contexts_wf [wf_intros]:
  "wf_db db \<Longrightarrow> wf_db (snd (claim_ready_contexts reg now g n db))"
  by (auto simp: claim_ready_contexts_def Let_def intro: fold_state_wf)

lemma withdraw_projections [simp]:
  "map pd_prediction_id (withdraw s ps) = map pd_prediction_id ps"
  "map pd_idempotency_key (withdraw s ps) = map pd_idempotency_key ps"
  "map pd_decision_at (withdraw s ps) = map pd_decision_at ps"
  "map pd_asset_id (withdraw s ps) = map pd_asset_id ps"
  by (auto simp: withdraw_def map_update_where split: option.splits)

lemma predictions_ok_ids:
  "predictions_ok n ps \<longleftrightarrow> distinct (map pd_prediction_id ps) \<and> distinct (map pd_idempotency_key ps) \<and>
     (\<forall>i \<in> set (map pd_prediction_id ps). i < n)"
  by (simp add: predictions_ok_def)

lemma store_prediction_wf [wf_intros]:
  assumes wf: "wf_db db" and fresh: "\<And>p. p \<in> set (db_predictions db) \<Longrightarrow> pd_prediction_id p \<noteq> pm_prediction_id m"
    "\<And>r. r \<in> set (db_outbox db) \<Longrightarrow> ob_message_id r \<noteq> message_id m"
    and bound: "pm_prediction_id m < db_next_uuid db" "message_id m < db_next_uuid db"
  shows "wf_db (snd (store_prediction_with_outbox m key w db))"
proof (cases "key \<in> set (map pd_idempotency_key (db_predictions db))")
  case True
  then show ?thesis using wf by (simp add: store_prediction_with_outbox_def set_context_state_wf)
next
  case False
  let ?ps = "db_predictions db @ [prediction_row_of m key]"
  let ?ps' = "if w then withdraw (pm_supersedes_prediction_id m) ?ps else ?ps"
  let ?db = "db\<lparr>db_predictions := ?ps', db_contributing_edges := db_contributing_edges db @
      map (\<lambda>e. (pm_prediction_id m, e)) (pm_contributing_edges m),
    db_outbox := db_outbox db @ [new_outbox_row (message_id m) (pm_prediction_id m) m (pm_decision_at m)]\<rparr>"
  have ids: "map pd_prediction_id ?ps' = map pd_prediction_id (db_predictions db) @ [pm_prediction_id m]"
    and keys: "map pd_idempotency_key ?ps' = map pd_idempotency_key (db_predictions db) @ [key]"
    by (simp_all add: prediction_row_of_def)
  have "pm_prediction_id m \<notin> set (map pd_prediction_id (db_predictions db))"
    "message_id m \<notin> set (map ob_message_id (db_outbox db))"
    using fresh by (metis (no_types, lifting) imageE set_map)+
  note new = this
  have "predictions_ok (db_next_uuid db) ?ps'"
    using wf new(1) bound(1) False unfolding predictions_ok_ids ids keys
    by (auto simp: wf_db_def predictions_ok_def)
  moreover have "outbox_ok (db_next_uuid db) ?ps' (db_outbox ?db)"
    using wf new(2) bound(2) unfolding outbox_ok_def ids
    by (auto simp: wf_db_def outbox_ok_def new_outbox_row_def)
  moreover have "fst ` set (db_contributing_edges ?db) \<subseteq> set (map pd_prediction_id ?ps')"
    using wf unfolding ids by (auto simp: wf_db_def)
  ultimately have "wf_db ?db" using wf unfolding wf_db_def by simp
  then show ?thesis using False by (simp add: store_prediction_with_outbox_def Let_def set_context_state_wf)
qed

end
