(* ===== verification/PredictionPipeline.thy ===== *)
theory PredictionPipeline
  imports PredictionRepo
begin

text \<open>
  The prediction pipeline (\<^verbatim>\<open>services/prediction/prediction/pipeline.py\<close>): event assignment, stance
  rules, cross-asset propagation and the close sweep.

  The graph client, the price reader and the tz database are the fields of \<open>prediction_env\<close>; a graph
  read fails with a transport error, which the sweep catches, or with a validation error, which it
  does not.  The research recorder swallows its own failures and feeds nothing back, so its effect is
  the list of calls it receives.  The three identifiers of a message are drawn in the order
  correlation, prediction, message.
\<close>

record prediction_settings =
  st_context_window_minutes :: int
  st_close_grace_minutes :: int
  st_decision_deadband :: flt
  st_confidence_evidence_halfpoint :: flt
  st_max_daily_predictions_per_asset :: nat
  st_magnitude_small_max :: flt
  st_magnitude_medium_max :: flt
  st_max_propagation_depth :: nat
  st_propagation_min_confidence :: flt
  st_research :: bool

record prediction_env =
  en_registry :: Registry
  en_tz :: tzdb
  en_firing_edges :: "EventType \<Rightarrow> AssetId list option \<Rightarrow> ConditionCode list option \<Rightarrow>
    (graph_error, FiringEdge list) result"
  en_correlation_edges :: "AssetId \<Rightarrow> ConditionCode \<Rightarrow> (graph_error, CorrelationEdge list) result"
  en_is_elevated :: "AssetId \<Rightarrow> bool"
  en_is_price_available :: "AssetId \<Rightarrow> bool"
  en_settings :: prediction_settings

datatype pipeline_error = PyError py_error | CalendarError calendar_error | GraphError graph_error

type_synonym 'a pprog = "(prediction_db, pipeline_error, 'a) prog"

definition map_error :: "('e \<Rightarrow> 'f) \<Rightarrow> ('e, 'a) result \<Rightarrow> ('f, 'a) result" where
  "map_error f r = (case r of Inl e \<Rightarrow> Inl (f e) | Inr a \<Rightarrow> Inr a)"

subsection \<open>Events\<close>

definition research_log :: "prediction_env \<Rightarrow> research_call \<Rightarrow> prediction_db \<Rightarrow> prediction_db" where
  "research_log env call db =
     (if st_research (en_settings env) then db\<lparr>db_research := db_research db @ [call]\<rparr> else db)"

definition event_member :: "EventDetected \<Rightarrow> ContextEvent" where
  "event_member event =
     \<lparr>ev_event_id = ed_event_id event, ev_event_type = ed_event_type event,
      ev_first_seen_at = ed_first_seen_at event, ev_polarity = ed_polarity event,
      ev_context_tags = ed_context_tags event\<rparr>"

definition process_event :: "prediction_env \<Rightarrow> EventDetected \<Rightarrow> prediction_db \<Rightarrow> prediction_db" where
  "process_event env event db =
     (let db1 = research_log env (RecordEvent event) db
      in if ed_affected_asset_ids event = [] then db1
         else let (window_start, window_end) =
                    window_bounds (ed_first_seen_at event) (st_context_window_minutes (en_settings env))
              in foldl (\<lambda>d a. assign_event a (event_member event) window_start window_end d) db1
                   (ed_affected_asset_ids event))"

definition conditions_by_type :: "ContextEvent list \<Rightarrow> (EventType, ConditionCode list) dict" where
  "conditions_by_type events =
     foldl (\<lambda>by_type e. dict_setdefault by_type (ev_event_type e) [] (\<lambda>cs. cs @ ev_context_tags e)) [] events"

definition polarity_by_type :: "ContextEvent list \<Rightarrow> polarities" where
  "polarity_by_type events =
     (let ps = foldl (\<lambda>d e. dict_setdefault d (ev_event_type e) [] (\<lambda>l. l @ [ev_polarity e])) [] events
      in (\<lambda>t. map_option (\<lambda>pols. if pols \<noteq> [] \<and> list_all (\<lambda>p. p = RESOLUTION) pols then RESOLUTION
                else OCCURRENCE) (dict_get ps t)))"

definition firing_edges ::
  "prediction_env \<Rightarrow> AssetId \<Rightarrow> ContextEvent list \<Rightarrow> bool \<Rightarrow> (graph_error, FiringEdge list) result" where
  "firing_edges env a events elevated =
     bind_result (map_result (\<lambda>(event_type, conditions).
         en_firing_edges env event_type (Some [a])
           (Some (conditions @ (if elevated then [RISK_PREMIUM_ELEVATED] else []))))
       (conditions_by_type events)) (\<lambda>ess. Inr (concat ess))"

subsection \<open>Stance rules\<close>

definition is_market_open ::
  "prediction_env \<Rightarrow> AssetId \<Rightarrow> instant \<Rightarrow> (pipeline_error, bool) result" where
  "is_market_open env a now =
     (case resolve (en_registry env) a of
        Inl _ \<Rightarrow> Inr False
      | Inr s \<Rightarrow>
          bind_result (map_error CalendarError (local_date_in (en_tz env) now (rs_timezone s))) (\<lambda>d.
            Inr (is_trading_day d \<and> en_is_price_available env a)))"

definition within_daily_limit ::
  "prediction_env \<Rightarrow> AssetId \<Rightarrow> instant \<Rightarrow> prediction_db \<Rightarrow> (pipeline_error, bool) result" where
  "within_daily_limit env a now db =
     (case resolve (en_registry env) a of
        Inl _ \<Rightarrow> Inr True
      | Inr s \<Rightarrow>
          bind_result (map_error CalendarError (zone_of (en_tz env) (rs_timezone s))) (\<lambda>z.
            Inr (count_predictions_on a (date_of (local_of z now)) z db <
                 st_max_daily_predictions_per_asset (en_settings env))))"

definition contributing_events :: "Decision \<Rightarrow> ContextEvent list \<Rightarrow> ContextEvent list" where
  "contributing_events d events =
     (if de_contributing_factors d = {} then events
      else let filtered = filter (\<lambda>e. ev_event_type e \<in> de_contributing_factors d) events
           in if filtered = [] then events else filtered)"

definition emit_prediction ::
  "ContextRecord \<Rightarrow> Decision \<Rightarrow> instant \<Rightarrow> ContextEvent list \<Rightarrow> nat \<Rightarrow> PropagationHop list \<Rightarrow>
   uuid option \<Rightarrow> bool \<Rightarrow> prediction_db \<Rightarrow> bool \<times> prediction_db" where
  "emit_prediction r d now events depth chain supersedes wdraw db =
     (let n = db_next_uuid db;
          m = \<lparr>message_id = n + 2, correlation_id = n, causation_id = None, occurred_at = now,
               pm_prediction_id = n + 1, pm_context_id = cx_context_id r,
               pm_context_version = cx_context_version r,
               pm_event_ids = map ev_event_id (contributing_events d events),
               pm_asset_id = cx_asset_id r, pm_direction = de_direction d,
               pm_magnitude = de_magnitude d, pm_confidence = de_confidence d,
               pm_horizon = ONE_TRADING_DAY, pm_rationale = de_rationale d,
               pm_contributing_edges = de_contributing_edges d, pm_decision_at = now,
               pm_publication_attempt_at = None, pm_supersedes_prediction_id = supersedes,
               pm_decision_method = GRAPH_ONLY, pm_llm_metadata = None,
               pm_propagation_depth = depth, pm_propagation_chain = chain\<rparr>;
          key = (cx_asset_id r, cx_window_start r, ONE_TRADING_DAY, cx_context_version r, depth)
      in store_prediction_with_outbox m key wdraw (db\<lparr>db_next_uuid := n + 3\<rparr>))"

definition store_prediction ::
  "prediction_env \<Rightarrow> ContextRecord \<Rightarrow> Decision \<Rightarrow> instant \<Rightarrow> ContextEvent list \<Rightarrow> nat \<Rightarrow>
   PropagationHop list \<Rightarrow> bool pprog" where
  "store_prediction env r d now events depth chain db =
     (let a = cx_asset_id r; active = latest_active_prediction a db
      in case is_market_open env a now of
           Inl e \<Rightarrow> (Inl e, db)
         | Inr market_open \<Rightarrow>
             if depth > 0 \<and> (case active of None \<Rightarrow> False | Some p \<Rightarrow> ap_direction p \<noteq> de_direction d)
             then (Inr False, db)
             else if market_open then
               (if (case active of None \<Rightarrow> False | Some p \<Rightarrow> ap_direction p = de_direction d)
                then (Inr False, db)
                else case within_daily_limit env a now db of
                       Inl e \<Rightarrow> (Inl e, db)
                     | Inr False \<Rightarrow> (Inr False, db)
                     | Inr True \<Rightarrow>
                         let (stored, db') = emit_prediction r d now events depth chain None False db
                         in (Inr stored, db'))
             else
               let (stored, db') = emit_prediction r d now events depth chain
                     (map_option ap_prediction_id active) (active \<noteq> None) db
               in (Inr stored, db'))"

subsection \<open>Propagation\<close>

type_synonym current_pass = "(AssetId, Direction \<times> PropagationHop list) dict"
type_synonym arrival = "FiringEdge \<times> AssetId \<times> PropagationHop list"

definition propagated_edge :: "CorrelationEdge \<Rightarrow> ConditionCode \<Rightarrow> AssetId \<Rightarrow> FiringEdge" where
  "propagated_edge c condition source =
     \<lparr>fe_factor_id = None, fe_asset_id = coe_target_asset_id c, fe_direction = coe_direction c,
      fe_weight = coe_weight c, fe_confidence = coe_confidence c, fe_alpha = coe_alpha c,
      fe_beta = coe_beta c, fe_condition = Some condition, fe_inherited_from = None,
      fe_correlation_source_id = Some source\<rparr>"

fun collect_inbound ::
  "prediction_env \<Rightarrow> current_pass \<Rightarrow> AssetId list \<Rightarrow> (AssetId, arrival list) dict \<Rightarrow>
   (pipeline_error, (AssetId, arrival list) dict) result" where
  "collect_inbound env [] visited inbound = Inr inbound"
| "collect_inbound env ((source, direction, parent_chain) # rest) visited inbound =
     (let condition = (if direction = UP then UPSTREAM_UP else UPSTREAM_DOWN)
      in case en_correlation_edges env source condition of
           Inl (GraphTransportError _) \<Rightarrow> collect_inbound env rest visited inbound
         | Inl e \<Rightarrow> Inl (GraphError e)
         | Inr edges \<Rightarrow>
             collect_inbound env rest visited
               (foldl (\<lambda>inb c. if coe_target_asset_id c \<in> set visited then inb
                    else dict_setdefault inb (coe_target_asset_id c) []
                           (\<lambda>l. l @ [(propagated_edge c condition source, source, parent_chain)]))
                 inbound edges))"

definition longest_chain :: "PropagationHop list list \<Rightarrow> PropagationHop list" where
  \<comment> \<open>\<^verbatim>\<open>max(chains, key=len)\<close>: the first chain of greatest length\<close>
  "longest_chain cands = (case cands of [] \<Rightarrow> []
     | c # cs \<Rightarrow> foldl (\<lambda>best x. if length best < length x then x else best) c cs)"

definition decide_target ::
  "prediction_env \<Rightarrow> ContextRecord \<Rightarrow> instant \<Rightarrow> ContextEvent list \<Rightarrow> nat \<Rightarrow>
   AssetId \<times> arrival list \<Rightarrow> AssetId list \<times> current_pass \<times> nat \<Rightarrow>
   (AssetId list \<times> current_pass \<times> nat) pprog" where
  "decide_target env r now events depth ta acc db =
     (let (target, arrivals) = ta; (visited, next_pass, produced) = acc; st = en_settings env;
          visited' = target # visited
      in case decide target (map fst arrivals) (st_decision_deadband st) (st_magnitude_small_max st)
                (st_magnitude_medium_max st) (\<lambda>_. None) False (st_confidence_evidence_halfpoint st) of
           Inl e \<Rightarrow> (Inl (PyError e), db)
         | Inr None \<Rightarrow> (Inr (visited', next_pass, produced), db)
         | Inr (Some d) \<Rightarrow>
             if de_direction d = NEUTRAL then (Inr (visited', next_pass, produced), db)
             else
               let hops = map (\<lambda>(firing, source, _).
                     \<lparr>hop_source_asset_id = source, hop_target_asset_id = target,
                      hop_condition = (case fe_condition firing of Some c \<Rightarrow> c | None \<Rightarrow> UPSTREAM_UP),
                      hop_direction = de_direction d, hop_edge_weight = fe_weight firing\<rparr>) arrivals;
                   chain = longest_chain (map (\<lambda>(_, _, c). c) arrivals) @ hops
               in case store_prediction env (r\<lparr>cx_asset_id := target\<rparr>) d now events depth chain db of
                    (Inl e, db') \<Rightarrow> (Inl e, db')
                  | (Inr stored, db') \<Rightarrow>
                      (Inr (if stored then (visited', dict_set next_pass target (de_direction d, chain), produced + 1)
                            else (visited', next_pass, produced)), db'))"

fun propagation_levels ::
  "prediction_env \<Rightarrow> ContextRecord \<Rightarrow> instant \<Rightarrow> ContextEvent list \<Rightarrow> nat \<Rightarrow> nat \<Rightarrow>
   AssetId list \<times> current_pass \<times> nat \<Rightarrow> nat pprog" where
  \<comment> \<open>the loop \<^verbatim>\<open>while current_pass and depth < max_propagation_depth\<close>; the fifth argument is what is left
     of the depth bound\<close>
  "propagation_levels env r now events 0 depth acc = return_p (snd (snd acc))"
| "propagation_levels env r now events (Suc left) depth acc =
     (let (visited, current_pass, produced) = acc
      in if current_pass = [] then return_p produced
         else bind_p (lift_p (collect_inbound env current_pass visited [])) (\<lambda>inbound.
              bind_p (fold_p (decide_target env r now events (depth + 1)) inbound (visited, [], produced))
                (propagation_levels env r now events left (depth + 1))))"

definition run_propagation ::
  "prediction_env \<Rightarrow> ContextRecord \<Rightarrow> (AssetId, Direction) dict \<Rightarrow> AssetId list \<Rightarrow> instant \<Rightarrow>
   ContextEvent list \<Rightarrow> nat pprog" where
  "run_propagation env r direct visited now events =
     propagation_levels env r now events (st_max_propagation_depth (en_settings env)) 0
       (visited, map (\<lambda>(a, d). (a, d, [])) direct, 0)"

subsection \<open>The close sweep\<close>

type_synonym sweep_acc = "nat \<times> (AssetId, Direction) dict \<times> (ContextRecord \<times> Decision \<times> ContextEvent list) list"

definition close_direct :: "prediction_env \<Rightarrow> instant \<Rightarrow> ContextRecord \<Rightarrow> sweep_acc \<Rightarrow> sweep_acc pprog" where
  "close_direct env now r acc db =
     (let (produced, direct, deferred) = acc; st = en_settings env; a = cx_asset_id r;
          events = load_context_events (cx_context_id r) db; elevated = en_is_elevated env a
      in case firing_edges env a events elevated of
           Inl (GraphTransportError e) \<Rightarrow>
             (Inr acc, set_context_state (cx_context_id r) ERROR_RETRYABLE
                (research_log env (Capture r events [] elevated None True) db))
         | Inl e \<Rightarrow> (Inl (GraphError e), db)
         | Inr edges \<Rightarrow>
             (case decide a edges (st_decision_deadband st) (st_magnitude_small_max st)
                (st_magnitude_medium_max st) (polarity_by_type events) elevated
                (st_confidence_evidence_halfpoint st) of
                Inl e \<Rightarrow> (Inl (PyError e), db)
              | Inr decision \<Rightarrow>
                  let db1 = research_log env (Capture r events edges elevated decision False) db
                  in case decision of
                       None \<Rightarrow> (Inr acc, set_context_state (cx_context_id r) PREDICTED db1)
                     | Some d \<Rightarrow>
                         (case store_prediction env r d now events 0 [] db1 of
                            (Inl e, db2) \<Rightarrow> (Inl e, db2)
                          | (Inr stored, db2) \<Rightarrow>
                              let produced' = (if stored then produced + 1 else produced)
                              in if de_direction d = UP \<or> de_direction d = DOWN
                                 then (Inr (produced', dict_set direct a (de_direction d),
                                            deferred @ [(r, d, events)]), db2)
                                 else (Inr (produced', direct, deferred),
                                       set_context_state (cx_context_id r) PREDICTED db2))))"

definition close_deferred ::
  "prediction_env \<Rightarrow> instant \<Rightarrow> (AssetId, Direction) dict \<Rightarrow> ContextRecord \<times> Decision \<times> ContextEvent list \<Rightarrow>
   nat \<Rightarrow> nat pprog" where
  "close_deferred env now direct rde produced =
     (let (r, d, events) = rde
      in bind_p (if de_confidence d < st_propagation_min_confidence (en_settings env) then return_p 0
                 else run_propagation env r [(cx_asset_id r, de_direction d)]
                        (cx_asset_id r # dict_keys direct) now events) (\<lambda>k.
         bind_p (write_p (set_context_state (cx_context_id r) PREDICTED)) (\<lambda>_.
         return_p (produced + k))))"

definition close_claimed :: "prediction_env \<Rightarrow> instant \<Rightarrow> ContextRecord list \<Rightarrow> nat pprog" where
  "close_claimed env now recs =
     bind_p (fold_p (close_direct env now) recs (0, [], [])) (\<lambda>(produced, direct, deferred).
     fold_p (close_deferred env now direct) deferred produced)"

definition claim_due :: "prediction_env \<Rightarrow> instant \<Rightarrow> ContextRecord list pprog" where
  "claim_due env now db =
     (case claim_ready_contexts (en_registry env) now (st_close_grace_minutes (en_settings env)) 20 db of
        (r, db') \<Rightarrow> (map_error PyError r, db'))"

definition close_ready_contexts :: "prediction_env \<Rightarrow> instant \<Rightarrow> nat pprog" where
  "close_ready_contexts env now = bind_p (claim_due env now) (close_claimed env now)"

subsection \<open>What every write of the sweep keeps, the sweep keeps\<close>

text \<open>
  The sweep changes the tables through three writes only: the research log, the state of a context it
  owns, and storing a prediction for such a context.
\<close>

locale sweep_invariant =
  fixes env :: prediction_env and now :: instant and P :: "prediction_db \<Rightarrow> bool" and owns :: "uuid \<Rightarrow> bool"
  assumes keep_log: "P db \<Longrightarrow> P (research_log env call db)"
    and keep_state: "P db \<Longrightarrow> owns c \<Longrightarrow> st = PREDICTED \<or> st = ERROR_RETRYABLE \<Longrightarrow>
      P (set_context_state c st db)"
    and keep_store: "P db \<Longrightarrow> owns (cx_context_id r) \<Longrightarrow>
      P (snd (store_prediction env r d now events depth chain db))"
begin

lemma decide_target_inv:
  assumes "P db" "owns (cx_context_id r)"
  shows "P (snd (decide_target env r now events depth ta acc db))"
proof -
  have "P db'" if "store_prediction env (r\<lparr>cx_asset_id := x\<rparr>) d now events depth chain db = (res, db')"
    for x d chain res db'
    using keep_store [of db "r\<lparr>cx_asset_id := x\<rparr>" d events depth chain] assms that by simp
  then show ?thesis using assms(1)
    by (auto simp: decide_target_def Let_def split: prod.splits sum.splits option.splits)
qed

lemma propagation_levels_inv:
  assumes "owns (cx_context_id r)"
  shows "P db \<Longrightarrow> P (snd (propagation_levels env r now events left depth acc db))"
proof (induction left arbitrary: depth acc db)
  case 0
  then show ?case by (simp add: return_p_def)
next
  case (Suc left)
  obtain visited cur prod where acc: "acc = (visited, cur, prod)" by (cases acc)
  have fold: "P (snd (fold_p (decide_target env r now events (depth + 1)) inbound acc' db'))"
    if "P db'" for inbound acc' db'
    by (rule fold_p_inv [where P = P]) (use decide_target_inv assms that in auto)
  have "P (snd (bind_p (lift_p (collect_inbound env cur visited [])) (\<lambda>inbound.
      bind_p (fold_p (decide_target env r now events (depth + 1)) inbound (visited, [], prod))
        (propagation_levels env r now events left (depth + 1))) db))"
    by (intro bind_p_inv [where P = P] Suc.IH fold) (use Suc.prems in \<open>auto simp: lift_p_def\<close>)
  then show ?case using Suc.prems by (simp add: acc return_p_def)
qed

lemma close_direct_inv:
  assumes "P db" "owns (cx_context_id r)"
  shows "P (snd (close_direct env now r acc db))"
proof -
  have "P db'" if "store_prediction env r d now events 0 [] (research_log env call db) = (res, db')"
    for d events call res db'
    using keep_store [of "research_log env call db" r d events 0 "[]"] keep_log assms that by simp
  then show ?thesis using assms keep_log keep_state
    by (auto simp: close_direct_def Let_def split: prod.splits sum.splits option.splits graph_error.splits)
qed

lemma close_deferred_inv:
  assumes "P db" "owns (cx_context_id (fst rde))"
  shows "P (snd (close_deferred env now direct rde produced db))"
  using assms propagation_levels_inv [of "fst rde"] keep_state
  by (cases rde) (auto simp: close_deferred_def run_propagation_def return_p_def write_p_def
      intro!: bind_p_inv [where P = P])

lemma deferred_subset:
  "fold_p (close_direct env now) rs (p, dir, def) db = (Inr (p', dir', def'), db') \<Longrightarrow>
   fst ` set def' \<subseteq> fst ` set def \<union> set rs"
proof (induction rs arbitrary: p dir "def" db)
  case Nil
  then show ?case by (simp add: return_p_def)
next
  case (Cons r rs)
  then obtain p1 dir1 def1 db1 where step: "close_direct env now r (p, dir, def) db = (Inr (p1, dir1, def1), db1)"
    and rest: "fold_p (close_direct env now) rs (p1, dir1, def1) db1 = (Inr (p', dir', def'), db')"
    by (auto simp: bind_p_def split: prod.splits sum.splits)
  have "fst ` set def1 \<subseteq> fst ` set def \<union> {r}"
    using step by (auto simp: close_direct_def Let_def split: prod.splits sum.splits option.splits
        graph_error.splits if_splits)
  with Cons.IH [OF rest] show ?case by auto
qed

lemma close_claimed_inv:
  assumes "P db" "\<And>r. r \<in> set recs \<Longrightarrow> owns (cx_context_id r)"
  shows "P (snd (close_claimed env now recs db))"
  unfolding close_claimed_def
proof (rule bind_p_inv [where P = P])
  show "P (snd (fold_p (close_direct env now) recs (0, [], []) db))"
    by (rule fold_p_inv [where P = P]) (use close_direct_inv assms in auto)
next
  fix a s'
  assume eq: "fold_p (close_direct env now) recs (0, [], []) db = (Inr a, s')" and s': "P s'"
  obtain produced direct deferred where a: "a = (produced, direct, deferred)" by (cases a)
  have own: "owns (cx_context_id (fst x))" if "x \<in> set deferred" for x
    using deferred_subset [OF eq [unfolded a]] that assms(2) by auto
  show "P (snd ((case a of (produced, direct, deferred) \<Rightarrow>
      fold_p (close_deferred env now direct) deferred produced) s'))"
    unfolding a prod.case by (rule fold_p_inv [where P = P]) (use close_deferred_inv own s' in auto)
qed

end

subsection \<open>Storing a prediction\<close>

lemma emit_prediction_wf [wf_intros]:
  assumes "wf_db db"
  shows "wf_db (snd (emit_prediction r d now events depth chain sp w db))"
proof -
  let ?n = "db_next_uuid db"
  have n: "pd_prediction_id p < ?n" if "p \<in> set (db_predictions db)" for p
    using assms that by (auto simp: wf_db_def predictions_ok_def)
  have o: "ob_message_id q < ?n" if "q \<in> set (db_outbox db)" for q
    using assms that by (auto simp: wf_db_def outbox_ok_def)
  have "wf_db (db\<lparr>db_next_uuid := ?n + 3\<rparr>)"
    using assms contexts_ok_mono [of ?n _ "?n + 3"] predictions_ok_mono [of ?n _ "?n + 3"]
      outbox_ok_mono [of ?n _ _ "?n + 3"] by (auto simp: wf_db_def)
  then show ?thesis
    unfolding emit_prediction_def Let_def
    by (rule store_prediction_wf) (use n o in \<open>fastforce dest: less_imp_neq\<close>)+
qed

lemma store_prediction_inv:
  assumes "P db" and "\<And>sp w. P (snd (emit_prediction r d now events depth chain sp w db))"
  shows "P (snd (store_prediction env r d now events depth chain db))"
  using assms
  by (auto simp: store_prediction_def Let_def split: sum.splits option.splits bool.splits prod.splits)
    (metis snd_conv)+

lemma research_log_frame [simp, frame]:
  "db_contexts (research_log env call db) = db_contexts db"
  "db_context_events (research_log env call db) = db_context_events db"
  "db_predictions (research_log env call db) = db_predictions db"
  "db_contributing_edges (research_log env call db) = db_contributing_edges db"
  "db_outbox (research_log env call db) = db_outbox db"
  "db_next_uuid (research_log env call db) = db_next_uuid db"
  by (simp_all add: research_log_def)

lemma research_log_wf [wf_intros]: "wf_db (research_log env call db) = wf_db db"
  by (simp add: wf_db_def)

interpretation schema: sweep_invariant env now wf_db "\<lambda>_. True" for env now
  by unfold_locales (auto simp: research_log_wf intro: set_context_state_wf store_prediction_inv emit_prediction_wf)

lemma claim_due_wf: "wf_db db \<Longrightarrow> wf_db (snd (claim_due env now db))"
  by (simp add: claim_due_def split_def claim_ready_contexts_wf)

lemma process_event_wf: "wf_db db \<Longrightarrow> wf_db (process_event env event db)"
proof -
  have "wf_db (foldl (\<lambda>d a. assign_event a e ws we d) db0 as)" if "wf_db db0" for db0 e ws we as
    using that by (induction as arbitrary: db0) (auto intro: assign_event_wf)
  then show "wf_db db \<Longrightarrow> wf_db (process_event env event db)"
    by (auto simp: process_event_def Let_def research_log_wf split: prod.splits)
qed

lemma close_ready_contexts_wf: "wf_db db \<Longrightarrow> wf_db (snd (close_ready_contexts env now db))"
  unfolding close_ready_contexts_def
  by (rule bind_p_inv [where P = wf_db]) (auto intro: claim_due_wf schema.close_claimed_inv)

lemma relay_wf:
  assumes "wf_db db"
  shows "wf_db (db\<lparr>db_outbox := fst (prediction_publish_pending send now n (db_outbox db))\<rparr>)"
proof -
  have "distinct (map ob_message_id (db_outbox db))" using assms by (auto simp: wf_db_def outbox_ok_def)
  then have "map ob_message_id (fst (prediction_publish_pending send now n (db_outbox db))) =
      map ob_message_id (db_outbox db)"
    "map ob_aggregate_id (fst (prediction_publish_pending send now n (db_outbox db))) =
      map ob_aggregate_id (db_outbox db)"
    by (auto simp: prediction_publish_pending_def relay_eq relayed_def mark_failed_def mark_delivered_def
        split: sum.splits)
  then show ?thesis
    using assms by (auto simp: wf_db_def outbox_ok_def) (metis image_eqI image_iff set_map)
qed

subsection \<open>A small environment for evaluation\<close>

definition empty_db :: prediction_db where
  "empty_db = \<lparr>db_contexts = [], db_context_events = [], db_predictions = [], db_contributing_edges = [],
     db_outbox = [], db_next_uuid = 0, db_research = []\<rparr>"

lemma empty_db_wf: "wf_db empty_db"
  by (simp add: wf_db_def empty_db_def contexts_ok_def members_ok_def predictions_ok_def outbox_ok_def)

definition sample_settings :: prediction_settings where
  "sample_settings =
     \<lparr>st_context_window_minutes = 60, st_close_grace_minutes = 10, st_decision_deadband = 1 / 8,
      st_confidence_evidence_halfpoint = 1 / 2, st_max_daily_predictions_per_asset = 2,
      st_magnitude_small_max = 2 / 5, st_magnitude_medium_max = 7 / 10, st_max_propagation_depth = 3,
      st_propagation_min_confidence = 1 / 4, st_research = False\<rparr>"

definition sample_env :: prediction_env where
  "sample_env =
     \<lparr>en_registry = sample_registry, en_tz = (\<lambda>_. Some (fixed_zone 0)),
      en_firing_edges = (\<lambda>f _ _. Inr [sample_edge f UP 1]), en_correlation_edges = (\<lambda>_ _. Inr []),
      en_is_elevated = (\<lambda>_. False), en_is_price_available = (\<lambda>_. True), en_settings = sample_settings\<rparr>"

definition sample_event :: EventDetected where
  "sample_event =
     \<lparr>message_id = 0, correlation_id = 0, causation_id = None, occurred_at = 0, ed_event_id = 7,
      ed_cluster_id = 8, ed_canonical_summary = ''summary'', ed_event_type = MILITARY_CONFLICT,
      ed_actor = None, ed_action = None, ed_object = None, ed_entities = [],
      ed_affected_asset_ids = [''GOLD''], ed_polarity = OCCURRENCE, ed_context_tags = [],
      ed_first_seen_at = minutes 5, ed_last_seen_at = minutes 5, ed_sources = [], ed_fact_conflicts = [],
      ed_extraction_method = LOCAL, ed_llm_metadata = None\<rparr>"



subsection \<open>What one store does\<close>

lemma set_context_state_frame [simp, frame]:
  "db_predictions (set_context_state c st db) = db_predictions db"
  "db_context_events (set_context_state c st db) = db_context_events db"
  "db_contributing_edges (set_context_state c st db) = db_contributing_edges db"
  "db_outbox (set_context_state c st db) = db_outbox db"
  "db_next_uuid (set_context_state c st db) = db_next_uuid db"
  "db_research (set_context_state c st db) = db_research db"
  by (simp_all add: set_context_state_def)

definition stored_row :: "ContextRecord \<Rightarrow> Decision \<Rightarrow> instant \<Rightarrow> nat \<Rightarrow> uuid option \<Rightarrow> uuid \<Rightarrow> prediction_row" where
  "stored_row r d now depth sp n =
     \<lparr>pd_prediction_id = n + 1, pd_context_id = cx_context_id r, pd_context_version = cx_context_version r,
      pd_asset_id = cx_asset_id r, pd_direction = de_direction d, pd_magnitude = de_magnitude d,
      pd_confidence = de_confidence d, pd_horizon = ONE_TRADING_DAY, pd_rationale = de_rationale d,
      pd_decision_method = GRAPH_ONLY, pd_decision_at = now, pd_supersedes_prediction_id = sp,
      pd_idempotency_key = (cx_asset_id r, cx_window_start r, ONE_TRADING_DAY, cx_context_version r, depth),
      pd_status = PENDING\<rparr>"

lemma emit_prediction_result:
  assumes "emit_prediction r d now events depth chain sp w db = (stored, db')" and "w \<longleftrightarrow> sp \<noteq> None"
  shows "db_next_uuid db' = db_next_uuid db + 3"
    and "stored \<longleftrightarrow> (cx_asset_id r, cx_window_start r, ONE_TRADING_DAY, cx_context_version r, depth)
          \<notin> set (map pd_idempotency_key (db_predictions db))"
    and "db_predictions db' = (if stored
          then withdraw sp (db_predictions db @ [stored_row r d now depth sp (db_next_uuid db)])
          else db_predictions db)"
  using assms
  by (auto simp: emit_prediction_def Let_def store_prediction_with_outbox_def stored_row_def
      prediction_row_of_def withdraw_def split: if_splits option.splits)

lemma store_prediction_cases:
  assumes "store_prediction env r d now events depth chain db = (res, db')"
  obtains (skip) "res \<noteq> Inr True" "db_predictions db' = db_predictions db" "db_next_uuid db \<le> db_next_uuid db'"
  | (emit) sp where "res = Inr True" "db_next_uuid db' = db_next_uuid db + 3"
      "db_predictions db' = withdraw sp (db_predictions db @ [stored_row r d now depth sp (db_next_uuid db)])"
      "(is_market_open env (cx_asset_id r) now = Inr True \<and> sp = None \<and>
          within_daily_limit env (cx_asset_id r) now db = Inr True \<and>
          (\<forall>p. latest_active_prediction (cx_asset_id r) db = Some p \<longrightarrow> ap_direction p \<noteq> de_direction d)) \<or>
       (is_market_open env (cx_asset_id r) now = Inr False \<and>
          sp = map_option ap_prediction_id (latest_active_prediction (cx_asset_id r) db))"
      "depth > 0 \<Longrightarrow> (\<forall>p. latest_active_prediction (cx_asset_id r) db = Some p \<longrightarrow> ap_direction p = de_direction d)"
proof -
  let ?act = "latest_active_prediction (cx_asset_id r) db"
  show thesis
  proof (cases "is_market_open env (cx_asset_id r) now")
    case (Inl e)
    then have "res = Inl e" "db' = db" using assms by (simp_all add: store_prediction_def)
    then show ?thesis by (intro skip) simp_all
  next
    case (Inr op)
    show ?thesis
    proof (cases "depth > 0 \<and> (case ?act of None \<Rightarrow> False | Some p \<Rightarrow> ap_direction p \<noteq> de_direction d)")
      case True
      then have "res = Inr False" "db' = db" using assms Inr by (simp_all add: store_prediction_def Let_def)
      then show ?thesis by (intro skip) simp_all
    next
      case no_contra: False
      then have agree: "depth > 0 \<Longrightarrow> (\<forall>p. ?act = Some p \<longrightarrow> ap_direction p = de_direction d)" by auto
      show ?thesis
      proof (cases op)
        case opened: True
        show ?thesis
        proof (cases "(case ?act of None \<Rightarrow> False | Some p \<Rightarrow> ap_direction p = de_direction d) \<or>
            within_daily_limit env (cx_asset_id r) now db \<noteq> Inr True")
          case True
          have "res \<noteq> Inr True" "db' = db"
            using assms Inr no_contra opened True
            by (cases "within_daily_limit env (cx_asset_id r) now db";
                auto simp: store_prediction_def Let_def split: bool.splits if_splits)+
          then show ?thesis by (intro skip) simp_all
        next
          case False
          obtain stored db'' where e: "emit_prediction r d now events depth chain None False db = (stored, db'')"
            by fastforce
          then have eq: "res = Inr stored" "db' = db''"
            using assms Inr no_contra opened False by (auto simp: store_prediction_def Let_def)
          note em = emit_prediction_result [OF e]
          have differ: "\<forall>p. ?act = Some p \<longrightarrow> ap_direction p \<noteq> de_direction d" using False by auto
          show ?thesis
          proof (cases stored)
            case True
            show ?thesis
              by (rule emit [OF _ _ _ _ agree]) (use em eq True opened Inr False differ in \<open>simp_all\<close>)
          next
            case False
            show ?thesis by (rule skip) (use em eq False in simp_all)
          qed
        qed
      next
        case closed: False
        obtain stored db'' where e: "emit_prediction r d now events depth chain (map_option ap_prediction_id ?act)
            (?act \<noteq> None) db = (stored, db'')" by fastforce
        then have eq: "res = Inr stored" "db' = db''"
          using assms Inr no_contra closed by (auto simp: store_prediction_def Let_def)
        note em = emit_prediction_result [OF e]
        show ?thesis
        proof (cases stored)
          case True
          show ?thesis
            by (rule emit [OF _ _ _ _ agree]) (use em eq True closed Inr in \<open>simp_all\<close>)
        next
          case False
          show ?thesis by (rule skip) (use em eq False in simp_all)
        qed
      qed
    qed
  qed
qed

subsection \<open>The daily cap\<close>

definition zone_for :: "prediction_env \<Rightarrow> AssetId \<Rightarrow> zone option" where
  "zone_for env a = (case resolve (en_registry env) a of Inl _ \<Rightarrow> None | Inr s \<Rightarrow> en_tz env (rs_timezone s))"

definition dates_advance :: "zone \<Rightarrow> bool" where
  \<comment> \<open>the zone's local date never goes back\<close>
  "dates_advance z \<longleftrightarrow> (\<forall>t t'. t \<le> t' \<longrightarrow> date_of (local_of z t) \<le> date_of (local_of z t'))"

definition cap_inv :: "prediction_env \<Rightarrow> instant \<Rightarrow> prediction_db \<Rightarrow> bool" where
  "cap_inv env now db \<longleftrightarrow> wf_db db \<and> (\<forall>p \<in> set (db_predictions db). pd_decision_at p \<le> now) \<and>
     (\<forall>a z d. zone_for env a = Some z \<longrightarrow>
        count_predictions_on a d z db \<le> st_max_daily_predictions_per_asset (en_settings env))"

lemma counts_on_withdrawn [simp]: "\<not> counts_on a d z (p\<lparr>pd_status := WITHDRAWN\<rparr>)"
  by (simp add: counts_on_def)

lemma withdraw_count_le: "length (filter (counts_on a d z) (withdraw sp ps)) \<le> length (filter (counts_on a d z) ps)"
proof (cases sp)
  case (Some pid)
  then show ?thesis by (induction ps) (auto simp: withdraw_def)
qed (simp add: withdraw_def)

lemma withdraw_count_less:
  assumes "p \<in> set ps" "pd_prediction_id p = pid" "pd_status p = PENDING" "counts_on a d z p"
  shows "length (filter (counts_on a d z) (withdraw (Some pid) ps)) < length (filter (counts_on a d z) ps)"
  using assms(1)
proof (induction ps)
  case (Cons q qs)
  have le: "length (filter (counts_on a d z) (withdraw (Some pid) qs)) \<le> length (filter (counts_on a d z) qs)"
    by (rule withdraw_count_le)
  show ?case
  proof (cases "q = p")
    case True
    then show ?thesis using assms(2-4) le by (auto simp: withdraw_def)
  next
    case False
    with Cons have "length (filter (counts_on a d z) (withdraw (Some pid) qs)) < length (filter (counts_on a d z) qs)"
      by simp
    then show ?thesis by (auto simp: withdraw_def)
  qed
qed simp

lemma withdraw_append: "withdraw sp (ps @ qs) = withdraw sp ps @ withdraw sp qs"
  by (simp add: withdraw_def split: option.splits)

lemma active_row:
  assumes "latest_active_prediction a db = Some p"
  obtains q where "q \<in> set (db_predictions db)" "pd_prediction_id q = ap_prediction_id p"
    "pd_direction q = ap_direction p" "pd_asset_id q = a" "pd_status q = PENDING"
    "\<And>q'. q' \<in> set (db_predictions db) \<Longrightarrow> pd_asset_id q' = a \<Longrightarrow> pd_status q' = PENDING \<Longrightarrow>
       pd_decision_at q' \<le> pd_decision_at q"
  using assms fetch_latest_Some unfolding latest_active_prediction_def by (fastforce simp: map_option_eq_Some)

lemma no_active_count:
  assumes "latest_active_prediction a db = None"
  shows "count_predictions_on a d z db = 0"
proof -
  have "\<not> counts_on a d z p" if "p \<in> set (db_predictions db)" for p
    using assms that by (cases "pd_status p")
      (auto simp: latest_active_prediction_def fetch_latest_None_iff counts_on_def)
  then show ?thesis by (simp add: count_predictions_on_def filter_empty_conv)
qed

lemma closed_store_count:
  assumes adv: "dates_advance z" and past: "\<forall>p \<in> set (db_predictions db). pd_decision_at p \<le> now"
    and d: "d = date_of (local_of z now)"
    and sp: "sp = map_option ap_prediction_id (latest_active_prediction a db)"
  shows "length (filter (counts_on a d z) (withdraw sp (db_predictions db))) + 1
    \<le> max 1 (count_predictions_on a d z db)"
proof (cases "latest_active_prediction a db")
  case None
  then show ?thesis using no_active_count [OF None] sp by (simp add: withdraw_def count_predictions_on_def)
next
  case (Some p)
  obtain q where q: "q \<in> set (db_predictions db)" "pd_prediction_id q = ap_prediction_id p" "pd_asset_id q = a"
    "pd_status q = PENDING" and latest: "\<And>q'. q' \<in> set (db_predictions db) \<Longrightarrow> pd_asset_id q' = a \<Longrightarrow>
      pd_status q' = PENDING \<Longrightarrow> pd_decision_at q' \<le> pd_decision_at q"
    using active_row [OF Some] by metis
  show ?thesis
  proof (cases "counts_on a d z q")
    case True
    then show ?thesis
      using withdraw_count_less [OF q(1,2,4) True] sp Some by (simp add: count_predictions_on_def)
  next
    case False
    have "\<not> counts_on a d z q'" if q': "q' \<in> set (db_predictions db)" for q'
    proof
      assume c: "counts_on a d z q'"
      then have "pd_asset_id q' = a" "pd_status q' = PENDING" "date_of (local_of z (pd_decision_at q')) = d"
        by (cases "pd_status q'"; simp add: counts_on_def)+
      then have "pd_decision_at q' \<le> pd_decision_at q" "pd_decision_at q \<le> now"
        using latest [OF q'] past q(1) by auto
      then have "d \<le> date_of (local_of z (pd_decision_at q))" "date_of (local_of z (pd_decision_at q)) \<le> d"
        using adv c d unfolding dates_advance_def counts_on_def by metis+
      with False q(3,4) show False by (simp add: counts_on_def)
    qed
    then have "filter (counts_on a d z) (db_predictions db) = []" by (simp add: filter_empty_conv)
    then show ?thesis using withdraw_count_le [of a d z sp "db_predictions db"] by simp
  qed
qed

lemma cap_store:
  assumes inv: "cap_inv env now db" and cap: "1 \<le> st_max_daily_predictions_per_asset (en_settings env)"
    and adv: "\<And>a z. zone_for env a = Some z \<Longrightarrow> dates_advance z"
  shows "cap_inv env now (snd (store_prediction env r d now events depth chain db))"
proof -
  let ?N = "st_max_daily_predictions_per_asset (en_settings env)"
  obtain res db' where st: "store_prediction env r d now events depth chain db = (res, db')" by fastforce
  have wf: "wf_db db'"
    using store_prediction_inv [where P = wf_db and db = db, OF _ emit_prediction_wf] inv st
    unfolding cap_inv_def by (metis snd_conv)
  from st have "cap_inv env now db'"
  proof (cases rule: store_prediction_cases)
    case skip
    then show "cap_inv env now db'" using inv wf by (simp add: cap_inv_def count_predictions_on_def)
  next
    case (emit sp)
    define row where "row = stored_row r d now depth sp (db_next_uuid db)"
    have row: "pd_asset_id row = cx_asset_id r" "pd_decision_at row = now" by (simp_all add: row_def stored_row_def)
    note ps = emit(3) [folded row_def, unfolded withdraw_append]
    have past: "pd_decision_at p \<le> now" if p: "p \<in> set (db_predictions db')" for p
    proof -
      have "map pd_decision_at (db_predictions db') = map pd_decision_at (db_predictions db) @ [now]"
        unfolding ps map_append withdraw_projections using row(2) by simp
      then have "pd_decision_at p \<in> set (map pd_decision_at (db_predictions db)) \<union> {now}"
        using p by (metis (no_types, lifting) Un_iff imageI list.set(1,2) set_append set_map)
      then show ?thesis using inv by (auto simp: cap_inv_def)
    qed
    have one: "length (filter (counts_on a e z) (withdraw sp [row])) \<le> (if a = cx_asset_id r \<and>
        e = date_of (local_of z now) then 1 else 0)" for a e z
      using row by (auto simp: withdraw_def counts_on_def split: option.splits)
    have "count_predictions_on a e z db' \<le> ?N" if z: "zone_for env a = Some z" for a e z
    proof (cases "a = cx_asset_id r \<and> e = date_of (local_of z now)")
      case False
      have "length (filter (counts_on a e z) (withdraw sp (db_predictions db))) \<le> ?N"
        using withdraw_count_le [of a e z sp "db_predictions db"] inv z
        unfolding cap_inv_def count_predictions_on_def by (meson le_trans)
      then show ?thesis using one [of a e z] False by (simp add: count_predictions_on_def ps)
    next
      case True
      have "length (filter (counts_on a e z) (withdraw sp (db_predictions db))) + 1 \<le> ?N"
        using emit(4)
      proof
        assume "is_market_open env (cx_asset_id r) now = Inr True \<and> sp = None \<and>
          within_daily_limit env (cx_asset_id r) now db = Inr True \<and>
          (\<forall>p. latest_active_prediction (cx_asset_id r) db = Some p \<longrightarrow> ap_direction p \<noteq> de_direction d)"
        then show ?thesis using True z
          by (auto simp: within_daily_limit_def zone_for_def zone_of_def map_error_def withdraw_def
              count_predictions_on_def split: sum.splits)
      next
        assume "is_market_open env (cx_asset_id r) now = Inr False \<and>
          sp = map_option ap_prediction_id (latest_active_prediction (cx_asset_id r) db)"
        then have "length (filter (counts_on a e z) (withdraw sp (db_predictions db))) + 1
            \<le> max 1 (count_predictions_on a e z db)"
          using closed_store_count [OF adv [OF z], of db now e sp a] inv True by (simp add: cap_inv_def)
        also have "\<dots> \<le> ?N" using inv z cap by (simp add: cap_inv_def)
        finally show ?thesis .
      qed
      then show ?thesis using one [of a e z] True by (simp add: count_predictions_on_def ps)
    qed
    then show "cap_inv env now db'" using wf past by (simp add: cap_inv_def)
  qed
  then show ?thesis using st by simp
qed

end
