(* ===== verification/PredictionSafety.thy ===== *)
theory PredictionSafety
  imports PredictionPipeline
begin

text \<open>
  Safety of the Prediction service over whole histories: a step is one delivered event, one close
  sweep or one outbox relay.  The registry, the tz database and the settings stay fixed during a
  history; the graph and the prices may change from step to step.
\<close>

definition env_like :: "prediction_env \<Rightarrow> prediction_env \<Rightarrow> bool" where
  "env_like base env \<longleftrightarrow> en_registry env = en_registry base \<and> en_tz env = en_tz base \<and>
     en_settings env = en_settings base"

inductive pstep :: "prediction_env \<Rightarrow> instant \<times> prediction_db \<Rightarrow> instant \<times> prediction_db \<Rightarrow> bool"
  for base where
  event: "env_like base env \<Longrightarrow> pstep base (t, db) (t, process_event env e db)"
| sweep: "env_like base env \<Longrightarrow> t \<le> now \<Longrightarrow> pstep base (t, db) (now, snd (close_ready_contexts env now db))"
| relay: "pstep base (t, db)
    (t, db\<lparr>db_outbox := fst (prediction_publish_pending send now n (db_outbox db))\<rparr>)"

inductive_cases pstepE: "pstep base s s'"

lemma pstep_wf: "pstep base s s' \<Longrightarrow> wf_db (snd s) \<Longrightarrow> wf_db (snd s')"
  by (elim pstepE) (auto intro: process_event_wf close_ready_contexts_wf relay_wf)

subsection \<open>The daily cap over a history\<close>

lemma process_event_predictions [simp, frame]: "db_predictions (process_event env e db) = db_predictions db"
proof -
  have "db_predictions (assign_event a m ws we d) = db_predictions d" for a m ws we d
    by (simp add: assign_event_def Let_def split: option.splits)
  then have "db_predictions (foldl (\<lambda>d a. assign_event a m ws we d) d0 as) = db_predictions d0" for d0 m ws we as
    by (induction as arbitrary: d0) simp_all
  then show ?thesis by (simp add: process_event_def Let_def split: prod.splits)
qed

lemma claim_due_predictions [simp, frame]: "db_predictions (snd (claim_due env now db)) = db_predictions db"
proof -
  have "db_predictions (foldl (\<lambda>d r. set_context_state (cx_context_id r) st d) d0 rs) = db_predictions d0"
    for d0 st and rs :: "context_row list"
    by (induction rs arbitrary: d0) simp_all
  then show ?thesis by (simp add: claim_due_def claim_ready_contexts_def Let_def split_def)
qed

lemma cap_inv_cong:
  "wf_db db' \<Longrightarrow> db_predictions db' = db_predictions db \<Longrightarrow> cap_inv env now db \<Longrightarrow> cap_inv env now db'"
  by (simp add: cap_inv_def count_predictions_on_def)

lemma cap_inv_later: "cap_inv env t db \<Longrightarrow> t \<le> now \<Longrightarrow> cap_inv env now db"
  by (fastforce simp: cap_inv_def)

lemma zone_for_like: "env_like base env \<Longrightarrow> zone_for env a = zone_for base a"
  by (cases "resolve (en_registry base) a") (simp_all add: zone_for_def env_like_def)

lemma cap_inv_like: "env_like base env \<Longrightarrow> cap_inv env now db = cap_inv base now db"
  by (simp add: cap_inv_def zone_for_like) (simp add: env_like_def)

lemma cap_inv_wf: "cap_inv env now db \<Longrightarrow> wf_db db"
  by (simp add: cap_inv_def)

definition cap_hyps :: "prediction_env \<Rightarrow> bool" where
  "cap_hyps env \<longleftrightarrow> 1 \<le> st_max_daily_predictions_per_asset (en_settings env) \<and>
     (\<forall>a z. zone_for env a = Some z \<longrightarrow> dates_advance z)"

interpretation daily_cap: sweep_invariant env now "\<lambda>db. cap_hyps env \<longrightarrow> cap_inv env now db" "\<lambda>_. True"
  for env now
proof
  fix db call
  assume "cap_hyps env \<longrightarrow> cap_inv env now db"
  then show "cap_hyps env \<longrightarrow> cap_inv env now (research_log env call db)"
    using cap_inv_cong [of "research_log env call db" db] cap_inv_wf by (simp add: research_log_wf)
next
  fix db c st
  assume "cap_hyps env \<longrightarrow> cap_inv env now db"
  then show "cap_hyps env \<longrightarrow> cap_inv env now (set_context_state c st db)"
    using cap_inv_cong [of "set_context_state c st db" db] cap_inv_wf set_context_state_wf by simp
next
  fix db r d events depth chain
  assume "cap_hyps env \<longrightarrow> cap_inv env now db"
  then show "cap_hyps env \<longrightarrow> cap_inv env now (snd (store_prediction env r d now events depth chain db))"
    using cap_store by (auto simp: cap_hyps_def)
qed

lemma cap_sweep:
  assumes "cap_hyps env" "cap_inv env now db"
  shows "cap_inv env now (snd (close_ready_contexts env now db))"
  unfolding close_ready_contexts_def
proof (rule bind_p_inv [where P = "cap_inv env now"])
  show "cap_inv env now (snd (claim_due env now db))"
    using assms(2) by (intro cap_inv_cong [OF _ claim_due_predictions] claim_due_wf) (simp_all add: cap_inv_def)
  show "cap_inv env now (snd (close_claimed env now a s'))" if "cap_inv env now s'" for a s'
    using daily_cap.close_claimed_inv [of env now s' a] assms(1) that by simp
qed

lemma cap_step:
  assumes "pstep base s s'" "cap_hyps base" "cap_inv base (fst s) (snd s)"
  shows "cap_inv base (fst s') (snd s')"
  using assms(1)
proof (cases rule: pstep.cases)
  case (event env t db e)
  then show ?thesis
    using assms(3) cap_inv_cong [of "process_event env e db" db] cap_inv_wf process_event_wf by simp
next
  case (sweep env t now db)
  then have "cap_hyps env" using assms(2) by (simp add: cap_hyps_def zone_for_like) (simp add: env_like_def)
  with sweep assms(3) cap_sweep [of env now db] show ?thesis
    using cap_inv_like [of base env] cap_inv_later [of base t db now] by simp
next
  case (relay t db send now n)
  let ?db = "db\<lparr>db_outbox := fst (prediction_publish_pending send now n (db_outbox db))\<rparr>"
  show ?thesis using relay assms(3) cap_inv_cong [of ?db db] cap_inv_wf relay_wf by simp
qed

lemma cap_steps:
  "(pstep base)\<^sup>*\<^sup>* s s' \<Longrightarrow> cap_hyps base \<Longrightarrow> cap_inv base (fst s) (snd s) \<Longrightarrow> cap_inv base (fst s') (snd s')"
  by (induction rule: rtranclp_induct) (auto intro: cap_step)

text \<open>
  C1: The per-asset daily cap holds over every history.  Starting from an empty database, after any
  sequence of events, sweeps at non-decreasing times and relay runs, no registered asset has more
  predictions that still stand on one local calendar day than
  \<^verbatim>\<open>max_daily_predictions_per_asset\<close> - open and closed market, direct and propagated
  predictions together - provided local dates never go back in the asset's zone.
\<close>

theorem daily_cap_over_history:
  assumes "1 \<le> st_max_daily_predictions_per_asset (en_settings base)"
    and "\<And>a z. zone_for base a = Some z \<Longrightarrow> dates_advance z"
    and "(pstep base)\<^sup>*\<^sup>* (t0, empty_db) (t, db)" and "zone_for base a = Some z"
  shows "count_predictions_on a d z db \<le> st_max_daily_predictions_per_asset (en_settings base)"
proof -
  have "cap_inv base t0 empty_db"
    by (simp add: cap_inv_def empty_db_wf) (simp add: empty_db_def count_predictions_on_def)
  then have "cap_inv base t db" using cap_steps [OF assms(3)] assms(1,2) by (simp add: cap_hyps_def)
  then show ?thesis using assms(4) by (simp add: cap_inv_def)
qed

lemma sample_history:
  "(pstep sample_env)\<^sup>*\<^sup>* (0, empty_db)
     (days 1, snd (close_ready_contexts sample_env (days 1) (process_event sample_env sample_event empty_db)))"
proof -
  have "pstep sample_env (0, empty_db) (0, process_event sample_env sample_event empty_db)"
    by (rule pstep.event) (simp add: env_like_def)
  moreover have "pstep sample_env (0, process_event sample_env sample_event empty_db)
     (days 1, snd (close_ready_contexts sample_env (days 1) (process_event sample_env sample_event empty_db)))"
    by (rule pstep.sweep) (simp_all add: env_like_def days_def)
  ultimately show ?thesis by (meson rtranclp.rtrancl_into_rtrancl rtranclp.rtrancl_refl)
qed

lemma sample_zone_for:
  "zone_for sample_env ''GOLD'' = Some (fixed_zone 0)"
  "zone_for sample_env a = Some z \<Longrightarrow> z = fixed_zone 0"
  by (auto simp: zone_for_def sample_env_def zone_of_def resolve_def sample_registry_def to_series_def split: sum.splits option.splits)

theorem daily_cap_over_history_witness:
  "count_predictions_on ''GOLD'' 1 (fixed_zone 0)
     (snd (close_ready_contexts sample_env (days 1) (process_event sample_env sample_event empty_db))) \<le> 2"
proof -
  have "dates_advance z" if "zone_for sample_env a = Some z" for a z
    using sample_zone_for(2) [OF that]
    by (simp add: dates_advance_def fixed_zone_def local_of_def date_of_def zdiv_mono1)
  from daily_cap_over_history [OF _ this sample_history sample_zone_for(1), where d = 1] show ?thesis
    by (simp add: sample_env_def sample_settings_def)
qed

subsection \<open>Contexts that are never retried\<close>

definition in_state :: "uuid \<Rightarrow> ContextState set \<Rightarrow> prediction_db \<Rightarrow> bool" where
  "in_state c sts db \<longleftrightarrow> (\<exists>r \<in> set (db_contexts db). cx_context_id r = c) \<and>
     (\<forall>r \<in> set (db_contexts db). cx_context_id r = c \<longrightarrow> cx_state r \<in> sts)"

lemma in_state_set:
  "in_state c sts db \<Longrightarrow> c' \<noteq> c \<or> st \<in> sts \<Longrightarrow> in_state c sts (set_context_state c' st db)"
  by (auto simp: in_state_def set_context_state_def ball_update_where bex_update_where)

lemma store_prediction_contexts:
  "db_contexts (snd (store_prediction env r d now events depth chain db)) \<in>
     {db_contexts db, db_contexts (set_context_state (cx_context_id r) PREDICTED db)}"
proof (rule store_prediction_inv [where P = "\<lambda>x. db_contexts x \<in>
    {db_contexts db, db_contexts (set_context_state (cx_context_id r) PREDICTED db)}"])
  show "db_contexts (snd (emit_prediction r d now events depth chain sp w db))
      \<in> {db_contexts db, db_contexts (set_context_state (cx_context_id r) PREDICTED db)}" for sp w
    by (simp add: emit_prediction_def Let_def store_prediction_with_outbox_def set_context_state_def)
qed simp

lemma in_state_cong: "db_contexts db = db_contexts db' \<Longrightarrow> in_state c sts db = in_state c sts db'"
  by (simp add: in_state_def)

lemma in_state_store:
  assumes "in_state c sts db" "cx_context_id r \<noteq> c \<or> PREDICTED \<in> sts"
  shows "in_state c sts (snd (store_prediction env r d now events depth chain db))"
proof -
  let ?db = "snd (store_prediction env r d now events depth chain db)"
  have "in_state c sts (set_context_state (cx_context_id r) PREDICTED db)"
    using assms by (intro in_state_set) auto
  with assms(1) store_prediction_contexts [of env r d now events depth chain db] show ?thesis
    using in_state_cong [of ?db db] in_state_cong [of ?db "set_context_state (cx_context_id r) PREDICTED db"]
    by (simp only: insert_iff empty_iff) blast
qed

interpretation untouched: sweep_invariant env now "in_state c sts" "\<lambda>c'. c' \<noteq> c" for env now c sts
proof
  show "in_state c sts (research_log env call db)" if "in_state c sts db" for call db
    using that in_state_cong [of db "research_log env call db"] by simp
qed (auto intro: in_state_set in_state_store)

lemma in_state_assign:
  assumes "in_state c sts db" "wf_db db"
  shows "in_state c sts (assign_event a e ws we db)"
proof -
  have "cx_context_id r < db_next_uuid db" if "r \<in> set (db_contexts db)" for r
    using assms(2) that by (simp add: wf_db_def contexts_ok_def)
  then have fresh: "c \<noteq> db_next_uuid db" using assms(1) unfolding in_state_def by (metis less_irrefl)
  show ?thesis
  proof (cases "latest_context db a ws")
    case None
    then show ?thesis using assms(1) fresh
      by (auto simp: in_state_def assign_event_def Let_def insert_context_def new_context_def)
  next
    case (Some l)
    show ?thesis
    proof (cases "cx_state l \<in> set JOINABLE_STATES")
      case True
      with Some assms(1) show ?thesis
        by (auto simp: in_state_def assign_event_def Let_def ball_update_where bex_update_where
            if_distrib [of cx_context_id] if_distrib [of cx_state]) metis
    next
      case False
      with Some assms(1) fresh show ?thesis
        by (auto simp: in_state_def assign_event_def Let_def insert_context_def new_context_def)
    qed
  qed
qed

lemma in_state_process_event:
  assumes "in_state c sts db" "wf_db db"
  shows "in_state c sts (process_event env e db)"
proof -
  have "in_state c sts (foldl (\<lambda>d a. assign_event a m ws we d) db0 as)"
    if "in_state c sts db0" "wf_db db0" for db0 m ws we as
    using that by (induction as arbitrary: db0) (auto intro: in_state_assign assign_event_wf)
  moreover have "in_state c sts (research_log env call db)" for call
    using assms(1) in_state_cong [of "research_log env call db" db] by simp
  ultimately show ?thesis
    using assms(2) by (auto simp: process_event_def Let_def research_log_wf split: prod.splits)
qed

lemma claimed_due:
  assumes "claim_due env now db = (Inr recs, db')" "rec \<in> set recs"
  shows "\<exists>r \<in> set (db_contexts db). cx_context_id r = cx_context_id rec \<and> (cx_state r = OPEN \<or> cx_state r = READY)"
proof -
  from assms obtain r where "r \<in> set (select_ordered (due (now - minutes (st_close_grace_minutes (en_settings env))))
      cx_window_end 20 (db_contexts db))" "cx_context_id r = cx_context_id rec"
    by (auto simp: claim_due_def claim_ready_contexts_def Let_def map_error_def split: if_splits)
  then show ?thesis using set_select_ordered by (fastforce simp: due_def)
qed

lemma in_state_claim:
  assumes "in_state c sts db" "OPEN \<notin> sts" "READY \<notin> sts"
  shows "in_state c sts (snd (claim_due env now db))"
proof -
  have "in_state c sts (foldl (\<lambda>d r. set_context_state (cx_context_id r) PREDICTING d) db0 rs)"
    if "in_state c sts db0" "\<And>r. r \<in> set rs \<Longrightarrow> cx_context_id r \<noteq> c" for db0 and rs :: "context_row list"
    using that by (induction rs arbitrary: db0) (auto intro: in_state_set)
  moreover have "cx_context_id r \<noteq> c"
    if "r \<in> set (select_ordered (due (now - minutes (st_close_grace_minutes (en_settings env)))) cx_window_end 20 (db_contexts db))" for r
    using that set_select_ordered assms by (fastforce simp: due_def in_state_def)
  ultimately show ?thesis using assms(1)
    by (simp add: claim_due_def claim_ready_contexts_def Let_def split_def)
qed

lemma in_state_sweep:
  assumes "in_state c sts db" "OPEN \<notin> sts" "READY \<notin> sts"
  shows "in_state c sts (snd (close_ready_contexts env now db))"
  unfolding close_ready_contexts_def
proof (rule bind_p_inv [where P = "in_state c sts"])
  show "in_state c sts (snd (claim_due env now db))" by (rule in_state_claim [OF assms])
next
  fix recs s'
  assume eq: "claim_due env now db = (Inr recs, s')" and s': "in_state c sts s'"
  have "cx_context_id rec \<noteq> c" if "rec \<in> set recs" for rec
    using claimed_due [OF eq that] assms by (auto simp: in_state_def)
  then show "in_state c sts (snd (close_claimed env now recs s'))"
    by (rule untouched.close_claimed_inv [OF s'])
qed

lemma in_state_steps:
  assumes "(pstep base)\<^sup>*\<^sup>* s s'" "in_state c sts (snd s)" "wf_db (snd s)" "OPEN \<notin> sts" "READY \<notin> sts"
  shows "in_state c sts (snd s') \<and> wf_db (snd s')"
  using assms(1)
proof (induction rule: rtranclp_induct)
  case base
  then show ?case using assms by simp
next
  case (step y z)
  then have wf: "wf_db (snd z)" using pstep_wf by blast
  from step.hyps(2) have "in_state c sts (snd z)"
  proof (cases rule: pstep.cases)
    case (relay t db send now n)
    then show ?thesis using step.IH by (simp add: in_state_def)
  qed (use step.IH assms(4,5) in \<open>auto intro: in_state_process_event in_state_sweep\<close>)
  with wf show ?case by simp
qed

text \<open>
  C38: A deferred context is never retried.  Once the sweep has left a context in
  \<^verbatim>\<open>ERROR_RETRYABLE\<close> (the graph was unreachable) or in \<^verbatim>\<open>PREDICTING\<close> (the sweep raised), it stays
  there in every later history, and no sweep ever claims it again: nothing returns it to a state the
  claim selects.
\<close>

theorem deferred_context_never_retried:
  assumes "wf_db db" and "r \<in> set (db_contexts db)" and "cx_state r = st" and "st = ERROR_RETRYABLE \<or> st = PREDICTING"
    and "(pstep base)\<^sup>*\<^sup>* (t, db) (t', db')"
  shows "(\<exists>r' \<in> set (db_contexts db'). cx_context_id r' = cx_context_id r \<and> cx_state r' = st) \<and>
    (\<forall>env now recs db''. claim_due env now db' = (Inr recs, db'') \<longrightarrow>
       cx_context_id r \<notin> cx_context_id ` set recs)"
proof -
  have "r' = r" if "r' \<in> set (db_contexts db)" "cx_context_id r' = cx_context_id r" for r'
    using assms(1,2) that unfolding wf_db_def contexts_ok_def by (metis distinct_map inj_onD)
  then have "in_state (cx_context_id r) {st} db" using assms(2,3) by (auto simp: in_state_def)
  then have st: "in_state (cx_context_id r) {st} db'"
    using in_state_steps [OF assms(5)] assms(1,4) by auto
  then have "cx_context_id r \<notin> cx_context_id ` set recs" if "claim_due env now db' = (Inr recs, db'')" for env now recs db''
    using claimed_due [OF that] assms(4) by (fastforce simp: in_state_def)
  with st show ?thesis by (auto simp: in_state_def)
qed

definition sample_context :: "ContextState \<Rightarrow> context_row" where
  "sample_context st = new_context 0 ''GOLD'' 0 (minutes 60) 1 (minutes 5) \<lparr>cx_state := st\<rparr>"

definition sample_db :: "ContextState \<Rightarrow> prediction_db" where
  "sample_db st = empty_db\<lparr>db_contexts := [sample_context st], db_next_uuid := 1\<rparr>"

lemma sample_db_wf: "wf_db (sample_db st)"
  by (simp add: wf_db_def sample_db_def sample_context_def new_context_def empty_db_def contexts_ok_def
      members_ok_def predictions_ok_def outbox_ok_def)

theorem deferred_context_never_retried_witness:
  "\<exists>r' \<in> set (db_contexts (snd (close_ready_contexts sample_env (days 1) (sample_db ERROR_RETRYABLE)))).
     cx_context_id r' = 0 \<and> cx_state r' = ERROR_RETRYABLE"
proof -
  have "pstep sample_env (0, sample_db ERROR_RETRYABLE)
      (days 1, snd (close_ready_contexts sample_env (days 1) (sample_db ERROR_RETRYABLE)))"
    by (rule pstep.sweep) (simp_all add: env_like_def days_def)
  then have "(pstep sample_env)\<^sup>*\<^sup>* (0, sample_db ERROR_RETRYABLE)
      (days 1, snd (close_ready_contexts sample_env (days 1) (sample_db ERROR_RETRYABLE)))" by (rule r_into_rtranclp)
  from deferred_context_never_retried [OF sample_db_wf _ refl _ this, of "sample_context ERROR_RETRYABLE"]
  show ?thesis by (simp add: sample_db_def sample_context_def new_context_def)
qed

subsection \<open>A completed sweep settles what it claimed\<close>

abbreviation settled :: "ContextState set" where
  "settled \<equiv> {PREDICTED, ERROR_RETRYABLE}"

interpretation settling: sweep_invariant env now "\<lambda>db. settled \<subseteq> sts \<longrightarrow> in_state c sts db" "\<lambda>_. True"
  for env now c sts
proof
  show "settled \<subseteq> sts \<longrightarrow> in_state c sts (research_log env call db)"
    if "settled \<subseteq> sts \<longrightarrow> in_state c sts db" for call db
    using that in_state_cong [of db "research_log env call db"] by simp
qed (auto intro!: in_state_set in_state_store)

lemma in_state_set_self:
  "in_state c UNIV db \<Longrightarrow> st \<in> sts \<Longrightarrow> in_state c sts (set_context_state c st db)"
  by (auto simp: in_state_def set_context_state_def ball_update_where bex_update_where)

lemma in_state_log [simp]: "in_state c sts (research_log env call db) = in_state c sts db"
  by (rule in_state_cong) simp

lemma close_direct_settles:
  assumes "close_direct env now r (p, direct, def) db = (Inr (p', direct', def'), db')"
    and "in_state (cx_context_id r) UNIV db"
  shows "in_state (cx_context_id r) settled db' \<or> r \<in> fst ` set def'"
proof -
  have store: "in_state (cx_context_id r) UNIV db2"
    if "store_prediction env r d now events 0 [] (research_log env call db) = (res, db2)" for d events call res db2
    using in_state_store [of "cx_context_id r" UNIV "research_log env call db" r env d now events 0 "[]"]
      assms(2) that by simp
  show ?thesis using assms store
    by (auto simp: close_direct_def Let_def intro!: in_state_set_self
        split: sum.splits option.splits graph_error.splits prod.splits if_splits)
qed

lemma close_direct_keeps_deferred:
  "close_direct env now r (p, direct, def) db = (Inr (p', direct', def'), db') \<Longrightarrow> set def \<subseteq> set def'"
  by (auto simp: close_direct_def Let_def split: sum.splits option.splits graph_error.splits prod.splits if_splits)

lemma fold_direct_settles:
  assumes "fold_p (close_direct env now) rs (p, direct, def) db = (Inr (p', direct', def'), db')"
    and "\<And>r. r \<in> set rs \<Longrightarrow> in_state (cx_context_id r) UNIV db"
  shows "set def \<subseteq> set def' \<and> (\<forall>r \<in> set rs. in_state (cx_context_id r) settled db' \<or> r \<in> fst ` set def')"
  using assms
proof (induction rs arbitrary: p direct "def" db)
  case Nil
  then show ?case by (simp add: return_p_def)
next
  case (Cons r rs)
  then obtain p1 dir1 def1 db1 where
    step: "close_direct env now r (p, direct, def) db = (Inr (p1, dir1, def1), db1)"
    and rest: "fold_p (close_direct env now) rs (p1, dir1, def1) db1 = (Inr (p', direct', def'), db')"
    by (auto simp: bind_p_def split: prod.splits sum.splits)
  have present: "in_state (cx_context_id x) UNIV db1" if "x \<in> set (r # rs)" for x
    using settling.close_direct_inv [where sts = UNIV and c = "cx_context_id x" and db = db and r = r and env = env
        and now = now and acc = "(p, direct, def)"] Cons.prems(2) [OF that] step
    by simp
  note IH = Cons.IH [OF rest present]
  have "in_state (cx_context_id r) settled db' \<or> r \<in> fst ` set def'"
  proof -
    have "in_state (cx_context_id r) settled db1 \<or> r \<in> fst ` set def1"
      using close_direct_settles [OF step] Cons.prems(2) [of r] by simp
    moreover have "in_state (cx_context_id r) settled db1 \<Longrightarrow> in_state (cx_context_id r) settled db'"
    proof -
      assume "in_state (cx_context_id r) settled db1"
      then have "in_state (cx_context_id r) settled (snd (fold_p (close_direct env now) rs (p1, dir1, def1) db1))"
        by (intro fold_p_inv [where P = "in_state (cx_context_id r) settled"])
          (use settling.close_direct_inv [where sts = settled] in auto)
      then show ?thesis by (simp add: rest)
    qed
    ultimately show ?thesis using IH by auto
  qed
  then show ?case using IH close_direct_keeps_deferred [OF step] by auto
qed

lemma close_deferred_settles:
  assumes "close_deferred env now direct (r, d, ev) p db = (Inr p', db')" "in_state (cx_context_id r) UNIV db"
  shows "in_state (cx_context_id r) settled db'"
proof -
  let ?m = "if de_confidence d < st_propagation_min_confidence (en_settings env) then return_p 0
    else run_propagation env r [(cx_asset_id r, de_direction d)] (cx_asset_id r # dict_keys direct) now ev"
  from assms(1) obtain k db1 where m: "?m db = (Inr k, db1)"
    and db': "db' = set_context_state (cx_context_id r) PREDICTED db1"
    by (auto simp: close_deferred_def bind_p_def write_p_def return_p_def split: prod.splits sum.splits)
  have "in_state (cx_context_id r) UNIV (snd (?m db))"
    using settling.propagation_levels_inv [where sts = UNIV and c = "cx_context_id r"] assms(2)
    by (auto simp: run_propagation_def return_p_def)
  then show ?thesis unfolding db' by (intro in_state_set_self) (simp_all add: m)
qed

lemma fold_deferred_settles:
  assumes "fold_p (close_deferred env now direct) def p db = (Inr p', db')"
    and "\<And>x. x \<in> set def \<Longrightarrow> in_state (cx_context_id (fst x)) UNIV db"
  shows "\<forall>x \<in> set def. in_state (cx_context_id (fst x)) settled db'"
  using assms
proof (induction "def" arbitrary: p db)
  case Nil
  then show ?case by simp
next
  case (Cons y ys)
  then obtain p1 db1 where step: "close_deferred env now direct y p db = (Inr p1, db1)"
    and rest: "fold_p (close_deferred env now direct) ys p1 db1 = (Inr p', db')"
    by (auto simp: bind_p_def split: prod.splits sum.splits)
  have keep: "in_state c sts db \<Longrightarrow> settled \<subseteq> sts \<Longrightarrow> in_state c sts db1" for c sts
    using settling.close_deferred_inv [where sts = sts and c = c and db = db and rde = y and env = env and now = now
        and direct = direct and produced = p] step by simp
  have "in_state (cx_context_id (fst y)) settled db1"
    using close_deferred_settles [of env now direct "fst y" "fst (snd y)" "snd (snd y)"] step Cons.prems(2) by simp
  then have "in_state (cx_context_id (fst y)) settled (snd (fold_p (close_deferred env now direct) ys p1 db1))"
    by (intro fold_p_inv [where P = "in_state (cx_context_id (fst y)) settled"])
      (use settling.close_deferred_inv [where sts = settled] in auto)
  then show ?case using Cons.IH [OF rest] keep Cons.prems(2) by (simp add: rest)
qed

text \<open>
  C8: A sweep that returns settles every context it claimed: each is \<^verbatim>\<open>PREDICTED\<close>, or
  \<^verbatim>\<open>ERROR_RETRYABLE\<close> when the graph was unreachable; none is left \<^verbatim>\<open>PREDICTING\<close>.
\<close>

theorem sweep_settles_claimed:
  assumes "close_ready_contexts env now db = (Inr k, db')" and "claim_due env now db = (Inr recs, db1)"
    and "r \<in> set recs"
  shows "(\<exists>c \<in> set (db_contexts db'). cx_context_id c = cx_context_id r) \<and>
    (\<forall>c \<in> set (db_contexts db'). cx_context_id c = cx_context_id r \<longrightarrow>
       cx_state c = PREDICTED \<or> cx_state c = ERROR_RETRYABLE)"
proof -
  from assms(1,2) obtain p direct deferred db2 where
    dir: "fold_p (close_direct env now) recs (0, [], []) db1 = (Inr (p, direct, deferred), db2)"
    and def: "fold_p (close_deferred env now direct) deferred p db2 = (Inr k, db')"
    by (auto simp: close_ready_contexts_def close_claimed_def bind_p_def split: prod.splits sum.splits)
  have keep_ids: "in_state c UNIV (foldl (\<lambda>d r. set_context_state (cx_context_id r) st d) d0 rs)"
    if "in_state c UNIV d0" for c st d0 and rs :: "context_row list"
    using that by (induction rs arbitrary: d0) (auto intro: in_state_set)
  have present: "in_state (cx_context_id x) UNIV db1" if x: "x \<in> set recs" for x
  proof -
    have "in_state (cx_context_id x) UNIV db" using claimed_due [OF assms(2) x] by (auto simp: in_state_def)
    then show ?thesis using assms(2) keep_ids
      by (auto simp: claim_due_def claim_ready_contexts_def Let_def map_error_def split: if_splits)
  qed
  have settle: "in_state (cx_context_id r) settled db2 \<or> r \<in> fst ` set deferred"
    using fold_direct_settles [OF dir present] assms(3) by blast
  have "in_state (cx_context_id x) UNIV db2" if "x \<in> set recs" for x
    using fold_p_inv [where P = "in_state (cx_context_id x) UNIV" and f = "close_direct env now" and s = db1
        and xs = recs and a = "(0, [], [])"] settling.close_direct_inv [where sts = UNIV] present [OF that] dir by auto
  moreover have "fst ` set deferred \<subseteq> set recs"
    using settling.deferred_subset [OF dir] by auto
  ultimately have "\<forall>x \<in> set deferred. in_state (cx_context_id (fst x)) settled db'"
    by (intro fold_deferred_settles [OF def]) auto
  moreover have "in_state (cx_context_id r) settled db2 \<Longrightarrow> in_state (cx_context_id r) settled db'"
    using fold_p_inv [where P = "in_state (cx_context_id r) settled" and f = "close_deferred env now direct"
        and s = db2 and xs = deferred and a = p] settling.close_deferred_inv [where sts = settled] def by auto
  ultimately have "in_state (cx_context_id r) settled db'" using settle by auto
  then show ?thesis by (auto simp: in_state_def)
qed

abbreviation sample_record :: ContextRecord where
  "sample_record \<equiv> \<lparr>cx_context_id = 0, cx_asset_id = ''GOLD'', cx_context_version = 1, cx_window_start = 0,
     cx_window_end = minutes 60, cx_state = PREDICTING\<rparr>"

lemma sample_claim: "claim_due sample_env (days 1) (sample_db OPEN) = (Inr [sample_record], sample_db PREDICTING)"
  by (simp add: claim_due_def claim_ready_contexts_def sample_env_def sample_settings_def sample_db_def
      sample_context_def new_context_def empty_db_def select_ordered_def due_def map_error_def days_def
      minutes_def set_context_state_def update_where_def)

lemma sample_sweep: "close_ready_contexts sample_env (days 1) (sample_db OPEN) = (Inr 0, sample_db PREDICTED)"
proof -
  have "load_context_events 0 (sample_db PREDICTING) = []"
    by (simp add: load_context_events_def members_def sample_db_def empty_db_def)
  moreover have "decide ''GOLD'' [] db s m p e h = Inr None" for db s m p e h
    by (simp add: decide_def effective_edges_def Let_def)
  moreover have "firing_edges sample_env ''GOLD'' [] e = Inr []" "research_log sample_env call x = x" for e call x
    by (simp_all add: firing_edges_def conditions_by_type_def research_log_def sample_env_def sample_settings_def)
  moreover have "set_context_state 0 PREDICTED (sample_db PREDICTING) = sample_db PREDICTED"
    by (simp add: set_context_state_def update_where_def sample_db_def sample_context_def new_context_def)
  ultimately show ?thesis
    by (simp add: close_ready_contexts_def close_claimed_def close_direct_def bind_p_def sample_claim return_p_def)
qed

theorem sweep_settles_claimed_witness:
  "\<exists>c. db_contexts (snd (close_ready_contexts sample_env (days 1) (sample_db OPEN))) = [c] \<and>
     cx_context_id c = 0 \<and> (cx_state c = PREDICTED \<or> cx_state c = ERROR_RETRYABLE)"
  using sweep_settles_claimed [OF sample_sweep sample_claim, of sample_record]
  by (auto simp: sample_sweep) (auto simp: sample_db_def)

end
