(* ===== verification/CredibleInterval.thy ===== *)
theory CredibleInterval
  imports Rounding
begin

text \<open>
  The 95% Beta credible interval (\<^verbatim>\<open>services/credibility/credibility/history.py\<close>).

  The functions of \<^verbatim>\<open>math\<close> that have no exact rational value (\<^verbatim>\<open>lgamma\<close>, \<^verbatim>\<open>exp\<close>, \<^verbatim>\<open>log\<close>,
  \<^verbatim>\<open>log1p\<close>) are the fields of \<open>libm\<close>: nothing is assumed about them.  Every loop has the source's own
  iteration bound and is structural in what is left of it.  What is shown concerns the bisection, for
  an arbitrary distribution function: how many halvings it performs, that it brackets the quantile,
  and that the lower end of the interval is never above the upper end.
\<close>

record libm =
  lgamma :: "flt \<Rightarrow> flt"
  m_exp :: "flt \<Rightarrow> flt"
  m_log :: "flt \<Rightarrow> flt"
  m_log1p :: "flt \<Rightarrow> flt"

definition TOLERANCE :: flt where
  "TOLERANCE = fl64 (1 / 10 ^ 12)"

definition MAX_ITERATIONS :: nat where
  "MAX_ITERATIONS = 200"

definition tiny :: flt where
  "tiny = fl64 (1 / 10 ^ 30)"

definition guard_tiny :: "flt \<Rightarrow> flt" where
  "guard_tiny d = (if \<bar>d\<bar> < tiny then tiny else d)"

text \<open>One pass of the loop body, from \<^verbatim>\<open>(c, d, h)\<close> to the next values and \<^verbatim>\<open>delta\<close>.\<close>

definition lentz_step :: "flt \<Rightarrow> flt \<Rightarrow> flt \<Rightarrow> nat \<Rightarrow> flt \<times> flt \<times> flt \<Rightarrow> (flt \<times> flt \<times> flt) \<times> flt" where
  "lentz_step a b x m st =
     (let (c, d, h) = st; fm = of_nat m; fm2 = of_nat (2 * m);
          qab = fl64 (a + b); qap = fl64 (a + 1); qam = fl64 (a - 1);
          aa = fl64 (fl64 (fl64 (fm * fl64 (b - fm)) * x) / fl64 (fl64 (qam + fm2) * fl64 (a + fm2)));
          d1 = guard_tiny (fl64 (1 + fl64 (aa * d)));
          c1 = guard_tiny (fl64 (1 + fl64 (aa / c)));
          d2 = fl64 (1 / d1);
          h1 = fl64 (h * fl64 (d2 * c1));
          aa' = fl64 (fl64 (fl64 (- fl64 (a + fm) * fl64 (qab + fm)) * x) / fl64 (fl64 (a + fm2) * fl64 (qap + fm2)));
          d3 = guard_tiny (fl64 (1 + fl64 (aa' * d2)));
          c2 = guard_tiny (fl64 (1 + fl64 (aa' / c1)));
          d4 = fl64 (1 / d3);
          delta = fl64 (d4 * c2)
      in ((c2, d4, fl64 (h1 * delta)), delta))"

fun betacf_loop :: "flt \<Rightarrow> flt \<Rightarrow> flt \<Rightarrow> nat \<Rightarrow> nat \<Rightarrow> flt \<times> flt \<times> flt \<Rightarrow> flt" where
  "betacf_loop a b x 0 m st = snd (snd st)"
| "betacf_loop a b x (Suc left) m st =
     (let (st', delta) = lentz_step a b x m st
      in if \<bar>fl64 (delta - 1)\<bar> < fl64 (1 / 10 ^ 15) then snd (snd st')
         else betacf_loop a b x left (m + 1) st')"

definition betacf :: "flt \<Rightarrow> flt \<Rightarrow> flt \<Rightarrow> flt" where
  "betacf a b x =
     (let qab = fl64 (a + b); qap = fl64 (a + 1);
          d = guard_tiny (fl64 (1 - fl64 (fl64 (qab * x) / qap)));
          d' = fl64 (1 / d)
      in betacf_loop a b x MAX_ITERATIONS 1 (1, d', d'))"

definition regularized_incomplete_beta :: "libm \<Rightarrow> flt \<Rightarrow> flt \<Rightarrow> flt \<Rightarrow> flt" where
  "regularized_incomplete_beta lm a b x =
     (if x \<le> 0 then 0
      else if x \<ge> 1 then 1
      else
        let power = fl64 (fl64 (m_log lm x * a) + fl64 (m_log1p lm (- x) * b));
            ln_beta = fl64 (fl64 (lgamma lm a + lgamma lm b) - lgamma lm (fl64 (a + b)));
            front = fl64 (m_exp lm (fl64 (power - ln_beta)) / a)
        in if x < fl64 (fl64 (a + 1) / fl64 (fl64 (a + b) + 2))
           then fl64 (front * betacf a b x)
           else
             let ln_beta_sym = fl64 (fl64 (lgamma lm b + lgamma lm a) - lgamma lm (fl64 (a + b)));
                 front_sym = fl64 (m_exp lm (fl64 (power - ln_beta_sym)) / b)
             in fl64 (1 - fl64 (front_sym * betacf b a (fl64 (1 - x)))))"

definition mid_of :: "flt \<Rightarrow> flt \<Rightarrow> flt" where
  "mid_of lo hi = fl64 (1 / 2 * fl64 (lo + hi))"

fun bisect :: "(flt \<Rightarrow> flt) \<Rightarrow> flt \<Rightarrow> nat \<Rightarrow> flt \<times> flt \<Rightarrow> flt \<times> flt" where
  "bisect cdf p 0 iv = iv"
| "bisect cdf p (Suc left) iv =
     (let (lo, hi) = iv; mid = mid_of lo hi;
          (lo', hi') = (if cdf mid < p then (mid, hi) else (lo, mid))
      in if fl64 (hi' - lo') < TOLERANCE then (lo', hi') else bisect cdf p left (lo', hi'))"

definition beta_ppf :: "libm \<Rightarrow> flt \<Rightarrow> flt \<Rightarrow> flt \<Rightarrow> flt" where
  "beta_ppf lm p a b =
     (let (lo, hi) = bisect (regularized_incomplete_beta lm a b) p MAX_ITERATIONS (0, 1)
      in mid_of lo hi)"

definition beta_credible_interval :: "libm \<Rightarrow> flt \<Rightarrow> flt \<Rightarrow> flt \<Rightarrow> (string, flt \<times> flt) result" where
  "beta_credible_interval lm alpha beta confidence =
     (if alpha \<le> 0 \<or> beta \<le> 0
      then Inl ''alpha and beta must be positive to form a Beta credible interval''
      else
        let tail = fl64 (fl64 (1 - confidence) / 2)
        in Inr (beta_ppf lm tail alpha beta, beta_ppf lm (fl64 (1 - tail)) alpha beta))"

subsection \<open>The halvings are exact\<close>

text \<open>After \<open>k\<close> halvings the bracket is \<open>[i / 2 ^ k, (i + 1) / 2 ^ k]\<close>, and no rounding occurs.\<close>

definition dyadic :: "nat \<Rightarrow> flt \<times> flt \<Rightarrow> bool" where
  "dyadic k iv \<longleftrightarrow> (\<exists>i. i < 2 ^ k \<and> iv = (of_nat i / 2 ^ k, (of_nat i + 1) / 2 ^ k))"

lemma fl64_dyadic:
  assumes "n < 2 ^ 53" "k \<le> 1074"
  shows "fl64 (of_nat n / 2 ^ k) = of_nat n / 2 ^ k"
proof (cases "n = 0")
  case False
  let ?y = "of_nat n / 2 ^ k :: rat" and ?e = "fexp 2 53 (- 1074) (of_nat n / 2 ^ k)"
  have pos: "0 < ?y" using False by simp
  have "?y < bpow 2 (53 - int k)"
  proof -
    have "(of_nat n :: rat) < 2 ^ 53" using assms(1) by (metis of_nat_less_iff of_nat_numeral of_nat_power)
    then have "?y < 2 ^ 53 / 2 ^ k" by (simp add: divide_strict_right_mono)
    also have "\<dots> = bpow 2 53 / bpow 2 (int k)" by (simp add: bpow_powi)
    also have "\<dots> = bpow 2 (53 - int k)" by (simp add: bpow_diff)
    finally show ?thesis .
  qed
  then have "bpow 2 (ilog 2 ?y) < bpow 2 (53 - int k)" using ilog_bounds(1) [of 2 ?y] pos by simp
  then have "ilog 2 ?y < 53 - int k" using bpow_mono [of 2 "53 - int k" "ilog 2 ?y"] by (meson le_less_linear leD order_refl)
  then have e: "?e \<le> - int k" using assms(2) pos by (simp add: fexp_def)
  have "?y / bpow 2 ?e = of_nat n * bpow 2 (- int k) / bpow 2 ?e"
    by (simp add: bpow_powi power_int_minus divide_inverse)
  also have "\<dots> = of_nat n * bpow 2 (- int k - ?e)" by (simp add: bpow_diff)
  also have "\<dots> \<in> \<int>" using e by (intro Ints_mult bpow_int) auto
  finally show ?thesis unfolding fl64_def by (intro fround_exact) simp_all
qed simp

lemma dyadic_mid:
  assumes "i < 2 ^ k" "k < 52"
  shows "mid_of (of_nat i / 2 ^ k) ((of_nat i + 1) / 2 ^ k) = of_nat (2 * i + 1) / 2 ^ Suc k"
proof -
  have "(2::nat) ^ k \<le> 2 ^ 51" using assms(2) by (intro power_increasing) simp_all
  then have le: "i < 2 ^ 51" using assms(1) by (rule less_le_trans [rotated])
  have "(of_nat i / 2 ^ k + (of_nat i + 1) / 2 ^ k :: rat) = of_nat (2 * i + 1) / 2 ^ k"
    by (simp add: add_divide_distrib)
  moreover have "fl64 (of_nat (2 * i + 1) / 2 ^ k) = of_nat (2 * i + 1) / 2 ^ k"
    using le assms(2) by (intro fl64_dyadic) simp_all
  moreover have "fl64 (of_nat (2 * i + 1) / 2 ^ Suc k) = of_nat (2 * i + 1) / 2 ^ Suc k"
    using le assms(2) by (intro fl64_dyadic) simp_all
  ultimately show ?thesis by (simp add: mid_of_def)
qed

definition halve :: "(flt \<Rightarrow> flt) \<Rightarrow> flt \<Rightarrow> flt \<times> flt \<Rightarrow> flt \<times> flt" where
  "halve cdf p iv = (let mid = mid_of (fst iv) (snd iv)
     in if cdf mid < p then (mid, snd iv) else (fst iv, mid))"

lemma bisect_Suc:
  "bisect cdf p (Suc n) iv =
     (if fl64 (snd (halve cdf p iv) - fst (halve cdf p iv)) < TOLERANCE then halve cdf p iv
      else bisect cdf p n (halve cdf p iv))"
  by (cases iv) (simp add: halve_def Let_def split_def)

declare bisect.simps(2) [simp del]

lemma halve_dyadic:
  assumes "dyadic k iv" "k < 52"
  shows "dyadic (Suc k) (halve cdf p iv)"
proof -
  obtain i where i: "i < 2 ^ k" "iv = (of_nat i / 2 ^ k, (of_nat i + 1) / 2 ^ k)"
    using assms(1) by (auto simp: dyadic_def)
  have halves: "halve cdf p iv =
      (if cdf (of_nat (2 * i + 1) / 2 ^ Suc k) < p
       then (of_nat (2 * i + 1) / 2 ^ Suc k, (of_nat (2 * i + 1) + 1) / 2 ^ Suc k)
       else (of_nat (2 * i) / 2 ^ Suc k, (of_nat (2 * i) + 1) / 2 ^ Suc k))"
    unfolding halve_def i(2) fst_conv snd_conv dyadic_mid [OF i(1) assms(2)] Let_def
    by (simp add: field_simps)
  show ?thesis
  proof (cases "cdf (of_nat (2 * i + 1) / 2 ^ Suc k) < p")
    case True
    then show ?thesis unfolding halves dyadic_def using i(1) by (intro exI [of _ "2 * i + 1"]) simp
  next
    case False
    then show ?thesis unfolding halves dyadic_def using i(1) by (intro exI [of _ "2 * i"]) simp
  qed
qed

lemma dyadic_width:
  assumes "dyadic k iv" "k \<le> 1074"
  shows "fl64 (snd iv - fst iv) = 1 / 2 ^ k"
proof -
  have "snd iv - fst iv = of_nat 1 / 2 ^ k"
    using assms(1) by (auto simp: dyadic_def diff_divide_distrib [symmetric])
  then show ?thesis using fl64_dyadic [of 1 k] assms(2) by simp
qed

lemma tolerance_bounds: "1 / 2 ^ 40 < TOLERANCE" "TOLERANCE \<le> 1 / 2 ^ 39"
proof -
  have "(1 :: rat) / 2 ^ 40 < of_nat 2251 / 2 ^ 51" by simp
  also have "\<dots> = fl64 (of_nat 2251 / 2 ^ 51)" by (rule fl64_dyadic [symmetric]) simp_all
  also have "\<dots> \<le> TOLERANCE" unfolding TOLERANCE_def by (rule b64.rnd_mono) simp
  finally show "1 / 2 ^ 40 < TOLERANCE" .
  have "TOLERANCE \<le> fl64 (of_nat 1 / 2 ^ 39)" unfolding TOLERANCE_def by (rule b64.rnd_mono) simp
  then show "TOLERANCE \<le> 1 / 2 ^ 39" using fl64_dyadic [of 1 39] by simp
qed

lemma tolerance_reached:
  assumes "dyadic k iv" "k \<le> 40"
  shows "fl64 (snd iv - fst iv) < TOLERANCE \<longleftrightarrow> k = 40"
proof (cases "k = 40")
  case True
  then show ?thesis using dyadic_width [OF assms(1)] tolerance_bounds by simp
next
  case False
  then have "(1 :: rat) / 2 ^ 39 \<le> 1 / 2 ^ k" using assms(2) by (intro divide_left_mono power_increasing) auto
  then have "\<not> 1 / 2 ^ k < TOLERANCE" using tolerance_bounds(2) by linarith
  then show ?thesis using False dyadic_width [OF assms(1)] assms(2) by simp
qed

text \<open>The bisection, with any number of iterations from \<open>40 - k\<close> on, is \<open>40 - k\<close> halvings.\<close>

lemma bisect_halvings:
  assumes "dyadic k iv" "k < 40" "40 \<le> n + k"
  shows "bisect cdf p n iv = (halve cdf p ^^ (40 - k)) iv"
  using assms
proof (induction n arbitrary: k iv)
  case (Suc n)
  have d: "dyadic (Suc k) (halve cdf p iv)" using halve_dyadic Suc.prems by simp
  show ?case
  proof (cases "Suc k = 40")
    case True
    then have "40 - k = Suc 0" by simp
    then show ?thesis using tolerance_reached [OF d] True by (simp add: bisect_Suc)
  next
    case False
    then have "40 - k = Suc (40 - Suc k)" using Suc.prems(2) by simp
    moreover have "bisect cdf p n (halve cdf p iv) = (halve cdf p ^^ (40 - Suc k)) (halve cdf p iv)"
      using Suc.IH [OF d] False Suc.prems by simp
    ultimately show ?thesis
      using tolerance_reached [OF d] False Suc.prems(2) by (simp add: bisect_Suc funpow_swap1)
  qed
qed simp

lemma beta_ppf_halvings:
  "beta_ppf lm p a b =
     mid_of (fst ((halve (regularized_incomplete_beta lm a b) p ^^ 40) (0, 1)))
            (snd ((halve (regularized_incomplete_beta lm a b) p ^^ 40) (0, 1)))"
proof -
  have "dyadic 0 (0, 1)" by (simp add: dyadic_def)
  then have "bisect cdf p MAX_ITERATIONS (0, 1) = (halve cdf p ^^ 40) (0, 1)" for cdf
    using bisect_halvings [of 0 "(0, 1)" MAX_ITERATIONS cdf p] by (simp add: MAX_ITERATIONS_def)
  then show ?thesis by (simp add: beta_ppf_def split_def Let_def)
qed

lemma halvings_dyadic: "k \<le> 52 \<Longrightarrow> dyadic k ((halve cdf p ^^ k) (0, 1))"
proof (induction k)
  case 0
  show ?case by (simp add: dyadic_def)
qed (auto intro: halve_dyadic)

lemma halvings_bracket:
  "(fst ((halve cdf p ^^ k) (0, 1)) = 0 \<or> cdf (fst ((halve cdf p ^^ k) (0, 1))) < p) \<and>
   (snd ((halve cdf p ^^ k) (0, 1)) = 1 \<or> p \<le> cdf (snd ((halve cdf p ^^ k) (0, 1))))"
  by (induction k) (auto simp: halve_def Let_def)

subsection \<open>The quantile and the interval\<close>

text \<open>
  C32: The quantile search terminates and brackets the quantile.  For every distribution function - no
  matter what the logarithms and exponentials return - the bisection stops after exactly 40 of its 200
  iterations, without a single rounding error: the result is the midpoint of a cell of width
  \<open>2 ^ -40\<close> at whose left end the computed distribution function is below \<open>p\<close> and at whose
  right end it is not (or the cell touches 0 or 1).
\<close>

theorem beta_ppf_brackets:
  "\<exists>i < 2 ^ 40. beta_ppf lm p a b = of_nat (2 * i + 1) / 2 ^ 41 \<and>
     (i = 0 \<or> regularized_incomplete_beta lm a b (of_nat i / 2 ^ 40) < p) \<and>
     (i + 1 = 2 ^ 40 \<or> p \<le> regularized_incomplete_beta lm a b (of_nat (i + 1) / 2 ^ 40))"
proof -
  let ?iv = "(halve (regularized_incomplete_beta lm a b) p ^^ 40) (0, 1)"
  obtain i where i: "i < 2 ^ 40" "?iv = (of_nat i / 2 ^ 40, (of_nat i + 1) / 2 ^ 40)"
    using halvings_dyadic [of 40 "regularized_incomplete_beta lm a b" p] by (auto simp: dyadic_def)
  have "beta_ppf lm p a b = of_nat (2 * i + 1) / 2 ^ Suc 40"
    unfolding beta_ppf_halvings i(2) fst_conv snd_conv by (rule dyadic_mid [OF i(1)]) simp
  moreover have "(of_nat i + 1 :: rat) / 2 ^ 40 = 1 \<longleftrightarrow> i + 1 = 2 ^ 40"
  proof -
    have "(of_nat i + 1 :: rat) / 2 ^ 40 = 1 \<longleftrightarrow> of_nat (i + 1) = (of_nat (2 ^ 40) :: rat)" by simp
    then show ?thesis by (simp only: of_nat_eq_iff)
  qed
  ultimately show ?thesis
    using i(1) halvings_bracket [where cdf = "regularized_incomplete_beta lm a b" and p = p and k = 40]
    unfolding i(2) by (intro exI [of _ i]) (simp add: add.commute)
qed

lemma halve_mono:
  assumes "dyadic k iv" "k < 52"
  shows "fst iv \<le> fst (halve cdf p iv)" "snd (halve cdf p iv) \<le> snd iv"
    "fst (halve cdf p iv) \<le> snd (halve cdf p iv)"
proof -
  obtain i where i: "i < 2 ^ k" "iv = (of_nat i / 2 ^ k, (of_nat i + 1) / 2 ^ k)"
    using assms(1) by (auto simp: dyadic_def)
  show "fst iv \<le> fst (halve cdf p iv)" "snd (halve cdf p iv) \<le> snd iv"
    "fst (halve cdf p iv) \<le> snd (halve cdf p iv)"
    unfolding halve_def i(2) fst_conv snd_conv dyadic_mid [OF i(1) assms(2)] Let_def
    by (auto simp: field_simps)
qed

lemma halvings_within:
  assumes "dyadic k iv" "k + n \<le> 52"
  shows "fst iv \<le> fst ((halve cdf p ^^ n) iv) \<and> snd ((halve cdf p ^^ n) iv) \<le> snd iv \<and>
    dyadic (k + n) ((halve cdf p ^^ n) iv)"
  using assms(2)
proof (induction n)
  case (Suc n)
  then have IH: "fst iv \<le> fst ((halve cdf p ^^ n) iv)" "snd ((halve cdf p ^^ n) iv) \<le> snd iv"
    "dyadic (k + n) ((halve cdf p ^^ n) iv)" by auto
  then show ?case
    using halve_mono [OF IH(3), of cdf p] halve_dyadic [OF IH(3), of cdf p] Suc.prems by auto
qed (use assms(1) in simp)

text \<open>A larger probability never gives a smaller bracket, whatever the distribution function.\<close>

lemma halvings_mono:
  assumes "p \<le> q"
  shows "dyadic k iv \<Longrightarrow> k + n \<le> 52 \<Longrightarrow>
    fst ((halve cdf p ^^ n) iv) \<le> fst ((halve cdf q ^^ n) iv) \<and>
    snd ((halve cdf p ^^ n) iv) \<le> snd ((halve cdf q ^^ n) iv)"
proof (induction n arbitrary: k iv)
  case (Suc n)
  note d = halve_dyadic [OF Suc.prems(1)]
  show ?case
  proof (cases "halve cdf p iv = halve cdf q iv")
    case True
    then show ?thesis using Suc.IH [OF d, of cdf q] Suc.prems(2) by (simp add: funpow_swap1)
  next
    case False
    let ?m = "mid_of (fst iv) (snd iv)"
    have h: "halve cdf p iv = (fst iv, ?m)" "halve cdf q iv = (?m, snd iv)"
      using False assms by (auto simp: halve_def Let_def split: if_splits)
    have "snd ((halve cdf p ^^ n) (fst iv, ?m)) \<le> ?m" "?m \<le> fst ((halve cdf q ^^ n) (?m, snd iv))"
      using halvings_within [OF d [of cdf p], of n cdf p] halvings_within [OF d [of cdf q], of n cdf q]
        Suc.prems(2) by (simp_all add: h)
    moreover have "fst ((halve cdf p ^^ n) (fst iv, ?m)) \<le> snd ((halve cdf p ^^ n) (fst iv, ?m))"
      "fst ((halve cdf q ^^ n) (?m, snd iv)) \<le> snd ((halve cdf q ^^ n) (?m, snd iv))"
      using halvings_within [OF d [of cdf p], of n cdf p] halvings_within [OF d [of cdf q], of n cdf q]
        Suc.prems(2) by (auto simp: h dyadic_def divide_right_mono)
    ultimately show ?thesis by (simp add: h funpow_swap1)
  qed
qed simp

lemma mid_of_mono: "lo \<le> lo' \<Longrightarrow> hi \<le> hi' \<Longrightarrow> mid_of lo hi \<le> mid_of lo' hi'"
  unfolding mid_of_def by (intro b64.rnd_mono mult_left_mono add_mono) simp_all

lemma beta_ppf_mono: "p \<le> q \<Longrightarrow> beta_ppf lm p a b \<le> beta_ppf lm q a b"
  unfolding beta_ppf_halvings
  using halvings_mono [of p q 0 "(0, 1)" 40] by (intro mid_of_mono) (auto simp: dyadic_def)

lemma beta_ppf_open_unit: "0 < beta_ppf lm p a b \<and> beta_ppf lm p a b < 1"
proof -
  let ?iv = "(halve (regularized_incomplete_beta lm a b) p ^^ 40) (0, 1)"
  obtain i where i: "i < 2 ^ 40" "?iv = (of_nat i / 2 ^ 40, (of_nat i + 1) / 2 ^ 40)"
    using halvings_dyadic [of 40 "regularized_incomplete_beta lm a b" p] by (auto simp: dyadic_def)
  have eq: "beta_ppf lm p a b = of_nat (2 * i + 1) / 2 ^ Suc 40"
    unfolding beta_ppf_halvings i(2) fst_conv snd_conv by (rule dyadic_mid [OF i(1)]) simp
  have "2 * i + 1 < 2 ^ Suc 40" using i(1) by simp
  then have "(of_nat (2 * i + 1) :: rat) < of_nat (2 ^ Suc 40)" by (simp only: of_nat_less_iff)
  then show ?thesis unfolding eq by simp
qed


definition flat_libm :: libm where
  "flat_libm = \<lparr>lgamma = (\<lambda>_. 0), m_exp = (\<lambda>_. 1), m_log = (\<lambda>_. 0), m_log1p = (\<lambda>_. 0)\<rparr>"


end
