(* ===== verification/Credits.thy ===== *)
theory Credits
  imports Graph CredibleInterval
begin

text \<open>
  Credit assignment (\<^verbatim>\<open>services/credibility/credibility/updater.py\<close>) and the parsing of edge
  identifiers (\<^verbatim>\<open>parse_correlation_edge_id\<close>, \<^verbatim>\<open>parse_edge_id\<close> of \<^verbatim>\<open>pipeline.py\<close>).  A raised
  \<^verbatim>\<open>InvalidScoredMessageError\<close> is the value \<open>InvalidScoredMessage\<close>.
\<close>

subsection \<open>Credit\<close>

datatype EntityType = EDGE | SOURCE

record WeightUpdate =
  wu_entity_id :: string
  wu_entity_type :: EntityType
  wu_alpha_before :: flt
  wu_beta_before :: flt
  wu_alpha_after :: flt
  wu_beta_after :: flt
  wu_weight_before :: "flt option"
  wu_weight_after :: "flt option"

definition credibility_before :: "WeightUpdate \<Rightarrow> flt" where
  "credibility_before u = fl64 (wu_alpha_before u / fl64 (wu_alpha_before u + wu_beta_before u))"

definition credibility_after :: "WeightUpdate \<Rightarrow> flt" where
  "credibility_after u = fl64 (wu_alpha_after u / fl64 (wu_alpha_after u + wu_beta_after u))"

definition dict_of :: "('a \<Rightarrow> 'k) \<Rightarrow> ('a \<Rightarrow> 'v) \<Rightarrow> 'a list \<Rightarrow> ('k, 'v) dict" where
  \<comment> \<open>\<^verbatim>\<open>{key(x): value(x) for x in xs}\<close>\<close>
  "dict_of key value xs = foldl (\<lambda>d x. dict_set d (key x) (value x)) [] xs"

definition compute_proportional_credits :: "ContributingEdge list \<Rightarrow> (string, flt) dict" where
  "compute_proportional_credits edges =
     (if edges = [] then []
      else
        let tot = py_sum (map ce_influence_weight edges)
        in if tot \<le> 0 then dict_of ce_edge_id (\<lambda>_. fl64 (1 / of_nat (length edges))) edges
           else dict_of ce_edge_id (\<lambda>e. fl64 (ce_influence_weight e / tot)) edges)"

definition compute_source_credits :: "string list \<Rightarrow> (string, flt) dict" where
  "compute_source_credits sources =
     (if sources = [] then []
      else
        let normalised = map (\<lambda>s. lower (strip s)) sources
        in dict_of id (\<lambda>_. fl64 (1 / of_nat (length normalised))) normalised)"

definition apply_bernoulli :: "flt \<Rightarrow> flt \<Rightarrow> flt \<Rightarrow> bool \<Rightarrow> flt \<Rightarrow> flt \<times> flt" where
  "apply_bernoulli alpha beta credit is_correct flr =
     (let alpha' = (if is_correct then fl64 (alpha + credit) else alpha);
          beta' = (if is_correct then beta else fl64 (beta + credit))
      in (max alpha' flr, max beta' flr))"

definition apply_weight_delta :: "flt \<Rightarrow> flt \<Rightarrow> bool \<Rightarrow> flt \<Rightarrow> flt \<Rightarrow> flt \<Rightarrow> flt" where
  "apply_weight_delta weight credit is_correct step flr ceil =
     (let delta = fl64 (step * credit);
          weight' = (if is_correct then fl64 (weight + delta) else fl64 (weight - delta))
      in min (max weight' flr) ceil)"

subsection \<open>Edge identifiers\<close>

datatype cred_error =
    InvalidScoredMessage string
  | CredGraphError graph_error
  | CredValueError string
  | CredDatabaseError

definition parse_correlation_edge_id ::
  "Registry \<Rightarrow> string \<Rightarrow> (cred_error, (AssetId \<times> ConditionCode \<times> AssetId) option) result" where
  "parse_correlation_edge_id reg eid =
     (let (left, sep, target_str) = partition_at ''->'' eid
      in if \<not> sep then Inr None
         else
           let (source_str, cond_sep, condition_str) = partition_at ''|'' left
           in if \<not> cond_sep \<or> condition_str \<notin>
                 set [ConditionCode_value UPSTREAM_UP, ConditionCode_value UPSTREAM_DOWN]
              then Inr None
              else
                case (AssetId_new reg source_str, AssetId_new reg target_str,
                      enum_of ConditionCode_all ConditionCode_value condition_str) of
                  (Inr source, Inr target, Some c) \<Rightarrow> Inr (Some (source, c, target))
                | _ \<Rightarrow> Inl (InvalidScoredMessage (''correlation edge_id '' @ eid @ '' names an unknown asset'')))"

definition parse_edge_id ::
  "Registry \<Rightarrow> string \<Rightarrow> (cred_error, EventType \<times> ConditionCode option \<times> causes_target) result" where
  "parse_edge_id reg eid =
     (let (left, sep, target_str) = partition_at ''->'' eid
      in if \<not> sep \<or> left = [] \<or> target_str = []
         then Inl (InvalidScoredMessage (''malformed edge_id '' @ eid))
         else
           let (factor_str, cond_sep, condition_str) = partition_at ''|'' left
           in case (enum_of EventType_all EventType_value factor_str,
                    if cond_sep then map_option Some (enum_of ConditionCode_all ConditionCode_value condition_str)
                    else Some None) of
                (Some factor, Some condition) \<Rightarrow>
                  (case AssetId_new reg target_str of
                     Inr a \<Rightarrow> Inr (factor, condition, AssetNode a)
                   | Inl _ \<Rightarrow>
                       if target_str \<in> set (dict_keys (rg_groups reg))
                       then Inr (factor, condition, GroupNode target_str)
                       else Inl (InvalidScoredMessage (''target '' @ target_str @ '' in edge_id '' @ eid)))
              | _ \<Rightarrow> Inl (InvalidScoredMessage (''unknown factor/condition in edge_id '' @ eid)))"

subsection \<open>Bounds of one update\<close>

lemma weight_delta_bounds:
  assumes "flr \<le> ceil"
  shows "flr \<le> apply_weight_delta w c ok step flr ceil"
    and "apply_weight_delta w c ok step flr ceil \<le> ceil"
  using assms by (simp_all add: apply_weight_delta_def Let_def)

lemma weight_delta_flt:
  "is_flt flr \<Longrightarrow> is_flt ceil \<Longrightarrow> is_flt (apply_weight_delta w c ok step flr ceil)"
  by (simp add: apply_weight_delta_def Let_def)

text \<open>
  A hit never lowers an edge and a miss never raises it.  For a weight inside the clamp and
  non-negative credit and step, the new weight is at least the old one after a correct prediction and
  at most the old one after a wrong one, despite rounding; it stays inside the clamp in every case.
\<close>

theorem weight_delta_direction:
  assumes "is_flt w" and "flr \<le> w" and "w \<le> ceil" and "0 \<le> credit" and "0 \<le> step"
  shows "w \<le> apply_weight_delta w credit True step flr ceil \<and>
    apply_weight_delta w credit False step flr ceil \<le> w \<and>
    apply_weight_delta w credit ok step flr ceil \<in> {flr..ceil}"
proof -
  have d: "0 \<le> fl64 (step * credit)" using assms by (intro b64.rnd_nonneg) simp
  have "w \<le> fl64 (w + fl64 (step * credit))" "fl64 (w - fl64 (step * credit)) \<le> w"
    using assms(1) d by (auto simp: is_flt_def intro: b64.rnd_add_ge b64.rnd_diff_le)
  then show ?thesis using assms(2,3) by (auto simp: apply_weight_delta_def Let_def)
qed

theorem weight_delta_direction_witness:
  "(1 / 2 :: flt) \<le> apply_weight_delta (1 / 2) 1 True (1 / 64) (1 / 16) 1 \<and>
   apply_weight_delta (1 / 2) 1 False (1 / 64) (1 / 16) 1 \<le> 1 / 2 \<and>
   apply_weight_delta (1 / 2) 1 False (1 / 64) (1 / 16) 1 \<in> {1 / 16..1}"
proof -
  have "is_flt (1 / 2)" using fl64_dyadic [of 1 1] by (simp add: is_flt_def)
  from weight_delta_direction [OF this, of "1 / 16" 1 1 "1 / 64" False] show ?thesis by simp
qed

subsection \<open>Identifiers round trip\<close>

lemma values_plain:
  "CHR ''-'' \<notin> set (EventType_value f)" "CHR ''|'' \<notin> set (EventType_value f)" "EventType_value f \<noteq> []"
  "CHR ''-'' \<notin> set (ConditionCode_value c)"
  by (cases f; simp)+ (cases c; simp)

lemma partition_plain:
  "CHR ''-'' \<notin> set l \<Longrightarrow> partition_at ''->'' (l @ ''->'' @ r) = (l, True, r)"
  "CHR ''|'' \<notin> set l \<Longrightarrow> partition_at ''|'' (l @ ''|'' @ r) = (l, True, r)"
  "CHR ''|'' \<notin> set l \<Longrightarrow> partition_at ''|'' l = (l, False, [])"
  using partition_at_notin [of "''->''" "CHR ''-''" "''>''" l r] partition_at_notin [of "''|''" "CHR ''|''" "[]" l r]
    partition_at_absent [of "''|''" "CHR ''|''" "[]" l] by simp_all

lemma parse_edge_key:
  assumes "t \<noteq> []"
  shows "parse_edge_id reg (edge_key_text (EventType_value f) c t) =
    (if is_known_asset reg t then Inr (f, c, AssetNode t)
     else if t \<in> set (dict_keys (rg_groups reg)) then Inr (f, c, GroupNode t)
     else Inl (InvalidScoredMessage (''target '' @ t @ '' in edge_id '' @ edge_key_text (EventType_value f) c t)))"
proof -
  let ?left = "EventType_value f @ (case c of None \<Rightarrow> [] | Some x \<Rightarrow> ''|'' @ ConditionCode_value x)"
  have key: "edge_key_text (EventType_value f) c t = ?left @ ''->'' @ t"
    by (simp add: edge_key_text_def split: option.split)
  have "CHR ''-'' \<notin> set ?left" by (auto simp: values_plain split: option.split)
  then have p1: "partition_at ''->'' (edge_key_text (EventType_value f) c t) = (?left, True, t)"
    unfolding key by (rule partition_plain)
  have p2: "partition_at ''|'' ?left =
      (EventType_value f, c \<noteq> None, case c of None \<Rightarrow> [] | Some x \<Rightarrow> ConditionCode_value x)"
    using partition_plain(2,3) [OF values_plain(2) [of f]] by (cases c) simp_all
  show ?thesis
    using assms p2 values_plain(3) [of f]
    unfolding parse_edge_id_def p1 Let_def prod.case p2
    by (cases c) (auto simp: AssetId_new_def)
qed

lemma registered_plain:
  assumes "wf_registry reg" "is_known_asset reg a"
  shows "CHR ''-'' \<notin> set a" "CHR ''|'' \<notin> set a" "a \<noteq> []" "a \<notin> set (dict_keys (rg_groups reg))"
proof -
  obtain e where "dict_get (rg_assets reg) a = Some e"
    using assms(2) by (cases "dict_get (rg_assets reg) a") (auto simp: is_known_asset_def dict_get_None_iff)
  then have up: "upper_snake a" using assms(1) by (auto simp: wf_registry_def tables_ok_def entry_ok_def)
  have "c = CHR ''_'' \<or> is_alnum c" if "c \<in> set a" for c
    using up that by (auto simp: upper_snake_def list_all_iff)
  then show "CHR ''-'' \<notin> set a" "CHR ''|'' \<notin> set a"
    by (force simp: is_alnum_def is_digit_def is_upper_def is_lower_def)+
  show "a \<noteq> []" using up by (auto simp: upper_snake_def)
  show "a \<notin> set (dict_keys (rg_groups reg))"
    using assms by (auto simp: wf_registry_def is_known_asset_def)
qed

lemma parse_correlation_key:
  assumes "wf_registry reg" "is_known_asset reg src" "is_known_asset reg tgt" "c = UPSTREAM_UP \<or> c = UPSTREAM_DOWN"
  shows "parse_correlation_edge_id reg (edge_key_text src (Some c) tgt) = Inr (Some (src, c, tgt))"
proof -
  note src = registered_plain(1,2) [OF assms(1,2)]
  have p1: "partition_at ''->'' (edge_key_text src (Some c) tgt) = (src @ ''|'' @ ConditionCode_value c, True, tgt)"
    using partition_plain(1) [of "src @ ''|'' @ ConditionCode_value c" tgt] src values_plain(4) [of c]
    by (simp add: edge_key_text_def)
  have p2: "partition_at ''|'' (src @ ''|'' @ ConditionCode_value c) = (src, True, ConditionCode_value c)"
    using src(2) by (rule partition_plain)
  show ?thesis
    unfolding parse_correlation_edge_id_def p1 Let_def prod.case p2 using assms(2-)
    by (auto simp: AssetId_new_def)
qed

text \<open>
  C30: Every edge identifier a prediction reports leads Credibility back to the edge that fired.  With a
  registry the loader accepts, the identifier of a causal edge parses to its factor, condition and the
  asset - or, for an inherited edge, the industry group - and the identifier of a propagated edge is
  the one of the correlation edge it came from and parses to its source, condition and target.
\<close>

theorem edge_id_roundtrip:
  assumes "wf_registry reg" and "is_known_asset reg (fe_asset_id e)"
    and "case fe_factor_id e of
        Some f \<Rightarrow> (case fe_inherited_from e of None \<Rightarrow> True | Some g \<Rightarrow> g \<noteq> [] \<and> g \<in> set (dict_keys (rg_groups reg)))
      | None \<Rightarrow> (\<exists>src c. fe_correlation_source_id e = Some src \<and> is_known_asset reg src \<and>
          fe_condition e = Some c \<and> (c = UPSTREAM_UP \<or> c = UPSTREAM_DOWN)) \<and> fe_inherited_from e = None"
  shows "case fe_factor_id e of
      Some f \<Rightarrow> parse_edge_id reg (edge_id e) = Inr (f, fe_condition e,
        case fe_inherited_from e of None \<Rightarrow> AssetNode (fe_asset_id e) | Some g \<Rightarrow> GroupNode g)
    | None \<Rightarrow> parse_correlation_edge_id reg (edge_id e) =
        Inr (Some (the (fe_correlation_source_id e), the (fe_condition e), fe_asset_id e))"
proof (cases "fe_factor_id e")
  case None
  with assms(3) obtain src c where c: "fe_correlation_source_id e = Some src" "is_known_asset reg src"
    "fe_condition e = Some c" "c = UPSTREAM_UP \<or> c = UPSTREAM_DOWN" "fe_inherited_from e = None" by auto
  then have "edge_id e = edge_key_text src (Some c) (fe_asset_id e)"
    using None by (simp add: edge_id_def fe_prefix_def fe_target_def)
  then show ?thesis using None c parse_correlation_key [OF assms(1) c(2) assms(2) c(4)] by simp
next
  case (Some f)
  then have id: "edge_id e = edge_key_text (EventType_value f) (fe_condition e) (fe_target e)"
    by (simp add: edge_id_def fe_prefix_def)
  show ?thesis
  proof (cases "fe_inherited_from e")
    case None
    then show ?thesis
      using Some id parse_edge_key [of "fe_asset_id e" reg f] registered_plain [OF assms(1,2)] assms(2)
      by (simp add: fe_target_def)
  next
    case (Some g)
    with assms(3) \<open>fe_factor_id e = Some f\<close> have g: "g \<noteq> []" "g \<in> set (dict_keys (rg_groups reg))" by auto
    then have "\<not> is_known_asset reg g" using registered_plain(4) [OF assms(1)] by blast
    then show ?thesis
      using Some g id \<open>fe_factor_id e = Some f\<close> parse_edge_key [of g reg f] by (simp add: fe_target_def)
  qed
qed

lemma sample_assets:
  "dict_get (rg_assets sample_registry) a = Some e \<Longrightarrow>
     (a = ''GOLD'' \<or> a = ''NEM'') \<and> e = sample_entry a ''METALS'' \<or> a = ''XOM'' \<and> e = sample_entry a ''OIL''"
  by (auto simp: sample_registry_def split: if_splits)

lemma sample_entry_ok: "a \<in> {''GOLD'', ''NEM'', ''XOM''} \<Longrightarrow> entry_ok a (sample_entry a g)"
  by (auto simp: entry_ok_def sample_entry_def upper_snake_def session_hour_def session_minute_def is_alnum_def
      is_digit_def is_upper_def is_lower_def KNOWN_PROVIDERS_def nat_of_digits.simps)

lemma sample_registry_wf: "wf_registry sample_registry"
proof -
  have "groups_ok (rg_assets sample_registry) (rg_groups sample_registry)"
    by (simp add: groups_ok_def sample_registry_def) (simp add: sample_entry_def)
  moreover have "grouped (rg_groups sample_registry) a e" if "dict_get (rg_assets sample_registry) a = Some e" for a e
  proof -
    have "ae_group_id (sample_entry x g) = g" for x g by (simp add: sample_entry_def)
    then show ?thesis using sample_assets [OF that] by (elim disjE conjE) (simp_all add: grouped_def sample_registry_def)
  qed
  moreover have "entry_ok a e" if "dict_get (rg_assets sample_registry) a = Some e" for a e
    using sample_assets [OF that] sample_entry_ok by auto
  moreover have "distinct (dict_keys (rg_assets sample_registry))" by (simp add: sample_registry_def)
  ultimately have "tables_ok (rg_assets sample_registry) (rg_groups sample_registry)"
    by (auto simp: tables_ok_def)
  moreover have "rg_assets sample_registry \<noteq> []"
    "set (dict_keys (rg_groups sample_registry)) \<inter> set (dict_keys (rg_assets sample_registry)) = {}"
    by (auto simp: sample_registry_def)
  moreover have "ae_keywords e = [] \<and> ae_fallback e = None" if "dict_get (rg_assets sample_registry) a = Some e" for a e
    using sample_assets [OF that] by (auto simp: sample_entry_def)
  ultimately show ?thesis unfolding wf_registry_def by fastforce
qed

lemma sample_groups: "fst ` set (rg_groups sample_registry) = {''METALS'', ''OIL''}"
  by (simp add: sample_registry_def)

theorem edge_id_roundtrip_witness:
  "parse_edge_id sample_registry
     (edge_id \<lparr>fe_factor_id = Some SANCTIONS, fe_asset_id = ''NEM'', fe_direction = UP, fe_weight = 1,
        fe_confidence = 1, fe_alpha = 1, fe_beta = 1, fe_condition = Some SAFE_HAVEN_ONLY,
        fe_inherited_from = Some ''METALS'', fe_correlation_source_id = None\<rparr>) =
   Inr (SANCTIONS, Some SAFE_HAVEN_ONLY, GroupNode ''METALS'')"
  using edge_id_roundtrip [OF sample_registry_wf,
      of "\<lparr>fe_factor_id = Some SANCTIONS, fe_asset_id = ''NEM'', fe_direction = UP, fe_weight = 1,
        fe_confidence = 1, fe_alpha = 1, fe_beta = 1, fe_condition = Some SAFE_HAVEN_ONLY,
        fe_inherited_from = Some ''METALS'', fe_correlation_source_id = None\<rparr>"]
  by (simp add: sample_groups)

end
