(* ===== verification/Credibility.thy ===== *)
theory Credibility
  imports Credits PredictionRepo
begin

text \<open>
  The credibility pipeline and repository (\<^verbatim>\<open>services/credibility/credibility/pipeline.py\<close>,
  \<^verbatim>\<open>repository.py\<close>, the tables of \<^verbatim>\<open>db.py\<close>).

  The state is the causal graph together with the credibility tables, because the dual-store update is
  not one transaction: a raise after an edge was written leaves the graph changed.  Which graph calls
  and whether the final commit fail is part of the environment, so every failure point of a delivery
  is a value of the model.  \<open>ck_status\<close> is the cross-schema read of \<^verbatim>\<open>prediction.predictions\<close>.
\<close>

record history_row = WeightUpdate +
  hr_prediction_id :: uuid
  hr_credibility_before :: flt
  hr_credibility_after :: flt
  hr_ci_lower :: flt
  hr_ci_upper :: flt

record cred_state =
  ct_graph :: graph_store
  ct_processed :: "uuid list"
  ct_sources :: "(string, flt \<times> flt \<times> flt) dict"
  ct_history :: "history_row list"

record cred_env =
  ck_registry :: Registry
  ck_status :: "uuid \<Rightarrow> PredictionStatus option"
  ck_read_fails :: "string \<Rightarrow> bool"
  ck_write_fails :: "string \<Rightarrow> bool"
  ck_commit_fails :: bool
  ck_libm :: libm
  ck_prior_floor :: flt
  ck_weight_step :: flt
  ck_weight_floor :: flt

type_synonym 'a cprog = "(cred_state, cred_error, 'a) prog"

subsection \<open>Repository\<close>

definition already_processed :: "uuid \<Rightarrow> cred_state \<Rightarrow> bool" where
  "already_processed pid st = (pid \<in> set (ct_processed st))"

definition get_source_state :: "string \<Rightarrow> cred_state \<Rightarrow> (flt \<times> flt) option" where
  "get_source_state s st = map_option (\<lambda>(a, b, _). (a, b)) (dict_get (ct_sources st) s)"

definition history_row_of :: "cred_env \<Rightarrow> uuid \<Rightarrow> WeightUpdate \<Rightarrow> (string, history_row) result" where
  "history_row_of env pid u =
     bind_result (beta_credible_interval (ck_libm env) (wu_alpha_after u) (wu_beta_after u) (fl64 (95 / 100)))
       (\<lambda>(ci_lower, ci_upper).
         Inr \<lparr>wu_entity_id = wu_entity_id u, wu_entity_type = wu_entity_type u,
              wu_alpha_before = wu_alpha_before u, wu_beta_before = wu_beta_before u,
              wu_alpha_after = wu_alpha_after u, wu_beta_after = wu_beta_after u,
              wu_weight_before = wu_weight_before u, wu_weight_after = wu_weight_after u,
              hr_prediction_id = pid, hr_credibility_before = credibility_before u,
              hr_credibility_after = credibility_after u, hr_ci_lower = ci_lower, hr_ci_upper = ci_upper\<rparr>)"

definition upsert_source :: "(string, flt \<times> flt \<times> flt) dict \<Rightarrow> WeightUpdate \<Rightarrow> (string, flt \<times> flt \<times> flt) dict" where
  "upsert_source d u =
     (if wu_entity_type u = SOURCE
      then dict_set d (wu_entity_id u) (wu_alpha_after u, wu_beta_after u, credibility_after u) else d)"

definition commit_updates :: "cred_env \<Rightarrow> uuid \<Rightarrow> WeightUpdate list \<Rightarrow> bool cprog" where
  \<comment> \<open>one transaction: a raise from the interval of any update rolls everything back\<close>
  "commit_updates env pid updates st =
     (if ck_commit_fails env then (Inl CredDatabaseError, st)
      else if already_processed pid st then (Inr False, st)
      else case map_result (history_row_of env pid) updates of
             Inl e \<Rightarrow> (Inl (CredValueError e), st)
           | Inr rows \<Rightarrow>
               (Inr True,
                st\<lparr>ct_processed := ct_processed st @ [pid],
                   ct_sources := foldl upsert_source (ct_sources st) updates,
                   ct_history := ct_history st @ rows\<rparr>))"

subsection \<open>Edges\<close>

definition edge_update :: "string \<Rightarrow> flt \<Rightarrow> flt \<Rightarrow> flt \<Rightarrow> flt \<Rightarrow> WeightUpdate" where
  "edge_update eid alpha beta weight_before weight_after =
     \<lparr>wu_entity_id = eid, wu_entity_type = EDGE, wu_alpha_before = alpha, wu_beta_before = beta,
      wu_alpha_after = alpha, wu_beta_after = beta, wu_weight_before = Some weight_before,
      wu_weight_after = Some weight_after\<rparr>"

definition move_weight ::
  "cred_env \<Rightarrow> string \<Rightarrow> (flt \<times> flt \<times> flt) option \<Rightarrow> (flt \<Rightarrow> (graph_error, graph_store) result) \<Rightarrow>
   flt \<Rightarrow> bool \<Rightarrow> WeightUpdate option cprog" where
  \<comment> \<open>what both kinds of edge share: skip a missing edge, move the weight, write it back\<close>
  "move_weight env eid counts put credit is_correct =
     (case counts of
        None \<Rightarrow> return_p None
      | Some (alpha, beta, weight_before) \<Rightarrow>
          let weight_after = apply_weight_delta weight_before credit is_correct (ck_weight_step env)
                (ck_weight_floor env) 1
          in if ck_write_fails env eid
             then raise_p (CredGraphError (GraphTransportError ''neo4j update failed''))
             else case put weight_after of
                    Inl e \<Rightarrow> raise_p (CredGraphError e)
                  | Inr gs \<Rightarrow>
                      bind_p (write_p (\<lambda>st. st\<lparr>ct_graph := gs\<rparr>)) (\<lambda>_.
                      return_p (Some (edge_update eid alpha beta weight_before weight_after))))"

definition update_correlation_edge ::
  "cred_env \<Rightarrow> AssetId \<Rightarrow> AssetId \<Rightarrow> ConditionCode \<Rightarrow> flt \<Rightarrow> bool \<Rightarrow> WeightUpdate option cprog" where
  "update_correlation_edge env source target condition credit is_correct st =
     (let eid = edge_key_text source (Some condition) target; gs = ct_graph st
      in if ck_read_fails env eid
         then (Inl (CredGraphError (GraphTransportError ''neo4j correlation-edge query failed'')), st)
         else move_weight env eid (get_correlation_edge_counts gs source target condition)
                (update_correlation_weight gs source target condition) credit is_correct st)"

definition correlation_edges ::
  "Registry \<Rightarrow> ContributingEdge list \<Rightarrow>
   (cred_error, (ContributingEdge \<times> AssetId \<times> ConditionCode \<times> AssetId) list) result" where
  "correlation_edges reg edges =
     bind_result (map_result (\<lambda>e. bind_result (parse_correlation_edge_id reg (ce_edge_id e)) (\<lambda>p. Inr (e, p))) edges)
       (\<lambda>ps. Inr (concat (map (\<lambda>(e, p). case p of None \<Rightarrow> [] | Some q \<Rightarrow> [(e, q)]) ps)))"

definition add_update :: "WeightUpdate option \<Rightarrow> WeightUpdate list \<Rightarrow> WeightUpdate list" where
  "add_update u us = (case u of None \<Rightarrow> us | Some u \<Rightarrow> us @ [u])"

definition update_correlation_edges :: "cred_env \<Rightarrow> PredictionScored \<Rightarrow> WeightUpdate list cprog" where
  "update_correlation_edges env m =
     bind_p (lift_p (correlation_edges (ck_registry env) (sc_contributing_edges m))) (\<lambda>edges.
     let credits = compute_proportional_credits (map fst edges)
     in fold_p (\<lambda>(e, source, condition, target) us.
          bind_p (update_correlation_edge env source target condition
                    (the (dict_get credits (ce_edge_id e))) (sc_is_correct m)) (\<lambda>u.
          return_p (add_update u us))) edges [])"

definition edge_counts ::
  "cred_env \<Rightarrow> string \<Rightarrow> EventType \<Rightarrow> ConditionCode option \<Rightarrow> causes_target \<Rightarrow> graph_store \<Rightarrow>
   (graph_error, (flt \<times> flt \<times> flt) option) result" where
  "edge_counts env eid factor condition target gs =
     (if ck_read_fails env eid then Inl (GraphTransportError ''neo4j query failed'')
      else case target of
             AssetNode a \<Rightarrow>
               bind_result (get_firing_edges (ck_registry env) gs factor (Some [a]) None True) (\<lambda>firing.
                 Inr (map_option (\<lambda>e. (fe_alpha e, fe_beta e, fe_weight e))
                        (List.find (\<lambda>e. edge_id e = eid) firing)))
           | GroupNode g \<Rightarrow> Inr (get_group_edge_counts gs factor g condition))"

definition update_edge ::
  "cred_env \<Rightarrow> bool \<Rightarrow> (string, flt) dict \<Rightarrow> ContributingEdge \<Rightarrow> WeightUpdate list \<Rightarrow> WeightUpdate list cprog" where
  "update_edge env is_correct credits edge us st =
     (case parse_edge_id (ck_registry env) (ce_edge_id edge) of
        Inl e \<Rightarrow> (Inl e, st)
      | Inr (factor, condition, target) \<Rightarrow>
          (case edge_counts env (ce_edge_id edge) factor condition target (ct_graph st) of
             Inl e \<Rightarrow> (Inl (CredGraphError e), st)
           | Inr counts \<Rightarrow>
               bind_p (move_weight env (ce_edge_id edge) counts
                   (\<lambda>w. case target of
                          AssetNode a \<Rightarrow> update_edge_weight (ct_graph st) factor a w condition False
                        | GroupNode g \<Rightarrow> update_edge_weight (ct_graph st) factor g w condition True)
                   (the (dict_get credits (ce_edge_id edge))) is_correct) (\<lambda>u.
               return_p (add_update u us)) st))"

definition update_edges :: "cred_env \<Rightarrow> PredictionScored \<Rightarrow> WeightUpdate list cprog" where
  "update_edges env m =
     (if sc_propagation_chain m \<noteq> [] then update_correlation_edges env m
      else fold_p (update_edge env (sc_is_correct m) (compute_proportional_credits (sc_contributing_edges m)))
             (sc_contributing_edges m) [])"

subsection \<open>Sources\<close>

definition source_update :: "cred_env \<Rightarrow> bool \<Rightarrow> cred_state \<Rightarrow> string \<times> flt \<Rightarrow> WeightUpdate" where
  "source_update env is_correct st sc =
     (let (source_id, credit) = sc;
          (alpha_before, beta_before) =
            (case get_source_state source_id st of
               Some ab \<Rightarrow> ab | None \<Rightarrow> (ck_prior_floor env, ck_prior_floor env));
          (alpha_after, beta_after) =
            apply_bernoulli alpha_before beta_before credit is_correct (ck_prior_floor env)
      in \<lparr>wu_entity_id = source_id, wu_entity_type = SOURCE, wu_alpha_before = alpha_before,
          wu_beta_before = beta_before, wu_alpha_after = alpha_after, wu_beta_after = beta_after,
          wu_weight_before = None, wu_weight_after = None\<rparr>)"

definition update_sources :: "cred_env \<Rightarrow> PredictionScored \<Rightarrow> WeightUpdate list cprog" where
  "update_sources env m = read_p (\<lambda>st.
     map (source_update env (sc_is_correct m) st) (compute_source_credits (sc_source_ids m)))"

subsection \<open>One delivery\<close>

definition process :: "cred_env \<Rightarrow> PredictionScored \<Rightarrow> bool cprog" where
  "process env m st =
     (let pid = sc_prediction_id m
      in if already_processed pid st then (Inr False, st)
         else if ck_status env pid = Some WITHDRAWN
         then bind_p (commit_updates env pid []) (\<lambda>_. return_p False) st
         else bind_p (update_edges env m) (\<lambda>edge_updates.
              bind_p (update_sources env m) (\<lambda>source_updates.
              commit_updates env pid (edge_updates @ source_updates))) st)"

subsection \<open>What every write of a delivery keeps, the delivery keeps\<close>

definition learned :: "cred_env \<Rightarrow> flt \<Rightarrow> bool" where
  "learned env w \<longleftrightarrow> (\<exists>w0 credit ok. w = apply_weight_delta w0 credit ok (ck_weight_step env) (ck_weight_floor env) 1)"

lemma learned_delta: "learned env (apply_weight_delta w0 credit ok (ck_weight_step env) (ck_weight_floor env) 1)"
  by (auto simp: learned_def)

definition floored :: "cred_env \<Rightarrow> WeightUpdate \<Rightarrow> bool" where
  "floored env u \<longleftrightarrow> (wu_entity_type u = SOURCE \<longrightarrow>
     ck_prior_floor env \<le> wu_alpha_after u \<and> ck_prior_floor env \<le> wu_beta_after u)"

lemma source_update_floored: "floored env (source_update env ok st sc)"
  by (simp add: floored_def source_update_def apply_bernoulli_def Let_def split: prod.splits)

lemma move_weight_cases:
  assumes "move_weight env eid counts put credit ok st = (r, st')"
  shows "(st' = st \<and> (r = Inr None \<and> counts = None \<or> (\<exists>e. r = Inl e))) \<or>
    (\<exists>a b w gs. counts = Some (a, b, w) \<and>
       put (apply_weight_delta w credit ok (ck_weight_step env) (ck_weight_floor env) 1) = Inr gs \<and>
       st' = st\<lparr>ct_graph := gs\<rparr> \<and>
       r = Inr (Some (edge_update eid a b w
             (apply_weight_delta w credit ok (ck_weight_step env) (ck_weight_floor env) 1))))"
  using assms
  by (auto simp: move_weight_def Let_def prog_simps split: option.splits if_splits sum.splits)

lemma fold_p_acc:
  assumes "\<And>x a s b s'. f x a s = (Inr b, s') \<Longrightarrow> Q a \<Longrightarrow> Q b"
  shows "fold_p f xs a s = (Inr b, s') \<Longrightarrow> Q a \<Longrightarrow> Q b"
  using assms by (induction xs arbitrary: a s) (auto simp: bind_p_def return_p_def split: sum.splits prod.splits)

lemma update_edge_floored:
  "update_edge env ok cr e us st = (Inr us', st') \<Longrightarrow> \<forall>u \<in> set us. floored env u \<Longrightarrow> \<forall>u \<in> set us'. floored env u"
  by (auto simp: update_edge_def bind_p_def return_p_def add_update_def floored_def edge_update_def
      split: sum.splits prod.splits option.splits dest!: move_weight_cases)

lemma update_edges_floored:
  assumes "update_edges env m st = (Inr us, st')"
  shows "\<forall>u \<in> set us. floored env u"
proof (cases "sc_propagation_chain m = []")
  case True
  with assms have "fold_p (update_edge env (sc_is_correct m) (compute_proportional_credits (sc_contributing_edges m)))
      (sc_contributing_edges m) [] st = (Inr us, st')" by (simp add: update_edges_def)
  then show ?thesis
    by (rule fold_p_acc [where Q = "\<lambda>us. \<forall>u \<in> set us. floored env u", rotated]) (simp, erule (1) update_edge_floored)
next
  case False
  have "floored env u" if "update_correlation_edge env a b c credit ok st = (Inr (Some u), st')" for a b c credit ok st st' u
    using that by (auto simp: update_correlation_edge_def Let_def floored_def edge_update_def split: if_splits dest!: move_weight_cases)
  note step = this
  from False assms obtain es where "fold_p (\<lambda>(e, source, condition, target) us.
          bind_p (update_correlation_edge env source target condition
                    (the (dict_get (compute_proportional_credits (map fst es)) (ce_edge_id e))) (sc_is_correct m)) (\<lambda>u.
          return_p (add_update u us))) es [] st = (Inr us, st')"
    by (auto simp: update_edges_def update_correlation_edges_def Let_def bind_p_def lift_p_def split: sum.splits prod.splits)
  then show ?thesis
    by (rule fold_p_acc [where Q = "\<lambda>us. \<forall>u \<in> set us. floored env u", rotated])
      (auto simp: bind_p_def return_p_def add_update_def split: sum.splits prod.splits option.splits dest: step)
qed

locale credit_invariant =
  fixes env :: cred_env and m :: PredictionScored and P :: "cred_state \<Rightarrow> bool"
  assumes keep_causes: "P st \<Longrightarrow> sc_propagation_chain m = [] \<Longrightarrow> e \<in> set (sc_contributing_edges m) \<Longrightarrow>
      parse_edge_id (ck_registry env) (ce_edge_id e) = Inr (f, c, t) \<Longrightarrow>
      causes_set_weight (ct_graph st) (f, t, c) w = Inr gs \<Longrightarrow> learned env w \<Longrightarrow> P (st\<lparr>ct_graph := gs\<rparr>)"
    and keep_correlation: "P st \<Longrightarrow> sc_propagation_chain m \<noteq> [] \<Longrightarrow> e \<in> set (sc_contributing_edges m) \<Longrightarrow>
      parse_correlation_edge_id (ck_registry env) (ce_edge_id e) = Inr (Some (a, c', b)) \<Longrightarrow>
      correlates_set_weight (ct_graph st) (a, b, c') w = Inr gs \<Longrightarrow> learned env w \<Longrightarrow> P (st\<lparr>ct_graph := gs\<rparr>)"
    and keep_commit: "P st \<Longrightarrow> \<forall>u \<in> set us. floored env u \<Longrightarrow>
      P (snd (commit_updates env (sc_prediction_id m) us st))"
begin

lemma update_edge_inv:
  assumes "P st" "sc_propagation_chain m = []" "e \<in> set (sc_contributing_edges m)"
  shows "P (snd (update_edge env ok cr e us st))"
proof (cases "parse_edge_id (ck_registry env) (ce_edge_id e)")
  case parsed: (Inr ftc)
  obtain f c t where ftc: "ftc = (f, c, t)" by (cases ftc)
  show ?thesis
  proof (cases "edge_counts env (ce_edge_id e) f c t (ct_graph st)")
    case read: (Inr counts)
    let ?put = "\<lambda>w. case t of AssetNode a \<Rightarrow> update_edge_weight (ct_graph st) f a w c False
        | GroupNode g \<Rightarrow> update_edge_weight (ct_graph st) f g w c True"
    have put_eq: "?put w = causes_set_weight (ct_graph st) (f, t, c) w" for w by (cases t) simp_all
    obtain r st' where mv: "move_weight env (ce_edge_id e) counts ?put (the (dict_get cr (ce_edge_id e))) ok st = (r, st')"
      by fastforce
    have "P (st\<lparr>ct_graph := gs\<rparr>)" if "?put w = Inr gs" "learned env w" for w gs
      using keep_causes [OF assms] parsed that unfolding put_eq ftc by blast
    then have "P st'" using move_weight_cases [OF mv] assms(1) learned_delta by blast
    then show ?thesis using parsed read mv
      by (auto simp: update_edge_def ftc bind_p_def return_p_def split: sum.splits)
  qed (use assms(1) parsed ftc in \<open>simp add: update_edge_def\<close>)
qed (use assms(1) in \<open>simp add: update_edge_def\<close>)

lemma update_correlation_edge_inv:
  assumes "P st" "sc_propagation_chain m \<noteq> []" "e \<in> set (sc_contributing_edges m)"
    "parse_correlation_edge_id (ck_registry env) (ce_edge_id e) = Inr (Some (a, c, b))"
  shows "P (snd (update_correlation_edge env a b c credit ok st))"
proof -
  obtain r st' where mv: "move_weight env (edge_key_text a (Some c) b)
      (get_correlation_edge_counts (ct_graph st) a b c) (update_correlation_weight (ct_graph st) a b c) credit ok st = (r, st')"
    by fastforce
  have "P (st\<lparr>ct_graph := gs\<rparr>)" if "update_correlation_weight (ct_graph st) a b c w = Inr gs" "learned env w" for w gs
    using keep_correlation [OF assms] that by (simp add: correlates_set_weight_def)
  then have "P st'" using move_weight_cases [OF mv] assms(1) learned_delta by blast
  then show ?thesis using assms(1) mv by (simp add: update_correlation_edge_def Let_def)
qed

lemma update_edges_inv:
  assumes "P st"
  shows "P (snd (update_edges env m st))"
proof (cases "sc_propagation_chain m = []")
  case True
  then show ?thesis
    unfolding update_edges_def using assms update_edge_inv
    by (auto intro!: fold_p_inv [where P = P])
next
  case False
  have mem: "e \<in> set (sc_contributing_edges m) \<and>
      parse_correlation_edge_id (ck_registry env) (ce_edge_id e) = Inr (Some (a, c, b))"
    if "correlation_edges (ck_registry env) (sc_contributing_edges m) = Inr es" "(e, a, c, b) \<in> set es" for es e a c b
    using that by (auto simp: correlation_edges_def bind_result_Inr_iff split: option.splits dest!: map_result_mem)
  show ?thesis
    using False assms
    by (auto simp: update_edges_def update_correlation_edges_def Let_def lift_p_def return_p_def
        intro!: bind_p_inv [where P = P] fold_p_inv [where P = P] dest!: mem intro: update_correlation_edge_inv)
qed

lemma process_inv:
  assumes "P st"
  shows "P (snd (process env m st))"
proof -
  have "P (snd (commit_updates env (sc_prediction_id m) (us @ map (source_update env ok st0) cs) st'))"
    if "P st'" "\<forall>u \<in> set us. floored env u" for us ok st0 cs st'
    using that source_update_floored by (intro keep_commit) auto
  then have learn: "P (snd (bind_p (update_edges env m) (\<lambda>eu. bind_p (update_sources env m) (\<lambda>su.
      commit_updates env (sc_prediction_id m) (eu @ su))) st))"
    using update_edges_inv [OF assms] update_edges_floored [of env m st]
    by (auto simp: update_sources_def read_p_def bind_p_def split: sum.splits prod.splits)
  have "P (snd (bind_p (commit_updates env (sc_prediction_id m) []) (\<lambda>_. return_p False) st))"
    using keep_commit [OF assms, of "[]"] by (auto simp: bind_p_def return_p_def split: sum.splits prod.splits)
  with learn assms show ?thesis by (simp add: process_def Let_def)
qed

end

subsection \<open>Redelivery\<close>

lemma commit_processed:
  "set (ct_processed (snd (commit_updates env pid us st))) \<subseteq> insert pid (set (ct_processed st))"
  "set (ct_processed st) \<subseteq> set (ct_processed (snd (commit_updates env pid us st)))"
  "commit_updates env pid us st = (Inr b, st') \<Longrightarrow> pid \<in> set (ct_processed st')"
  by (auto simp: commit_updates_def already_processed_def split: sum.splits if_splits)

interpretation processed: credit_invariant env m "\<lambda>st. pid \<in> set (ct_processed st)" for env m pid
  by standard (auto intro: subsetD [OF commit_processed(2)])

lemma process_marks:
  assumes "process env m st = (Inr b, st')"
  shows "sc_prediction_id m \<in> set (ct_processed st')"
  using assms commit_processed(3)
  by (auto simp: process_def Let_def already_processed_def bind_p_def return_p_def
      split: if_splits sum.splits prod.splits)

definition deliver :: "(cred_env \<times> PredictionScored) list \<Rightarrow> cred_state \<Rightarrow> cred_state" where
  "deliver ds st = foldl (\<lambda>s (env, m). snd (process env m s)) st ds"

text \<open>
  C29: A scored prediction is applied at most once.  Once a delivery has returned - whatever it returned -
  every later delivery of the same prediction returns False and changes neither the graph nor a table,
  no matter which other deliveries, failing or not, came in between and what the redelivered message
  contains.
\<close>

theorem redelivery_absorbed:
  assumes "process env m st = (Inr b, st')" and "sc_prediction_id m' = sc_prediction_id m"
  shows "process env' m' (deliver ds st') = (Inr False, deliver ds st')"
proof -
  have "sc_prediction_id m \<in> set (ct_processed (deliver ds st'))"
    using process_marks [OF assms(1)] unfolding deliver_def
    by (induction ds arbitrary: st') (auto intro: processed.process_inv)
  then show ?thesis using assms(2) by (simp add: process_def Let_def already_processed_def)
qed

subsection \<open>The learning invariant\<close>

definition source_ok :: "flt \<Rightarrow> flt \<times> flt \<times> flt \<Rightarrow> bool" where
  "source_ok prior s = (case s of (a, b, c) \<Rightarrow> prior \<le> a \<and> prior \<le> b \<and> c = fl64 (a / fl64 (a + b)))"

definition cred_settings_ok :: "cred_env \<Rightarrow> bool" where
  "cred_settings_ok env \<longleftrightarrow> 0 \<le> ck_weight_floor env \<and> ck_weight_floor env \<le> 1 \<and> is_flt (ck_weight_floor env)"

definition cred_ok :: "flt \<Rightarrow> cred_state \<Rightarrow> bool" where
  "cred_ok prior st \<longleftrightarrow> wf_graph (ct_graph st) \<and> distinct (ct_processed st) \<and>
     distinct (dict_keys (ct_sources st)) \<and> (\<forall>s \<in> set (ct_sources st). source_ok prior (snd s)) \<and>
     hr_prediction_id ` set (ct_history st) \<subseteq> set (ct_processed st)"

lemma learned_unit:
  "cred_settings_ok env \<Longrightarrow> learned env w \<Longrightarrow> 0 \<le> w \<and> w \<le> 1 \<and> is_flt w"
  using weight_delta_bounds [of "ck_weight_floor env" 1] weight_delta_flt
  by (fastforce simp: cred_settings_ok_def learned_def intro: order_trans)

lemma causes_set_weight_wf:
  "causes_set_weight gs k w = Inr gs' \<Longrightarrow> wf_graph gs \<Longrightarrow> 0 \<le> w \<and> w \<le> 1 \<and> is_flt w \<Longrightarrow> wf_graph gs'"
  by (cases "(gs, k, w)" rule: causes_set_weight.cases) (auto intro: update_edge_weight_wf)

lemma correlates_set_weight_wf:
  "correlates_set_weight gs k w = Inr gs' \<Longrightarrow> wf_graph gs \<Longrightarrow> 0 \<le> w \<and> w \<le> 1 \<and> is_flt w \<Longrightarrow> wf_graph gs'"
  by (cases k) (auto simp: correlates_set_weight_def intro: update_correlation_weight_wf)

lemma upsert_sources_ok:
  assumes "\<forall>u \<in> set us. floored env u" "distinct (dict_keys d)" "\<forall>s \<in> set d. source_ok (ck_prior_floor env) (snd s)"
  shows "distinct (dict_keys (foldl upsert_source d us)) \<and>
    (\<forall>s \<in> set (foldl upsert_source d us). source_ok (ck_prior_floor env) (snd s))"
  using assms
proof (induction us arbitrary: d)
  case (Cons u us)
  have "set (dict_set d k v) \<subseteq> insert (k, v) (set d)" for k and v :: "flt \<times> flt \<times> flt"
    by (induction d) (auto split: if_splits)
  then have sub: "set (upsert_source d u) \<subseteq> insert (wu_entity_id u, wu_alpha_after u, wu_beta_after u, credibility_after u) (set d)"
    "wu_entity_type u \<noteq> SOURCE \<Longrightarrow> upsert_source d u = d" by (auto simp: upsert_source_def)
  moreover have "wu_entity_type u = SOURCE \<Longrightarrow>
      source_ok (ck_prior_floor env) (wu_alpha_after u, wu_beta_after u, credibility_after u)"
    using Cons.prems(1) by (simp add: source_ok_def floored_def credibility_after_def)
  ultimately have "\<forall>s \<in> set (upsert_source d u). source_ok (ck_prior_floor env) (snd s)"
    using Cons.prems(3) by (cases "wu_entity_type u = SOURCE") auto
  moreover have "distinct (dict_keys (upsert_source d u))" using Cons.prems by (simp add: upsert_source_def)
  ultimately show ?case using Cons.IH [of "upsert_source d u"] Cons.prems by simp
qed simp

lemma commit_cred_ok:
  assumes "cred_ok (ck_prior_floor env) st" "\<forall>u \<in> set us. floored env u"
  shows "cred_ok (ck_prior_floor env) (snd (commit_updates env pid us st))"
proof -
  have "hr_prediction_id r = pid" if "map_result (history_row_of env pid) us = Inr rows" "r \<in> set rows" for rows r
    using map_result_mem [OF that] by (auto simp: history_row_of_def bind_result_Inr_iff)
  then show ?thesis
    using assms upsert_sources_ok [OF assms(2), of "ct_sources st"]
    by (auto simp: commit_updates_def cred_ok_def already_processed_def split: sum.splits)
qed

interpretation learning: credit_invariant env m "\<lambda>st. cred_settings_ok env \<longrightarrow> cred_ok (ck_prior_floor env) st"
  for env m
proof
  show "cred_settings_ok env \<longrightarrow> cred_ok (ck_prior_floor env) (snd (commit_updates env (sc_prediction_id m) us st))"
    if "cred_settings_ok env \<longrightarrow> cred_ok (ck_prior_floor env) st" "\<forall>u \<in> set us. floored env u" for st us
    using that commit_cred_ok by blast
next
  show "cred_settings_ok env \<longrightarrow> cred_ok (ck_prior_floor env) (st\<lparr>ct_graph := gs\<rparr>)"
    if "cred_settings_ok env \<longrightarrow> cred_ok (ck_prior_floor env) st"
      "causes_set_weight (ct_graph st) (f, t, c) w = Inr gs" "learned env w" for st f t c w gs
    using that causes_set_weight_wf learned_unit by (fastforce simp: cred_ok_def)
next
  show "cred_settings_ok env \<longrightarrow> cred_ok (ck_prior_floor env) (st\<lparr>ct_graph := gs\<rparr>)"
    if "cred_settings_ok env \<longrightarrow> cred_ok (ck_prior_floor env) st"
      "correlates_set_weight (ct_graph st) (a, b, c) w = Inr gs" "learned env w" for st a b c w gs
    using that correlates_set_weight_wf learned_unit by (fastforce simp: cred_ok_def)
qed

text \<open>
  C31: Learning keeps the store readable and the tables consistent.  Whatever a delivery does - apply,
  skip, reject, or fail at any graph call or at the commit - every edge weight stays a float in [0, 1]
  so that Prediction can still read it, keys stay unique, every source keeps both counts at or above
  the uninformed prior with the score of its counts, a prediction is marked processed at most once, and
  every history row belongs to a processed prediction.
\<close>

theorem learning_invariant:
  assumes "0 \<le> ck_weight_floor env" and "ck_weight_floor env \<le> 1" and "is_flt (ck_weight_floor env)"
    and "cred_ok (ck_prior_floor env) st"
  shows "cred_ok (ck_prior_floor env) (snd (process env m st))"
  using learning.process_inv [of env st m] assms by (simp add: cred_settings_ok_def)

subsection \<open>What a delivery leaves alone\<close>

text \<open>The edges a message addresses: the ones its contributing identifiers parse to.\<close>

definition addressed_causes :: "cred_env \<Rightarrow> PredictionScored \<Rightarrow> causes_key set" where
  "addressed_causes env m = {(f, t, c) | f t c. sc_propagation_chain m = [] \<and>
     (\<exists>e \<in> set (sc_contributing_edges m). parse_edge_id (ck_registry env) (ce_edge_id e) = Inr (f, c, t))}"

definition addressed_correlations :: "cred_env \<Rightarrow> PredictionScored \<Rightarrow> correlates_key set" where
  "addressed_correlations env m = {(a, b, c) | a b c. sc_propagation_chain m \<noteq> [] \<and>
     (\<exists>e \<in> set (sc_contributing_edges m). parse_correlation_edge_id (ck_registry env) (ce_edge_id e) = Inr (Some (a, c, b)))}"

abbreviation frozen_counts :: "(flt \<times> flt \<times> flt) option \<Rightarrow> (flt \<times> flt) option" where
  "frozen_counts \<equiv> map_option (\<lambda>(alpha, beta, weight). (alpha, beta))"

definition graph_agrees :: "cred_env \<Rightarrow> PredictionScored \<Rightarrow> graph_store \<Rightarrow> graph_store \<Rightarrow> bool" where
  "graph_agrees env m gs gs' \<longleftrightarrow>
     (\<forall>k. frozen_counts (causes_counts gs' k) = frozen_counts (causes_counts gs k)) \<and>
     (\<forall>k. frozen_counts (correlates_counts gs' k) = frozen_counts (correlates_counts gs k)) \<and>
     (\<forall>k. k \<notin> addressed_causes env m \<longrightarrow> causes_counts gs' k = causes_counts gs k) \<and>
     (\<forall>k. k \<notin> addressed_correlations env m \<longrightarrow> correlates_counts gs' k = correlates_counts gs k)"

lemma causes_write_agrees:
  assumes "causes_set_weight gs k w = Inr gs'"
  shows "frozen_counts (causes_counts gs' k') = frozen_counts (causes_counts gs k')"
    "k' \<noteq> k \<Longrightarrow> causes_counts gs' k' = causes_counts gs k'"
    "correlates_counts gs' q = correlates_counts gs q"
proof -
  show other: "k' \<noteq> k \<Longrightarrow> causes_counts gs' k' = causes_counts gs k'" by (rule causes_edges.write_other [OF assms])
  show "frozen_counts (causes_counts gs' k') = frozen_counts (causes_counts gs k')"
    using causes_edges.write_counts [OF assms] other by (cases "k' = k") auto
  show "correlates_counts gs' q = correlates_counts gs q"
    using assms by (auto simp: causes_set_weight_unfold correlates_counts_def get_correlation_edge_counts_def
        split: if_splits prod.splits)
qed

lemma correlates_write_agrees:
  assumes "correlates_set_weight gs k w = Inr gs'"
  shows "frozen_counts (correlates_counts gs' k') = frozen_counts (correlates_counts gs k')"
    "k' \<noteq> k \<Longrightarrow> correlates_counts gs' k' = correlates_counts gs k'"
    "causes_counts gs' q = causes_counts gs q"
proof -
  show other: "k' \<noteq> k \<Longrightarrow> correlates_counts gs' k' = correlates_counts gs k'"
    by (rule correlation_edges.write_other [OF assms])
  show "frozen_counts (correlates_counts gs' k') = frozen_counts (correlates_counts gs k')"
    using correlation_edges.write_counts [OF assms] other by (cases "k' = k") auto
  show "causes_counts gs' q = causes_counts gs q"
    using assms by (cases k) (auto simp: correlates_set_weight_def update_correlation_weight_def Let_def
        causes_counts_def split: if_splits)
qed

interpretation bystanders: credit_invariant env m "\<lambda>st. graph_agrees env m gs (ct_graph st)" for env m gs
proof
  show "graph_agrees env m gs (ct_graph (st\<lparr>ct_graph := gs'\<rparr>))"
    if "graph_agrees env m gs (ct_graph st)" "sc_propagation_chain m = []" "e \<in> set (sc_contributing_edges m)"
      "parse_edge_id (ck_registry env) (ce_edge_id e) = Inr (f, c, t)"
      "causes_set_weight (ct_graph st) (f, t, c) w = Inr gs'" for st e f c t w gs'
  proof -
    have "(f, t, c) \<in> addressed_causes env m" using that by (auto simp: addressed_causes_def)
    then show ?thesis
      using that(1) causes_write_agrees [OF that(5)] unfolding graph_agrees_def by simp metis
  qed
next
  show "graph_agrees env m gs (ct_graph (st\<lparr>ct_graph := gs'\<rparr>))"
    if "graph_agrees env m gs (ct_graph st)" "sc_propagation_chain m \<noteq> []" "e \<in> set (sc_contributing_edges m)"
      "parse_correlation_edge_id (ck_registry env) (ce_edge_id e) = Inr (Some (a, c, b))"
      "correlates_set_weight (ct_graph st) (a, b, c) w = Inr gs'" for st e a c b w gs'
  proof -
    have "(a, b, c) \<in> addressed_correlations env m" using that by (auto simp: addressed_correlations_def)
    then show ?thesis
      using that(1) correlates_write_agrees [OF that(5)] unfolding graph_agrees_def by simp metis
  qed
next
  have "ct_graph (snd (commit_updates env pid us st)) = ct_graph st" for pid us st
    by (simp add: commit_updates_def split: sum.split)
  then show "graph_agrees env m gs (ct_graph (snd (commit_updates env (sc_prediction_id m) us st)))"
    if "graph_agrees env m gs (ct_graph st)" for st us
    using that by simp
qed

text \<open>
  A delivery moves only the weights of the edges the message names.  Success or failure, the
  reliability counts of every edge are unchanged, no edge appears or disappears, an edge no
  contributing identifier leads to keeps its weight, a direct prediction moves no correlation edge and
  a propagated one moves no causal edge.
\<close>

theorem only_addressed_edges_move:
  assumes "process env m st = (r, st')"
  shows "frozen_counts (causes_counts (ct_graph st') k) = frozen_counts (causes_counts (ct_graph st) k) \<and>
    frozen_counts (correlates_counts (ct_graph st') q) = frozen_counts (correlates_counts (ct_graph st) q) \<and>
    (k \<notin> addressed_causes env m \<longrightarrow> causes_counts (ct_graph st') k = causes_counts (ct_graph st) k) \<and>
    (q \<notin> addressed_correlations env m \<longrightarrow> correlates_counts (ct_graph st') q = correlates_counts (ct_graph st) q)"
proof -
  have "graph_agrees env m (ct_graph st) (ct_graph st)" by (simp add: graph_agrees_def)
  from bystanders.process_inv [OF this] show ?thesis
    unfolding graph_agrees_def assms snd_conv by blast
qed

subsection \<open>Learning from a prediction that rests on one edge\<close>

abbreviation target_name :: "causes_target \<Rightarrow> string" where
  "target_name t \<equiv> (case t of AssetNode a \<Rightarrow> a | GroupNode g \<Rightarrow> g)"

definition registered :: "Registry \<Rightarrow> causes_target \<Rightarrow> bool" where
  "registered reg t = (case t of AssetNode a \<Rightarrow> is_known_asset reg a
     | GroupNode g \<Rightarrow> g \<noteq> [] \<and> g \<in> set (dict_keys (rg_groups reg)))"

lemma parse_registered:
  assumes "wf_registry reg" "registered reg t"
  shows "parse_edge_id reg (edge_key_text (EventType_value f) c (target_name t)) = Inr (f, c, t)"
proof (cases t)
  case (AssetNode a)
  then show ?thesis
    using assms parse_edge_key [of a reg f c] registered_plain(3) [of reg a] by (simp add: registered_def)
next
  case (GroupNode g)
  then have "\<not> is_known_asset reg g" using assms registered_plain(4) [of reg g] by (auto simp: registered_def)
  then show ?thesis using GroupNode assms parse_edge_key [of g reg f c] by (simp add: registered_def)
qed

lemma find_common:
  "x \<in> set xs \<Longrightarrow> p x \<Longrightarrow> (\<And>y. y \<in> set xs \<Longrightarrow> p y \<Longrightarrow> g y = v) \<Longrightarrow> map_option g (List.find p xs) = Some v"
  by (induction xs) auto

lemma edge_counts_found:
  assumes "wf_registry (ck_registry env)" "registered (ck_registry env) t" "wf_graph gs"
    and "known_targets (ck_registry env) gs" "causes_counts gs (f, t, c) = Some abw"
    and "\<not> ck_read_fails env (edge_key_text (EventType_value f) c (target_name t))"
  shows "edge_counts env (edge_key_text (EventType_value f) c (target_name t)) f c t gs = Inr (Some abw)"
proof (cases t)
  case (GroupNode g)
  then show ?thesis using assms(5,6) by (simp add: edge_counts_def group_counts_causes)
next
  case (AssetNode a)
  let ?eid = "edge_key_text (EventType_value f) c a"
  let ?rows = "own_rows gs f (Some [a]) None @ group_rows gs f (Some [a]) None"
  obtain r where r: "r \<in> set (gs_causes gs)" "causes_key r = (f, AssetNode a, c)"
    "abw = (cr_alpha r, cr_beta r, cr_weight r)"
    using assms(5) fetch_first_Some unfolding causes_counts_def AssetNode by (fastforce split: option.splits)
  then have own: "has_own_edge gs f None a"
    by (auto simp: has_own_edge_iff causes_key_def condition_active_def split: option.splits)
  have row: "x = a \<and> grp = None \<and> r' \<in> set (gs_causes gs) \<and> causes_key r' = (f, AssetNode a, cr_condition r')"
    if "(x, grp, r') \<in> set ?rows" for x grp r'
    using that own by (auto simp: set_own_rows set_group_rows asset_selected_def causes_key_def)
  have id: "edge_id (firing_edge_of x grp r') = edge_key_text (EventType_value f) (cr_condition r') a"
    if "(x, grp, r') \<in> set ?rows" for x grp r'
    using row [OF that] by (simp add: edge_id_def fe_prefix_def fe_target_def firing_edge_of_def causes_key_def)
  have cond: "cr_condition r' = c" if "edge_key_text (EventType_value f) (cr_condition r') a = ?eid" for r'
  proof -
    have "Inr (f, cr_condition r', AssetNode a) = (Inr (f, c, AssetNode a) :: (cred_error, _) result)"
      using parse_registered [OF assms(1,2), of f "cr_condition r'"] parse_registered [OF assms(1,2), of f c] that
      by (simp add: AssetNode)
    then show ?thesis by simp
  qed
  have uniq: "r' = r" if "(x, grp, r') \<in> set ?rows" "edge_id (firing_edge_of x grp r') = ?eid" for x grp r'
    using row [OF that(1)] cond [of r'] that(2) id [OF that(1)] r(1,2) assms(3)
    unfolding wf_graph_def by (metis (no_types, lifting) distinct_map inj_onD)
  have mem: "(a, None, r) \<in> set ?rows"
    using r by (auto simp: set_own_rows asset_selected_def causes_key_def condition_active_def split: option.splits)
  have "map_option (\<lambda>e. (fe_alpha e, fe_beta e, fe_weight e))
      (List.find (\<lambda>e. edge_id e = ?eid) (map (\<lambda>(a, grp, r). firing_edge_of a grp r) ?rows)) = Some abw"
  proof (rule find_common)
    show "firing_edge_of a None r \<in> set (map (\<lambda>(a, grp, r). firing_edge_of a grp r) ?rows)"
      using imageI [OF mem, of "\<lambda>(a, grp, r). firing_edge_of a grp r"] unfolding set_map prod.case .
    show "edge_id (firing_edge_of a None r) = ?eid" using id [OF mem] r(2) by (simp add: causes_key_def)
  next
    fix y
    assume "y \<in> set (map (\<lambda>(a, grp, r). firing_edge_of a grp r) ?rows)" and y: "edge_id y = ?eid"
    then obtain x grp r' where "(x, grp, r') \<in> set ?rows" "y = firing_edge_of x grp r'"
      unfolding set_map by (elim imageE) (simp only: split_paired_all prod.case)
    then show "(fe_alpha y, fe_beta y, fe_weight y) = abw" using uniq y r(3) by simp
  qed
  then show ?thesis
    using assms(6) unfolding edge_counts_def get_firing_edges_ok [OF assms(3,4)] AssetNode by simp
qed

lemma single_credit: "compute_proportional_credits [e] = [(ce_edge_id e, 1)]"
  by (simp add: compute_proportional_credits_def dict_of_def py_sum_def Let_def)

lemma history_rows_ok:
  assumes "\<forall>u \<in> set us. 0 < wu_alpha_after u \<and> 0 < wu_beta_after u"
  shows "\<exists>rows. map_result (history_row_of env pid) us = Inr rows"
proof -
  have "\<exists>row. history_row_of env pid u = Inr row" if "u \<in> set us" for u
    using assms that by (auto simp: history_row_of_def beta_credible_interval_def Let_def not_le [symmetric])
  then show ?thesis by (induction us) (auto simp: bind_result_Inr_iff)
qed

lemma causes_counts_pos:
  assumes "wf_graph gs" "causes_counts gs k = Some (a, b, w)"
  shows "0 < a" "0 < b"
  using assms fetch_first_Some
  by (fastforce simp: causes_counts_def wf_graph_def list_all_iff wf_causes_def valid_weights_def split: option.splits)+

definition rests_on :: "PredictionScored \<Rightarrow> causes_key \<Rightarrow> bool" where
  "rests_on m k \<longleftrightarrow> sc_propagation_chain m = [] \<and> map ce_edge_id (sc_contributing_edges m) =
     [case k of (f, t, c) \<Rightarrow> edge_key_text (EventType_value f) c (target_name t)]"

definition healthy :: "cred_env \<Rightarrow> bool" where
  "healthy env \<longleftrightarrow> wf_registry (ck_registry env) \<and> 0 < ck_prior_floor env \<and> \<not> ck_commit_fails env \<and>
     (\<forall>i. \<not> ck_read_fails env i \<and> \<not> ck_write_fails env i)"

lemma update_edges_single:
  assumes "healthy env" "rests_on m (f, t, c)" "registered (ck_registry env) t" "wf_graph (ct_graph st)"
    and "known_targets (ck_registry env) (ct_graph st)" "causes_counts (ct_graph st) (f, t, c) = Some (a, b, w)"
  defines "w' \<equiv> apply_weight_delta w 1 (sc_is_correct m) (ck_weight_step env) (ck_weight_floor env) 1"
  shows "\<exists>gs eid. causes_set_weight (ct_graph st) (f, t, c) w' = Inr gs \<and>
    update_edges env m st = (Inr [edge_update eid a b w w'], st\<lparr>ct_graph := gs\<rparr>)"
proof -
  let ?eid = "edge_key_text (EventType_value f) c (target_name t)"
  obtain e where e: "sc_contributing_edges m = [e]" "ce_edge_id e = ?eid" "sc_propagation_chain m = []"
    using assms(2) by (auto simp: rests_on_def)
  obtain gs where gs: "causes_set_weight (ct_graph st) (f, t, c) w' = Inr gs"
    using causes_edges.write_present [OF assms(6), of w'] by blast
  have "(case t of AssetNode a \<Rightarrow> update_edge_weight (ct_graph st) f a w' c False
      | GroupNode g \<Rightarrow> update_edge_weight (ct_graph st) f g w' c True) = Inr gs"
    using gs by (cases t) simp_all
  moreover have "parse_edge_id (ck_registry env) ?eid = Inr (f, c, t)"
    using assms(1,3) parse_registered by (simp add: healthy_def)
  moreover have "edge_counts env ?eid f c t (ct_graph st) = Inr (Some (a, b, w))"
    using assms(1,3-6) edge_counts_found by (simp add: healthy_def)
  ultimately have "update_edge env (sc_is_correct m) [(?eid, 1)] e [] st =
      (Inr [edge_update ?eid a b w w'], st\<lparr>ct_graph := gs\<rparr>)"
    using assms(1) e(2) unfolding w'_def
    by (simp add: update_edge_def move_weight_def healthy_def Let_def prog_simps add_update_def)
  then have "update_edges env m st = (Inr [edge_update ?eid a b w w'], st\<lparr>ct_graph := gs\<rparr>)"
    using e by (simp add: update_edges_def single_credit bind_p_def return_p_def)
  with gs show ?thesis by blast
qed

text \<open>
  A prediction that rests on one causal edge teaches that edge, by one full step.  On a registry and
  a graph the services accept, with the stores answering, a first delivery of a scored prediction that
  was not withdrawn and names one edge - the asset's own or its industry group's, conditioned or not -
  is applied, and that edge's weight becomes the old weight moved by the whole step in the direction of
  the outcome and clamped, its counts unchanged.
\<close>

theorem single_edge_learning:
  assumes "healthy env" and "rests_on m (f, t, c)" and "registered (ck_registry env) t"
    and "wf_graph (ct_graph st)" and "known_targets (ck_registry env) (ct_graph st)"
    and "causes_counts (ct_graph st) (f, t, c) = Some (a, b, w)"
    and "sc_prediction_id m \<notin> set (ct_processed st)" and "ck_status env (sc_prediction_id m) \<noteq> Some WITHDRAWN"
  shows "\<exists>st'. process env m st = (Inr True, st') \<and>
    causes_counts (ct_graph st') (f, t, c) =
      Some (a, b, apply_weight_delta w 1 (sc_is_correct m) (ck_weight_step env) (ck_weight_floor env) 1) \<and>
    sc_prediction_id m \<in> set (ct_processed st')"
proof -
  let ?w = "apply_weight_delta w 1 (sc_is_correct m) (ck_weight_step env) (ck_weight_floor env) 1"
  obtain gs eid where gs: "causes_set_weight (ct_graph st) (f, t, c) ?w = Inr gs"
    and up: "update_edges env m st = (Inr [edge_update eid a b w ?w], st\<lparr>ct_graph := gs\<rparr>)"
    using update_edges_single [OF assms(1-6)] by blast
  let ?st = "st\<lparr>ct_graph := gs\<rparr>"
  let ?us = "edge_update eid a b w ?w # map (source_update env (sc_is_correct m) ?st) (compute_source_credits (sc_source_ids m))"
  have "0 < wu_alpha_after u \<and> 0 < wu_beta_after u" if "u \<in> set ?us" for u
  proof (cases "u = edge_update eid a b w ?w")
    case True
    then show ?thesis using causes_counts_pos [OF assms(4,6)] by (simp add: edge_update_def)
  next
    case False
    then obtain sc where "u = source_update env (sc_is_correct m) ?st sc" using \<open>u \<in> set ?us\<close> by auto
    then show ?thesis using source_update_floored [of env "sc_is_correct m" ?st sc] assms(1)
      by (auto simp: floored_def healthy_def source_update_def Let_def split: prod.splits)
  qed
  then obtain rows where "map_result (history_row_of env (sc_prediction_id m)) ?us = Inr rows"
    using history_rows_ok by blast
  then have "\<exists>st'. commit_updates env (sc_prediction_id m) ?us ?st = (Inr True, st') \<and> ct_graph st' = gs \<and>
      sc_prediction_id m \<in> set (ct_processed st')"
    using assms(1,7) by (simp add: commit_updates_def healthy_def already_processed_def)
  then obtain st' where st': "commit_updates env (sc_prediction_id m) ?us ?st = (Inr True, st')" "ct_graph st' = gs"
    "sc_prediction_id m \<in> set (ct_processed st')" by blast
  have "process env m st = (Inr True, st')"
    using st'(1) up assms(7,8)
    by (simp add: process_def already_processed_def bind_p_def update_sources_def read_p_def)
  moreover have "causes_counts gs (f, t, c) = Some (a, b, ?w)"
    using causes_edges.write_counts [OF gs] assms(6) by auto
  ultimately show ?thesis using st'(2,3) by blast
qed

subsection \<open>Witnesses\<close>

definition sample_cred_env :: cred_env where
  "sample_cred_env =
     \<lparr>ck_registry = sample_registry, ck_status = (\<lambda>_. Some PENDING), ck_read_fails = (\<lambda>_. False),
      ck_write_fails = (\<lambda>_. False), ck_commit_fails = False, ck_libm = flat_libm, ck_prior_floor = 1,
      ck_weight_step = 1 / 64, ck_weight_floor = 0\<rparr>"

definition sample_cred_state :: cred_state where
  "sample_cred_state = \<lparr>ct_graph = sample_graph, ct_processed = [], ct_sources = [], ct_history = []\<rparr>"

definition sample_close :: CloseObservation where
  "sample_close =
     \<lparr>co_session = 739000, co_close = 100, co_provider_bar_time = None, co_fetched_at = 0, co_source = ''yahoo'',
      co_provider_symbol = ''GC=F'', co_price_kind = PROVIDER_DAILY_CLOSE, co_is_adjusted = False,
      co_registry_version = ''1'', co_sample = None, co_fallback_reason = None\<rparr>"

definition sample_scored :: "bool \<Rightarrow> PredictionScored" where
  "sample_scored ok =
     \<lparr>message_id = 0, correlation_id = 0, causation_id = None, occurred_at = 0, sc_prediction_id = 5,
      sc_context_id = 6, sc_asset_id = ''NEM'', sc_predicted_direction = UP, sc_actual_direction = UP,
      sc_predicted_magnitude = SMALL, sc_actual_magnitude = SMALL, sc_confidence = 1 / 2,
      sc_actual_return = 1 / 64, sc_is_correct = ok, sc_score = 1,
      sc_contributing_edges = [\<lparr>ce_edge_id = ''MILITARY_CONFLICT|SAFE_HAVEN_ONLY->NEM'', ce_direction = UP,
        ce_current_weight = 1, ce_influence_weight = 1 / 2, ce_path = ''MILITARY_CONFLICT->NEM''\<rparr>],
      sc_source_ids = [''reuters.com''], sc_baseline = sample_close, sc_settlement = sample_close,
      sc_scored_at = 0, sc_price_policy = DAILY_CLOSE_V1, sc_propagation_chain = []\<rparr>"

lemma sample_cred_ok: "cred_ok 1 sample_cred_state"
  using sample_graph_wf by (simp add: cred_ok_def sample_cred_state_def)

lemma sample_healthy: "healthy sample_cred_env"
  using sample_registry_wf by (simp add: healthy_def sample_cred_env_def)

lemma sample_rests: "rests_on (sample_scored ok) (MILITARY_CONFLICT, AssetNode ''NEM'', Some SAFE_HAVEN_ONLY)"
  by (simp add: rests_on_def sample_scored_def edge_key_text_def)

lemma sample_counts:
  "causes_counts sample_graph (MILITARY_CONFLICT, AssetNode ''NEM'', Some SAFE_HAVEN_ONLY) = Some (1, 1, 1)"
  by (simp add: causes_counts_def sample_graph_def sample_rel_def causes_key_def fetch_first_def)

theorem single_edge_learning_witness:
  "\<exists>st'. process sample_cred_env (sample_scored False) sample_cred_state = (Inr True, st') \<and>
     causes_counts (ct_graph st') (MILITARY_CONFLICT, AssetNode ''NEM'', Some SAFE_HAVEN_ONLY) =
       Some (1, 1, apply_weight_delta 1 1 False (1 / 64) 0 1) \<and> 5 \<in> set (ct_processed st')"
proof -
  have "registered (ck_registry sample_cred_env) (AssetNode ''NEM'')"
    by (simp add: registered_def sample_cred_env_def)
  from single_edge_learning [OF sample_healthy sample_rests this, of sample_cred_state 1 1 1 False] show ?thesis
    using sample_graph_wf sample_counts
    by (simp add: sample_cred_state_def) (simp add: sample_cred_env_def sample_scored_def)
qed

theorem learning_invariant_witness:
  "cred_ok 1 (snd (process sample_cred_env (sample_scored True) sample_cred_state))"
  using learning_invariant [of sample_cred_env sample_cred_state "sample_scored True"] sample_cred_ok
  by (simp add: sample_cred_env_def)

theorem only_addressed_edges_move_witness:
  "causes_counts (ct_graph (snd (process sample_cred_env (sample_scored True) sample_cred_state)))
      (MILITARY_CONFLICT, GroupNode ''METALS'', None) = Some (1, 1, 1)"
proof -
  have "(MILITARY_CONFLICT, GroupNode ''METALS'', None) \<notin> addressed_causes sample_cred_env (sample_scored True)"
    using parse_registered [OF sample_registry_wf, of "AssetNode ''NEM''" MILITARY_CONFLICT "Some SAFE_HAVEN_ONLY"]
    by (auto simp: addressed_causes_def sample_scored_def sample_cred_env_def registered_def edge_key_text_def)
  moreover have "causes_counts sample_graph (MILITARY_CONFLICT, GroupNode ''METALS'', None) = Some (1, 1, 1)"
    by (simp add: causes_counts_def sample_graph_def sample_rel_def causes_key_def fetch_first_def)
  ultimately show ?thesis
    using only_addressed_edges_move [OF surjective_pairing, of sample_cred_env "sample_scored True" sample_cred_state
        "(MILITARY_CONFLICT, GroupNode ''METALS'', None)"]
    by (simp add: sample_cred_state_def)
qed

lemma sample_withdrawn:
  "process (sample_cred_env\<lparr>ck_status := (\<lambda>_. Some WITHDRAWN)\<rparr>) (sample_scored True) sample_cred_state =
     (Inr False, sample_cred_state\<lparr>ct_processed := [5]\<rparr>)"
  by (simp add: process_def sample_cred_state_def sample_scored_def already_processed_def commit_updates_def
      sample_cred_env_def bind_p_def return_p_def)

theorem redelivery_absorbed_witness:
  "process sample_cred_env (sample_scored False) (deliver [] (sample_cred_state\<lparr>ct_processed := [5]\<rparr>)) =
     (Inr False, deliver [] (sample_cred_state\<lparr>ct_processed := [5]\<rparr>))"
  by (rule redelivery_absorbed [OF sample_withdrawn]) (simp add: sample_scored_def)

end
