(* ===== verification/IntradayPolicy.thy ===== *)
theory IntradayPolicy
  imports Schemas Rounding
begin

text \<open>
  The intraday shadow policy (\<^verbatim>\<open>services/verification/verification/intraday_policy.py\<close>).

  Prices are decimals, rounded to 28 digits after
  every operation; durations are microseconds and \<^verbatim>\<open>total_seconds()\<close> is their float.
\<close>

record SessionWindow =
  sw_calendar_id :: string
  sw_opens_at :: instant
  sw_closes_at :: instant

definition resolve_window ::
  "(string \<Rightarrow> exchange_calendar option) \<Rightarrow> instant \<Rightarrow> string \<Rightarrow> string \<Rightarrow> (py_error, SessionWindow) result" where
  "resolve_window calendars decision_at calendar_id timezone =
     (case calendars calendar_id of
        None \<Rightarrow> Inl (ValueError ''unknown exchange calendar'')
      | Some cal \<Rightarrow>
          if xc_tz cal \<noteq> timezone
          then Inl (ValueError ''exchange calendar timezone differs from the listing'')
          else
            let session = xc_date_to_session_next cal (xc_local_date cal decision_at);
                session' = (if decision_at \<ge> xc_session_close cal session then xc_next_session cal session
                            else session)
            in if xc_has_break cal session'
               then Inl (ValueError ''split sessions are not supported by intraday v1'')
               else Inr \<lparr>sw_calendar_id = calendar_id, sw_opens_at = xc_session_open cal session',
                         sw_closes_at = xc_session_close cal session'\<rparr>)"

datatype PolicyVersion = INTRADAY_TARGET_V1 | LAST_KNOWN_V1

record IntradayPolicy =
  ip_version :: PolicyVersion
  ip_target_return :: dec
  ip_neutral_band :: dec
  ip_min_minutes :: int
  ip_max_baseline_delay_seconds :: int

datatype IntradayStatus = I_PENDING | I_SCORED | I_UNSCORABLE | I_WITHDRAWN

record IntradayResult =
  ires_status :: IntradayStatus
  ires_reason :: "string option"
  ires_baseline_at :: "instant option"
  ires_baseline_price :: "dec option"
  ires_baseline_delay_seconds :: "flt option"
  ires_target_reached :: "bool option"
  ires_first_hit_bar_at :: "instant option"
  ires_closing_return :: "dec option"
  ires_closing_correct :: "bool option"
  ires_max_up_return :: "dec option"
  ires_max_down_return :: "dec option"
  ires_expected_bars :: int
  ires_observed_bars :: int
  ires_complete :: bool
  ires_price_basis :: IntradayPricePolicy
  ires_represented_minutes :: int
  ires_expected_samples :: int
  ires_observed_samples :: int
  ires_first_hit_observed_at :: "instant option"
  ires_fallback_reason :: "string option"

definition empty_result :: "IntradayStatus \<Rightarrow> string option \<Rightarrow> IntradayResult" where
  "empty_result status reason =
     \<lparr>ires_status = status, ires_reason = reason, ires_baseline_at = None, ires_baseline_price = None,
      ires_baseline_delay_seconds = None, ires_target_reached = None, ires_first_hit_bar_at = None,
      ires_closing_return = None, ires_closing_correct = None, ires_max_up_return = None,
      ires_max_down_return = None, ires_expected_bars = 0, ires_observed_bars = 0, ires_complete = False,
      ires_price_basis = PROVIDER_MINUTE_V1, ires_represented_minutes = 0, ires_expected_samples = 0,
      ires_observed_samples = 0, ires_first_hit_observed_at = None, ires_fallback_reason = None\<rparr>"

subsection \<open>What both bases share\<close>

definition py_int :: "rat \<Rightarrow> int" where
  \<comment> \<open>\<^verbatim>\<open>int(x)\<close> truncates\<close>
  "py_int x = (if 0 \<le> x then \<lfloor>x\<rfloor> else \<lceil>x\<rceil>)"

definition change :: "dec \<Rightarrow> dec \<Rightarrow> dec" where
  \<comment> \<open>\<^verbatim>\<open>x / price - 1\<close>\<close>
  "change price x = dec28 (dec28 (x / price) - 1)"

definition reaches :: "Direction \<Rightarrow> dec \<Rightarrow> dec \<Rightarrow> dec \<Rightarrow> dec \<Rightarrow> bool" where
  "reaches direction price target high low \<longleftrightarrow>
     (direction = UP \<and> high \<ge> dec28 (price * dec28 (1 + target))) \<or>
     (direction = DOWN \<and> low \<le> dec28 (price * dec28 (1 - target)))"

definition max_of :: "rat list \<Rightarrow> rat" where
  "max_of xs = (case xs of [] \<Rightarrow> 0 | y # ys \<Rightarrow> foldl max y ys)"

definition min_of :: "rat list \<Rightarrow> rat" where
  "min_of xs = (case xs of [] \<Rightarrow> 0 | y # ys \<Rightarrow> foldl min y ys)"

definition reached_of :: "Direction \<Rightarrow> dec \<Rightarrow> dec \<Rightarrow> dec \<Rightarrow> bool \<Rightarrow> bool \<Rightarrow> bool option" where
  "reached_of direction band up down hit settled =
     (if direction = NEUTRAL
      then (if up > band \<or> down < - band then Some False else if settled then Some True else None)
      else if hit then Some True else if settled then Some False else None)"

definition closing_direction :: "dec \<Rightarrow> dec \<Rightarrow> Direction" where
  "closing_direction band closing = (if closing > band then UP else if closing < - band then DOWN else NEUTRAL)"

definition final_status :: "bool \<Rightarrow> bool \<Rightarrow> IntradayStatus" where
  "final_status final full = (if final then (if full then I_SCORED else I_UNSCORABLE) else I_PENDING)"

definition or_text :: "string option \<Rightarrow> string \<Rightarrow> string" where
  \<comment> \<open>\<^verbatim>\<open>failure or text\<close>: an empty failure counts as none\<close>
  "or_text failure alt = (case failure of None \<Rightarrow> alt | Some f \<Rightarrow> if f = [] then alt else f)"

definition failed :: "string option \<Rightarrow> bool" where
  "failed failure = (case failure of None \<Rightarrow> False | Some f \<Rightarrow> f \<noteq> [])"

subsection \<open>Point samples\<close>

fun collect_samples ::
  "instant \<Rightarrow> instant \<Rightarrow> IntradayBar list \<Rightarrow> (uuid, IntradayBar) dict \<Rightarrow> (uuid, IntradayBar) dict option" where
  \<comment> \<open>\<open>None\<close> is the return with \<^verbatim>\<open>CONFLICTING_SAMPLE\<close>\<close>
  "collect_samples start closes [] unique = Some unique"
| "collect_samples start closes (bar # bars) unique =
     (case ib_sample bar of
        None \<Rightarrow> collect_samples start closes bars unique
      | Some s \<Rightarrow>
          if start \<le> sp_observed_at s \<and> sp_observed_at s < closes
          then (case dict_get unique (sp_sample_id s) of
                  None \<Rightarrow> collect_samples start closes bars (dict_set unique (sp_sample_id s) bar)
                | Some prior \<Rightarrow>
                    if ib_close prior \<noteq> ib_close bar \<or> ib_sample prior \<noteq> Some s then None
                    else collect_samples start closes bars (dict_set unique (sp_sample_id s) bar))
          else collect_samples start closes bars unique)"

definition observed_at :: "IntradayBar \<Rightarrow> instant" where
  "observed_at b = (case ib_sample b of Some s \<Rightarrow> sp_observed_at s | None \<Rightarrow> ib_start b)"

definition evaluate_last_known ::
  "instant \<Rightarrow> SessionWindow \<Rightarrow> Direction \<Rightarrow> IntradayPolicy \<Rightarrow> IntradayBar list \<Rightarrow> bool \<Rightarrow> IntradayResult option \<Rightarrow>
   string option \<Rightarrow> IntradayResult" where
  "evaluate_last_known decision_at window direction policy bars final previous failure =
     (let start = max decision_at (sw_opens_at window); closes = sw_closes_at window
      in case collect_samples start closes bars [] of
           None \<Rightarrow> empty_result I_UNSCORABLE (Some ''CONFLICTING_SAMPLE'')
         | Some unique \<Rightarrow>
             let observations = sort_key observed_at (map snd unique);
                 common = (\<lambda>r. r\<lparr>ires_price_basis := LAST_KNOWN_PRICE_V1, ires_represented_minutes := int (length bars),
                   ires_observed_samples := int (length observations), ires_observed_bars := int (length observations)\<rparr>);
                 provenance = concat (map (\<lambda>b. case ib_sample b of None \<Rightarrow> [] | Some s \<Rightarrow> [s]) observations)
             in if observations = []
                then common (empty_result (if final then I_UNSCORABLE else I_PENDING)
                       (if final then Some (or_text failure ''NO_BASELINE'') else None))
                else
                  let first = hd observations; last' = last observations; sample = hd provenance;
                      baseline_at = sp_observed_at sample;
                      delay = total_seconds (baseline_at - start);
                      interval = sp_interval_seconds sample
                  in if delay > of_int (interval + 120)
                     then common (empty_result I_UNSCORABLE (Some ''BASELINE_TOO_LATE''))
                     else if total_seconds (closes - baseline_at) < of_int (ip_min_minutes policy * 60)
                     then common (empty_result I_UNSCORABLE (Some ''INSUFFICIENT_WINDOW''))
                     else if (case previous of
                                None \<Rightarrow> False
                              | Some p \<Rightarrow> ires_price_basis p = LAST_KNOWN_PRICE_V1 \<and> ires_baseline_at p \<noteq> None \<and>
                                  (ires_baseline_at p \<noteq> Some baseline_at \<or> ires_baseline_price p \<noteq> Some (ib_close first)))
                     then common (empty_result I_UNSCORABLE (Some ''BASELINE_REVISED''))
                     else
                       let identities = remdups (map (\<lambda>s. (sp_mapping_version s, sp_currency s, sp_interval_seconds s)) provenance);
                           stamps = remdups (map sp_scheduled_at provenance)
                       in if length identities \<noteq> 1 \<or> length stamps \<noteq> length observations
                          then common (empty_result I_UNSCORABLE (Some ''MIXED_SAMPLE_IDENTITY''))
                          else
                            let expected = slot_times (sp_scheduled_at sample) closes (seconds interval);
                                full = (set stamps = set expected \<and> \<not> failed failure);
                                price = ib_close first;
                                up = max_of (map (\<lambda>b. change price (ib_close b)) observations);
                                down = min_of (map (\<lambda>b. change price (ib_close b)) observations);
                                hit = List.find (\<lambda>b. reaches direction price (ip_target_return policy) (ib_close b) (ib_close b))
                                        observations;
                                reached = reached_of direction (ip_neutral_band policy) up down (hit \<noteq> None) (final \<and> full);
                                closing = (if final \<and> full then Some (change price (ib_close last')) else None)
                            in common ((empty_result (final_status final full)
                                   (if final \<and> \<not> full then Some (or_text failure ''MISSING_SAMPLES'') else None))
                                 \<lparr>ires_baseline_at := Some baseline_at, ires_baseline_price := Some price,
                                  ires_baseline_delay_seconds := Some delay, ires_target_reached := reached,
                                  ires_first_hit_bar_at := map_option (floor_minute \<circ> observed_at) hit,
                                  ires_first_hit_observed_at := map_option observed_at hit,
                                  ires_closing_return := closing,
                                  ires_closing_correct := map_option
                                    (\<lambda>c. closing_direction (ip_neutral_band policy) c = direction) closing,
                                  ires_max_up_return := Some up, ires_max_down_return := Some down,
                                  ires_expected_bars := int (length expected),
                                  ires_expected_samples := int (length expected), ires_complete := full\<rparr>))"

subsection \<open>Provider minutes\<close>

definition first_minute_of :: "instant \<Rightarrow> instant" where
  "first_minute_of start = (let m = floor_minute start in if m < start then m + MINUTE else m)"

definition eligible_bars :: "instant \<Rightarrow> instant \<Rightarrow> IntradayBar list \<Rightarrow> IntradayBar list" where
  "eligible_bars first_minute closes bars =
     sort_key ib_start (filter (\<lambda>b. first_minute \<le> ib_start b \<and> ib_start b + MINUTE \<le> closes) bars)"

definition minute_result ::
  "Direction \<Rightarrow> IntradayPolicy \<Rightarrow> instant \<Rightarrow> int \<Rightarrow> IntradayBar list \<Rightarrow> flt \<Rightarrow> bool \<Rightarrow> string option \<Rightarrow> IntradayResult" where
  \<comment> \<open>the tail of \<^verbatim>\<open>evaluate\<close> from \<^verbatim>\<open>price = baseline.open\<close>\<close>
  "minute_result direction policy first_minute expected eligible delay final failure =
     (let baseline = hd eligible; price = ib_open baseline;
          up = max_of (map (\<lambda>b. change price (ib_high b)) eligible);
          down = min_of (map (\<lambda>b. change price (ib_low b)) eligible);
          hit = List.find (\<lambda>b. reaches direction price (ip_target_return policy) (ib_high b) (ib_low b)) eligible;
          stamps = remdups (map ib_start eligible);
          expected_stamps = map (\<lambda>i. first_minute + int i * MINUTE) [0..<nat expected];
          full = (set stamps = set expected_stamps \<and> \<not> failed failure);
          reached = reached_of direction (ip_neutral_band policy) up down (hit \<noteq> None) (final \<and> full);
          closing = (if final \<and> full then Some (change price (ib_close (last eligible))) else None)
      in (empty_result (final_status final full)
            (if final \<and> \<not> full then Some (or_text failure ''MISSING_BARS'') else None))
           \<lparr>ires_baseline_at := Some (ib_start baseline), ires_baseline_price := Some price,
            ires_baseline_delay_seconds := Some delay, ires_target_reached := reached,
            ires_first_hit_bar_at := map_option ib_start hit, ires_closing_return := closing,
            ires_closing_correct := map_option (\<lambda>c. closing_direction (ip_neutral_band policy) c = direction) closing,
            ires_max_up_return := Some up, ires_max_down_return := Some down,
            ires_expected_bars := expected, ires_observed_bars := int (length stamps), ires_complete := full\<rparr>)"

definition evaluate ::
  "instant \<Rightarrow> SessionWindow \<Rightarrow> Direction \<Rightarrow> IntradayPolicy \<Rightarrow> IntradayBar list \<Rightarrow> bool \<Rightarrow> IntradayResult option \<Rightarrow>
   string option \<Rightarrow> IntradayResult" where
  "evaluate decision_at window direction policy bars final previous failure =
     (if list_ex (\<lambda>b. ib_sample b \<noteq> None) bars then
        (if ip_version policy \<noteq> LAST_KNOWN_V1 \<or> list_ex (\<lambda>b. ib_sample b = None) bars
         then empty_result I_UNSCORABLE (Some ''UNEXPECTED_PRICE_BASIS'')
         else evaluate_last_known decision_at window direction policy bars final previous failure)
      else
        let start = max decision_at (sw_opens_at window);
            first_minute = first_minute_of start;
            expected = py_int (fl64 (of_int (sw_closes_at window - first_minute) / of_int MINUTE))
        in if expected < ip_min_minutes policy then empty_result I_UNSCORABLE (Some ''INSUFFICIENT_WINDOW'')
           else
             let eligible = eligible_bars first_minute (sw_closes_at window) bars
             in if eligible = [] then
                  (empty_result (if final then I_UNSCORABLE else I_PENDING)
                     (if final then Some (or_text failure ''NO_BASELINE'') else None))\<lparr>ires_expected_bars := expected\<rparr>
                else
                  let baseline = hd eligible; delay = total_seconds (ib_start baseline - start)
                  in if delay > of_int (ip_max_baseline_delay_seconds policy)
                     then empty_result (if final then I_UNSCORABLE else I_PENDING) (Some ''BASELINE_TOO_LATE'')
                     else case previous of
                       Some p \<Rightarrow>
                         if ires_baseline_at p \<noteq> None \<and>
                            (ires_baseline_at p \<noteq> Some (ib_start baseline) \<or>
                             ires_baseline_price p \<noteq> Some (ib_open baseline))
                         then (empty_result I_UNSCORABLE (Some ''BASELINE_REVISED''))
                                \<lparr>ires_baseline_at := ires_baseline_at p, ires_baseline_price := ires_baseline_price p,
                                 ires_baseline_delay_seconds := ires_baseline_delay_seconds p\<rparr>
                         else minute_result direction policy first_minute expected eligible delay final failure
                     | None \<Rightarrow> minute_result direction policy first_minute expected eligible delay final failure)"

subsection \<open>A scored session\<close>

lemma sort_key_unique:
  assumes "set xs = set ys" "distinct (map k xs)" "distinct (map k ys)"
  shows "sort_key k xs = sort_key k ys"
proof -
  have "distinct (map k (sort_key k zs)) = distinct (map k zs)" for zs by (simp add: distinct_map)
  then have "map k (sort_key k xs) = map k (sort_key k ys)"
    using assms by (intro sorted_distinct_set_unique) simp_all
  moreover have "inj_on k (set (sort_key k xs) \<union> set (sort_key k ys))"
    using assms by (simp add: distinct_map)
  ultimately show ?thesis by (rule map_inj_on)
qed

lemma first_minute_of_bounds:
  "start \<le> first_minute_of start" "first_minute_of start < start + MINUTE" "first_minute_of start mod MINUTE = 0"
proof -
  have *: "floor_minute start mod MINUTE = 0" by (simp add: floor_minute_def MINUTE_def duration_defs mod_diff_eq)
  then have "(floor_minute start + MINUTE) mod MINUTE = 0" by simp
  with * show "first_minute_of start mod MINUTE = 0" by (simp add: first_minute_of_def Let_def)
  show "start \<le> first_minute_of start" "first_minute_of start < start + MINUTE"
    using floor_minute_le [of start] by (auto simp: first_minute_of_def Let_def MINUTE_def duration_defs)
qed

lemma aligned_ge_first_minute: "t mod MINUTE = 0 \<Longrightarrow> first_minute_of start \<le> t \<longleftrightarrow> start \<le> t"
proof
  assume t: "t mod MINUTE = 0" and le: "start \<le> t"
  obtain i j where ij: "t = MINUTE * i" "first_minute_of start = MINUTE * j"
    using t first_minute_of_bounds(3) by (metis mult_div_mod_eq add.right_neutral)
  then have "MINUTE * (j - 1) < MINUTE * i" using first_minute_of_bounds(2) [of start] le by (simp add: algebra_simps)
  then show "first_minute_of start \<le> t" using ij by (simp add: MINUTE_def duration_defs)
next
  show "first_minute_of start \<le> t \<Longrightarrow> start \<le> t" using first_minute_of_bounds(1) [of start] by simp
qed

lemma expected_minutes:
  assumes "closes mod MINUTE = 0" "start mod MINUTE = 0" "closes - start \<le> days 1"
    and "1 \<le> py_int (fl64 (of_int (closes - start) / of_int MINUTE))"
  shows "closes = start + MINUTE * py_int (fl64 (of_int (closes - start) / of_int MINUTE))"
proof -
  obtain n where n: "closes - start = MINUTE * n"
    using mod_diff_cong [of closes MINUTE 0 start 0] assms(1,2) by auto
  then have q: "of_int (closes - start) / of_int MINUTE = (of_int n :: rat)"
    by (simp add: MINUTE_def duration_defs)
  have "0 \<le> n"
  proof (rule ccontr)
    assume "\<not> 0 \<le> n"
    then have "fl64 (of_int n) \<le> fl64 0" by (intro b64.rnd_mono) simp
    then show False using assms(4) unfolding q by (simp add: py_int_def split: if_splits)
  qed
  moreover have "n \<le> 1440" using n assms(3) by (simp add: MINUTE_def duration_defs)
  ultimately have "fl64 (of_int n) = of_int n" using b64.rnd_int [of n] by simp
  then show ?thesis using n \<open>0 \<le> n\<close> unfolding q by (simp add: py_int_def)
qed

lemma empty_result_fields [simp]:
  "ires_status (empty_result st r) = st" "ires_fallback_reason (empty_result st r) = None"
  by (simp_all add: empty_result_def)

lemma final_status_scored [simp]: "final_status final full = I_SCORED \<longleftrightarrow> final \<and> full"
  by (simp add: final_status_def)

lemma minute_result_status [simp]:
  "ires_status (minute_result dir pol fm n bars delay final failure) = I_SCORED \<longleftrightarrow>
     final \<and> \<not> failed failure \<and> ib_start ` set bars = (\<lambda>i. fm + int i * MINUTE) ` {0..<nat n}"
  by (auto simp: minute_result_def Let_def)

lemma evaluate_scored_minutes:
  assumes "list_all (\<lambda>b. ib_sample b = None) bars"
    and "ires_status (evaluate decision_at window dir pol bars final prev failure) = I_SCORED"
  defines "fm \<equiv> first_minute_of (max decision_at (sw_opens_at window))"
  defines "n \<equiv> py_int (fl64 (of_int (sw_closes_at window - fm) / of_int MINUTE))"
  defines "eligible \<equiv> eligible_bars fm (sw_closes_at window) bars"
  shows "\<exists>delay. evaluate decision_at window dir pol bars final prev failure =
           minute_result dir pol fm n eligible delay final failure \<and> ip_min_minutes pol \<le> n \<and> eligible \<noteq> []"
proof -
  have "\<not> list_ex (\<lambda>b. ib_sample b \<noteq> None) bars" using assms(1) by (auto simp: list_all_iff list_ex_iff)
  then show ?thesis
    using assms(2) by (auto simp: evaluate_def Let_def fm_def [symmetric] n_def [symmetric] eligible_def [symmetric] not_less
        simp del: of_int_diff split: if_splits option.splits)
qed

lemma sorted_distinct_ends:
  fixes k :: "'a \<Rightarrow> int"
  assumes "sorted (map k xs)" "distinct (map k xs)" "xs \<noteq> []" and "k ` set xs = (\<lambda>i. a + int i * m) ` {0..<Suc n}" "0 < m"
  shows "k (hd xs) = a" "k (last xs) = a + int n * m"
proof -
  have map: "map k xs = map (\<lambda>i. a + int i * m) [0..<Suc n]"
  proof (rule sorted_distinct_set_unique)
    show "sorted (map (\<lambda>i. a + int i * m) [0..<Suc n])"
      using assms(5) by (auto simp: sorted_map sorted_wrt_iff_nth_less simp del: upt_Suc intro!: mult_right_mono)
    show "distinct (map (\<lambda>i. a + int i * m) [0..<Suc n])" using assms(5) by (auto simp: distinct_map inj_on_def simp del: upt_Suc)
    show "set (map k xs) = set (map (\<lambda>i. a + int i * m) [0..<Suc n])" using assms(4) by (simp del: upt_Suc)
  qed (use assms in auto)
  have "k (hd xs) = hd (map k xs)" "k (last xs) = last (map k xs)" using assms(3) by (simp_all add: hd_map last_map)
  then show "k (hd xs) = a" "k (last xs) = a + int n * m" unfolding map by (simp_all add: hd_map last_map del: upt_Suc)
qed

lemma minute_grid_mem:
  assumes "t mod MINUTE = 0" "start \<le> t" "t + MINUTE \<le> first_minute_of start + MINUTE * n"
  shows "t \<in> (\<lambda>i. first_minute_of start + int i * MINUTE) ` {0..<nat n}"
proof -
  have "(t - first_minute_of start) mod MINUTE = 0"
    using mod_diff_cong [of t MINUTE 0 "first_minute_of start" 0] assms(1) first_minute_of_bounds(3) [of start] by simp
  then obtain i where i: "t = first_minute_of start + MINUTE * i" by (metis add.commute diff_add_cancel mod_0_imp_dvd dvd_def)
  moreover have "0 \<le> i" using aligned_ge_first_minute [OF assms(1), of start] assms(2) i
    by (simp add: MINUTE_def duration_defs)
  moreover have "i < n" using assms(3) i by (simp add: MINUTE_def duration_defs)
  ultimately show ?thesis by (auto intro!: image_eqI [of _ _ "nat i"])
qed

lemma minute_grid_aligned:
  "t \<in> (\<lambda>i. first_minute_of start + int i * MINUTE) ` {0..<nat n} \<Longrightarrow> t mod MINUTE = 0"
  using first_minute_of_bounds(3) [of start] by auto

lemma eligible_bars_mem:
  "b \<in> set (eligible_bars fm closes bars) \<longleftrightarrow> b \<in> set bars \<and> fm \<le> ib_start b \<and> ib_start b + MINUTE \<le> closes"
  by (auto simp: eligible_bars_def)

text \<open>
  A scored intraday session is a complete one.  When the provider-minute policy reports SCORED for a
  session of at most a day that closes on a minute, the observation was final and without failure and
  every whole minute between the decision (or the open, if later) and the close has a bar; the baseline
  price is the open of the first such minute, the closing return the rounded change to the close of the
  last one, and a directional target counts as reached exactly when some bar of those minutes reaches it.
\<close>

theorem intraday_scored_session:
  assumes "list_all (\<lambda>b. ib_sample b = None) bars" and "distinct (map ib_start bars)"
    and "ires_status (evaluate decision_at window dir pol bars final prev failure) = I_SCORED"
    and "1 \<le> ip_min_minutes pol" and "sw_closes_at window mod MINUTE = 0"
    and "sw_closes_at window \<le> max decision_at (sw_opens_at window) + days 1"
  shows "final \<and> \<not> failed failure \<and>
    (\<forall>t. t mod MINUTE = 0 \<and> max decision_at (sw_opens_at window) \<le> t \<and> t + MINUTE \<le> sw_closes_at window \<longrightarrow>
       (\<exists>b \<in> set bars. ib_start b = t)) \<and>
    (\<exists>b b'. b \<in> set bars \<and> b' \<in> set bars \<and>
       ib_start b = first_minute_of (max decision_at (sw_opens_at window)) \<and> ib_start b' + MINUTE = sw_closes_at window \<and>
       ires_baseline_price (evaluate decision_at window dir pol bars final prev failure) = Some (ib_open b) \<and>
       ires_closing_return (evaluate decision_at window dir pol bars final prev failure) =
         Some (change (ib_open b) (ib_close b')) \<and>
       (dir \<noteq> NEUTRAL \<longrightarrow>
          ires_target_reached (evaluate decision_at window dir pol bars final prev failure) =
            Some (\<exists>x \<in> set bars. max decision_at (sw_opens_at window) \<le> ib_start x \<and> ib_start x + MINUTE \<le> sw_closes_at window \<and>
                    ib_start x mod MINUTE = 0 \<and> reaches dir (ib_open b) (ip_target_return pol) (ib_high x) (ib_low x))))"
proof -
  define start fm where "start = max decision_at (sw_opens_at window)" and "fm = first_minute_of start"
  define n where "n = py_int (fl64 (of_int (sw_closes_at window - fm) / of_int MINUTE))"
  define eligible where "eligible = eligible_bars fm (sw_closes_at window) bars"
  obtain delay where r: "evaluate decision_at window dir pol bars final prev failure =
      minute_result dir pol fm n eligible delay final failure" and n1: "ip_min_minutes pol \<le> n" and ne: "eligible \<noteq> []"
    using evaluate_scored_minutes [OF assms(1,3)] by (auto simp: start_def fm_def n_def eligible_def)
  have scored: "final" "\<not> failed failure" and starts: "ib_start ` set eligible = (\<lambda>i. fm + int i * MINUTE) ` {0..<nat n}"
    using assms(3) unfolding r by auto
  have closes: "sw_closes_at window = fm + MINUTE * n"
    unfolding n_def
    by (rule expected_minutes) (use assms(4-6) n1 first_minute_of_bounds [of start] in \<open>auto simp: n_def fm_def start_def\<close>)
  define k where "k = nat (n - 1)"
  have k: "nat n = Suc k" using n1 assms(4) by (simp add: k_def)
  have el: "distinct (map ib_start eligible)" "sorted (map ib_start eligible)"
    using assms(2) by (auto simp: eligible_def eligible_bars_def distinct_map inj_on_def)
  have ends: "ib_start (hd eligible) = fm" "ib_start (last eligible) + MINUTE = sw_closes_at window"
    using sorted_distinct_ends [OF el(2,1) ne, of fm MINUTE k] starts k closes
    by (simp_all add: MINUTE_def duration_defs)
  have mem: "hd eligible \<in> set bars" "last eligible \<in> set bars"
    using hd_in_set [OF ne] last_in_set [OF ne] by (auto simp: eligible_def eligible_bars_mem)
  have cover: "\<exists>b \<in> set bars. ib_start b = t"
    if t: "t mod MINUTE = 0" "start \<le> t" "t + MINUTE \<le> sw_closes_at window" for t
  proof -
    have "t \<in> ib_start ` set eligible" unfolding starts using minute_grid_mem [of t start n] t closes by (simp add: fm_def)
    then show ?thesis by (auto simp: eligible_def eligible_bars_mem)
  qed
  have grid: "ib_start x mod MINUTE = 0" if "x \<in> set eligible" for x
    using minute_grid_aligned [of "ib_start x" start n] imageI [OF that, of ib_start] unfolding starts fm_def .
  have aligned: "x \<in> set eligible \<longleftrightarrow> x \<in> set bars \<and> start \<le> ib_start x \<and> ib_start x + MINUTE \<le> sw_closes_at window \<and>
      ib_start x mod MINUTE = 0" for x
    using grid [of x] aligned_ge_first_minute [of "ib_start x" start]
    by (auto simp: eligible_def eligible_bars_mem fm_def)
  have reached: "ires_target_reached (minute_result dir pol fm n eligible delay final failure) =
      Some (\<exists>x \<in> set eligible. reaches dir (ib_open (hd eligible)) (ip_target_return pol) (ib_high x) (ib_low x))"
    if "dir \<noteq> NEUTRAL"
    using that scored starts by (auto simp: minute_result_def Let_def reached_of_def find_None_iff
        dest: fetch_first_Some [unfolded fetch_first_def])
  have fields: "ires_baseline_price (minute_result dir pol fm n eligible delay final failure) = Some (ib_open (hd eligible))"
    "ires_closing_return (minute_result dir pol fm n eligible delay final failure) =
       Some (change (ib_open (hd eligible)) (ib_close (last eligible)))"
    using scored starts by (auto simp: minute_result_def Let_def)
  have bex: "(\<exists>x \<in> set eligible. p x) \<longleftrightarrow> (\<exists>x \<in> set bars. start \<le> ib_start x \<and> ib_start x + MINUTE \<le> sw_closes_at window \<and>
      ib_start x mod MINUTE = 0 \<and> p x)" for p
    by (simp only: Bex_def aligned conj_assoc)
  show ?thesis
    unfolding r start_def [symmetric] fm_def [symmetric]
    by (intro conjI allI impI exI [of _ "hd eligible"] exI [of _ "last eligible"])
      (use scored cover mem ends reached fields bex in simp_all)
qed

definition sample_bar :: "instant \<Rightarrow> IntradayBar" where
  "sample_bar t = \<lparr>ib_start = t, ib_open = 100, ib_high = 102, ib_low = 99, ib_close = 101, ib_sample = None,
     ib_carried_forward = False\<rparr>"

definition sample_policy :: IntradayPolicy where
  "sample_policy = \<lparr>ip_version = INTRADAY_TARGET_V1, ip_target_return = 1 / 100, ip_neutral_band = 1 / 100,
     ip_min_minutes = 2, ip_max_baseline_delay_seconds = 60\<rparr>"

definition sample_window :: SessionWindow where
  "sample_window = \<lparr>sw_calendar_id = ''XNYS'', sw_opens_at = 0, sw_closes_at = 120000000\<rparr>"

lemma sample_session_scored:
  "ires_status (evaluate 0 sample_window UP sample_policy [sample_bar 60000000, sample_bar 0] True None None) = I_SCORED"
proof -
  have "first_minute_of 0 = 0" by (simp add: first_minute_of_def floor_minute_def)
  moreover have "py_int (fl64 (of_int (120000000 - 0) / of_int MINUTE)) = 2"
    using b64.rnd_int [of 2] by (simp add: MINUTE_def duration_defs py_int_def)
  moreover have "eligible_bars 0 120000000 [sample_bar 60000000, sample_bar 0] = [sample_bar 0, sample_bar 60000000]"
    by (simp add: eligible_bars_def sample_bar_def MINUTE_def duration_defs)
  moreover have "{0..<nat 2} = {0, Suc 0}" by auto
  ultimately show ?thesis
    by (simp add: evaluate_def sample_window_def sample_policy_def Let_def total_seconds_def failed_def)
      (auto simp: sample_bar_def MINUTE_def duration_defs)
qed

theorem intraday_scored_session_witness:
  "ires_target_reached (evaluate 0 sample_window UP sample_policy [sample_bar 60000000, sample_bar 0] True None None) = Some True"
  using intraday_scored_session [OF _ _ sample_session_scored]
  by (auto simp: sample_policy_def sample_window_def sample_bar_def MINUTE_def duration_defs reaches_def flt_eval)

end
