(* ===== verification/Intraday.thy ===== *)
theory Intraday
  imports IntradayPolicy Registry Outbox
begin

text \<open>
  The intraday shadow evaluations of the Verification service
  (\<^verbatim>\<open>services/verification/verification/intraday.py\<close>): registration of a prediction, the durable
  observation batches and the scoring pass.  They publish price requests only, never a score.

  The environment carries the settings (target and band already read by \<^verbatim>\<open>Decimal(str(x))\<close>), the
  exchange calendars, \<^verbatim>\<open>uuid5\<close>, \<^verbatim>\<open>isoformat\<close> and the policy hash as functions.  The JSON columns hold the
  dumped values.  One instant stands for every clock read of a call.
\<close>

subsection \<open>Tombstones\<close>

text \<open>
  Both shadow services remember a superseded prediction in a withdrawals table, keyed by the superseded
  prediction, holding the earliest decision that superseded it.
\<close>

definition put_tombstone :: "uuid \<Rightarrow> instant \<Rightarrow> (uuid, instant) dict \<Rightarrow> (uuid, instant) dict" where
  \<comment> \<open>\<^verbatim>\<open>ON CONFLICT(prediction_id) DO UPDATE SET superseded_at = LEAST(...)\<close>\<close>
  "put_tombstone pid t ts =
     dict_set ts pid (case dict_get ts pid of None \<Rightarrow> t | Some t' \<Rightarrow> min t' t)"

definition superseded_before :: "(uuid, instant) dict \<Rightarrow> uuid \<Rightarrow> instant option \<Rightarrow> bool" where
  \<comment> \<open>\<^verbatim>\<open>superseded is not None and superseded <= window.opens_at\<close>\<close>
  "superseded_before ts pid opens =
     (case (dict_get ts pid, opens) of (Some t, Some o') \<Rightarrow> t \<le> o' | _ \<Rightarrow> False)"

locale tombstoned =
  fixes key :: "'r \<Rightarrow> uuid" and opens :: "'r \<Rightarrow> instant option" and retired :: "'r \<Rightarrow> bool"
    and withdraw_row :: "'r \<Rightarrow> 'r"
  assumes withdraw_key: "key (withdraw_row r) = key r"
    and withdraw_opens: "opens (withdraw_row r) = opens r"
    and withdraw_retired: "retired (withdraw_row r)"
begin

definition honoured :: "(uuid, instant) dict \<Rightarrow> 'r list \<Rightarrow> bool" where
  "honoured ts rows \<longleftrightarrow> (\<forall>r \<in> set rows. superseded_before ts (key r) (opens r) \<longrightarrow> retired r)"

lemma honoured_supersede:
  assumes "honoured ts rows"
  shows "honoured (put_tombstone pid t ts)
    (update_where (\<lambda>r. key r = pid \<and> (case opens r of None \<Rightarrow> False | Some o' \<Rightarrow> t \<le> o')) withdraw_row rows)"
  unfolding honoured_def
proof (intro ballI impI)
  fix r'
  assume mem: "r' \<in> set (update_where (\<lambda>r. key r = pid \<and> (case opens r of None \<Rightarrow> False | Some o' \<Rightarrow> t \<le> o')) withdraw_row rows)"
    and sup: "superseded_before (put_tombstone pid t ts) (key r') (opens r')"
  from mem obtain r where r: "r \<in> set rows" and
    r': "r' = (if key r = pid \<and> (case opens r of None \<Rightarrow> False | Some o' \<Rightarrow> t \<le> o') then withdraw_row r else r)"
    by (auto simp: set_update_where)
  show "retired r'"
  proof (cases "key r = pid \<and> (case opens r of None \<Rightarrow> False | Some o' \<Rightarrow> t \<le> o')")
    case True
    then show ?thesis using r' by (simp add: withdraw_retired)
  next
    case False
    then have "r' = r" by (simp only: r' if_False)
    then have "superseded_before ts (key r) (opens r)"
      using sup False by (auto simp: superseded_before_def put_tombstone_def split: option.splits if_splits)
    then show ?thesis using assms r \<open>r' = r\<close> by (simp add: honoured_def)
  qed
qed

lemma honoured_append:
  assumes "honoured ts rows" "opens r \<noteq> None \<Longrightarrow> retired r"
  shows "honoured ts (rows @ [r])"
  using assms by (auto simp: honoured_def superseded_before_def split: option.splits)

lemma honoured_update:
  assumes "honoured ts rows" and "\<And>r. key (f r) = key r" "\<And>r. opens (f r) = opens r"
    and "\<And>r. r \<in> set rows \<Longrightarrow> p r \<Longrightarrow> superseded_before ts (key r) (opens r) \<Longrightarrow> retired (f r)"
  shows "honoured ts (update_where p f rows)"
  using assms by (auto simp: honoured_def set_update_where)

end

subsection \<open>Tables\<close>

record intraday_evaluation =
  ie_prediction_id :: uuid
  ie_prediction :: PredictionMade
  ie_received_at :: instant
  ie_stream_id :: "uuid option"
  ie_session_window :: "SessionWindow option"
  ie_policy :: IntradayPolicy
  ie_policy_hash :: string
  ie_registry_version :: string
  ie_status :: IntradayStatus
  ie_result :: "IntradayResult option"
  ie_updated_at :: instant

record intraday_db =
  id_streams :: "IntradayRequested list"
  id_batches :: "IntradayObserved list"
  id_withdrawals :: "(uuid, instant) dict"
  id_evaluations :: "intraday_evaluation list"
  id_outbox :: "(string \<times> verification_message) outbox_row list"
  id_next_uuid :: uuid

record intraday_env =
  iv_registry :: Registry
  iv_exchange :: "string \<Rightarrow> exchange_calendar option"
  iv_shadow :: bool
  iv_calendars :: "(string, string) dict"
  iv_price_policy :: IntradayPricePolicy
  iv_target_return :: dec
  iv_neutral_band :: dec
  iv_min_minutes :: int
  iv_max_baseline_delay_seconds :: int
  iv_uuid5 :: "string \<Rightarrow> uuid"
  iv_isoformat :: "instant \<Rightarrow> string"
  iv_policy_hash :: "IntradayPolicy \<Rightarrow> string"

datatype intraday_error = IRegistryError registry_error | IPyError py_error

subsection \<open>Registration\<close>

definition policy_of :: "intraday_env \<Rightarrow> IntradayPolicy" where
  "policy_of env =
     \<lparr>ip_version = (if iv_price_policy env = LAST_KNOWN_PRICE_V1 then LAST_KNOWN_V1 else INTRADAY_TARGET_V1),
      ip_target_return = iv_target_return env, ip_neutral_band = iv_neutral_band env,
      ip_min_minutes = iv_min_minutes env,
      ip_max_baseline_delay_seconds = iv_max_baseline_delay_seconds env\<rparr>"

fun version_text :: "PolicyVersion \<Rightarrow> string" where
  "version_text INTRADAY_TARGET_V1 = ''INTRADAY_TARGET_V1''"
| "version_text LAST_KNOWN_V1 = ''LAST_KNOWN_PRICE_V1''"

definition stream_identity ::
  "intraday_env \<Rightarrow> PredictionMade \<Rightarrow> AssetReferenceSeries \<Rightarrow> string \<Rightarrow> SessionWindow \<Rightarrow> string" where
  "stream_identity env p series cal w =
     version_text (ip_version (policy_of env)) @ ''|'' @ pm_asset_id p @ ''|'' @ rs_registry_version series @ ''|'' @
     cal @ ''|'' @ iv_isoformat env (sw_opens_at w) @ ''|'' @ iv_isoformat env (sw_closes_at w)"

definition stream_request ::
  "intraday_env \<Rightarrow> instant \<Rightarrow> uuid \<Rightarrow> PredictionMade \<Rightarrow> AssetReferenceSeries \<Rightarrow> string \<Rightarrow> SessionWindow \<Rightarrow> IntradayRequested" where
  "stream_request env now mid p series cal w =
     \<lparr>message_id = mid, correlation_id = correlation_id p, causation_id = Some (message_id p), occurred_at = now,
      ir_stream_id = iv_uuid5 env (stream_identity env p series cal w), ir_asset_id = pm_asset_id p,
      ir_registry_version = rs_registry_version series, ir_calendar_id = sw_calendar_id w,
      ir_opens_at = sw_opens_at w, ir_closes_at = sw_closes_at w, ir_price_policy = iv_price_policy env\<rparr>"

definition withdrawn_result :: IntradayResult where
  "withdrawn_result = empty_result I_WITHDRAWN (Some ''SUPERSEDED_BEFORE_OPEN'')"

definition withdraw_evaluation_row :: "instant \<Rightarrow> intraday_evaluation \<Rightarrow> intraday_evaluation" where
  "withdraw_evaluation_row now e =
     e\<lparr>ie_status := I_WITHDRAWN, ie_result := Some withdrawn_result, ie_updated_at := now\<rparr>"

definition ie_opens :: "intraday_evaluation \<Rightarrow> instant option" where
  "ie_opens e = map_option sw_opens_at (ie_session_window e)"

definition supersede_shadow :: "instant \<Rightarrow> PredictionMade \<Rightarrow> intraday_db \<Rightarrow> intraday_db" where
  "supersede_shadow now p db =
     (case pm_supersedes_prediction_id p of
        None \<Rightarrow> db
      | Some old \<Rightarrow>
          db\<lparr>id_withdrawals := put_tombstone old (pm_decision_at p) (id_withdrawals db),
             id_evaluations := update_where
               (\<lambda>e. ie_prediction_id e = old \<and> (case ie_opens e of None \<Rightarrow> False | Some o' \<Rightarrow> pm_decision_at p \<le> o'))
               (withdraw_evaluation_row now) (id_evaluations db)\<rparr>)"

definition insert_stream :: "instant \<Rightarrow> IntradayRequested \<Rightarrow> intraday_db \<Rightarrow> intraday_db" where
  "insert_stream now s db =
     (if ir_stream_id s \<in> set (map ir_stream_id (id_streams db)) then db
      else db\<lparr>id_streams := id_streams db @ [s],
              id_outbox := id_outbox db @ [new_outbox_row (message_id s) (ir_stream_id s)
                (''IntradayRequested'', VIntradayRequested s) now]\<rparr>)"

definition register_row ::
  "intraday_env \<Rightarrow> instant \<Rightarrow> PredictionMade \<Rightarrow> AssetReferenceSeries \<Rightarrow> SessionWindow option \<Rightarrow>
   IntradayRequested option \<Rightarrow> IntradayResult option \<Rightarrow> intraday_db \<Rightarrow> intraday_db" where
  "register_row env now p series window stream result db =
     (if pm_prediction_id p \<in> set (map ie_prediction_id (id_evaluations db)) then db
      else
        let db' = (case stream of None \<Rightarrow> db | Some s \<Rightarrow> insert_stream now s db)
        in db'\<lparr>id_evaluations := id_evaluations db' @
             [\<lparr>ie_prediction_id = pm_prediction_id p, ie_prediction = p, ie_received_at = now,
               ie_stream_id = map_option ir_stream_id stream, ie_session_window = window,
               ie_policy = policy_of env, ie_policy_hash = iv_policy_hash env (policy_of env),
               ie_registry_version = rs_registry_version series,
               ie_status = (case result of None \<Rightarrow> I_PENDING | Some r \<Rightarrow> ires_status r),
               ie_result = result, ie_updated_at = now\<rparr>]\<rparr>)"

definition calendar_for :: "intraday_env \<Rightarrow> PredictionMade \<Rightarrow> string option" where
  \<comment> \<open>an empty name counts as no calendar\<close>
  "calendar_for env p =
     (case dict_get (iv_calendars env) (pm_asset_id p) of
        None \<Rightarrow> None | Some c \<Rightarrow> if c = [] then None else Some c)"

definition register ::
  "intraday_env \<Rightarrow> instant \<Rightarrow> PredictionMade \<Rightarrow> (intraday_db, intraday_error, unit) prog" where
  "register env now p db =
     (if \<not> iv_shadow env then (Inr (), db)
      else case resolve (iv_registry env) (pm_asset_id p) of
        Inl e \<Rightarrow> (Inl (IRegistryError e), db)
      | Inr series \<Rightarrow>
          (case calendar_for env p of
             None \<Rightarrow> (Inr (), supersede_shadow now p db)
           | Some cal \<Rightarrow>
               (case resolve_window (iv_exchange env) (pm_decision_at p) cal (rs_timezone series) of
                  Inl _ \<Rightarrow>
                    (Inr (), register_row env now p series None None
                       (Some (empty_result I_UNSCORABLE (Some ''UNSUPPORTED_CALENDAR''))) (supersede_shadow now p db))
                | Inr w \<Rightarrow>
                    let db1 = db\<lparr>id_next_uuid := id_next_uuid db + 1\<rparr>
                    in case valid_session (stream_request env now (id_next_uuid db) p series cal w) of
                         Inl e \<Rightarrow> (Inl (IPyError e), db1)
                       | Inr stream \<Rightarrow>
                           (Inr (), register_row env now p series (Some w) (Some stream) None
                              (supersede_shadow now p db1)))))"

subsection \<open>Observation\<close>

definition check_bar ::
  "intraday_env \<Rightarrow> IntradayRequested \<Rightarrow> IntradayObserved \<Rightarrow> IntradayBar \<Rightarrow> (intraday_error, unit) result" where
  "check_bar env stream m b =
     (case ib_sample b of
        None \<Rightarrow>
          if io_source m = ''avanza'' then Inl (IPyError (ValueError ''Avanza minute missing sample provenance''))
          else Inr ()
      | Some s \<Rightarrow>
          let opens = ir_opens_at stream; closes = ir_closes_at stream;
              offset = total_seconds (sp_scheduled_at s - opens) / of_int (sp_interval_seconds s);
              mismatch = Inl (IPyError (ValueError ''sampled minute provenance mismatch''))
          in if ir_price_policy stream \<noteq> LAST_KNOWN_PRICE_V1 \<or> io_source m \<noteq> ''avanza''
             then Inl (IPyError (ValueError ''sampled minutes require last-known policy and Avanza source''))
             else if \<not> (opens \<le> sp_observed_at s \<and> sp_observed_at s < closes) \<or>
                     \<not> (opens \<le> sp_scheduled_at s \<and> sp_scheduled_at s < closes) \<or>
                     offset \<noteq> of_int \<lfloor>offset\<rfloor> \<or> sp_observed_at s > occurred_at m
             then mismatch
             else case resolve (iv_registry env) (ir_asset_id stream) of
                    Inl e \<Rightarrow> Inl (IRegistryError e)
                  | Inr series \<Rightarrow>
                      if sp_currency s \<noteq> rs_currency series \<or> sp_expires_at s > closes then mismatch else Inr ())"

definition check_observation ::
  "intraday_env \<Rightarrow> IntradayRequested \<Rightarrow> IntradayObserved \<Rightarrow> (intraday_error, unit) result" where
  "check_observation env stream m =
     (if io_asset_id m \<noteq> ir_asset_id stream \<or> io_registry_version m \<noteq> ir_registry_version stream
      then Inl (IPyError (ValueError ''intraday stream identity mismatch''))
      else if list_ex (\<lambda>b. \<not> (ir_opens_at stream \<le> ib_start b \<and> ib_start b < ir_closes_at stream)) (io_bars m)
      then Inl (IPyError (ValueError ''intraday bar outside requested session''))
      else bind_result (map_result (check_bar env stream m) (io_bars m)) (\<lambda>_.
        if io_replaces_previous m \<and>
           (ir_price_policy stream \<noteq> LAST_KNOWN_PRICE_V1 \<or> io_source m = ''avanza'' \<or> \<not> failed (io_fallback_reason m))
        then Inl (IPyError (ValueError ''invalid source replacement''))
        else if list_ex (\<lambda>b. ib_start b + MINUTE > occurred_at m) (io_bars m)
        then Inl (IPyError (ValueError ''intraday bar not yet complete at observation time''))
        else if io_final m \<and> \<not> failed (io_failure m) \<and> occurred_at m < ir_closes_at stream
        then Inl (IPyError (ValueError ''final intraday observation before session close''))
        else if \<not> distinct (map ib_start (io_bars m))
        then Inl (IPyError (ValueError ''duplicate intraday bar timestamp''))
        else Inr ()))"

definition batch_key :: "IntradayObserved \<Rightarrow> uuid \<times> nat" where
  "batch_key m = (io_stream_id m, io_revision m)"

definition batch_content ::
  "IntradayObserved \<Rightarrow> IntradayBar list \<times> bool \<times> string option \<times> bool \<times> string \<times> string option" where
  "batch_content m = (io_bars m, io_final m, io_failure m, io_replaces_previous m, io_source m, io_fallback_reason m)"

definition observe ::
  "intraday_env \<Rightarrow> IntradayObserved \<Rightarrow> (intraday_db, intraday_error, unit) prog" where
  "observe env m db =
     (case fetch_first (\<lambda>s. ir_stream_id s = io_stream_id m) (id_streams db) of
        None \<Rightarrow> (Inr (), db)
      | Some stream \<Rightarrow>
          (case check_observation env stream m of
             Inl e \<Rightarrow> (Inl e, db)
           | Inr _ \<Rightarrow>
               (case fetch_first (\<lambda>b. batch_key b = batch_key m) (id_batches db) of
                  None \<Rightarrow> (Inr (), db\<lparr>id_batches := id_batches db @ [m]\<rparr>)
                | Some prior \<Rightarrow>
                    if batch_content prior \<noteq> batch_content m
                    then (Inl (IPyError (ValueError ''conflicting intraday revision'')), db)
                    else (Inr (), db))))"

subsection \<open>Scoring\<close>

record assembled =
  as_bars :: "(instant, IntradayBar) dict"
  as_final :: bool
  as_failure :: "string option"
  as_replaced :: bool
  as_fallback_reason :: "string option"

definition add_batch :: "IntradayObserved \<Rightarrow> assembled \<Rightarrow> assembled" where
  "add_batch m acc =
     acc\<lparr>as_bars := foldl (\<lambda>d b. dict_set d (ib_start b) b) (if io_replaces_previous m then [] else as_bars acc) (io_bars m),
         as_replaced := as_replaced acc \<or> io_replaces_previous m,
         as_fallback_reason := io_fallback_reason m\<rparr>"

fun assemble :: "nat \<Rightarrow> IntradayObserved list \<Rightarrow> assembled \<Rightarrow> assembled" where
  \<comment> \<open>stops at the first gap in the revisions and after the final batch\<close>
  "assemble expected [] acc = acc"
| "assemble expected (m # ms) acc =
     (if io_revision m \<noteq> expected then acc
      else if io_final m then (add_batch m acc)\<lparr>as_final := True, as_failure := io_failure m\<rparr>
      else assemble (Suc expected) ms (add_batch m acc))"

definition OBSERVATION_DEADLINE :: int where
  "OBSERVATION_DEADLINE = minutes (50 * 60)"

definition score_result ::
  "instant \<Rightarrow> intraday_db \<Rightarrow> intraday_evaluation \<Rightarrow> SessionWindow \<Rightarrow> IntradayResult" where
  "score_result now db e w =
     (if superseded_before (id_withdrawals db) (ie_prediction_id e) (Some (sw_opens_at w)) then withdrawn_result
      else
        let batches = sort_key io_revision (filter (\<lambda>m. Some (io_stream_id m) = ie_stream_id e) (id_batches db));
            acc = assemble 1 batches \<lparr>as_bars = [], as_final = False, as_failure = None, as_replaced = False,
                    as_fallback_reason = None\<rparr>;
            late = (now > sw_closes_at w + OBSERVATION_DEADLINE \<and> \<not> as_final acc);
            previous = (case ie_result e of
                          None \<Rightarrow> None
                        | Some r \<Rightarrow> if as_replaced acc \<and> ires_price_basis r = LAST_KNOWN_PRICE_V1 then None else Some r)
        in (evaluate (pm_decision_at (ie_prediction e)) w (pm_direction (ie_prediction e)) (ie_policy e)
              (map snd (as_bars acc)) (as_final acc \<or> late) previous
              (if late then Some ''OBSERVATION_DEADLINE_EXPIRED'' else as_failure acc))
             \<lparr>ires_fallback_reason := as_fallback_reason acc\<rparr>)"

definition score_one :: "instant \<Rightarrow> uuid \<Rightarrow> (intraday_db, intraday_error, unit) prog" where
  "score_one now pid db =
     (case fetch_first (\<lambda>e. ie_prediction_id e = pid \<and> ie_status e = I_PENDING) (id_evaluations db) of
        None \<Rightarrow> (Inr (), db)
      | Some e \<Rightarrow>
          (case ie_session_window e of
             None \<Rightarrow> (Inl (IPyError (ValueError ''JSON input should be string, bytes or bytearray'')), db)
           | Some w \<Rightarrow>
               let r = score_result now db e w
               in (Inr (), db\<lparr>id_evaluations := update_where (\<lambda>e. ie_prediction_id e = pid)
                     (\<lambda>e. e\<lparr>ie_status := ires_status r, ie_result := Some r, ie_updated_at := now\<rparr>)
                     (id_evaluations db)\<rparr>)))"

definition tick :: "instant \<Rightarrow> (intraday_db, intraday_error, unit) prog" where
  "tick now db =
     fold_p (\<lambda>e _. score_one now (ie_prediction_id e))
       (select_ordered (\<lambda>e. ie_status e = I_PENDING) ie_updated_at 500 (id_evaluations db)) () db"

subsection \<open>Invariant\<close>

definition unsettled :: "intraday_evaluation \<Rightarrow> bool" where
  "unsettled e \<longleftrightarrow> ie_status e = I_PENDING \<or> ie_status e = I_WITHDRAWN"

interpretation ishadow: tombstoned ie_prediction_id ie_opens unsettled "withdraw_evaluation_row now" for now
  by unfold_locales (simp_all add: withdraw_evaluation_row_def ie_opens_def unsettled_def)

definition wf_intraday :: "intraday_db \<Rightarrow> bool" where
  "wf_intraday db \<longleftrightarrow>
     distinct (map ie_prediction_id (id_evaluations db)) \<and> distinct (map ir_stream_id (id_streams db)) \<and>
     distinct (map batch_key (id_batches db)) \<and>
     (\<forall>e \<in> set (id_evaluations db). ie_status e = I_PENDING \<longrightarrow> ie_session_window e \<noteq> None) \<and>
     ishadow.honoured (id_withdrawals db) (id_evaluations db)"

inductive istep :: "intraday_env \<Rightarrow> intraday_db \<Rightarrow> intraday_db \<Rightarrow> bool" for env where
  i_register: "istep env db (snd (register env now p db))"
| i_observe: "istep env db (snd (observe env m db))"
| i_tick: "istep env db (snd (tick now db))"

definition empty_intraday :: intraday_db where
  "empty_intraday = \<lparr>id_streams = [], id_batches = [], id_withdrawals = [], id_evaluations = [], id_outbox = [],
     id_next_uuid = 0\<rparr>"

lemma wf_intraday_empty [simp]: "wf_intraday empty_intraday"
  by (simp add: wf_intraday_def empty_intraday_def ishadow.honoured_def)

lemma wf_intraday_uuid [simp]: "wf_intraday (db\<lparr>id_next_uuid := n\<rparr>) = wf_intraday db"
  by (simp add: wf_intraday_def)

lemma wf_supersede:
  assumes "wf_intraday db"
  shows "wf_intraday (supersede_shadow now p db)"
proof (cases "pm_supersedes_prediction_id p")
  case None
  then show ?thesis using assms by (simp add: supersede_shadow_def)
next
  case (Some old)
  have "ishadow.honoured (put_tombstone old (pm_decision_at p) (id_withdrawals db))
    (update_where (\<lambda>e. ie_prediction_id e = old \<and> (case ie_opens e of None \<Rightarrow> False | Some o' \<Rightarrow> pm_decision_at p \<le> o'))
      (withdraw_evaluation_row now) (id_evaluations db))"
    using assms by (intro ishadow.honoured_supersede) (simp add: wf_intraday_def)
  then show ?thesis
    using assms by (simp add: supersede_shadow_def Some wf_intraday_def map_update_where ball_update_where
        withdraw_evaluation_row_def)
qed

lemma wf_insert_stream: "wf_intraday db \<Longrightarrow> wf_intraday (insert_stream now s db)"
  by (auto simp: wf_intraday_def insert_stream_def)

lemma insert_stream_rows [simp]:
  "id_evaluations (insert_stream now s db) = id_evaluations db"
  "id_withdrawals (insert_stream now s db) = id_withdrawals db"
  by (simp_all add: insert_stream_def)

lemma wf_register_row:
  assumes "wf_intraday db" and "window \<noteq> None \<or> (\<exists>r. result = Some r \<and> ires_status r \<noteq> I_PENDING)"
    and "window \<noteq> None \<Longrightarrow> result = None"
  shows "wf_intraday (register_row env now p series window stream result db)"
proof (cases "pm_prediction_id p \<in> set (map ie_prediction_id (id_evaluations db))")
  case True
  then show ?thesis using assms(1) by (simp add: register_row_def)
next
  case False
  define db' where "db' = (case stream of None \<Rightarrow> db | Some s \<Rightarrow> insert_stream now s db)"
  have "wf_intraday db'" "id_evaluations db' = id_evaluations db"
    using assms(1) by (auto simp: db'_def wf_insert_stream split: option.splits)
  then show ?thesis
    using False assms(2,3)
    by (auto simp: register_row_def db'_def [symmetric] wf_intraday_def ie_opens_def unsettled_def Let_def
        intro!: ishadow.honoured_append split: option.splits)
qed

lemma wf_register: "wf_intraday db \<Longrightarrow> wf_intraday (snd (register env now p db))"
  by (auto simp: register_def Let_def wf_supersede intro!: wf_register_row split: sum.splits option.splits)

lemma wf_observe: "wf_intraday db \<Longrightarrow> wf_intraday (snd (observe env m db))"
  by (auto simp: observe_def wf_intraday_def fetch_first_None_iff split: option.splits sum.splits)

lemma wf_score_one:
  assumes "wf_intraday db"
  shows "wf_intraday (snd (score_one now pid db))"
proof (cases "fetch_first (\<lambda>e. ie_prediction_id e = pid \<and> ie_status e = I_PENDING) (id_evaluations db)")
  case None
  then show ?thesis using assms by (simp add: score_one_def)
next
  case (Some e)
  then have e: "e \<in> set (id_evaluations db)" "ie_prediction_id e = pid" "ie_status e = I_PENDING"
    using fetch_first_Some by fastforce+
  then obtain w where w: "ie_session_window e = Some w" using assms by (auto simp: wf_intraday_def)
  define r where "r = score_result now db e w"
  have same: "e' = e" if "e' \<in> set (id_evaluations db)" "ie_prediction_id e' = pid" for e'
    using that e assms by (auto simp: wf_intraday_def distinct_map dest: inj_onD)
  have "ishadow.honoured (id_withdrawals db) (update_where (\<lambda>e. ie_prediction_id e = pid)
      (\<lambda>e. e\<lparr>ie_status := ires_status r, ie_result := Some r, ie_updated_at := now\<rparr>) (id_evaluations db))"
  proof (rule ishadow.honoured_update)
    show "unsettled (e'\<lparr>ie_status := ires_status r, ie_result := Some r, ie_updated_at := now\<rparr>)"
      if "e' \<in> set (id_evaluations db)" "ie_prediction_id e' = pid"
        "superseded_before (id_withdrawals db) (ie_prediction_id e') (ie_opens e')" for e'
      using that same [OF that(1,2)] w e
      by (simp add: r_def score_result_def ie_opens_def withdrawn_result_def unsettled_def)
  qed (use assms in \<open>simp_all add: wf_intraday_def ie_opens_def\<close>)
  moreover have "ie_session_window e' \<noteq> None" if "e' \<in> set (id_evaluations db)" "ie_prediction_id e' = pid" for e'
    using same [OF that] w by simp
  ultimately show ?thesis
    using assms w
    by (simp add: score_one_def Some r_def [symmetric] Let_def wf_intraday_def map_update_where ball_update_where)
qed

lemma wf_tick: "wf_intraday db \<Longrightarrow> wf_intraday (snd (tick now db))"
  unfolding tick_def by (rule fold_p_inv) (simp_all add: wf_score_one)

lemma wf_reachable: "(istep env)\<^sup>*\<^sup>* db db' \<Longrightarrow> wf_intraday db \<Longrightarrow> wf_intraday db'"
  by (induction rule: rtranclp_induct) (auto elim!: istep.cases simp: wf_register wf_observe wf_tick)

subsection \<open>Superseded predictions\<close>

definition marked :: "uuid \<Rightarrow> instant \<Rightarrow> intraday_db \<Rightarrow> bool" where
  "marked pid t db \<longleftrightarrow> (\<exists>t'. dict_get (id_withdrawals db) pid = Some t' \<and> t' \<le> t)"

lemma marked_supersede: "marked pid t db \<Longrightarrow> marked pid t (supersede_shadow now p db)"
  by (auto simp: marked_def supersede_shadow_def put_tombstone_def split: option.splits)

lemma marked_row: "marked pid t (register_row env now p series window stream result db) = marked pid t db"
  by (simp add: marked_def register_row_def Let_def split: option.splits)

lemma marked_score_one: "marked pid t (snd (score_one now x db)) = marked pid t db"
  by (simp add: marked_def score_one_def Let_def split: option.splits)

lemma marked_step: "istep env db db' \<Longrightarrow> marked pid t db \<Longrightarrow> marked pid t db'"
proof (induction rule: istep.cases)
  case (i_register db now p)
  have "marked pid t (db\<lparr>id_next_uuid := n\<rparr>) = marked pid t db" for n by (simp add: marked_def)
  with i_register show ?case
    by (auto simp: register_def Let_def marked_row marked_supersede split: sum.splits option.splits)
next
  case (i_observe db m)
  then show ?case by (auto simp: observe_def marked_def split: option.splits sum.splits)
next
  case (i_tick db now)
  have "marked pid t (snd (tick now db))"
    unfolding tick_def by (rule fold_p_inv) (use i_tick in \<open>simp_all add: marked_score_one\<close>)
  with i_tick show ?case by simp
qed

lemma marked_reachable: "(istep env)\<^sup>*\<^sup>* db db' \<Longrightarrow> marked pid t db \<Longrightarrow> marked pid t db'"
  by (induction rule: rtranclp_induct) (auto dest: marked_step)

lemma register_marks:
  assumes "iv_shadow env" "fst (register env now p db) = Inr ()" "pm_supersedes_prediction_id p = Some old"
  shows "marked old (pm_decision_at p) (snd (register env now p db))"
proof -
  have "marked old (pm_decision_at p) (supersede_shadow now p db)" for db
    using assms(3) by (auto simp: marked_def supersede_shadow_def put_tombstone_def split: option.splits)
  then show ?thesis
    using assms by (auto simp: register_def Let_def marked_row split: sum.splits option.splits if_splits)
qed

lemma score_one_withdraws:
  assumes "wf_intraday db" "e \<in> set (id_evaluations db)" "unsettled e"
    and "superseded_before (id_withdrawals db) (ie_prediction_id e) (ie_opens e)"
  shows "\<exists>db'. score_one now (ie_prediction_id e) db = (Inr (), db') \<and>
    (\<forall>e' \<in> set (id_evaluations db'). ie_prediction_id e' = ie_prediction_id e \<longrightarrow> ie_status e' = I_WITHDRAWN)"
proof -
  have same: "e' = e" if "e' \<in> set (id_evaluations db)" "ie_prediction_id e' = ie_prediction_id e" for e'
    using that assms(1,2) by (auto simp: wf_intraday_def distinct_map dest: inj_onD)
  obtain w where w: "ie_session_window e = Some w" "superseded_before (id_withdrawals db) (ie_prediction_id e) (Some (sw_opens_at w))"
    using assms(4) by (auto simp: superseded_before_def ie_opens_def split: option.splits)
  show ?thesis
  proof (cases "fetch_first (\<lambda>e'. ie_prediction_id e' = ie_prediction_id e \<and> ie_status e' = I_PENDING) (id_evaluations db)")
    case None
    then have "ie_status e = I_WITHDRAWN" using assms(2,3) by (auto simp: fetch_first_None_iff unsettled_def)
    then show ?thesis using None same by (auto simp: score_one_def)
  next
    case (Some x)
    then have "x = e" using fetch_first_Some [OF Some] same by blast
    then show ?thesis
      using Some w by (auto simp: score_one_def score_result_def withdrawn_result_def Let_def set_update_where)
  qed
qed

text \<open>
  C35: A prediction superseded before its session opens is never scored by the shadow evaluation, in
  whatever order the two predictions arrive.  Once a superseding prediction has been registered, in every
  later state an evaluation of the superseded one whose session opens at or after the superseding decision
  is pending or withdrawn, even if it was registered afterwards, and the next scoring pass over it
  succeeds and leaves it withdrawn.
\<close>

theorem shadow_superseded_never_scored:
  assumes "(istep env)\<^sup>*\<^sup>* empty_intraday db0" and "iv_shadow env"
    and "fst (register env now p db0) = Inr ()" and "pm_supersedes_prediction_id p = Some old"
    and "(istep env)\<^sup>*\<^sup>* (snd (register env now p db0)) db" and "e \<in> set (id_evaluations db)"
    and "ie_prediction_id e = old" and "ie_opens e = Some opens" and "pm_decision_at p \<le> opens"
  shows "(ie_status e = I_PENDING \<or> ie_status e = I_WITHDRAWN) \<and>
    (\<exists>db'. score_one now' old db = (Inr (), db') \<and>
       (\<forall>e' \<in> set (id_evaluations db'). ie_prediction_id e' = old \<longrightarrow> ie_status e' = I_WITHDRAWN))"
proof -
  have "(istep env)\<^sup>*\<^sup>* empty_intraday db"
    using assms(1,5) by (meson i_register rtranclp.rtrancl_into_rtrancl rtranclp_trans)
  then have wf: "wf_intraday db" by (rule wf_reachable) simp
  have "marked old (pm_decision_at p) db" by (rule marked_reachable [OF assms(5) register_marks [OF assms(2-4)]])
  then have sup: "superseded_before (id_withdrawals db) (ie_prediction_id e) (ie_opens e)"
    using assms(7-9) by (auto simp: marked_def superseded_before_def)
  then have "unsettled e" using wf assms(6) by (simp add: wf_intraday_def ishadow.honoured_def)
  then show ?thesis using score_one_withdraws [OF wf assms(6) _ sup] assms(7) by (simp add: unsettled_def)
qed

lemma register_row_adds:
  assumes "pm_prediction_id p \<notin> set (map ie_prediction_id (id_evaluations db))"
  shows "\<exists>e. id_evaluations (register_row env now p series (Some w) stream None db) = id_evaluations db @ [e] \<and>
    ie_prediction_id e = pm_prediction_id p \<and> ie_opens e = Some (sw_opens_at w) \<and> ie_status e = I_PENDING"
  using assms by (auto simp: register_row_def Let_def ie_opens_def split: option.splits)

definition sample_calendar :: exchange_calendar where
  "sample_calendar = \<lparr>xc_tz = ''America/New_York'', xc_local_date = (\<lambda>_. 1), xc_date_to_session_next = (\<lambda>d. d),
     xc_next_session = (\<lambda>d. d + 1), xc_session_open = (\<lambda>_. minutes 30), xc_session_close = (\<lambda>_. minutes 420),
     xc_has_break = (\<lambda>_. False)\<rparr>"

definition sample_ienv :: intraday_env where
  "sample_ienv = \<lparr>iv_registry = sample_registry, iv_exchange = (\<lambda>n. if n = ''XNYS'' then Some sample_calendar else None),
     iv_shadow = True, iv_calendars = [(''GOLD'', ''XNYS'')], iv_price_policy = PROVIDER_MINUTE_V1,
     iv_target_return = 3 / 1000, iv_neutral_band = 3 / 1000, iv_min_minutes = 15, iv_max_baseline_delay_seconds = 60,
     iv_uuid5 = length, iv_isoformat = (\<lambda>_. ''T''), iv_policy_hash = (\<lambda>_. ''h'')\<rparr>"

definition sample_successor :: PredictionMade where
  "sample_successor = (sample_prediction 2)\<lparr>pm_supersedes_prediction_id := Some 3\<rparr>"

lemma sample_prediction_id: "pm_prediction_id (sample_prediction i) = i"
  by (simp add: sample_prediction_def)

lemma sample_total_seconds: "total_seconds (minutes 390) = 23400"
  using b64.rnd_int [of 23400] by (simp add: total_seconds_def duration_defs)

lemma sample_stream_valid:
  assumes "ir_opens_at r = minutes 30" "ir_closes_at r = minutes 420"
  shows "valid_session r = Inr r"
proof -
  have "total_seconds (ir_closes_at r - ir_opens_at r) = 23400"
    using sample_total_seconds assms by (simp add: duration_defs)
  then show ?thesis using assms by (simp add: valid_session_def Let_def duration_defs)
qed

lemma sample_register:
  assumes "pm_asset_id p = ''GOLD''" "pm_decision_at p = 0"
  shows "\<exists>series stream. register sample_ienv now p db =
    (Inr (), register_row sample_ienv now p series
      (Some \<lparr>sw_calendar_id = ''XNYS'', sw_opens_at = minutes 30, sw_closes_at = minutes 420\<rparr>) (Some stream) None
      (supersede_shadow now p (db\<lparr>id_next_uuid := id_next_uuid db + 1\<rparr>)))"
proof -
  obtain series where "resolve sample_registry ''GOLD'' = Inr series" "rs_timezone series = ''America/New_York''"
    by (simp add: resolve_def sample_registry_def to_series_def sample_entry_def)
  moreover have "resolve_window (iv_exchange sample_ienv) 0 ''XNYS'' ''America/New_York'' =
      Inr \<lparr>sw_calendar_id = ''XNYS'', sw_opens_at = minutes 30, sw_closes_at = minutes 420\<rparr>"
    by (simp add: resolve_window_def sample_ienv_def sample_calendar_def Let_def duration_defs)
  ultimately show ?thesis
    using assms by (auto simp: register_def calendar_for_def sample_ienv_def Let_def sample_stream_valid stream_request_def)
qed

theorem shadow_superseded_never_scored_witness:
  "\<exists>db e. e \<in> set (id_evaluations db) \<and> ie_prediction_id e = 3 \<and> ie_status e = I_PENDING \<and>
     db = snd (register sample_ienv 6 (sample_prediction 3) (snd (register sample_ienv 5 sample_successor empty_intraday))) \<and>
     (\<exists>db'. score_one 7 3 db = (Inr (), db') \<and>
       [e' \<leftarrow> id_evaluations db'. ie_prediction_id e' = 3 \<and> ie_status e' \<noteq> I_WITHDRAWN] = [])"
proof -
  let ?db1 = "snd (register sample_ienv 5 sample_successor empty_intraday)"
  let ?db2 = "snd (register sample_ienv 6 (sample_prediction 3) ?db1)"
  obtain s1 t1 where r1: "register sample_ienv 5 sample_successor empty_intraday =
    (Inr (), register_row sample_ienv 5 sample_successor s1
      (Some \<lparr>sw_calendar_id = ''XNYS'', sw_opens_at = minutes 30, sw_closes_at = minutes 420\<rparr>) (Some t1) None
      (supersede_shadow 5 sample_successor (empty_intraday\<lparr>id_next_uuid := id_next_uuid empty_intraday + 1\<rparr>)))"
    using sample_register [of sample_successor 5 empty_intraday] by (auto simp: sample_successor_def sample_prediction_def)
  have ids: "map ie_prediction_id (id_evaluations ?db1) = [2]"
    unfolding r1 by (simp add: register_row_def supersede_shadow_def sample_successor_def sample_prediction_def
        empty_intraday_def Let_def insert_stream_def)
  obtain s2 t2 where r2: "register sample_ienv 6 (sample_prediction 3) ?db1 =
    (Inr (), register_row sample_ienv 6 (sample_prediction 3) s2
      (Some \<lparr>sw_calendar_id = ''XNYS'', sw_opens_at = minutes 30, sw_closes_at = minutes 420\<rparr>) (Some t2) None
      (supersede_shadow 6 (sample_prediction 3) (?db1\<lparr>id_next_uuid := id_next_uuid ?db1 + 1\<rparr>)))"
    using sample_register [of "sample_prediction 3" 6 ?db1] by (auto simp: sample_prediction_def)
  have new: "pm_prediction_id (sample_prediction 3) \<notin> set (map ie_prediction_id (id_evaluations
      (supersede_shadow 6 (sample_prediction 3) (?db1\<lparr>id_next_uuid := id_next_uuid ?db1 + 1\<rparr>))))"
    using ids by (auto simp: supersede_shadow_def sample_prediction_def dest: arg_cong [of _ _ set])
  obtain e where e: "e \<in> set (id_evaluations ?db2)" "ie_prediction_id e = 3" "ie_opens e = Some (minutes 30)"
      "ie_status e = I_PENDING"
    using register_row_adds [OF new, of sample_ienv 6 s2
        "\<lparr>sw_calendar_id = ''XNYS'', sw_opens_at = minutes 30, sw_closes_at = minutes 420\<rparr>" "Some t2"]
    unfolding r2 snd_conv by (elim exE conjE) (auto simp: sample_prediction_id)
  have step: "(istep sample_ienv)\<^sup>*\<^sup>* ?db1 ?db2" by (intro r_into_rtranclp i_register)
  have "\<exists>db'. score_one 7 3 ?db2 = (Inr (), db') \<and>
      (\<forall>e' \<in> set (id_evaluations db'). ie_prediction_id e' = 3 \<longrightarrow> ie_status e' = I_WITHDRAWN)"
    using shadow_superseded_never_scored [of sample_ienv empty_intraday 5 sample_successor 3 ?db2 e "minutes 30" 7, OF _ _ _ _ step e(1,2,3)]
    by (simp add: r1) (simp add: sample_ienv_def sample_successor_def sample_prediction_def duration_defs)
  then show ?thesis using e by (auto simp: filter_empty_conv)
qed

subsection \<open>Observations in any order\<close>

definition batch_pair :: "IntradayObserved \<Rightarrow> (uuid \<times> nat) \<times> IntradayBar list \<times> bool \<times> string option \<times> bool \<times> string \<times> string option" where
  "batch_pair m = (batch_key m, batch_content m)"

definition stream_of :: "intraday_db \<Rightarrow> IntradayObserved \<Rightarrow> IntradayRequested option" where
  "stream_of db m = fetch_first (\<lambda>s. ir_stream_id s = io_stream_id m) (id_streams db)"

definition admissible :: "intraday_env \<Rightarrow> intraday_db \<Rightarrow> IntradayObserved \<Rightarrow> bool" where
  "admissible env db m \<longleftrightarrow> (case stream_of db m of None \<Rightarrow> True | Some s \<Rightarrow> check_observation env s m = Inr ())"

definition stored :: "intraday_db \<Rightarrow> IntradayObserved list \<Rightarrow> ((uuid \<times> nat) \<times> IntradayBar list \<times> bool \<times> string option \<times> bool \<times> string \<times> string option) set" where
  "stored db ms = batch_pair ` (set (id_batches db) \<union> {m \<in> set ms. stream_of db m \<noteq> None})"

definition batched :: "intraday_db \<Rightarrow> IntradayObserved list \<Rightarrow> intraday_db \<Rightarrow> bool" where
  "batched db ms db' \<longleftrightarrow>
     id_streams db' = id_streams db \<and> id_withdrawals db' = id_withdrawals db \<and> id_evaluations db' = id_evaluations db \<and>
     distinct (map batch_key (id_batches db')) \<and> batch_pair ` set (id_batches db') = stored db ms"

lemma batched_trans:
  assumes "batched db [m] db'" "batched db' ms db''"
  shows "batched db (m # ms) db''"
proof -
  have "stream_of db' = stream_of db" using assms(1) by (simp add: batched_def stream_of_def fun_eq_iff)
  moreover have "batch_pair ` set (id_batches db') = stored db [m]" using assms(1) by (simp add: batched_def)
  ultimately have "stored db' ms = stored db (m # ms)" by (auto simp: stored_def image_Un)
  then show ?thesis using assms by (simp add: batched_def)
qed

lemma stored_functional:
  "distinct (map batch_key (id_batches db)) \<Longrightarrow> inj_on fst (stored db [])"
  unfolding stored_def
  by (rule inj_on_imageI) (simp add: distinct_map comp_def batch_pair_def)

lemma observe_accepts:
  assumes "distinct (map batch_key (id_batches db))" "fst (observe env m db) = Inr ()"
  shows "admissible env db m \<and> inj_on fst (stored db [m]) \<and> batched db [m] (snd (observe env m db))"
proof -
  have db: "batch_pair ` set (id_batches db) = stored db []" by (simp add: stored_def)
  consider "stream_of db m = None" | s where "stream_of db m = Some s" "fetch_first (\<lambda>b. batch_key b = batch_key m) (id_batches db) = None"
    | s p where "stream_of db m = Some s" "fetch_first (\<lambda>b. batch_key b = batch_key m) (id_batches db) = Some p"
    by fastforce
  then show ?thesis
  proof cases
    case 1
    then have "stored db [m] = stored db []" by (auto simp: stored_def)
    then show ?thesis using 1 assms(1) stored_functional [OF assms(1)] db
      by (simp add: observe_def stream_of_def [symmetric] admissible_def batched_def)
  next
    case (2 s)
    then have check: "check_observation env s m = Inr ()"
      using assms(2) by (auto simp: observe_def stream_of_def [symmetric] split: sum.splits)
    have "distinct (map batch_key (id_batches db @ [m]))" using 2 assms(1) by (auto simp: fetch_first_None_iff)
    moreover from this have "batched db [m] (db\<lparr>id_batches := id_batches db @ [m]\<rparr>)"
      using 2(1) by (auto simp: batched_def stored_def)
    moreover have "stored db [m] = stored (db\<lparr>id_batches := id_batches db @ [m]\<rparr>) []" using 2(1) by (auto simp: stored_def)
    ultimately show ?thesis
      using 2 check stored_functional [of "db\<lparr>id_batches := id_batches db @ [m]\<rparr>"]
      by (simp add: observe_def stream_of_def [symmetric] admissible_def)
  next
    case (3 s p)
    then have check: "check_observation env s m = Inr ()" and eq: "batch_content p = batch_content m"
      using assms(2) by (auto simp: observe_def stream_of_def [symmetric] split: sum.splits if_splits)
    have "batch_pair m = batch_pair p" "p \<in> set (id_batches db)"
      using fetch_first_Some [OF 3(2)] eq by (auto simp: batch_pair_def)
    then have "stored db [m] = stored db []" by (auto simp: stored_def)
    then show ?thesis using 3 check eq assms(1) stored_functional [OF assms(1)] db
      by (simp add: observe_def stream_of_def [symmetric] admissible_def batched_def)
  qed
qed

lemma observe_succeeds:
  assumes "admissible env db m" "inj_on fst (stored db [m])"
  shows "fst (observe env m db) = Inr ()"
proof (cases "stream_of db m")
  case None
  then show ?thesis by (simp add: observe_def stream_of_def [symmetric])
next
  case (Some s)
  have "batch_content p = batch_content m" if "fetch_first (\<lambda>b. batch_key b = batch_key m) (id_batches db) = Some p" for p
  proof -
    have "batch_pair p \<in> stored db [m]" "batch_pair m \<in> stored db [m]" "batch_key p = batch_key m"
      using fetch_first_Some [OF that] Some by (auto simp: stored_def)
    then have "batch_pair p = batch_pair m" 
      using inj_onD [OF assms(2), of "batch_pair p" "batch_pair m"] by (simp add: batch_pair_def)
    then show ?thesis by (simp add: batch_pair_def)
  qed
  then show ?thesis using Some assms(1) by (auto simp: observe_def stream_of_def [symmetric] admissible_def split: option.splits)
qed

lemma stored_mono: "set ms \<subseteq> set ms' \<Longrightarrow> stored db ms \<subseteq> stored db ms'"
  by (auto simp: stored_def)

abbreviation observe_all :: "intraday_env \<Rightarrow> IntradayObserved list \<Rightarrow> (intraday_db, intraday_error, unit) prog" where
  "observe_all env ms \<equiv> fold_p (\<lambda>m _. observe env m) ms ()"

lemma observe_all_iff:
  assumes "distinct (map batch_key (id_batches db))"
  shows "(fst (observe_all env ms db) = Inr () \<longleftrightarrow> list_all (admissible env db) ms \<and> inj_on fst (stored db ms)) \<and>
    (fst (observe_all env ms db) = Inr () \<longrightarrow> batched db ms (snd (observe_all env ms db)))"
  using assms
proof (induction ms arbitrary: db)
  case Nil
  then show ?case by (simp add: return_p_def stored_functional batched_def) (simp add: stored_def)
next
  case (Cons m ms)
  let ?db' = "snd (observe env m db)"
  show ?case
  proof (cases "fst (observe env m db) = Inr ()")
    case True
    then have ok: "admissible env db m" "batched db [m] ?db'" using observe_accepts [OF Cons.prems] by auto
    then have dist: "distinct (map batch_key (id_batches ?db'))" and "stream_of ?db' = stream_of db"
      by (auto simp: batched_def stream_of_def fun_eq_iff)
    then have adm: "admissible env ?db' = admissible env db" by (simp add: admissible_def fun_eq_iff)
    have st: "stored ?db' ms = stored db (m # ms)"
      using batched_trans [OF ok(2)] ok(2) \<open>stream_of ?db' = stream_of db\<close> by (auto simp: batched_def stored_def image_Un)
    have run: "observe_all env (m # ms) db = observe_all env ms ?db'"
      using True by (auto simp: bind_p_def split: prod.splits sum.splits)
    show ?thesis
      unfolding run using Cons.IH [OF dist] ok batched_trans [OF ok(2)] by (simp add: adm st)
  next
    case False
    then have "\<not> (admissible env db m \<and> inj_on fst (stored db [m]))" using observe_succeeds by blast
    moreover have "inj_on fst (stored db (m # ms)) \<Longrightarrow> inj_on fst (stored db [m])"
      using stored_mono [of "[m]" "m # ms" db] inj_on_subset by auto
    ultimately show ?thesis using False by (auto simp: bind_p_def split: prod.splits sum.splits)
  qed
qed

lemma add_batch_content: "batch_content m = batch_content m' \<Longrightarrow> add_batch m = add_batch m'"
  by (simp add: batch_content_def add_batch_def fun_eq_iff)

lemma assemble_content:
  "map (\<lambda>m. (io_revision m, batch_content m)) ms = map (\<lambda>m. (io_revision m, batch_content m)) ms' \<Longrightarrow>
     assemble n ms acc = assemble n ms' acc"
proof (induction ms arbitrary: n ms' acc)
  case (Cons m ms)
  then obtain m' ms'' where ms': "ms' = m' # ms''" by (cases ms') auto
  then have eq: "io_revision m = io_revision m'" "batch_content m = batch_content m'" using Cons.prems by auto
  then have "io_final m = io_final m'" "io_failure m = io_failure m'" by (simp_all add: batch_content_def)
  then show ?case using Cons.IH [of ms''] Cons.prems eq add_batch_content [OF eq(2)] ms' by auto
qed simp

lemma stream_batches_sorted:
  fixes sid :: "uuid option"
  assumes "batch_pair ` set bs = batch_pair ` set bs'" "distinct (map batch_key bs)" "distinct (map batch_key bs')"
  defines "f \<equiv> \<lambda>m. (io_revision m, batch_content m)" and "p \<equiv> \<lambda>m. Some (io_stream_id m) = sid"
  shows "map f (sort_key io_revision (filter p bs)) = map f (sort_key io_revision (filter p bs'))"
proof -
  have map_sort: "map f (sort_key io_revision xs) = sort_key fst (map f xs)" for xs
  proof (induction xs)
    case (Cons x xs)
    have "map f (insort_key io_revision x ys) = insort_key fst (f x) (map f ys)" for ys
      by (induction ys) (simp_all add: f_def)
    then show ?case using Cons by simp
  qed simp
  show ?thesis
    unfolding map_sort
  proof (rule sort_key_unique)
    have "f ` {m \<in> set bs. p m} = (\<lambda>((s, r), c). (r, c)) ` {((s, r), c). ((s, r), c) \<in> batch_pair ` set bs \<and> Some s = sid}" for bs
      by (force simp: f_def p_def batch_pair_def batch_key_def image_iff)
    then show "set (map f (filter p bs)) = set (map f (filter p bs'))" using assms(1) by simp
    have "distinct (map fst (map f (filter p xs)))" if "distinct (map batch_key xs)" for xs
      using that by (induction xs) (auto simp: f_def p_def batch_key_def image_iff)
    then show "distinct (map fst (map f (filter p bs)))" "distinct (map fst (map f (filter p bs')))" using assms(2,3) by auto
  qed
qed

lemma score_result_batches:
  assumes "batched db ms db1" "batched db ms' db2" "set ms = set ms'"
  shows "score_result now db1 e w = score_result now db2 e w"
proof -
  have "stored db ms = stored db ms'" using assms(3) by (simp add: stored_def)
  then have "assemble 1 (sort_key io_revision (filter (\<lambda>m. Some (io_stream_id m) = ie_stream_id e) (id_batches db1))) acc =
      assemble 1 (sort_key io_revision (filter (\<lambda>m. Some (io_stream_id m) = ie_stream_id e) (id_batches db2))) acc" for acc
    using assms(1,2) by (intro assemble_content stream_batches_sorted) (simp_all add: batched_def)
  then show ?thesis using assms(1,2) by (simp add: score_result_def batched_def)
qed


definition sample_observation :: "uuid \<Rightarrow> nat \<Rightarrow> bool \<Rightarrow> IntradayObserved" where
  "sample_observation sid k fin =
     \<lparr>message_id = 8 + k, correlation_id = 8, causation_id = None, occurred_at = minutes 421, io_stream_id = sid,
      io_asset_id = ''GOLD'', io_registry_version = ''1'', io_revision = k,
      io_bars = [sample_bar (minutes (30 + int k))], io_final = fin, io_failure = None, io_replaces_previous = False,
      io_source = ''yahoo'', io_fallback_reason = None\<rparr>"

lemma sample_stream:
  "\<exists>s. id_streams (snd (register sample_ienv 6 (sample_prediction 3) empty_intraday)) = [s] \<and> ir_asset_id s = ''GOLD'' \<and>
     ir_registry_version s = ''1'' \<and> ir_opens_at s = minutes 30 \<and> ir_closes_at s = minutes 420"
proof -
  obtain series where series: "resolve sample_registry ''GOLD'' = Inr series" "rs_timezone series = ''America/New_York''"
      "rs_registry_version series = ''1''"
    by (simp add: resolve_def sample_registry_def to_series_def sample_entry_def)
  have window: "resolve_window (iv_exchange sample_ienv) 0 ''XNYS'' ''America/New_York'' =
      Inr \<lparr>sw_calendar_id = ''XNYS'', sw_opens_at = minutes 30, sw_closes_at = minutes 420\<rparr>"
    by (simp add: resolve_window_def sample_ienv_def sample_calendar_def Let_def duration_defs)
  have "pm_asset_id (sample_prediction 3) = ''GOLD''" "pm_decision_at (sample_prediction 3) = 0"
      "pm_supersedes_prediction_id (sample_prediction 3) = None"
    by (simp_all add: sample_prediction_def)
  then show ?thesis
    using series window
    by (simp add: register_def calendar_for_def Let_def sample_stream_valid stream_request_def sample_ienv_def
        register_row_def insert_stream_def supersede_shadow_def empty_intraday_def)
qed


end
