(* ===== verification/Sampled.thy ===== *)
theory Sampled
  imports Intraday
begin

text \<open>
  The point-sample shadow evaluations of the Verification service
  (\<^verbatim>\<open>services/verification/verification/sampled_policy.py\<close> and \<^verbatim>\<open>sampled.py\<close>).

  A sample is evidence for one instant only; the policy never interpolates.  \<^verbatim>\<open>str(sample_id)\<close> orders
  identifiers as their numeric value does, so the two-component sort key is a stable sort by identifier
  followed by one by observation time.  \<^verbatim>\<open>received_at\<close> is the instant passed to \<open>sample_observe\<close>.
\<close>

subsection \<open>Policy\<close>

record SamplePolicy =
  spol_interval_seconds :: int
  spol_target_return :: dec
  spol_neutral_band :: dec
  spol_max_baseline_delay_seconds :: int
  spol_max_quote_age_seconds :: int
  spol_delivery_grace_seconds :: int

definition sample_policy_of :: "dec \<Rightarrow> dec \<Rightarrow> SamplePolicy" where
  "sample_policy_of target band =
     \<lparr>spol_interval_seconds = 900, spol_target_return = target, spol_neutral_band = band,
      spol_max_baseline_delay_seconds = 1020, spol_max_quote_age_seconds = 120, spol_delivery_grace_seconds = 600\<rparr>"

datatype SampleStatus = S_PENDING | S_FINAL | S_UNSCORABLE | S_WITHDRAWN

datatype SampleOutcome =
    INSUFFICIENT_WINDOW | NO_BASELINE | BASELINE_TOO_LATE | BASELINE_REVISED | MAPPING_CHANGED | CONFLICTING_SLOT
  | INSUFFICIENT_SAMPLES | BAND_BREACH_OBSERVED | WITHIN_BAND_AT_SAMPLES | OBSERVED_HIT | TARGET_NOT_OBSERVED
  | SUPERSEDED_BEFORE_OPEN

record SampleResult =
  sres_status :: SampleStatus
  sres_outcome :: "SampleOutcome option"
  sres_baseline_at :: "instant option"
  sres_baseline_price :: "dec option"
  sres_baseline_delay_seconds :: "flt option"
  sres_mapping_version :: "string option"
  sres_observed_hit :: "bool option"
  sres_first_hit_at :: "instant option"
  sres_last_observed_return :: "dec option"
  sres_last_observed_at :: "instant option"
  sres_expected_samples :: nat
  sres_observed_samples :: nat
  sres_coverage_complete :: bool
  sres_maximum_gap_seconds :: "flt option"

definition bare_result :: "SampleStatus \<Rightarrow> SampleOutcome \<Rightarrow> SampleResult" where
  "bare_result status outcome =
     \<lparr>sres_status = status, sres_outcome = Some outcome, sres_baseline_at = None, sres_baseline_price = None,
      sres_baseline_delay_seconds = None, sres_mapping_version = None, sres_observed_hit = None,
      sres_first_hit_at = None, sres_last_observed_return = None, sres_last_observed_at = None,
      sres_expected_samples = 0, sres_observed_samples = 0, sres_coverage_complete = False,
      sres_maximum_gap_seconds = None\<rparr>"

definition expected_slots :: "instant \<Rightarrow> SessionWindow \<Rightarrow> SamplePolicy \<Rightarrow> instant list" where
  "expected_slots start w pol =
     filter (\<lambda>t. start \<le> t) (slot_times (sw_opens_at w) (sw_closes_at w) (seconds (spol_interval_seconds pol)))"

definition usable_sample ::
  "instant \<Rightarrow> SessionWindow \<Rightarrow> SamplePolicy \<Rightarrow> string \<Rightarrow> string \<Rightarrow> PriceSampleObserved \<Rightarrow> bool" where
  "usable_sample start w pol currency registry_version s \<longleftrightarrow>
     ps_kind s = REGULAR \<and> ps_quality s = FRESH \<and> ps_market_state s = REGULAR_OPEN \<and>
     ps_opens_at s = sw_opens_at w \<and> ps_closes_at s = sw_closes_at w \<and>
     ps_currency s = currency \<and> ps_quote_unit s = currency \<and> ps_registry_version s = registry_version \<and>
     ps_scheduled_at s \<in> set (expected_slots start w pol) \<and>
     (case ps_provider_quote_at s of
        None \<Rightarrow> False
      | Some q \<Rightarrow>
          start \<le> q \<and> q \<le> ps_observed_at s \<and> start \<le> ps_observed_at s \<and> ps_observed_at s < sw_closes_at w \<and>
          total_seconds (ps_observed_at s - q) \<le> of_int (spol_max_quote_age_seconds pol)) \<and>
     total_seconds (ps_observed_at s - ps_scheduled_at s) \<le> 120"

definition eligible_samples ::
  "instant \<Rightarrow> SessionWindow \<Rightarrow> SamplePolicy \<Rightarrow> string \<Rightarrow> string \<Rightarrow> PriceSampleObserved list \<Rightarrow> PriceSampleObserved list" where
  "eligible_samples start w pol currency registry_version samples =
     sort_key ps_observed_at (sort_key ps_sample_id
       (filter (usable_sample start w pol currency registry_version) samples))"

fun fill_slots ::
  "PriceSampleObserved list \<Rightarrow> (instant, PriceSampleObserved) dict \<Rightarrow> (instant, PriceSampleObserved) dict option" where
  \<comment> \<open>\<open>None\<close> is the return with \<^verbatim>\<open>CONFLICTING_SLOT\<close>\<close>
  "fill_slots [] d = Some d"
| "fill_slots (s # ss) d =
     (case dict_get d (ps_scheduled_at s) of
        None \<Rightarrow> fill_slots ss (dict_set d (ps_scheduled_at s) s)
      | Some s' \<Rightarrow> if s' \<noteq> s then None else fill_slots ss (dict_set d (ps_scheduled_at s) s))"

definition hits :: "Direction \<Rightarrow> dec \<Rightarrow> dec \<Rightarrow> bool" where
  "hits direction target r \<longleftrightarrow> (direction = UP \<and> r \<ge> target) \<or> (direction = DOWN \<and> r \<le> - target)"

definition sample_outcome :: "Direction \<Rightarrow> nat \<Rightarrow> bool \<Rightarrow> bool \<Rightarrow> bool \<Rightarrow> SampleOutcome" where
  "sample_outcome direction n hit breached full =
     (if n < 2 then INSUFFICIENT_SAMPLES
      else if direction = NEUTRAL
      then (if breached then BAND_BREACH_OBSERVED else if full then WITHIN_BAND_AT_SAMPLES else INSUFFICIENT_SAMPLES)
      else if hit then OBSERVED_HIT else if full then TARGET_NOT_OBSERVED else INSUFFICIENT_SAMPLES)"

definition gaps :: "instant list \<Rightarrow> flt list" where
  "gaps ts = map (\<lambda>(a, b). total_seconds (b - a)) (zip ts (tl ts))"

definition evaluate_samples ::
  "instant \<Rightarrow> SessionWindow \<Rightarrow> Direction \<Rightarrow> SamplePolicy \<Rightarrow> string \<Rightarrow> string \<Rightarrow> PriceSampleObserved list \<Rightarrow> bool \<Rightarrow>
   SampleResult option \<Rightarrow> SampleResult" where
  "evaluate_samples decision_at w direction pol currency registry_version samples final previous =
     (let start = max decision_at (sw_opens_at w);
          expected = expected_slots start w pol
      in if length expected < 2 then bare_result S_UNSCORABLE INSUFFICIENT_WINDOW
         else
           let eligible = eligible_samples start w pol currency registry_version samples;
               undecided = (if final then S_UNSCORABLE else S_PENDING)
           in if eligible = [] then (bare_result undecided NO_BASELINE)\<lparr>sres_expected_samples := length expected\<rparr>
              else
                let baseline = hd eligible; delay = total_seconds (ps_observed_at baseline - start)
                in if delay > of_int (spol_max_baseline_delay_seconds pol) then bare_result undecided BASELINE_TOO_LATE
                   else if (case previous of
                              None \<Rightarrow> False
                            | Some p \<Rightarrow> sres_baseline_at p \<noteq> None \<and>
                                (sres_baseline_at p \<noteq> Some (ps_observed_at baseline) \<or>
                                 sres_baseline_price p \<noteq> Some (ps_price baseline) \<or>
                                 sres_mapping_version p \<noteq> Some (ps_mapping_version baseline)))
                   then bare_result S_UNSCORABLE BASELINE_REVISED
                   else if length (remdups (map ps_mapping_version eligible)) > 1
                   then bare_result S_UNSCORABLE MAPPING_CHANGED
                   else case fill_slots eligible [] of
                          None \<Rightarrow> bare_result S_UNSCORABLE CONFLICTING_SLOT
                        | Some by_slot \<Rightarrow>
                            let full = (set (dict_keys by_slot) = set expected);
                                subsequent = tl eligible;
                                ret = (\<lambda>s. change (ps_price baseline) (ps_price s));
                                hit = List.find (\<lambda>s. hits direction (spol_target_return pol) (ret s)) subsequent;
                                breached = list_ex (\<lambda>s. \<bar>ret s\<bar> > spol_neutral_band pol) subsequent
                            in (bare_result (if final then S_FINAL else S_PENDING)
                                  (sample_outcome direction (length eligible) (hit \<noteq> None) breached full))
                                 \<lparr>sres_baseline_at := Some (ps_observed_at baseline),
                                  sres_baseline_price := Some (ps_price baseline),
                                  sres_baseline_delay_seconds := Some delay,
                                  sres_mapping_version := Some (ps_mapping_version baseline),
                                  sres_observed_hit := (if direction \<noteq> NEUTRAL then Some (hit \<noteq> None) else None),
                                  sres_first_hit_at := map_option ps_observed_at hit,
                                  sres_last_observed_return :=
                                    (if subsequent = [] then None else Some (ret (last eligible))),
                                  sres_last_observed_at :=
                                    (if subsequent = [] then None else Some (ps_observed_at (last eligible))),
                                  sres_expected_samples := length expected,
                                  sres_observed_samples := length by_slot, sres_coverage_complete := full,
                                  sres_maximum_gap_seconds :=
                                    Some (max_of (gaps (start # map ps_observed_at eligible @ [sw_closes_at w])))\<rparr>)"

subsection \<open>Tables\<close>

record sample_evidence =
  sv_sample :: PriceSampleObserved
  sv_received_at :: instant

record sample_evaluation =
  sx_prediction_id :: uuid
  sx_asset_id :: AssetId
  sx_prediction :: PredictionMade
  sx_session_window :: SessionWindow
  sx_policy :: SamplePolicy
  sx_currency :: string
  sx_registry_version :: string
  sx_status :: SampleStatus
  sx_result :: "SampleResult option"
  sx_received_at :: instant
  sx_updated_at :: instant

record sampling_db =
  sd_evidence :: "sample_evidence list"
  sd_evaluations :: "sample_evaluation list"
  sd_withdrawals :: "(uuid, instant) dict"

record sampling_env =
  sn_registry :: Registry
  sn_exchange :: "string \<Rightarrow> exchange_calendar option"
  sn_shadow :: bool
  sn_calendars :: "(string, string) dict"
  sn_target_return :: dec
  sn_neutral_band :: dec

definition sample_withdrawn :: "sample_evaluation \<Rightarrow> sample_evaluation" where
  "sample_withdrawn e = e\<lparr>sx_status := S_WITHDRAWN, sx_result := Some (bare_result S_WITHDRAWN SUPERSEDED_BEFORE_OPEN)\<rparr>"

definition sx_opens :: "sample_evaluation \<Rightarrow> instant option" where
  "sx_opens e = Some (sw_opens_at (sx_session_window e))"

definition sample_supersede :: "PredictionMade \<Rightarrow> sampling_db \<Rightarrow> sampling_db" where
  "sample_supersede p db =
     (case pm_supersedes_prediction_id p of
        None \<Rightarrow> db
      | Some old \<Rightarrow>
          db\<lparr>sd_withdrawals := put_tombstone old (pm_decision_at p) (sd_withdrawals db),
             sd_evaluations := update_where
               (\<lambda>e. sx_prediction_id e = old \<and> (case sx_opens e of None \<Rightarrow> False | Some o' \<Rightarrow> pm_decision_at p \<le> o'))
               sample_withdrawn (sd_evaluations db)\<rparr>)"

definition sample_register ::
  "sampling_env \<Rightarrow> instant \<Rightarrow> PredictionMade \<Rightarrow> (sampling_db, intraday_error, unit) prog" where
  \<comment> \<open>one transaction: a raise rolls the tombstone back\<close>
  "sample_register env now p db =
     (if \<not> sn_shadow env then (Inr (), db)
      else case dict_get (sn_calendars env) (pm_asset_id p) of
        None \<Rightarrow> (Inr (), sample_supersede p db)
      | Some cal \<Rightarrow>
          if cal = [] then (Inr (), sample_supersede p db)
          else case resolve (sn_registry env) (pm_asset_id p) of
            Inl e \<Rightarrow> (Inl (IRegistryError e), db)
          | Inr series \<Rightarrow>
              (case resolve_window (sn_exchange env) (pm_decision_at p) cal (rs_timezone series) of
                 Inl e \<Rightarrow> (Inl (IPyError e), db)
               | Inr w \<Rightarrow>
                   let db' = sample_supersede p db
                   in if pm_prediction_id p \<in> set (map sx_prediction_id (sd_evaluations db')) then (Inr (), db')
                      else (Inr (), db'\<lparr>sd_evaluations := sd_evaluations db' @
                        [\<lparr>sx_prediction_id = pm_prediction_id p, sx_asset_id = pm_asset_id p, sx_prediction = p,
                          sx_session_window = w,
                          sx_policy = sample_policy_of (sn_target_return env) (sn_neutral_band env),
                          sx_currency = rs_currency series, sx_registry_version = rs_registry_version series,
                          sx_status = S_PENDING, sx_result = None, sx_received_at = now, sx_updated_at = now\<rparr>]\<rparr>)))"

definition sample_observe :: "instant \<Rightarrow> PriceSampleObserved \<Rightarrow> (sampling_db, intraday_error, unit) prog" where
  "sample_observe now s db =
     (case fetch_first (\<lambda>v. ps_sample_id (sv_sample v) = ps_sample_id s) (sd_evidence db) of
        None \<Rightarrow> (Inr (), db\<lparr>sd_evidence := sd_evidence db @ [\<lparr>sv_sample = s, sv_received_at = now\<rparr>]\<rparr>)
      | Some v \<Rightarrow>
          if sv_sample v \<noteq> s then (Inl (IPyError (ValueError ''conflicting immutable sample'')), db)
          else (Inr (), db))"

definition sample_result :: "instant \<Rightarrow> sampling_db \<Rightarrow> sample_evaluation \<Rightarrow> SampleResult" where
  "sample_result now db e =
     (let w = sx_session_window e;
          final_at = sw_closes_at w + seconds (spol_delivery_grace_seconds (sx_policy e));
          samples = map sv_sample (filter (\<lambda>v. ps_asset_id (sv_sample v) = sx_asset_id e \<and>
            sw_opens_at w \<le> ps_observed_at (sv_sample v) \<and> ps_observed_at (sv_sample v) < sw_closes_at w \<and>
            sv_received_at v \<le> final_at) (sd_evidence db))
      in if superseded_before (sd_withdrawals db) (sx_prediction_id e) (Some (sw_opens_at w))
         then bare_result S_WITHDRAWN SUPERSEDED_BEFORE_OPEN
         else evaluate_samples (pm_decision_at (sx_prediction e)) w (pm_direction (sx_prediction e)) (sx_policy e)
                (sx_currency e) (sx_registry_version e) samples (now \<ge> final_at) (sx_result e))"

definition sample_score :: "instant \<Rightarrow> uuid \<Rightarrow> sampling_db \<Rightarrow> sampling_db" where
  "sample_score now pid db =
     (case fetch_first (\<lambda>e. sx_prediction_id e = pid \<and> sx_status e = S_PENDING) (sd_evaluations db) of
        None \<Rightarrow> db
      | Some e \<Rightarrow>
          let r = sample_result now db e
          in db\<lparr>sd_evaluations := update_where (\<lambda>e. sx_prediction_id e = pid)
               (\<lambda>e. e\<lparr>sx_result := Some r, sx_status := sres_status r, sx_updated_at := now\<rparr>) (sd_evaluations db)\<rparr>)"

definition sample_tick :: "instant \<Rightarrow> sampling_db \<Rightarrow> sampling_db" where
  "sample_tick now db =
     foldl (\<lambda>db e. sample_score now (sx_prediction_id e) db) db
       (select_ordered (\<lambda>e. sx_status e = S_PENDING) sx_updated_at 100 (sd_evaluations db))"

subsection \<open>What an outcome means\<close>

lemma fill_slots_keys:
  "fill_slots ss d = Some d' \<Longrightarrow> set (dict_keys d') = set (dict_keys d) \<union> ps_scheduled_at ` set ss"
proof (induction ss d rule: fill_slots.induct)
  case (2 s ss d)
  have "set (dict_keys d') = set (dict_keys (dict_set d (ps_scheduled_at s) s)) \<union> ps_scheduled_at ` set ss"
    using 2 by (auto split: option.splits if_splits)
  then show ?case by (simp only: set_dict_keys_set) auto
qed simp

lemma eligible_samples_mem:
  "s \<in> set (eligible_samples start w pol cur ver samples) \<longleftrightarrow> s \<in> set samples \<and> usable_sample start w pol cur ver s"
  by (simp add: eligible_samples_def)

lemma eligible_samples_baseline:
  assumes "distinct samples" "eligible_samples start w pol cur ver samples \<noteq> []"
  defines "b \<equiv> hd (eligible_samples start w pol cur ver samples)"
  shows "set (tl (eligible_samples start w pol cur ver samples)) = {s \<in> set samples. usable_sample start w pol cur ver s \<and> s \<noteq> b}"
    and "b \<in> set samples" "usable_sample start w pol cur ver b"
    and "s \<in> set samples \<Longrightarrow> usable_sample start w pol cur ver s \<Longrightarrow> ps_observed_at b \<le> ps_observed_at s"
proof -
  define el where "el = eligible_samples start w pol cur ver samples"
  obtain ss where el: "el = b # ss" using assms(2) by (cases el) (simp_all add: el_def b_def)
  have "distinct (b # ss)" "sorted (map ps_observed_at (b # ss))"
    using assms(1) unfolding el [symmetric] by (simp_all add: el_def eligible_samples_def)
  moreover have "set (b # ss) = {x \<in> set samples. usable_sample start w pol cur ver x}"
    unfolding el [symmetric] el_def by (auto simp: eligible_samples_mem)
  ultimately show "set (tl (eligible_samples start w pol cur ver samples)) = {s \<in> set samples. usable_sample start w pol cur ver s \<and> s \<noteq> b}"
    and "b \<in> set samples" "usable_sample start w pol cur ver b"
    and "s \<in> set samples \<Longrightarrow> usable_sample start w pol cur ver s \<Longrightarrow> ps_observed_at b \<le> ps_observed_at s"
    unfolding el_def [symmetric] el by (auto simp: set_eq_iff)
qed

text \<open>The one branch that reports an outcome on observed prices.\<close>

lemma evaluate_samples_measured:
  assumes "sres_baseline_at (evaluate_samples decision_at w direction pol cur ver samples final prev) \<noteq> None"
  defines "start \<equiv> max decision_at (sw_opens_at w)"
  defines "el \<equiv> eligible_samples start w pol cur ver samples"
  shows "\<exists>slots. el \<noteq> [] \<and> fill_slots el [] = Some slots \<and>
    sres_baseline_price (evaluate_samples decision_at w direction pol cur ver samples final prev) = Some (ps_price (hd el)) \<and>
    sres_outcome (evaluate_samples decision_at w direction pol cur ver samples final prev) =
      Some (sample_outcome direction (length el)
        (\<exists>s \<in> set (tl el). hits direction (spol_target_return pol) (change (ps_price (hd el)) (ps_price s)))
        (\<exists>s \<in> set (tl el). \<bar>change (ps_price (hd el)) (ps_price s)\<bar> > spol_neutral_band pol)
        (set (dict_keys slots) = set (expected_slots start w pol)))"
proof -
  have find: "(\<exists>y. List.find p xs = Some y) \<longleftrightarrow> (\<exists>x \<in> set xs. p x)" for p and xs :: "PriceSampleObserved list"
    using find_None_iff [of p xs] by (metis not_None_eq)
  show ?thesis
    using assms(1)
    by (auto simp: evaluate_samples_def Let_def start_def [symmetric] el_def [symmetric] bare_result_def find list_ex_iff
        split: if_splits option.splits)
qed

text \<open>
  A point-sample outcome claims no more than the samples show.  Let \<open>usable\<close> be the samples of the
  session that meet every freshness, currency, registry and slot condition.  TARGET_NOT_OBSERVED and
  WITHIN_BAND_AT_SAMPLES are reported only when every expected slot of the session has a usable sample and
  none after the earliest one reaches the target (leaves the band); OBSERVED_HIT and BAND_BREACH_OBSERVED
  only when such a later sample exists.  Returns are relative to the earliest usable sample.
\<close>

theorem sampled_outcome_sound:
  assumes "distinct samples"
    and "sres_baseline_at (evaluate_samples decision_at w dir pol cur ver samples final prev) \<noteq> None"
    and "start = max decision_at (sw_opens_at w)"
    and "usable = {s \<in> set samples. usable_sample start w pol cur ver s}"
  shows "\<exists>b. b \<in> usable \<and> (\<forall>s \<in> usable. ps_observed_at b \<le> ps_observed_at s) \<and>
    sres_baseline_price (evaluate_samples decision_at w dir pol cur ver samples final prev) = Some (ps_price b) \<and>
    (case sres_outcome (evaluate_samples decision_at w dir pol cur ver samples final prev) of
       Some TARGET_NOT_OBSERVED \<Rightarrow>
         dir \<noteq> NEUTRAL \<and> set (expected_slots start w pol) = ps_scheduled_at ` usable \<and>
         (\<forall>s \<in> usable - {b}. \<not> hits dir (spol_target_return pol) (change (ps_price b) (ps_price s)))
     | Some WITHIN_BAND_AT_SAMPLES \<Rightarrow>
         dir = NEUTRAL \<and> set (expected_slots start w pol) = ps_scheduled_at ` usable \<and>
         (\<forall>s \<in> usable - {b}. \<bar>change (ps_price b) (ps_price s)\<bar> \<le> spol_neutral_band pol)
     | Some OBSERVED_HIT \<Rightarrow>
         dir \<noteq> NEUTRAL \<and> (\<exists>s \<in> usable - {b}. hits dir (spol_target_return pol) (change (ps_price b) (ps_price s)))
     | Some BAND_BREACH_OBSERVED \<Rightarrow>
         dir = NEUTRAL \<and> (\<exists>s \<in> usable - {b}. \<bar>change (ps_price b) (ps_price s)\<bar> > spol_neutral_band pol)
     | Some INSUFFICIENT_SAMPLES \<Rightarrow> True
     | _ \<Rightarrow> False)"
proof -
  define el where "el = eligible_samples start w pol cur ver samples"
  obtain slots where ne: "el \<noteq> []" and slots: "fill_slots el [] = Some slots"
    and price: "sres_baseline_price (evaluate_samples decision_at w dir pol cur ver samples final prev) = Some (ps_price (hd el))"
    and outcome: "sres_outcome (evaluate_samples decision_at w dir pol cur ver samples final prev) =
      Some (sample_outcome dir (length el)
        (\<exists>s \<in> set (tl el). hits dir (spol_target_return pol) (change (ps_price (hd el)) (ps_price s)))
        (\<exists>s \<in> set (tl el). \<bar>change (ps_price (hd el)) (ps_price s)\<bar> > spol_neutral_band pol)
        (set (dict_keys slots) = set (expected_slots start w pol)))"
    using evaluate_samples_measured [OF assms(2)] by (auto simp: el_def assms(3))
  note base = eligible_samples_baseline [OF assms(1), of start w pol cur ver, folded el_def, OF ne]
  have tl: "set (tl el) = usable - {hd el}" using base(1) by (auto simp: assms(4))
  have keys: "set (dict_keys slots) = ps_scheduled_at ` usable"
    using fill_slots_keys [OF slots] by (auto simp: el_def eligible_samples_mem assms(4))
  show ?thesis
  proof (intro exI [of _ "hd el"] conjI)
    show "hd el \<in> usable" "\<forall>s \<in> usable. ps_observed_at (hd el) \<le> ps_observed_at s" using base by (auto simp: assms(4))
  qed (use price in \<open>simp_all add: outcome [unfolded keys tl] sample_outcome_def not_less\<close>)
qed

definition sample_at :: "uuid \<Rightarrow> instant \<Rightarrow> dec \<Rightarrow> PriceSampleObserved" where
  "sample_at i t price =
     \<lparr>message_id = i, correlation_id = i, causation_id = None, occurred_at = t, ps_sample_id = i, ps_asset_id = ''GOLD'',
      ps_mapping_version = ''m'', ps_registry_version = ''1'', ps_session = 1, ps_opens_at = 0, ps_closes_at = seconds 1800,
      ps_scheduled_at = t, ps_observed_at = t, ps_provider_quote_at = Some t, ps_price = price,
      ps_quote_delay_seconds = None, ps_currency = ''USD'', ps_quote_unit = ''USD'', ps_interval_seconds = 900,
      ps_kind = REGULAR, ps_market_state = REGULAR_OPEN, ps_quality = FRESH\<rparr>"

definition half_hour :: SessionWindow where
  "half_hour = \<lparr>sw_calendar_id = ''XNYS'', sw_opens_at = 0, sw_closes_at = seconds 1800\<rparr>"

theorem sampled_outcome_sound_witness:
  "\<exists>b. b \<in> {sample_at 2 0 100, sample_at 3 (seconds 900) 101} \<and>
     sres_baseline_price (evaluate_samples 0 half_hour UP (sample_policy_of (3 / 1000) (3 / 1000)) ''USD'' ''1''
       [sample_at 3 (seconds 900) 101, sample_at 2 0 100] True None) = Some (ps_price b)"
proof -
  let ?pol = "sample_policy_of (3 / 1000) (3 / 1000)" and ?ss = "[sample_at 3 (seconds 900) 101, sample_at 2 0 100]"
  have times: "slot_times 0 (seconds 1800) (seconds 900) = [0, seconds 900]"
    by (simp add: slot_times.simps duration_defs)
  then have slots: "expected_slots 0 half_hour ?pol = [0, seconds 900]"
    by (simp add: expected_slots_def half_hour_def sample_policy_of_def duration_defs)
  have usable: "usable_sample 0 half_hour ?pol ''USD'' ''1'' s" if "s \<in> set ?ss" for s
    using that by (auto simp: usable_sample_def slots, auto simp: sample_at_def half_hour_def total_seconds_def duration_defs
        sample_policy_of_def)
  have el: "eligible_samples 0 half_hour ?pol ''USD'' ''1'' ?ss = [sample_at 2 0 100, sample_at 3 (seconds 900) 101]"
    using usable by (simp add: eligible_samples_def) (simp add: sample_at_def duration_defs)
  have fill: "fill_slots [sample_at 2 0 100, sample_at 3 (seconds 900) 101] [] \<noteq> None"
    by (simp add: sample_at_def duration_defs)
  have start: "max 0 (sw_opens_at half_hour) = 0" by (simp add: half_hour_def)
  have "sres_baseline_at (evaluate_samples 0 half_hour UP ?pol ''USD'' ''1'' ?ss True None) \<noteq> None"
    unfolding evaluate_samples_def start Let_def slots el
    using fill by (auto simp: total_seconds_def sample_policy_of_def bare_result_def split: option.splits)
      (auto simp: sample_at_def)
  from sampled_outcome_sound [OF _ this refl refl] show ?thesis
    by (auto simp: start) (auto simp: sample_at_def)
qed

subsection \<open>Superseded predictions\<close>

definition sample_unsettled :: "sample_evaluation \<Rightarrow> bool" where
  "sample_unsettled e \<longleftrightarrow> sx_status e = S_PENDING \<or> sx_status e = S_WITHDRAWN"

interpretation sshadow: tombstoned sx_prediction_id sx_opens sample_unsettled sample_withdrawn
  by unfold_locales (simp_all add: sample_withdrawn_def sx_opens_def sample_unsettled_def)

definition wf_samples :: "sampling_db \<Rightarrow> bool" where
  "wf_samples db \<longleftrightarrow>
     distinct (map sx_prediction_id (sd_evaluations db)) \<and>
     distinct (map (\<lambda>v. ps_sample_id (sv_sample v)) (sd_evidence db)) \<and>
     sshadow.honoured (sd_withdrawals db) (sd_evaluations db)"

inductive sstep :: "sampling_env \<Rightarrow> sampling_db \<Rightarrow> sampling_db \<Rightarrow> bool" for env where
  s_register: "sstep env db (snd (sample_register env now p db))"
| s_observe: "sstep env db (snd (sample_observe now s db))"
| s_tick: "sstep env db (sample_tick now db)"

definition empty_samples :: sampling_db where
  "empty_samples = \<lparr>sd_evidence = [], sd_evaluations = [], sd_withdrawals = []\<rparr>"

lemma wf_sample_supersede:
  assumes "wf_samples db"
  shows "wf_samples (sample_supersede p db)"
proof (cases "pm_supersedes_prediction_id p")
  case None
  then show ?thesis using assms by (simp add: sample_supersede_def)
next
  case (Some old)
  have "sshadow.honoured (put_tombstone old (pm_decision_at p) (sd_withdrawals db))
    (update_where (\<lambda>e. sx_prediction_id e = old \<and> (case sx_opens e of None \<Rightarrow> False | Some o' \<Rightarrow> pm_decision_at p \<le> o'))
      sample_withdrawn (sd_evaluations db))"
    using assms by (intro sshadow.honoured_supersede) (simp add: wf_samples_def)
  then show ?thesis
    using assms by (simp add: sample_supersede_def Some wf_samples_def map_update_where sample_withdrawn_def)
qed

lemma wf_sample_register:
  assumes "wf_samples db"
  shows "wf_samples (snd (sample_register env now p db))"
proof -
  have "sshadow.honoured (sd_withdrawals db') (sd_evaluations db' @ [e])"
    if "wf_samples db'" "sx_status e = S_PENDING" for db' e
    using that by (intro sshadow.honoured_append) (simp_all add: wf_samples_def sample_unsettled_def)
  then show ?thesis
    using assms wf_sample_supersede [OF assms, of p]
    by (auto simp: sample_register_def Let_def split: option.splits sum.splits) (auto simp: wf_samples_def)
qed

lemma wf_sample_score:
  assumes "wf_samples db"
  shows "wf_samples (sample_score now pid db)"
proof (cases "fetch_first (\<lambda>e. sx_prediction_id e = pid \<and> sx_status e = S_PENDING) (sd_evaluations db)")
  case None
  then show ?thesis using assms by (simp add: sample_score_def)
next
  case (Some e)
  define r where "r = sample_result now db e"
  have e: "e \<in> set (sd_evaluations db)" "sx_prediction_id e = pid" using fetch_first_Some [OF Some] by auto
  have same: "e' = e" if "e' \<in> set (sd_evaluations db)" "sx_prediction_id e' = pid" for e'
    using that e assms by (auto simp: wf_samples_def distinct_map dest: inj_onD)
  have "sshadow.honoured (sd_withdrawals db) (update_where (\<lambda>e. sx_prediction_id e = pid)
      (\<lambda>e. e\<lparr>sx_result := Some r, sx_status := sres_status r, sx_updated_at := now\<rparr>) (sd_evaluations db))"
  proof (rule sshadow.honoured_update)
    show "sample_unsettled (e'\<lparr>sx_result := Some r, sx_status := sres_status r, sx_updated_at := now\<rparr>)"
      if "e' \<in> set (sd_evaluations db)" "sx_prediction_id e' = pid"
        "superseded_before (sd_withdrawals db) (sx_prediction_id e') (sx_opens e')" for e'
      using that same [OF that(1,2)] by (simp add: r_def sample_result_def sx_opens_def bare_result_def sample_unsettled_def)
  qed (use assms in \<open>simp_all add: wf_samples_def sx_opens_def\<close>)
  then show ?thesis
    using assms by (simp add: sample_score_def Some r_def [symmetric] Let_def wf_samples_def map_update_where)
qed

lemma wf_sample_tick: "wf_samples db \<Longrightarrow> wf_samples (sample_tick now db)"
proof -
  have "wf_samples db \<Longrightarrow> wf_samples (foldl (\<lambda>db e. sample_score now (sx_prediction_id e) db) db es)" for es
    by (induction es arbitrary: db) (simp_all add: wf_sample_score)
  then show "wf_samples db \<Longrightarrow> wf_samples (sample_tick now db)" by (simp add: sample_tick_def)
qed

lemma wf_samples_reachable: "(sstep env)\<^sup>*\<^sup>* empty_samples db \<Longrightarrow> wf_samples db"
proof (induction rule: rtranclp_induct)
  case base
  then show ?case by (simp add: wf_samples_def empty_samples_def sshadow.honoured_def)
next
  case (step db db')
  from step(2,3) show ?case
  proof (cases rule: sstep.cases)
    case (s_observe now s)
    then show ?thesis using step(3)
      by (auto simp: sample_observe_def wf_samples_def fetch_first_None_iff split: option.splits)
  qed (simp_all add: wf_sample_register wf_sample_tick)
qed

text \<open>
  The point-sample service honours supersession in either order of arrival: in every reachable state
  an evaluation whose prediction was superseded at or before its session's open is pending or withdrawn,
  never final or unscorable, and a scoring pass leaves it withdrawn.
\<close>

theorem sample_superseded_never_final:
  assumes "(sstep env)\<^sup>*\<^sup>* empty_samples db" and "e \<in> set (sd_evaluations db)"
    and "dict_get (sd_withdrawals db) (sx_prediction_id e) = Some t" and "t \<le> sw_opens_at (sx_session_window e)"
  shows "(sx_status e = S_PENDING \<or> sx_status e = S_WITHDRAWN) \<and>
    (\<forall>e' \<in> set (sd_evaluations (sample_score now (sx_prediction_id e) db)).
       sx_prediction_id e' = sx_prediction_id e \<longrightarrow> sx_status e' = S_WITHDRAWN)"
proof -
  have wf: "wf_samples db" by (rule wf_samples_reachable [OF assms(1)])
  have sup: "superseded_before (sd_withdrawals db) (sx_prediction_id e) (sx_opens e)"
    using assms(3,4) by (simp add: superseded_before_def sx_opens_def)
  have unsettled: "sample_unsettled e" using wf sup assms(2) by (simp add: wf_samples_def sshadow.honoured_def)
  have same: "e' = e" if "e' \<in> set (sd_evaluations db)" "sx_prediction_id e' = sx_prediction_id e" for e'
    using that assms(2) wf by (auto simp: wf_samples_def distinct_map dest: inj_onD)
  have "sx_status e' = S_WITHDRAWN"
    if e': "e' \<in> set (sd_evaluations (sample_score now (sx_prediction_id e) db))" "sx_prediction_id e' = sx_prediction_id e" for e'
  proof (cases "fetch_first (\<lambda>x. sx_prediction_id x = sx_prediction_id e \<and> sx_status x = S_PENDING) (sd_evaluations db)")
    case None
    then have "sx_status e = S_WITHDRAWN"
      using unsettled assms(2) by (auto simp: fetch_first_None_iff sample_unsettled_def)
    moreover have "e' = e" using e' same None by (simp add: sample_score_def)
    ultimately show ?thesis by simp
  next
    case (Some x)
    then have "x = e" using fetch_first_Some [OF Some] same by blast
    then have "sres_status (sample_result now db x) = S_WITHDRAWN"
      using sup by (simp add: sample_result_def sx_opens_def bare_result_def Let_def)
    then show ?thesis using e' by (auto simp: sample_score_def Some Let_def set_update_where)
  qed
  then show ?thesis using unsettled by (simp add: sample_unsettled_def)
qed

definition sample_senv :: sampling_env where
  "sample_senv = \<lparr>sn_registry = sample_registry, sn_exchange = iv_exchange sample_ienv, sn_shadow = True,
     sn_calendars = [(''GOLD'', ''XNYS'')], sn_target_return = 3 / 1000, sn_neutral_band = 3 / 1000\<rparr>"

theorem sample_superseded_never_final_witness:
  "map (\<lambda>e. (sx_prediction_id e, sx_status e)) (sd_evaluations (sample_score 9 3 (snd (sample_register sample_senv 6
     (sample_prediction 3) (snd (sample_register sample_senv 5 sample_successor empty_samples)))))) =
     [(2, S_PENDING), (3, S_WITHDRAWN)]"
proof -
  let ?db1 = "snd (sample_register sample_senv 5 sample_successor empty_samples)"
  let ?db = "snd (sample_register sample_senv 6 (sample_prediction 3) ?db1)"
  let ?db' = "sample_score 9 3 ?db"
  obtain series where series: "resolve sample_registry ''GOLD'' = Inr series" "rs_timezone series = ''America/New_York''"
    by (simp add: resolve_def sample_registry_def to_series_def sample_entry_def)
  have window: "resolve_window (iv_exchange sample_ienv) 0 ''XNYS'' ''America/New_York'' =
      Inr \<lparr>sw_calendar_id = ''XNYS'', sw_opens_at = minutes 30, sw_closes_at = minutes 420\<rparr>"
    by (simp add: resolve_window_def sample_ienv_def sample_calendar_def Let_def duration_defs)
  have db: "\<exists>a b. sd_evaluations ?db = [a, b] \<and> sx_prediction_id a = 2 \<and> sx_prediction_id b = 3 \<and> sx_status a = S_PENDING \<and>
      sw_opens_at (sx_session_window b) = minutes 30 \<and> dict_get (sd_withdrawals ?db) 3 = Some 0"
    using series window
    by (simp add: sample_register_def sample_senv_def sample_successor_def sample_prediction_def sample_supersede_def
        empty_samples_def Let_def put_tombstone_def)
  then obtain a b where ab: "sd_evaluations ?db = [a, b]" "sx_prediction_id a = 2" "sx_prediction_id b = 3" "sx_status a = S_PENDING"
      "sw_opens_at (sx_session_window b) = minutes 30" "dict_get (sd_withdrawals ?db) 3 = Some 0" by blast
  have reach: "(sstep sample_senv)\<^sup>*\<^sup>* empty_samples ?db"
    by (rule converse_rtranclp_into_rtranclp [OF s_register r_into_rtranclp [of "sstep sample_senv", OF s_register]])
  have "\<exists>b'. sd_evaluations ?db' = [a, b'] \<and> sx_prediction_id b' = 3"
    using ab by (auto simp: sample_score_def Let_def split: option.splits)
  moreover have "\<forall>e' \<in> set (sd_evaluations ?db'). sx_prediction_id e' = 3 \<longrightarrow> sx_status e' = S_WITHDRAWN"
    using sample_superseded_never_final [OF reach, of b 0 9] ab by (simp add: duration_defs)
  ultimately show ?thesis using ab by auto
qed

end
