(* ===== verification/Verification.thy ===== *)
theory Verification
  imports Registry Outbox Rounding
begin

text \<open>
  The daily Verification service (\<^verbatim>\<open>services/verification/verification\<close>: \<^verbatim>\<open>scoring.py\<close>,
  \<^verbatim>\<open>models.py\<close>, \<^verbatim>\<open>repository.py\<close>, \<^verbatim>\<open>pipeline.py\<close>, the daily tables of \<^verbatim>\<open>db.py\<close>).

  Closes are decimals: the difference and the quotient are rounded to 28 digits, and the return is
  rounded once more to a float.  \<^verbatim>\<open>uuid5\<close> in the fixed namespace is the parameter \<open>ve_uuid5\<close>, a
  deterministic identifier of the text it is given.  The JSON columns hold what was dumped, so a loaded
  evaluation is the stored one.
\<close>

subsection \<open>Scoring\<close>

record ScoreOutcome =
  so_actual_return :: flt
  so_actual_direction :: Direction
  so_actual_magnitude :: Magnitude
  so_is_correct :: bool
  so_score :: flt

definition return_of :: "dec \<Rightarrow> dec \<Rightarrow> flt" where
  "return_of baseline settlement = fl64 (dec28 (dec28 (settlement - baseline) / baseline))"

definition direction_of :: "flt \<Rightarrow> flt \<Rightarrow> Direction" where
  "direction_of deadband ret =
     (if \<bar>ret\<bar> < deadband then NEUTRAL else if ret > 0 then UP else DOWN)"

definition score :: "dec \<Rightarrow> dec \<Rightarrow> Direction \<Rightarrow> flt \<Rightarrow> flt \<Rightarrow> flt \<Rightarrow> (py_error, ScoreOutcome) result" where
  "score baseline_close settlement_close predicted deadband medium_min large_min =
     (if baseline_close = 0 then Inl ZeroDivisionError
      else
        let actual_return = return_of baseline_close settlement_close;
            magnitude_abs = \<bar>actual_return\<bar>;
            actual_direction = direction_of deadband actual_return;
            actual_magnitude = (if magnitude_abs < medium_min then SMALL
                                else if magnitude_abs < large_min then MEDIUM else LARGE);
            is_correct = (predicted = actual_direction)
        in Inr \<lparr>so_actual_return = actual_return, so_actual_direction = actual_direction,
                so_actual_magnitude = actual_magnitude, so_is_correct = is_correct,
                so_score = (if is_correct then 1 else 0)\<rparr>)"

subsection \<open>Tables\<close>

datatype EvaluationStatus = EV_PENDING | EV_AWAITING_PRICE | EV_SCORED | EV_WITHDRAWN

record EvaluationRecord =
  er_prediction_id :: uuid
  er_context_id :: uuid
  er_asset_id :: AssetId
  er_predicted_direction :: Direction
  er_predicted_magnitude :: Magnitude
  er_confidence :: flt
  er_decision_at :: instant
  er_baseline_session :: date
  er_settlement_session :: date
  er_market_calendar :: string
  er_registry_version :: string
  er_request_id :: uuid
  er_correlation_id :: uuid
  er_contributing_edges :: "ContributingEdge list"
  er_source_ids :: "string list"
  er_propagation_chain :: "PropagationHop list"
  er_status :: EvaluationStatus

record price_observation_row =
  ob_request_id :: uuid
  ob_prediction_id :: uuid
  ob_asset_id :: AssetId
  ob_baseline :: CloseObservation
  ob_settlement :: CloseObservation

record score_row =
  sr_prediction_id :: uuid
  sr_asset_id :: AssetId
  sr_predicted_direction :: Direction
  sr_actual_direction :: Direction
  sr_predicted_magnitude :: Magnitude
  sr_actual_magnitude :: Magnitude
  sr_confidence :: flt
  sr_actual_return :: flt
  sr_is_correct :: bool
  sr_score :: flt
  sr_scored_at :: instant

record verification_db =
  vd_evaluations :: "EvaluationRecord list"
  vd_observations :: "price_observation_row list"
  vd_scores :: "score_row list"
  vd_outbox :: "(string \<times> verification_message) outbox_row list"
  vd_next_uuid :: uuid

datatype verification_error =
    InvalidPredictionError string
  | OrphanedObservationError uuid
  | PriceValidationError string
  | VCalendarError calendar_error
  | VRegistryError registry_error
  | UniqueViolation
  | VPyError py_error

type_synonym 'a vprog = "(verification_db, verification_error, 'a) prog"

record verification_env =
  ve_registry :: Registry
  ve_tz :: tzdb
  ve_uuid5 :: "uuid \<Rightarrow> string \<Rightarrow> uuid"
  ve_deadband :: flt
  ve_magnitude_medium_min :: flt
  ve_magnitude_large_min :: flt

subsection \<open>Repository\<close>

definition create_evaluation_with_outbox :: "EvaluationRecord \<Rightarrow> PriceRequested \<Rightarrow> bool vprog" where
  "create_evaluation_with_outbox evaluation request db =
     (if er_prediction_id evaluation \<in> set (map er_prediction_id (vd_evaluations db)) then (Inr False, db)
      else if er_request_id evaluation \<in> set (map er_request_id (vd_evaluations db)) then (Inl UniqueViolation, db)
      else (Inr True,
            db\<lparr>vd_evaluations := vd_evaluations db @ [evaluation\<lparr>er_status := EV_PENDING\<rparr>],
               vd_outbox := vd_outbox db @ [new_outbox_row (message_id request) (er_prediction_id evaluation)
                 (''PriceRequested'', VPriceRequested request) (occurred_at request)]\<rparr>))"

definition store_price_observation :: "PriceObserved \<Rightarrow> verification_db \<Rightarrow> bool \<times> verification_db" where
  "store_price_observation m db =
     (if po_request_id m \<in> set (map ob_request_id (vd_observations db)) then (False, db)
      else (True, db\<lparr>vd_observations := vd_observations db @
        [\<lparr>ob_request_id = po_request_id m, ob_prediction_id = po_prediction_id m, ob_asset_id = po_asset_id m,
          ob_baseline = po_baseline m, ob_settlement = po_settlement m\<rparr>]\<rparr>))"

definition load_evaluation_by_request_id ::
  "Registry \<Rightarrow> uuid \<Rightarrow> verification_db \<Rightarrow> (verification_error, EvaluationRecord option) result" where
  \<comment> \<open>\<^verbatim>\<open>AssetId(row["asset_id"])\<close> raises for an asset the registry no longer has\<close>
  "load_evaluation_by_request_id reg rid db =
     (case fetch_first (\<lambda>e. er_request_id e = rid) (vd_evaluations db) of
        None \<Rightarrow> Inr None
      | Some ev \<Rightarrow> if is_known_asset reg (er_asset_id ev) then Inr (Some ev)
                   else Inl (VPyError (ValueError (''unknown asset_id '' @ er_asset_id ev))))"

definition withdraw_evaluation :: "uuid \<Rightarrow> verification_db \<Rightarrow> verification_db" where
  "withdraw_evaluation pid db =
     db\<lparr>vd_evaluations := update_where (\<lambda>e. er_prediction_id e = pid \<and> er_status e = EV_PENDING)
          (\<lambda>e. e\<lparr>er_status := EV_WITHDRAWN\<rparr>) (vd_evaluations db)\<rparr>"

definition mark_scored :: "uuid \<Rightarrow> verification_db \<Rightarrow> verification_db" where
  "mark_scored pid db =
     db\<lparr>vd_evaluations := update_where (\<lambda>e. er_prediction_id e = pid)
          (\<lambda>e. e\<lparr>er_status := EV_SCORED\<rparr>) (vd_evaluations db)\<rparr>"

definition score_row_of :: "PredictionScored \<Rightarrow> score_row" where
  "score_row_of s =
     \<lparr>sr_prediction_id = sc_prediction_id s, sr_asset_id = sc_asset_id s,
      sr_predicted_direction = sc_predicted_direction s, sr_actual_direction = sc_actual_direction s,
      sr_predicted_magnitude = sc_predicted_magnitude s, sr_actual_magnitude = sc_actual_magnitude s,
      sr_confidence = sc_confidence s, sr_actual_return = sc_actual_return s,
      sr_is_correct = sc_is_correct s, sr_score = sc_score s, sr_scored_at = sc_scored_at s\<rparr>"

definition store_score_with_outbox :: "PredictionScored \<Rightarrow> verification_db \<Rightarrow> bool \<times> verification_db" where
  "store_score_with_outbox s db =
     (if sc_prediction_id s \<in> set (map sr_prediction_id (vd_scores db))
      then (False, mark_scored (sc_prediction_id s) db)
      else (True, mark_scored (sc_prediction_id s)
              (db\<lparr>vd_scores := vd_scores db @ [score_row_of s],
                  vd_outbox := vd_outbox db @ [new_outbox_row (message_id s) (sc_prediction_id s)
                    (''PredictionScored'', VPredictionScored s) (sc_scored_at s)]\<rparr>)))"

subsection \<open>Pipeline\<close>

definition evaluation_of :: "verification_env \<Rightarrow> PredictionMade \<Rightarrow> (verification_error, EvaluationRecord) result" where
  "evaluation_of env m =
     (case resolve (ve_registry env) (pm_asset_id m) of
        Inl _ \<Rightarrow> Inl (InvalidPredictionError (''unknown asset '' @ pm_asset_id m))
      | Inr series \<Rightarrow>
          (case resolve_baseline_settlement (ve_tz env) (pm_decision_at m) (rs_timezone series)
                  (rs_session_completion_hour series) (rs_session_completion_minute series) of
             Inl e \<Rightarrow> Inl (VCalendarError e)
           | Inr (baseline_session, settlement_session) \<Rightarrow>
               Inr \<lparr>er_prediction_id = pm_prediction_id m, er_context_id = pm_context_id m,
                    er_asset_id = pm_asset_id m, er_predicted_direction = pm_direction m,
                    er_predicted_magnitude = pm_magnitude m, er_confidence = pm_confidence m,
                    er_decision_at = pm_decision_at m, er_baseline_session = baseline_session,
                    er_settlement_session = settlement_session, er_market_calendar = rs_timezone series,
                    er_registry_version = rs_registry_version series,
                    er_request_id = ve_uuid5 env (pm_prediction_id m) (rs_registry_version series),
                    er_correlation_id = correlation_id m, er_contributing_edges = pm_contributing_edges m,
                    er_source_ids = [], er_propagation_chain = pm_propagation_chain m,
                    er_status = EV_PENDING\<rparr>))"

definition price_request :: "instant \<Rightarrow> uuid \<Rightarrow> PredictionMade \<Rightarrow> EvaluationRecord \<Rightarrow> PriceRequested" where
  "price_request now mid m ev =
     \<lparr>message_id = mid, correlation_id = correlation_id m, causation_id = Some (message_id m),
      occurred_at = now, pr_request_id = er_request_id ev, pr_prediction_id = pm_prediction_id m,
      pr_asset_id = pm_asset_id m, pr_baseline_session = er_baseline_session ev,
      pr_settlement_session = er_settlement_session ev, pr_market_calendar = er_market_calendar ev\<rparr>"

definition withdraw_superseded :: "PredictionMade \<Rightarrow> verification_db \<Rightarrow> verification_db" where
  "withdraw_superseded m db =
     (case pm_supersedes_prediction_id m of None \<Rightarrow> db | Some old \<Rightarrow> withdraw_evaluation old db)"

definition process_prediction :: "verification_env \<Rightarrow> instant \<Rightarrow> PredictionMade \<Rightarrow> unit vprog" where
  "process_prediction env now m db =
     (case evaluation_of env m of
        Inl e \<Rightarrow> (Inl e, db)
      | Inr ev \<Rightarrow>
          let n = vd_next_uuid db
          in case create_evaluation_with_outbox ev (price_request now n m ev) (db\<lparr>vd_next_uuid := n + 1\<rparr>) of
               (Inl e, db') \<Rightarrow> (Inl e, db')
             | (Inr _, db') \<Rightarrow> (Inr (), withdraw_superseded m db'))"

definition validate_close ::
  "AssetReferenceSeries \<Rightarrow> EvaluationRecord \<Rightarrow> CloseObservation \<Rightarrow> (verification_error, unit) result" where
  "validate_close series ev c =
     (if co_registry_version c \<noteq> er_registry_version ev then Inl (PriceValidationError ''registry version mismatch'')
      else if co_price_kind c = AVANZA_SAMPLED_CLOSE \<and>
              (case co_sample c of None \<Rightarrow> True | Some s \<Rightarrow> sp_currency s \<noteq> rs_currency series)
      then Inl (PriceValidationError ''sampled currency/provenance mismatch'')
      else if co_price_kind c \<noteq> AVANZA_SAMPLED_CLOSE \<and> PriceKind_value (co_price_kind c) \<noteq> rs_price_kind series
      then Inl (PriceValidationError ''price kind mismatch'')
      else if co_is_adjusted c \<noteq> rs_is_adjusted series then Inl (PriceValidationError ''adjustment flag mismatch'')
      else Inr ())"

definition validate_observation ::
  "verification_env \<Rightarrow> PriceObserved \<Rightarrow> EvaluationRecord \<Rightarrow> (verification_error, unit) result" where
  "validate_observation env m ev =
     (case resolve (ve_registry env) (er_asset_id ev) of
        Inl e \<Rightarrow> Inl (VRegistryError e)
      | Inr series \<Rightarrow>
          if po_asset_id m \<noteq> er_asset_id ev then Inl (PriceValidationError ''asset mismatch'')
          else if co_session (po_baseline m) \<noteq> er_baseline_session ev
          then Inl (PriceValidationError ''baseline session mismatch'')
          else if co_session (po_settlement m) \<noteq> er_settlement_session ev
          then Inl (PriceValidationError ''settlement session mismatch'')
          else bind_result (validate_close series ev (po_baseline m)) (\<lambda>_.
               validate_close series ev (po_settlement m)))"

definition scored_message ::
  "instant \<Rightarrow> uuid \<Rightarrow> PriceObserved \<Rightarrow> EvaluationRecord \<Rightarrow> ScoreOutcome \<Rightarrow> PredictionScored" where
  "scored_message now mid m ev outcome =
     \<lparr>message_id = mid, correlation_id = er_correlation_id ev, causation_id = Some (message_id m),
      occurred_at = now, sc_prediction_id = er_prediction_id ev, sc_context_id = er_context_id ev,
      sc_asset_id = er_asset_id ev, sc_predicted_direction = er_predicted_direction ev,
      sc_actual_direction = so_actual_direction outcome,
      sc_predicted_magnitude = er_predicted_magnitude ev,
      sc_actual_magnitude = so_actual_magnitude outcome, sc_confidence = er_confidence ev,
      sc_actual_return = so_actual_return outcome, sc_is_correct = so_is_correct outcome,
      sc_score = so_score outcome, sc_contributing_edges = er_contributing_edges ev,
      sc_source_ids = er_source_ids ev, sc_baseline = po_baseline m, sc_settlement = po_settlement m,
      sc_scored_at = now,
      sc_price_policy = (if co_sample (po_baseline m) \<noteq> None then AVANZA_SAMPLED_CLOSE_V1 else DAILY_CLOSE_V1),
      sc_propagation_chain = er_propagation_chain ev\<rparr>"

definition process_price :: "verification_env \<Rightarrow> instant \<Rightarrow> PriceObserved \<Rightarrow> unit vprog" where
  "process_price env now m db =
     (case load_evaluation_by_request_id (ve_registry env) (po_request_id m) db of
        Inl e \<Rightarrow> (Inl e, db)
      | Inr None \<Rightarrow> (Inl (OrphanedObservationError (po_request_id m)), db)
      | Inr (Some ev) \<Rightarrow>
          if er_status ev = EV_WITHDRAWN then (Inr (), db)
          else
            (case validate_observation env m ev of
               Inl e \<Rightarrow> (Inl e, db)
             | Inr _ \<Rightarrow>
                 let db1 = snd (store_price_observation m db)
                 in case score (co_close (po_baseline m)) (co_close (po_settlement m))
                           (er_predicted_direction ev) (ve_deadband env) (ve_magnitude_medium_min env)
                           (ve_magnitude_large_min env) of
                      Inl e \<Rightarrow> (Inl (VPyError e), db1)
                    | Inr outcome \<Rightarrow>
                        let n = vd_next_uuid db1
                        in (Inr (), snd (store_score_with_outbox (scored_message now n m ev outcome)
                              (db1\<lparr>vd_next_uuid := n + 1\<rparr>)))))"

subsection \<open>What a score says\<close>

fun rank :: "Direction \<Rightarrow> nat" where
  "rank DOWN = 0"
| "rank NEUTRAL = 1"
| "rank UP = 2"

lemma return_of_mono: "0 < b \<Longrightarrow> s \<le> s' \<Longrightarrow> return_of b s \<le> return_of b s'"
  unfolding return_of_def by (intro b64.rnd_mono d28.rnd_mono divide_right_mono) auto

lemma return_of_self [simp]: "return_of b b = 0"
  by (simp add: return_of_def d28.rnd_0)

lemma direction_of_mono: "x \<le> y \<Longrightarrow> 0 < db \<Longrightarrow> rank (direction_of db x) \<le> rank (direction_of db y)"
  by (auto simp: direction_of_def)

lemma return_of_sign:
  assumes "0 < b"
  shows "0 < return_of b s \<Longrightarrow> b < s" "return_of b s < 0 \<Longrightarrow> s < b"
  using return_of_mono [OF assms, of s b] return_of_mono [OF assms, of b s] by force+

text \<open>
  C34: The score reads the closes honestly, every decimal and float rounding included.  With a positive
  deadband, a move scored up (down) is a real rise (fall) of the close, an unchanged close is neutral,
  and a higher settlement close is never scored a lower direction; the prediction is correct exactly
  when it names the actual direction, and the score is then 1 and otherwise 0.
\<close>

theorem score_sound:
  assumes "0 < b" and "0 < db" and "s \<le> s'"
  shows "\<exists>oc oc'. score b s p db mm lm = Inr oc \<and> score b s' p db mm lm = Inr oc' \<and>
    rank (so_actual_direction oc) \<le> rank (so_actual_direction oc') \<and>
    (so_actual_direction oc = UP \<longrightarrow> b < s) \<and> (so_actual_direction oc = DOWN \<longrightarrow> s < b) \<and>
    (s = b \<longrightarrow> so_actual_direction oc = NEUTRAL) \<and>
    (so_is_correct oc \<longleftrightarrow> p = so_actual_direction oc) \<and> so_score oc = (if so_is_correct oc then 1 else 0)"
proof -
  have "direction_of db (return_of b s) = UP \<Longrightarrow> b < s" "direction_of db (return_of b s) = DOWN \<Longrightarrow> s < b"
    using return_of_sign [OF assms(1), of s] assms(2) by (auto simp: direction_of_def split: if_splits)
  moreover have "s = b \<Longrightarrow> direction_of db (return_of b s) = NEUTRAL"
    using assms(2) by (simp add: direction_of_def)
  moreover have "rank (direction_of db (return_of b s)) \<le> rank (direction_of db (return_of b s'))"
    using assms by (intro direction_of_mono return_of_mono)
  ultimately show ?thesis using assms(1) by (auto simp: score_def Let_def)
qed

theorem score_sound_witness:
  "\<exists>oc oc'. score 100 100 UP (1 / 256) (1 / 100) (3 / 100) = Inr oc \<and>
     score 100 101 UP (1 / 256) (1 / 100) (3 / 100) = Inr oc' \<and>
     so_actual_direction oc = NEUTRAL \<and> \<not> so_is_correct oc \<and> so_score oc = 0"
  using score_sound [of 100 "1 / 256" 100 101 UP "1 / 100" "3 / 100"] by auto

text \<open>
  The scoring deadband must be positive.  The configuration admits 0.0; with it an unchanged close
  is scored \<^verbatim>\<open>DOWN\<close>, so a neutral prediction is wrong on a day without any move.
\<close>

theorem zero_deadband_scores_down:
  "score 100 100 NEUTRAL 0 (1 / 100) (3 / 100) =
     Inr \<lparr>so_actual_return = 0, so_actual_direction = DOWN, so_actual_magnitude = SMALL,
          so_is_correct = False, so_score = 0\<rparr>"
  by (simp add: score_def direction_of_def)

subsection \<open>The verification invariant\<close>

definition scoreds :: "(string \<times> verification_message) outbox_row list \<Rightarrow> PredictionScored list" where
  "scoreds rows = concat (map (\<lambda>r. case snd (ob_payload r) of VPredictionScored s \<Rightarrow> [s] | _ \<Rightarrow> []) rows)"

definition requests :: "(string \<times> verification_message) outbox_row list \<Rightarrow> PriceRequested list" where
  "requests rows = concat (map (\<lambda>r. case snd (ob_payload r) of VPriceRequested q \<Rightarrow> [q] | _ \<Rightarrow> []) rows)"

lemma new_outbox_row_sel [simp]:
  "ob_payload (new_outbox_row i a x d) = x" "ob_message_id (new_outbox_row i a x d) = i"
  by (simp_all add: new_outbox_row_def)

lemma scoreds_requests_simps [simp]:
  "scoreds [] = []" "requests [] = []" "scoreds (xs @ ys) = scoreds xs @ scoreds ys"
  "requests (xs @ ys) = requests xs @ requests ys"
  "scoreds [new_outbox_row i a (t, VPredictionScored s) d] = [s]"
  "requests [new_outbox_row i a (t, VPredictionScored s) d] = []"
  "scoreds [new_outbox_row i a (t, VPriceRequested q) d] = []"
  "requests [new_outbox_row i a (t, VPriceRequested q) d] = [q]"
  by (simp_all add: scoreds_def requests_def)

text \<open>A scored message reports its evaluation, on closes of the evaluated sessions.\<close>

definition reports :: "verification_env \<Rightarrow> PredictionScored \<Rightarrow> EvaluationRecord \<Rightarrow> bool" where
  "reports env s ev \<longleftrightarrow> sc_prediction_id s = er_prediction_id ev \<and> sc_asset_id s = er_asset_id ev \<and>
     sc_predicted_direction s = er_predicted_direction ev \<and>
     sc_contributing_edges s = er_contributing_edges ev \<and> sc_propagation_chain s = er_propagation_chain ev \<and>
     sc_source_ids s = er_source_ids ev \<and> er_status ev = EV_SCORED \<and>
     co_session (sc_baseline s) = er_baseline_session ev \<and> co_session (sc_settlement s) = er_settlement_session ev \<and>
     sc_actual_direction s = direction_of (ve_deadband env) (return_of (co_close (sc_baseline s)) (co_close (sc_settlement s))) \<and>
     (sc_is_correct s \<longleftrightarrow> sc_predicted_direction s = sc_actual_direction s)"

definition wf_vdb :: "verification_env \<Rightarrow> verification_db \<Rightarrow> bool" where
  "wf_vdb env db \<longleftrightarrow>
     distinct (map er_prediction_id (vd_evaluations db)) \<and> distinct (map er_request_id (vd_evaluations db)) \<and>
     distinct (map ob_request_id (vd_observations db)) \<and> distinct (map sr_prediction_id (vd_scores db)) \<and>
     (\<forall>ev \<in> set (vd_evaluations db). er_source_ids ev = []) \<and>
     map (\<lambda>q. (pr_prediction_id q, pr_request_id q)) (requests (vd_outbox db)) =
       map (\<lambda>e. (er_prediction_id e, er_request_id e)) (vd_evaluations db) \<and>
     map score_row_of (scoreds (vd_outbox db)) = vd_scores db \<and>
     (\<forall>s \<in> set (scoreds (vd_outbox db)). \<exists>ev \<in> set (vd_evaluations db). reports env s ev) \<and>
     (\<forall>r \<in> set (vd_outbox db). fst (ob_payload r) = message_type (snd (ob_payload r)) \<and>
        ob_message_id r < vd_next_uuid db) \<and> distinct (map ob_message_id (vd_outbox db))"

lemma wf_vdb_create:
  assumes "wf_vdb env db" "er_source_ids ev = []" "message_id q < vd_next_uuid db"
    "message_id q \<notin> ob_message_id ` set (vd_outbox db)"
    "pr_prediction_id q = er_prediction_id ev" "pr_request_id q = er_request_id ev"
  shows "wf_vdb env (snd (create_evaluation_with_outbox ev q db))"
  using assms
  by (auto simp: wf_vdb_def create_evaluation_with_outbox_def)

lemma status_update_maps:
  "map er_prediction_id (update_where p (\<lambda>e. e\<lparr>er_status := st\<rparr>) evs) = map er_prediction_id evs"
  "map er_request_id (update_where p (\<lambda>e. e\<lparr>er_status := st\<rparr>) evs) = map er_request_id evs"
  "map (\<lambda>e. (er_prediction_id e, er_request_id e)) (update_where p (\<lambda>e. e\<lparr>er_status := st\<rparr>) evs) =
     map (\<lambda>e. (er_prediction_id e, er_request_id e)) evs"
  "(\<forall>ev \<in> set (update_where p (\<lambda>e. e\<lparr>er_status := st\<rparr>) evs). er_source_ids ev = []) \<longleftrightarrow>
     (\<forall>ev \<in> set evs. er_source_ids ev = [])"
  by (induction evs) auto

lemma wf_vdb_status:
  assumes "wf_vdb env db"
    and "\<And>s ev. s \<in> set (scoreds (vd_outbox db)) \<Longrightarrow> ev \<in> set (vd_evaluations db) \<Longrightarrow> reports env s ev \<Longrightarrow>
      p ev \<Longrightarrow> st = EV_SCORED"
  shows "wf_vdb env (db\<lparr>vd_evaluations := update_where p (\<lambda>e. e\<lparr>er_status := st\<rparr>) (vd_evaluations db)\<rparr>)"
proof -
  have "\<exists>ev \<in> set (update_where p (\<lambda>e. e\<lparr>er_status := st\<rparr>) (vd_evaluations db)). reports env s ev"
    if "s \<in> set (scoreds (vd_outbox db))" for s
  proof -
    obtain ev where ev: "ev \<in> set (vd_evaluations db)" "reports env s ev" using assms(1) \<open>s \<in> _\<close> by (auto simp: wf_vdb_def)
    then have "reports env s (if p ev then ev\<lparr>er_status := st\<rparr> else ev)"
      using assms(2) [OF that ev] by (auto simp: reports_def)
    then show ?thesis using ev(1) unfolding set_update_where by blast
  qed
  then show ?thesis using assms(1) by (simp add: wf_vdb_def status_update_maps)
qed

lemma wf_vdb_withdraw: "wf_vdb env db \<Longrightarrow> wf_vdb env (withdraw_evaluation pid db)"
  unfolding withdraw_evaluation_def by (rule wf_vdb_status) (auto simp: reports_def)

lemma wf_vdb_mark_scored: "wf_vdb env db \<Longrightarrow> wf_vdb env (mark_scored pid db)"
  unfolding mark_scored_def by (rule wf_vdb_status) simp_all

lemma wf_vdb_score:
  assumes wf: "wf_vdb env db" and ev: "ev \<in> set (vd_evaluations db)" and "reports env s (ev\<lparr>er_status := EV_SCORED\<rparr>)"
    and "message_id s < vd_next_uuid db" "message_id s \<notin> ob_message_id ` set (vd_outbox db)"
  shows "wf_vdb env (snd (store_score_with_outbox s db))"
proof (cases "sc_prediction_id s \<in> set (map sr_prediction_id (vd_scores db))")
  case True
  then show ?thesis using wf_vdb_mark_scored [OF wf] by (simp add: store_score_with_outbox_def)
next
  case False
  let ?pid = "sc_prediction_id s"
  let ?row = "new_outbox_row (message_id s) ?pid (''PredictionScored'', VPredictionScored s) (sc_scored_at s)"
  have m: "wf_vdb env (mark_scored ?pid db)" by (rule wf_vdb_mark_scored [OF wf])
  have "ev\<lparr>er_status := EV_SCORED\<rparr> \<in> set (vd_evaluations (mark_scored ?pid db))"
    using ev assms(3) by (force simp: mark_scored_def set_update_where reports_def)
  with m assms(3-5) False have "wf_vdb env ((mark_scored ?pid db)\<lparr>vd_scores := vd_scores db @ [score_row_of s],
      vd_outbox := vd_outbox db @ [?row]\<rparr>)"
    unfolding wf_vdb_def mark_scored_def by (auto simp: score_row_of_def)
  then show ?thesis using False by (cases db) (simp add: store_score_with_outbox_def mark_scored_def)
qed

lemma wf_vdb_next: "wf_vdb env db \<Longrightarrow> wf_vdb env (db\<lparr>vd_next_uuid := vd_next_uuid db + 1\<rparr>)"
  by (auto simp: wf_vdb_def less_Suc_eq)

lemma wf_vdb_fresh: "wf_vdb env db \<Longrightarrow> vd_next_uuid db \<notin> ob_message_id ` set (vd_outbox db)"
  by (auto simp: wf_vdb_def)

lemma wf_vdb_observation: "wf_vdb env db \<Longrightarrow> wf_vdb env (snd (store_price_observation m db))"
  by (auto simp: wf_vdb_def store_price_observation_def)

lemma store_price_observation_frame [simp, frame]:
  "vd_evaluations (snd (store_price_observation m db)) = vd_evaluations db"
  "vd_outbox (snd (store_price_observation m db)) = vd_outbox db"
  "vd_scores (snd (store_price_observation m db)) = vd_scores db"
  "vd_next_uuid (snd (store_price_observation m db)) = vd_next_uuid db"
  by (simp_all add: store_price_observation_def)

lemma evaluation_of_sel:
  assumes "evaluation_of env m = Inr ev"
  shows "er_prediction_id ev = pm_prediction_id m" "er_source_ids ev = []" "er_status ev = EV_PENDING"
    "er_contributing_edges ev = pm_contributing_edges m" "er_propagation_chain ev = pm_propagation_chain m"
  using assms by (auto simp: evaluation_of_def split: sum.splits prod.splits)

lemma process_prediction_wf:
  assumes "wf_vdb env db"
  shows "wf_vdb env (snd (process_prediction env now m db))"
proof (cases "evaluation_of env m")
  case (Inr ev)
  have "wf_vdb env (snd (create_evaluation_with_outbox ev (price_request now (vd_next_uuid db) m ev)
      (db\<lparr>vd_next_uuid := vd_next_uuid db + 1\<rparr>)))"
    by (rule wf_vdb_create [OF wf_vdb_next [OF assms]])
      (use evaluation_of_sel [OF Inr] wf_vdb_fresh [OF assms] in \<open>simp_all add: price_request_def\<close>)
  moreover have "wf_vdb env db' \<Longrightarrow> wf_vdb env (withdraw_superseded m db')" for db'
    by (simp add: withdraw_superseded_def wf_vdb_withdraw split: option.split)
  ultimately show ?thesis using Inr by (auto simp: process_prediction_def Let_def split: sum.splits prod.splits)
qed (use assms in \<open>simp add: process_prediction_def\<close>)

lemma process_price_wf:
  assumes "wf_vdb env db"
  shows "wf_vdb env (snd (process_price env now m db))"
proof -
  have "wf_vdb env (snd (store_score_with_outbox (scored_message now (vd_next_uuid db) m ev oc)
        ((snd (store_price_observation m db))\<lparr>vd_next_uuid := Suc (vd_next_uuid db)\<rparr>)))"
    if ev: "ev \<in> set (vd_evaluations db)" and "validate_observation env m ev = Inr ()"
      and "score (co_close (po_baseline m)) (co_close (po_settlement m)) (er_predicted_direction ev) (ve_deadband env)
        (ve_magnitude_medium_min env) (ve_magnitude_large_min env) = Inr oc" for ev oc
  proof (rule wf_vdb_score)
    show "wf_vdb env ((snd (store_price_observation m db))\<lparr>vd_next_uuid := Suc (vd_next_uuid db)\<rparr>)"
      using wf_vdb_next [OF wf_vdb_observation [OF assms, of m]] by simp
    have "co_session (po_baseline m) = er_baseline_session ev" "co_session (po_settlement m) = er_settlement_session ev"
      using that(2) by (auto simp: validate_observation_def split: sum.splits if_splits)
    then show "reports env (scored_message now (vd_next_uuid db) m ev oc) (ev\<lparr>er_status := EV_SCORED\<rparr>)"
      using that(3) by (auto simp: reports_def scored_message_def score_def Let_def split: if_splits)
  qed (use ev wf_vdb_fresh [OF assms] in \<open>simp_all add: scored_message_def\<close>)
  note step = this
  show ?thesis
  proof (cases "load_evaluation_by_request_id (ve_registry env) (po_request_id m) db")
    case (Inr loaded)
    then have "loaded = Some ev \<Longrightarrow> ev \<in> set (vd_evaluations db)" for ev
      by (auto simp: load_evaluation_by_request_id_def split: option.splits if_splits dest: fetch_first_Some)
    then show ?thesis
      using Inr assms step wf_vdb_observation [OF assms, of m]
      by (auto simp: process_price_def Let_def split: option.splits sum.splits)
  qed (use assms in \<open>simp add: process_price_def\<close>)
qed

lemma relay_wf_vdb:
  assumes "wf_vdb env db"
  shows "wf_vdb env (db\<lparr>vd_outbox := fst (verification_publish_pending send now n (vd_outbox db))\<rparr>)"
proof -
  let ?rows = "fst (relay verification_decode send now n (vd_outbox db))"
  have "scoreds rows = concat (map (\<lambda>p. case snd p of VPredictionScored s \<Rightarrow> [s] | _ \<Rightarrow> []) (map ob_payload rows))"
    "requests rows = concat (map (\<lambda>p. case snd p of VPriceRequested q \<Rightarrow> [q] | _ \<Rightarrow> []) (map ob_payload rows))" for rows
    by (simp_all add: scoreds_def requests_def comp_def)
  then have eq: "scoreds ?rows = scoreds (vd_outbox db)" "requests ?rows = requests (vd_outbox db)"
    by (simp_all only: relay_payloads)
  have "\<forall>r \<in> set ?rows. fst (ob_payload r) = message_type (snd (ob_payload r)) \<and> ob_message_id r < vd_next_uuid db"
  proof -
    have "ob_payload ` set ?rows = ob_payload ` set (vd_outbox db)" "ob_message_id ` set ?rows = ob_message_id ` set (vd_outbox db)"
      by (simp_all only: relay_payloads flip: set_map)
    moreover have "\<forall>p \<in> ob_payload ` set (vd_outbox db). fst p = message_type (snd p)"
      "\<forall>i \<in> ob_message_id ` set (vd_outbox db). i < vd_next_uuid db" using assms by (auto simp: wf_vdb_def)
    ultimately show ?thesis by (metis imageI)
  qed
  then show ?thesis using assms relay_payloads(2) [of verification_decode send now n "vd_outbox db"] eq
    by (simp add: wf_vdb_def verification_publish_pending_def)
qed

subsection \<open>Histories\<close>

inductive vstep :: "verification_env \<Rightarrow> verification_db \<Rightarrow> verification_db \<Rightarrow> bool" for env where
  prediction: "vstep env db (snd (process_prediction env now m db))"
| price: "vstep env db (snd (process_price env now q db))"
| outbox_relay: "vstep env db (db\<lparr>vd_outbox := fst (verification_publish_pending send now n (vd_outbox db))\<rparr>)"

inductive_cases vstepE: "vstep env db db'"

definition empty_vdb :: verification_db where
  "empty_vdb = \<lparr>vd_evaluations = [], vd_observations = [], vd_scores = [], vd_outbox = [], vd_next_uuid = 0\<rparr>"

lemma empty_vdb_wf: "wf_vdb env empty_vdb"
  by (simp add: wf_vdb_def empty_vdb_def)

lemma vsteps_wf: "(vstep env)\<^sup>*\<^sup>* db db' \<Longrightarrow> wf_vdb env db \<Longrightarrow> wf_vdb env db'"
  by (induction rule: rtranclp_induct)
    (auto elim!: vstepE intro: process_prediction_wf process_price_wf relay_wf_vdb)

text \<open>
  C9: Every prediction is requested once and scored at most once, and every score reports its
  evaluation.  After any history of predictions, price observations and relay runs - duplicated,
  reordered, rejected ones included - each evaluation has exactly one \<^verbatim>\<open>PriceRequested\<close>, no prediction
  has two \<^verbatim>\<open>PredictionScored\<close>, and each of those carries the evaluation's direction, contributing
  edges and propagation chain, closes of exactly the evaluated sessions, and the verdict those closes
  give.
\<close>

theorem verification_history:
  assumes "(vstep env)\<^sup>*\<^sup>* empty_vdb db"
  shows "distinct (map sc_prediction_id (scoreds (vd_outbox db))) \<and>
    (\<forall>s \<in> set (scoreds (vd_outbox db)). \<exists>ev \<in> set (vd_evaluations db). reports env s ev) \<and>
    map pr_prediction_id (requests (vd_outbox db)) = map er_prediction_id (vd_evaluations db) \<and>
    distinct (map pr_prediction_id (requests (vd_outbox db)))"
proof -
  have wf: "wf_vdb env db" by (rule vsteps_wf [OF assms empty_vdb_wf])
  then have req: "map (\<lambda>q. (pr_prediction_id q, pr_request_id q)) (requests (vd_outbox db)) =
      map (\<lambda>e. (er_prediction_id e, er_request_id e)) (vd_evaluations db)"
    and sc: "map score_row_of (scoreds (vd_outbox db)) = vd_scores db" by (simp_all add: wf_vdb_def)
  from arg_cong [OF req, of "map fst"]
  have "map pr_prediction_id (requests (vd_outbox db)) = map er_prediction_id (vd_evaluations db)" by (simp add: comp_def)
  moreover from arg_cong [OF sc, of "map sr_prediction_id"]
  have "map sc_prediction_id (scoreds (vd_outbox db)) = map sr_prediction_id (vd_scores db)"
    by (simp add: comp_def score_row_of_def)
  ultimately show ?thesis using wf by (simp add: wf_vdb_def)
qed

subsection \<open>Withdrawn evaluations\<close>

definition withdrawn :: "uuid \<Rightarrow> verification_db \<Rightarrow> bool" where
  "withdrawn pid db \<longleftrightarrow> (\<exists>ev \<in> set (vd_evaluations db). er_prediction_id ev = pid \<and> er_status ev = EV_WITHDRAWN)"

lemma withdrawn_unscored:
  assumes "wf_vdb env db" "withdrawn pid db"
  shows "pid \<notin> sc_prediction_id ` set (scoreds (vd_outbox db))"
proof
  assume "pid \<in> sc_prediction_id ` set (scoreds (vd_outbox db))"
  then obtain ev where ev: "ev \<in> set (vd_evaluations db)" "er_prediction_id ev = pid" "er_status ev = EV_SCORED"
    using assms(1) by (auto simp: wf_vdb_def reports_def)
  moreover obtain ev' where "ev' \<in> set (vd_evaluations db)" "er_prediction_id ev' = pid" "er_status ev' = EV_WITHDRAWN"
    using assms(2) by (auto simp: withdrawn_def)
  moreover have "distinct (map er_prediction_id (vd_evaluations db))" using assms(1) by (simp add: wf_vdb_def)
  ultimately have "ev = ev'" by (metis distinct_map inj_onD)
  with ev(3) \<open>er_status ev' = EV_WITHDRAWN\<close> show False by simp
qed

lemma withdrawn_update:
  "withdrawn pid db \<Longrightarrow> (\<And>ev. ev \<in> set (vd_evaluations db) \<Longrightarrow> er_status ev = EV_WITHDRAWN \<Longrightarrow> er_prediction_id ev = pid \<Longrightarrow> \<not> p ev) \<Longrightarrow>
   withdrawn pid (db\<lparr>vd_evaluations := update_where p f (vd_evaluations db)\<rparr>)"
  unfolding withdrawn_def by (auto simp: set_update_where)

lemma withdrawn_cong: "vd_evaluations db = vd_evaluations db' \<Longrightarrow> withdrawn pid db = withdrawn pid db'"
  by (simp add: withdrawn_def)

lemma process_prediction_withdrawn:
  assumes "withdrawn pid db"
  shows "withdrawn pid (snd (process_prediction env now m db))"
proof -
  have "withdrawn pid db2" if "create_evaluation_with_outbox ev q (db\<lparr>vd_next_uuid := n\<rparr>) = (r, db2)" for ev q r db2 n
    using that assms by (auto simp: create_evaluation_with_outbox_def withdrawn_def split: if_splits)
  moreover have "withdrawn pid (withdraw_superseded m db2)" if "withdrawn pid db2" for db2
    using that by (auto simp: withdraw_superseded_def withdraw_evaluation_def intro!: withdrawn_update split: option.split)
  ultimately show ?thesis using assms
    by (auto simp: process_prediction_def Let_def split: sum.splits prod.splits)
qed

lemma process_price_withdrawn:
  assumes "wf_vdb env db" "withdrawn pid db"
  shows "withdrawn pid (snd (process_price env now m db))"
proof -
  have keep: "withdrawn pid (snd (store_score_with_outbox (scored_message now n m ev oc) db2))"
    if "ev \<in> set (vd_evaluations db)" "er_status ev \<noteq> EV_WITHDRAWN" "vd_evaluations db2 = vd_evaluations db" for ev oc n db2
  proof -
    have "er_prediction_id ev \<noteq> pid"
    proof
      assume "er_prediction_id ev = pid"
      moreover obtain ev' where "ev' \<in> set (vd_evaluations db)" "er_prediction_id ev' = pid" "er_status ev' = EV_WITHDRAWN"
        using assms(2) by (auto simp: withdrawn_def)
      moreover have "distinct (map er_prediction_id (vd_evaluations db))" using assms(1) by (simp add: wf_vdb_def)
      ultimately show False using that(1,2) by (metis distinct_map inj_onD)
    qed
    then have "withdrawn pid (mark_scored (er_prediction_id ev) db3)" if "vd_evaluations db3 = vd_evaluations db" for db3
      unfolding mark_scored_def using assms(2) that withdrawn_cong [of db3 db] by (intro withdrawn_update) auto
    then show ?thesis using that(3) by (simp add: store_score_with_outbox_def scored_message_def)
  qed
  show ?thesis
  proof (cases "load_evaluation_by_request_id (ve_registry env) (po_request_id m) db")
    case (Inr loaded)
    then have "loaded = Some ev \<Longrightarrow> ev \<in> set (vd_evaluations db)" for ev
      by (auto simp: load_evaluation_by_request_id_def split: option.splits if_splits dest: fetch_first_Some)
    then show ?thesis
      using Inr assms(2) keep withdrawn_cong [of "snd (store_price_observation m db)" db]
      by (auto simp: process_price_def Let_def split: option.splits sum.splits)
  qed (use assms in \<open>simp add: process_price_def\<close>)
qed


subsection \<open>Redelivery and reordering\<close>

lemma withdraw_idem: "withdraw_superseded m (withdraw_superseded m db) = withdraw_superseded m db"
proof -
  have "update_where (\<lambda>e. er_prediction_id e = pid \<and> er_status e = EV_PENDING) (\<lambda>e. e\<lparr>er_status := EV_WITHDRAWN\<rparr>)
      (update_where (\<lambda>e. er_prediction_id e = pid \<and> er_status e = EV_PENDING) (\<lambda>e. e\<lparr>er_status := EV_WITHDRAWN\<rparr>) evs) =
    update_where (\<lambda>e. er_prediction_id e = pid \<and> er_status e = EV_PENDING) (\<lambda>e. e\<lparr>er_status := EV_WITHDRAWN\<rparr>) evs"
    for pid and evs :: "EvaluationRecord list"
    by (induction evs) auto
  then show ?thesis by (simp add: withdraw_superseded_def withdraw_evaluation_def split: option.split)
qed

lemma withdraw_frame [simp, frame]:
  "vd_next_uuid (withdraw_superseded m db) = vd_next_uuid db"
  "withdraw_superseded m (db\<lparr>vd_next_uuid := n\<rparr>) = (withdraw_superseded m db)\<lparr>vd_next_uuid := n\<rparr>"
  "map er_prediction_id (vd_evaluations (withdraw_superseded m db)) = map er_prediction_id (vd_evaluations db)"
  by (simp_all add: withdraw_superseded_def withdraw_evaluation_def status_update_maps split: option.split)

lemma process_prediction_again:
  assumes "process_prediction env now m db = (Inr (), db')"
  shows "process_prediction env now' m db' = (Inr (), db'\<lparr>vd_next_uuid := vd_next_uuid db' + 1\<rparr>)"
proof -
  obtain ev b db1 where ev: "evaluation_of env m = Inr ev" and db': "db' = withdraw_superseded m db1"
    and create: "create_evaluation_with_outbox ev (price_request now (vd_next_uuid db) m ev)
      (db\<lparr>vd_next_uuid := vd_next_uuid db + 1\<rparr>) = (Inr b, db1)"
    using assms by (auto simp: process_prediction_def Let_def split: sum.splits prod.splits)
  have "er_prediction_id ev \<in> set (map er_prediction_id (vd_evaluations db1))"
    using create by (auto simp: create_evaluation_with_outbox_def split: if_splits)
  then have "er_prediction_id ev \<in> set (map er_prediction_id (vd_evaluations db'))"
    unfolding db' withdraw_frame .
  then show ?thesis
    using ev by (simp add: process_prediction_def create_evaluation_with_outbox_def db' withdraw_idem)
qed

lemma mark_scored_again:
  assumes "\<And>ev. ev \<in> set (vd_evaluations db) \<Longrightarrow> er_prediction_id ev = pid \<Longrightarrow> er_status ev = EV_SCORED"
  shows "mark_scored pid db = db"
proof -
  have "update_where (\<lambda>e. er_prediction_id e = pid) (\<lambda>e. e\<lparr>er_status := EV_SCORED\<rparr>) evs = evs"
    if "\<And>ev. ev \<in> set evs \<Longrightarrow> er_prediction_id ev = pid \<Longrightarrow> er_status ev = EV_SCORED" for evs :: "EvaluationRecord list"
    using that by (induction evs) auto
  with assms show ?thesis by (simp add: mark_scored_def)
qed

lemma fetch_first_update:
  "(\<And>r. q (f r) = q r) \<Longrightarrow> fetch_first q (update_where p f rs) = map_option (\<lambda>r. if p r then f r else r) (fetch_first q rs)"
  by (induction rs) (auto simp: fetch_first_def)

lemma process_price_cases:
  assumes "process_price env now m db = (Inr (), db')"
  obtains (skipped) ev where "load_evaluation_by_request_id (ve_registry env) (po_request_id m) db = Inr (Some ev)"
      "er_status ev = EV_WITHDRAWN" "db' = db"
  | (scored) ev oc where "load_evaluation_by_request_id (ve_registry env) (po_request_id m) db = Inr (Some ev)"
      "er_status ev \<noteq> EV_WITHDRAWN" "validate_observation env m ev = Inr ()"
      "score (co_close (po_baseline m)) (co_close (po_settlement m)) (er_predicted_direction ev) (ve_deadband env)
        (ve_magnitude_medium_min env) (ve_magnitude_large_min env) = Inr oc"
      "db' = snd (store_score_with_outbox (scored_message now (vd_next_uuid db) m ev oc)
        ((snd (store_price_observation m db))\<lparr>vd_next_uuid := vd_next_uuid db + 1\<rparr>))"
  using assms by (auto simp: process_price_def Let_def split: sum.splits option.splits if_splits)

lemma process_price_again:
  assumes "process_price env now m db = (Inr (), db')"
  shows "\<exists>n. process_price env now' m db' = (Inr (), db'\<lparr>vd_next_uuid := n\<rparr>)"
  using assms
proof (cases rule: process_price_cases)
  case (skipped ev)
  then have "process_price env now' m db' = (Inr (), db')" by (simp add: process_price_def)
  moreover have "db' = db'\<lparr>vd_next_uuid := vd_next_uuid db'\<rparr>" by simp
  ultimately show ?thesis by metis
next
  case (scored ev oc)
  let ?s = "scored_message now (vd_next_uuid db) m ev oc" and ?pid = "er_prediction_id ev"
  let ?ev = "ev\<lparr>er_status := EV_SCORED\<rparr>"
  have pid: "sc_prediction_id ?s = ?pid" by (simp add: scored_message_def)
  have evals: "vd_evaluations db' = update_where (\<lambda>e. er_prediction_id e = ?pid) (\<lambda>e. e\<lparr>er_status := EV_SCORED\<rparr>) (vd_evaluations db)"
    and obs: "vd_observations db' = vd_observations (snd (store_price_observation m db))"
    and scored_pid: "?pid \<in> set (map sr_prediction_id (vd_scores db'))"
    unfolding scored(5) by (auto simp: store_score_with_outbox_def mark_scored_def pid score_row_of_def)
  have "load_evaluation_by_request_id (ve_registry env) (po_request_id m) db' = Inr (Some ?ev)"
    using scored(1) by (auto simp: load_evaluation_by_request_id_def evals fetch_first_update split: option.splits if_splits)
  moreover have "validate_observation env m ?ev = Inr ()"
    using scored(3) by (cases "resolve (ve_registry env) (er_asset_id ev)")
      (auto simp: validate_observation_def validate_close_def bind_result_Inr_iff split: if_splits)
  moreover have "store_price_observation m db' = (False, db')"
    using obs by (auto simp: store_price_observation_def)
  moreover have "mark_scored ?pid (db'\<lparr>vd_next_uuid := k\<rparr>) = db'\<lparr>vd_next_uuid := k\<rparr>" for k
    by (rule mark_scored_again) (auto simp: evals set_update_where)
  ultimately show ?thesis
    using scored(4) scored_pid
    by (simp add: process_price_def store_score_with_outbox_def scored_message_def) blast
qed

text \<open>
  Redelivery changes nothing.  When a prediction or a price observation has been processed, processing
  the same message again succeeds and leaves every table as it was - no second evaluation, request,
  observation, score or message - except that an unused message id is drawn.
\<close>

theorem verification_redelivery:
  "(process_prediction env now m db = (Inr (), db') \<longrightarrow>
      (\<exists>n. process_prediction env now' m db' = (Inr (), db'\<lparr>vd_next_uuid := n\<rparr>))) \<and>
   (process_price env now q db = (Inr (), db') \<longrightarrow>
      (\<exists>n. process_price env now' q db' = (Inr (), db'\<lparr>vd_next_uuid := n\<rparr>)))"
  using process_prediction_again process_price_again by blast

text \<open>
  C40: A withdrawal that arrives early is lost.  When the superseding prediction is processed before the
  prediction it supersedes - the relay may deliver them in that order - the older prediction is
  afterwards evaluated as if it still stood: its evaluation is \<^verbatim>\<open>PENDING\<close> and will be scored.
\<close>

theorem early_withdrawal_lost:
  assumes "process_prediction env now new db = (Inr (), db1)" and "pm_supersedes_prediction_id new = Some (pm_prediction_id old)"
    and "pm_prediction_id old \<notin> er_prediction_id ` set (vd_evaluations db)" and "pm_prediction_id new \<noteq> pm_prediction_id old"
    and "process_prediction env now' old db1 = (Inr (), db2)" and "pm_supersedes_prediction_id old \<noteq> Some (pm_prediction_id old)"
  shows "\<exists>ev \<in> set (vd_evaluations db2). er_prediction_id ev = pm_prediction_id old \<and> er_status ev = EV_PENDING"
proof -
  have ids: "set (map er_prediction_id (vd_evaluations x)) \<subseteq> insert (er_prediction_id ev) (set (map er_prediction_id (vd_evaluations y)))"
    if "create_evaluation_with_outbox ev q y = (r, x)" for ev q y r x
    using that by (auto simp: create_evaluation_with_outbox_def split: if_splits)
  obtain ev b x where "evaluation_of env new = Inr ev" "db1 = withdraw_superseded new x"
    "create_evaluation_with_outbox ev (price_request now (vd_next_uuid db) new ev) (db\<lparr>vd_next_uuid := vd_next_uuid db + 1\<rparr>) = (Inr b, x)"
    using assms(1) by (auto simp: process_prediction_def Let_def split: sum.splits prod.splits)
  then have absent: "pm_prediction_id old \<notin> set (map er_prediction_id (vd_evaluations db1))"
    using ids assms(3,4) evaluation_of_sel(1) by (fastforce simp: withdraw_frame)
  obtain ev' b' y where ev': "evaluation_of env old = Inr ev'" and db2: "db2 = withdraw_superseded old y"
    and "create_evaluation_with_outbox ev' (price_request now' (vd_next_uuid db1) old ev') (db1\<lparr>vd_next_uuid := vd_next_uuid db1 + 1\<rparr>) = (Inr b', y)"
    using assms(5) by (auto simp: process_prediction_def Let_def split: sum.splits prod.splits)
  then have "ev'\<lparr>er_status := EV_PENDING\<rparr> \<in> set (vd_evaluations y)" and id: "er_prediction_id ev' = pm_prediction_id old"
    using absent evaluation_of_sel(1) [OF ev'] by (auto simp: create_evaluation_with_outbox_def split: if_splits)
  then have "ev'\<lparr>er_status := EV_PENDING\<rparr> \<in> set (vd_evaluations db2)"
    using assms(6) unfolding db2 withdraw_superseded_def
    by (auto simp: withdraw_evaluation_def set_update_where image_iff split: option.splits)
  then show ?thesis using id by (intro bexI [of _ "ev'\<lparr>er_status := EV_PENDING\<rparr>"]) simp_all
qed

subsection \<open>Witnesses\<close>

definition sample_venv :: verification_env where
  "sample_venv =
     \<lparr>ve_registry = sample_registry, ve_tz = (\<lambda>_. Some (fixed_zone 0)), ve_uuid5 = (\<lambda>pid _. pid + 100),
      ve_deadband = 1 / 256, ve_magnitude_medium_min = 1 / 100, ve_magnitude_large_min = 3 / 100\<rparr>"

definition superseding :: "uuid \<Rightarrow> uuid option \<Rightarrow> PredictionMade" where
  "superseding pid old = (sample_prediction pid)\<lparr>pm_prediction_id := pid, pm_asset_id := ''GOLD'', pm_decision_at := days 739000,
     pm_supersedes_prediction_id := old\<rparr>"

lemma sample_evaluates:
  "\<exists>ev. evaluation_of sample_venv (superseding pid old) = Inr ev \<and> er_request_id ev = pid + 100 \<and> er_prediction_id ev = pid"
proof -
  obtain series where "resolve sample_registry ''GOLD'' = Inr series"
    by (simp add: resolve_def sample_registry_def)
  then show ?thesis
    by (simp add: evaluation_of_def sample_venv_def superseding_def resolve_baseline_settlement_def local_date_in_def
        zone_of_def is_session_complete_def session_completed_at_def Let_def)
qed

lemma process_fresh:
  assumes "evaluation_of env m = Inr ev" "er_prediction_id ev \<notin> er_prediction_id ` set (vd_evaluations db)"
    "er_request_id ev \<notin> er_request_id ` set (vd_evaluations db)"
  shows "\<exists>db1. process_prediction env now m db = (Inr (), withdraw_superseded m db1) \<and>
    vd_evaluations db1 = vd_evaluations db @ [ev\<lparr>er_status := EV_PENDING\<rparr>]"
  using assms
  by (simp add: process_prediction_def create_evaluation_with_outbox_def Let_def) (rule exI, rule conjI, rule refl, simp)

lemma sample_pair:
  assumes "p \<noteq> q"
  shows "\<exists>db1 db2 e1 e2. process_prediction sample_venv 0 (superseding p a) empty_vdb = (Inr (), withdraw_superseded (superseding p a) db1) \<and>
    vd_evaluations db1 = [e1] \<and> er_prediction_id e1 = p \<and> er_status e1 = EV_PENDING \<and>
    process_prediction sample_venv 0 (superseding q b) (withdraw_superseded (superseding p a) db1) =
      (Inr (), withdraw_superseded (superseding q b) db2) \<and>
    vd_evaluations db2 = vd_evaluations (withdraw_superseded (superseding p a) db1) @ [e2] \<and> er_prediction_id e2 = q"
proof -
  obtain e1 where e1: "evaluation_of sample_venv (superseding p a) = Inr e1" "er_request_id e1 = p + 100" "er_prediction_id e1 = p"
    using sample_evaluates by blast
  obtain e2 where e2: "evaluation_of sample_venv (superseding q b) = Inr e2" "er_request_id e2 = q + 100" "er_prediction_id e2 = q"
    using sample_evaluates by blast
  obtain db1 where db1: "process_prediction sample_venv 0 (superseding p a) empty_vdb = (Inr (), withdraw_superseded (superseding p a) db1)"
    "vd_evaluations db1 = [e1\<lparr>er_status := EV_PENDING\<rparr>]"
    using process_fresh [OF e1(1), of empty_vdb 0] by (auto simp: empty_vdb_def)
  let ?db = "withdraw_superseded (superseding p a) db1"
  have "map er_prediction_id (vd_evaluations ?db) = [p]" "map er_request_id (vd_evaluations ?db) = [p + 100]"
    using e1 by (simp_all add: db1(2) withdraw_superseded_def withdraw_evaluation_def status_update_maps split: option.split)
  then have "er_prediction_id ` set (vd_evaluations ?db) = {p}" "er_request_id ` set (vd_evaluations ?db) = {p + 100}"
    by (metis list.set(1,2) set_map)+
  then obtain db2 where "process_prediction sample_venv 0 (superseding q b) ?db = (Inr (), withdraw_superseded (superseding q b) db2)"
    "vd_evaluations db2 = vd_evaluations ?db @ [e2\<lparr>er_status := EV_PENDING\<rparr>]"
    using process_fresh [OF e2(1), of ?db 0] e2 assms by auto
  then show ?thesis using db1 e1(3) e2(3) by (intro exI conjI) (assumption | simp)+
qed

lemma superseding_sel [simp]:
  "pm_prediction_id (superseding p a) = p" "pm_supersedes_prediction_id (superseding p a) = a"
  by (simp_all add: superseding_def)

theorem early_withdrawal_lost_witness:
  "\<exists>db2. (vstep sample_venv)\<^sup>*\<^sup>* empty_vdb db2 \<and>
     (\<exists>ev \<in> set (vd_evaluations db2). er_prediction_id ev = 2 \<and> er_status ev = EV_PENDING)"
proof -
  obtain db1 db2 where
    p1: "process_prediction sample_venv 0 (superseding 3 (Some 2)) empty_vdb = (Inr (), withdraw_superseded (superseding 3 (Some 2)) db1)"
    and p2: "process_prediction sample_venv 0 (superseding 2 None) (withdraw_superseded (superseding 3 (Some 2)) db1) =
      (Inr (), withdraw_superseded (superseding 2 None) db2)"
    using sample_pair [of 3 2 "Some 2" None] by auto
  have "(vstep sample_venv)\<^sup>*\<^sup>* empty_vdb (withdraw_superseded (superseding 2 None) db2)"
    using vstep.prediction [of sample_venv empty_vdb 0 "superseding 3 (Some 2)"]
      vstep.prediction [of sample_venv "withdraw_superseded (superseding 3 (Some 2)) db1" 0 "superseding 2 None"]
    by (simp add: p1 p2)
  moreover have "\<exists>ev \<in> set (vd_evaluations (withdraw_superseded (superseding 2 None) db2)).
      er_prediction_id ev = 2 \<and> er_status ev = EV_PENDING"
    using early_withdrawal_lost [OF p1 _ _ _ p2] by (simp add: empty_vdb_def)
  ultimately show ?thesis by blast
qed


theorem verification_history_witness:
  "distinct (map sc_prediction_id (scoreds (vd_outbox (snd (process_prediction sample_venv 0 (superseding 3 None) empty_vdb)))))"
proof -
  have "(vstep sample_venv)\<^sup>*\<^sup>* empty_vdb (snd (process_prediction sample_venv 0 (superseding 3 None) empty_vdb))"
    by (intro r_into_rtranclp vstep.prediction)
  from verification_history [OF this] show ?thesis by blast
qed

theorem verification_redelivery_witness:
  "\<exists>db' n. process_prediction sample_venv 0 (superseding 3 None) empty_vdb = (Inr (), db') \<and>
     process_prediction sample_venv 60 (superseding 3 None) db' = (Inr (), db'\<lparr>vd_next_uuid := n\<rparr>)"
proof -
  obtain db' where "process_prediction sample_venv 0 (superseding 3 None) empty_vdb = (Inr (), db')"
    using sample_pair [of 3 2 None None] by auto
  with verification_redelivery [of sample_venv 0 "superseding 3 None" empty_vdb db' 60] show ?thesis by blast
qed

end
