(* ===== verification/Providers.thy ===== *)
theory Providers
  imports Registry
begin

text \<open>
  Provider adapters of the Market Data service
  (\<^verbatim>\<open>services/market-data/market_data/adapters\<close>: \<^verbatim>\<open>yahoo.py\<close>, \<^verbatim>\<open>biquote.py\<close>, \<^verbatim>\<open>router.py\<close>, and the
  calendar shim \<^verbatim>\<open>sessions.py\<close>).

  The HTTP exchange is the parameter: for a symbol and a request window, the transport error, a body
  that is not JSON, or the parsed body.  \<^verbatim>\<open>str\<close> of a value that is not text, \<^verbatim>\<open>float\<close> of a text,
  \<^verbatim>\<open>datetime.fromisoformat\<close> and \<^verbatim>\<open>date.isoformat\<close> are functions of the environment.  A number of the body
  beyond the range of floats counts as not finite.
\<close>

subsection \<open>Errors and replies\<close>

datatype md_error =
    PriceNotYetAvailableError string
  | AdapterUnavailableError string
  | InvalidObservationError string
  | AvanzaPending string
  | AvanzaUnavailable string
  | MRegistryError registry_error
  | MCalendarError calendar_error
  | MPyError py_error
  | MAttributeError
  | MOverflowError

definition not_yet :: "md_error \<Rightarrow> bool" where
  \<comment> \<open>\<^verbatim>\<open>except PriceNotYetAvailableError\<close>; \<^verbatim>\<open>AvanzaPending\<close> is a subclass\<close>
  "not_yet e = (case e of PriceNotYetAvailableError _ \<Rightarrow> True | AvanzaPending _ \<Rightarrow> True | _ \<Rightarrow> False)"

datatype http_reply = HttpError string | NotJson | Body json

record provider_env =
  pv_registry :: Registry
  pv_tz :: tzdb
  pv_yahoo :: "string \<Rightarrow> instant \<Rightarrow> instant \<Rightarrow> http_reply"
  pv_biquote :: "string \<Rightarrow> instant \<Rightarrow> instant \<Rightarrow> http_reply"
  pv_fetch_window_days :: int
  pv_str :: "json \<Rightarrow> string"
  pv_float_of_str :: "string \<Rightarrow> rat option"
  pv_fromisoformat :: "string \<Rightarrow> instant option"
  pv_isoformat :: "date \<Rightarrow> string"

subsection \<open>Numbers\<close>

definition candidates :: "nat \<Rightarrow> rat \<Rightarrow> rat list" where
  \<comment> \<open>the neighbours of \<open>x\<close> with \<open>n\<close> significant digits, nearer first, even first on a tie\<close>
  "candidates n x =
     (let e = ilog 10 x - int n + 1; q = x / bpow 10 e; lo = of_int \<lfloor>q\<rfloor> * bpow 10 e; hi = of_int \<lceil>q\<rceil> * bpow 10 e
      in if x - lo < hi - x \<or> (x - lo = hi - x \<and> even \<lfloor>q\<rfloor>) then [lo, hi] else [hi, lo])"

definition float_repr :: "flt \<Rightarrow> dec" where
  \<comment> \<open>\<^verbatim>\<open>Decimal(str(x))\<close>: the shortest decimal that reads back as \<open>x\<close>\<close>
  "float_repr x =
     (case filter (\<lambda>d. fl64 d = x) (concat (map (\<lambda>n. candidates n x) [1..<18])) of [] \<Rightarrow> x | d # _ \<Rightarrow> d)"

definition finite_float :: "rat \<Rightarrow> bool" where
  "finite_float x = (\<bar>x\<bar> < 2 ^ 1024)"

definition valid_close :: "provider_env \<Rightarrow> json option \<Rightarrow> dec option" where
  "valid_close env raw =
     (let check = (\<lambda>x. if finite_float x \<and> fl64 x > 0 then Some (float_repr (fl64 x)) else None)
      in case raw of
           Some (JNum x) \<Rightarrow> check x
         | Some (JStr s) \<Rightarrow> (case pv_float_of_str env s of None \<Rightarrow> None | Some x \<Rightarrow> check x)
         | _ \<Rightarrow> None)"

definition UNIX_EPOCH :: instant where
  "UNIX_EPOCH = days 719163"

definition epoch_to_utc :: "json \<Rightarrow> (md_error, instant) result" where
  \<comment> \<open>\<^verbatim>\<open>datetime.fromtimestamp(float(raw), UTC)\<close>; years 1 to 9999\<close>
  "epoch_to_utc raw =
     (case raw of
        JNum x \<Rightarrow>
          let f = fl64 x; whole = (if 0 \<le> f then \<lfloor>f\<rfloor> else \<lceil>f\<rceil>);
              t = UNIX_EPOCH + seconds whole + rhe (fl64 ((f - of_int whole) * 1000000))
          in if finite_float x \<and> days 1 \<le> t \<and> t < days 3652060 then Inr t
             else Inl (InvalidObservationError ''yahoo bar timestamp is out of range'')
      | _ \<Rightarrow> Inl (InvalidObservationError ''yahoo bar timestamp is not a number''))"

subsection \<open>Session shim\<close>

definition invalid_zone :: "calendar_error \<Rightarrow> md_error" where
  "invalid_zone e = (case e of UnsupportedTimezoneError n \<Rightarrow> InvalidObservationError n)"

definition md_session_complete ::
  "tzdb \<Rightarrow> AssetReferenceSeries \<Rightarrow> date \<Rightarrow> instant \<Rightarrow> (md_error, bool) result" where
  \<comment> \<open>\<^verbatim>\<open>market_data.sessions.is_session_complete\<close> on the asset's own clock\<close>
  "md_session_complete tz series session now =
     (case is_session_complete tz session (rs_timezone series) now (rs_session_completion_hour series)
             (rs_session_completion_minute series) of
        Inl e \<Rightarrow> Inl (invalid_zone e) | Inr b \<Rightarrow> Inr b)"

subsection \<open>Yahoo\<close>

definition ROLLOVER_INCLUDE_ALL :: string where
  "ROLLOVER_INCLUDE_ALL = ''PROVIDER_MANAGED_CONTINUOUS_INCLUDE_ALL_V1''"

definition upper_char :: "char \<Rightarrow> char" where
  "upper_char c = (if is_lower c then char_of ((of_char c :: nat) - 32) else c)"

definition upper :: "string \<Rightarrow> string" where
  "upper s = map upper_char s"

definition jat :: "json \<Rightarrow> string \<Rightarrow> json" where
  \<comment> \<open>\<^verbatim>\<open>d.get(k)\<close>: an absent key reads as null\<close>
  "jat j k = (case jget j k of None \<Rightarrow> JNull | Some v \<Rightarrow> v)"

definition require_result :: "AssetReferenceSeries \<Rightarrow> json \<Rightarrow> (md_error, json) result" where
  "require_result series payload =
     (let chart = jat payload ''chart''
      in if \<not> is_obj payload then Inl MAttributeError
         else if \<not> is_obj chart then Inl (InvalidObservationError ''yahoo chart block is missing or malformed'')
         else if jat chart ''error'' \<noteq> JNull
         then Inl (InvalidObservationError (''yahoo rejected '' @ rs_provider_symbol series))
         else case jat chart ''result'' of
                JList (first # _) \<Rightarrow>
                  if is_obj first then Inr first
                  else Inl (InvalidObservationError ''yahoo result entry is not an object'')
              | _ \<Rightarrow> Inl (PriceNotYetAvailableError (''yahoo returned no series for '' @ rs_provider_symbol series)))"

definition close_array :: "json \<Rightarrow> (md_error, json list) result" where
  "close_array res =
     (if \<not> is_obj (jat res ''indicators'')
      then Inl (InvalidObservationError ''yahoo indicators block is missing or malformed'')
      else case jat (jat res ''indicators'') ''quote'' of
             JList (quote # _) \<Rightarrow>
               if \<not> is_obj quote then Inl (InvalidObservationError ''yahoo quote block is missing or malformed'')
               else (case jat quote ''close'' of
                       JList closes \<Rightarrow> Inr closes
                     | _ \<Rightarrow> Inl (InvalidObservationError ''yahoo close array is missing or malformed''))
           | _ \<Rightarrow> Inl (InvalidObservationError ''yahoo quote block is missing or malformed''))"

definition validate_identity :: "provider_env \<Rightarrow> AssetReferenceSeries \<Rightarrow> json \<Rightarrow> (md_error, unit) result" where
  "validate_identity env series meta =
     (let currency = jat meta ''currency''; zone_name = jat meta ''exchangeTimezoneName''
      in if currency \<noteq> JNull \<and> upper (json_str (pv_str env) currency) \<noteq> upper (rs_currency series)
         then Inl (InvalidObservationError (rs_asset_id series @ '': provider currency''))
         else if zone_name \<noteq> JNull \<and> json_str (pv_str env) zone_name \<noteq> rs_timezone series
         then Inl (InvalidObservationError (rs_asset_id series @ '': provider timezone''))
         else Inr ())"

definition provider_close ::
  "AssetReferenceSeries \<Rightarrow> string \<Rightarrow> PriceKind \<Rightarrow> instant \<Rightarrow> date \<Rightarrow> dec \<Rightarrow> instant \<Rightarrow> CloseObservation" where
  "provider_close series source kind now session close bar_time =
     \<lparr>co_session = session, co_close = close, co_provider_bar_time = Some bar_time, co_fetched_at = now,
      co_source = source, co_provider_symbol = rs_provider_symbol series, co_price_kind = kind,
      co_is_adjusted = rs_is_adjusted series, co_registry_version = rs_registry_version series,
      co_sample = None, co_fallback_reason = None\<rparr>"

fun yahoo_bars ::
  "provider_env \<Rightarrow> AssetReferenceSeries \<Rightarrow> instant \<Rightarrow> (json \<times> json) list \<Rightarrow> (md_error, CloseObservation list) result" where
  "yahoo_bars env series now [] = Inr []"
| "yahoo_bars env series now ((raw_time, raw_close) # bars) =
     (case valid_close env (Some raw_close) of
        None \<Rightarrow> yahoo_bars env series now bars
      | Some close \<Rightarrow>
          bind_result (epoch_to_utc raw_time) (\<lambda>bar_time.
          bind_result (map_sum invalid_zone id (provider_bar_to_session (pv_tz env) bar_time (rs_timezone series))) (\<lambda>session.
          bind_result (map_sum MCalendarError id (is_session_complete (pv_tz env) session (rs_timezone series) now
              (rs_session_completion_hour series) (rs_session_completion_minute series))) (\<lambda>done.
            if \<not> done then yahoo_bars env series now bars
            else bind_result (yahoo_bars env series now bars) (\<lambda>rest.
                   Inr (provider_close series ''yahoo'' PROVIDER_DAILY_CLOSE now session close bar_time # rest))))))"

definition yahoo_parse ::
  "provider_env \<Rightarrow> AssetReferenceSeries \<Rightarrow> instant \<Rightarrow> json \<Rightarrow> (md_error, CloseObservation list) result" where
  "yahoo_parse env series now payload =
     (if rs_rollover_policy series \<noteq> ROLLOVER_INCLUDE_ALL
      then Inl (InvalidObservationError (''unsupported rollover policy: '' @ rs_rollover_policy series))
      else
        bind_result (require_result series payload) (\<lambda>res.
          if \<not> is_obj (jat res ''meta'')
          then Inl (InvalidObservationError ''yahoo meta block is missing or malformed'')
          else
            bind_result (validate_identity env series (jat res ''meta'')) (\<lambda>_.
              case jat res ''timestamp'' of
                JList timestamps \<Rightarrow>
                  bind_result (close_array res) (\<lambda>closes.
                    if length closes \<noteq> length timestamps
                    then Inl (InvalidObservationError ''yahoo timestamp/close length mismatch'')
                    else yahoo_bars env series now (zip timestamps closes))
              | _ \<Rightarrow> Inl (InvalidObservationError ''yahoo timestamp array is missing or malformed''))))"

definition request_window :: "provider_env \<Rightarrow> date \<Rightarrow> instant \<times> instant" where
  "request_window env session =
     (days (session - pv_fetch_window_days env), days (session + pv_fetch_window_days env))"

definition http_body :: "string \<Rightarrow> http_reply \<Rightarrow> (md_error, json) result" where
  \<comment> \<open>only \<^verbatim>\<open>httpx.HTTPError\<close> is translated: a body that is not JSON raises \<^verbatim>\<open>ValueError\<close>\<close>
  "http_body what reply =
     (case reply of
        HttpError e \<Rightarrow> Inl (AdapterUnavailableError (what @ e))
      | NotJson \<Rightarrow> Inl (MPyError (ValueError ''JSONDecodeError''))
      | Body j \<Rightarrow> Inr j)"

definition yahoo_fetch_observations ::
  "provider_env \<Rightarrow> instant \<Rightarrow> AssetId \<Rightarrow> date \<Rightarrow> (md_error, CloseObservation list) result" where
  "yahoo_fetch_observations env now asset_id session =
     bind_result (map_sum MRegistryError id (resolve (pv_registry env) asset_id)) (\<lambda>series.
       let (start, end') = request_window env session
       in bind_result (http_body (''yahoo request failed for '' @ asset_id @ '': '')
                         (pv_yahoo env (rs_provider_symbol series) start end')) (\<lambda>payload.
            yahoo_parse env series now payload))"

subsection \<open>biquote.io\<close>

definition parse_open_time :: "provider_env \<Rightarrow> json \<Rightarrow> (md_error, instant) result" where
  "parse_open_time env raw =
     (case raw of
        JStr s \<Rightarrow>
          (case pv_fromisoformat env s of
             None \<Rightarrow> Inl (InvalidObservationError (''provider bar openTime is unparseable: '' @ s))
           | Some t \<Rightarrow> Inr t)
      | _ \<Rightarrow> Inl (InvalidObservationError ''provider bar openTime is missing or malformed''))"

fun biquote_bars ::
  "provider_env \<Rightarrow> AssetReferenceSeries \<Rightarrow> instant \<Rightarrow> json list \<Rightarrow> (md_error, CloseObservation list) result" where
  "biquote_bars env series now [] = Inr []"
| "biquote_bars env series now (bar # bars) =
     (if \<not> is_obj bar then Inl (InvalidObservationError ''provider bar is not an object'')
      else if jat bar ''isOpen'' = JBool True then biquote_bars env series now bars
      else case valid_close env (jget bar ''close'') of
             None \<Rightarrow> biquote_bars env series now bars
           | Some close \<Rightarrow>
               bind_result (parse_open_time env (jat bar ''openTime'')) (\<lambda>t.
                 case enum_of PriceKind_all PriceKind_value (rs_price_kind series) of
                   None \<Rightarrow> Inl (MPyError (ValueError ''price_kind''))
                 | Some kind \<Rightarrow>
                     bind_result (map_sum MPyError id (valid_sampled_close
                         (provider_close series ''biquote.io'' kind now (date_of t) close t))) (\<lambda>c.
                     bind_result (biquote_bars env series now bars) (\<lambda>rest. Inr (c # rest)))))"

definition biquote_parse ::
  "provider_env \<Rightarrow> AssetReferenceSeries \<Rightarrow> instant \<Rightarrow> json \<Rightarrow> (md_error, CloseObservation list) result" where
  "biquote_parse env series now payload =
     (if rs_rollover_policy series \<noteq> ROLLOVER_INCLUDE_ALL
      then Inl (InvalidObservationError (''unsupported rollover policy: '' @ rs_rollover_policy series))
      else if \<not> is_obj payload then Inl MAttributeError
      else case jat payload ''bars'' of
             JList bars \<Rightarrow> biquote_bars env series now bars
           | _ \<Rightarrow> Inl (InvalidObservationError ''provider bars block is missing or malformed''))"

definition biquote_fetch_observations ::
  "provider_env \<Rightarrow> instant \<Rightarrow> AssetId \<Rightarrow> date \<Rightarrow> (md_error, CloseObservation list) result" where
  "biquote_fetch_observations env now asset_id session =
     bind_result (map_sum MRegistryError id (resolve (pv_registry env) asset_id)) (\<lambda>series.
       let (start, end') = request_window env session
       in bind_result (http_body (''biquote request failed for '' @ asset_id @ '': '')
                         (pv_biquote env (rs_provider_symbol series) start end')) (\<lambda>payload.
            biquote_parse env series now payload))"

subsection \<open>Router\<close>

datatype adapter = YahooAdapter | BiquoteAdapter

definition adapter_for :: "provider_env \<Rightarrow> AssetId \<Rightarrow> (md_error, adapter) result" where
  "adapter_for env asset_id =
     (case resolve (pv_registry env) asset_id of
        Inl _ \<Rightarrow> Inl (InvalidObservationError (''unknown asset '' @ asset_id))
      | Inr series \<Rightarrow>
          if rs_provider series = ''yahoo'' then Inr YahooAdapter
          else if rs_provider series = ''biquote.io'' then Inr BiquoteAdapter
          else Inl (InvalidObservationError (''no adapter configured for provider '' @ rs_provider series)))"

definition adapter_fetch ::
  "provider_env \<Rightarrow> instant \<Rightarrow> adapter \<Rightarrow> AssetId \<Rightarrow> date \<Rightarrow> (md_error, CloseObservation list) result" where
  "adapter_fetch env now a asset_id session =
     (case a of YahooAdapter \<Rightarrow> yahoo_fetch_observations env now asset_id session
              | BiquoteAdapter \<Rightarrow> biquote_fetch_observations env now asset_id session)"

definition adapter_get_close ::
  "provider_env \<Rightarrow> instant \<Rightarrow> adapter \<Rightarrow> AssetId \<Rightarrow> date \<Rightarrow> (md_error, CloseObservation) result" where
  "adapter_get_close env now a asset_id session =
     bind_result (adapter_fetch env now a asset_id session) (\<lambda>observations.
       case List.find (\<lambda>c. co_session c = session) observations of
         Some c \<Rightarrow> Inr c
       | None \<Rightarrow> Inl (PriceNotYetAvailableError
           ((case a of YahooAdapter \<Rightarrow> ''no settled Yahoo bar for '' | BiquoteAdapter \<Rightarrow> ''no provider bar for '') @
            asset_id @ '' session '' @ pv_isoformat env session)))"

definition get_close :: "provider_env \<Rightarrow> instant \<Rightarrow> AssetId \<Rightarrow> date \<Rightarrow> (md_error, CloseObservation) result" where
  "get_close env now asset_id session =
     (case bind_result (adapter_for env asset_id) (\<lambda>a. adapter_get_close env now a asset_id session) of
        Inr c \<Rightarrow> Inr c
      | Inl e \<Rightarrow>
          if \<not> not_yet e then Inl e
          else
            bind_result (map_sum MRegistryError id (resolve (pv_registry env) asset_id)) (\<lambda>series.
              case rs_fallback series of
                None \<Rightarrow> Inl e
              | Some fallback_id \<Rightarrow>
                  bind_result (adapter_for env fallback_id) (\<lambda>a. adapter_get_close env now a fallback_id session)))"

definition fetch_observations ::
  "provider_env \<Rightarrow> instant \<Rightarrow> AssetId \<Rightarrow> date \<Rightarrow> (md_error, CloseObservation list) result" where
  "fetch_observations env now asset_id session =
     bind_result (adapter_for env asset_id) (\<lambda>a. adapter_fetch env now a asset_id session)"

subsection \<open>What an adapter returns\<close>

definition daily_registry :: "Registry \<Rightarrow> bool" where
  \<comment> \<open>every series is an unadjusted provider daily close, as in the shipped registry\<close>
  "daily_registry reg \<longleftrightarrow>
     list_all (\<lambda>(a, e). ae_price_kind e = ''PROVIDER_DAILY_CLOSE'' \<and> \<not> ae_is_adjusted e) (rg_assets reg)"

lemma resolve_daily:
  assumes "daily_registry reg" "resolve reg a = Inr series"
  shows "rs_price_kind series = ''PROVIDER_DAILY_CLOSE''" "\<not> rs_is_adjusted series"
    "rs_registry_version series = rg_registry_version reg"
  using assms dict_get_mem by (fastforce simp: daily_registry_def resolve_def to_series_def list_all_iff split: option.splits)+

definition daily_close :: "Registry \<Rightarrow> date \<Rightarrow> CloseObservation \<Rightarrow> bool" where
  "daily_close reg session c \<longleftrightarrow>
     co_session c = session \<and> co_registry_version c = rg_registry_version reg \<and> co_price_kind c = PROVIDER_DAILY_CLOSE \<and>
     \<not> co_is_adjusted c \<and> co_sample c = None \<and> 0 < co_close c"

lemma float_repr_pos: "0 < x \<Longrightarrow> 0 < float_repr x"
proof -
  assume x: "0 < x"
  have "0 < d" if "fl64 d = x" for d
  proof (rule ccontr)
    assume "\<not> 0 < d"
    then have "fl64 d \<le> fl64 0" by (intro b64.rnd_mono) simp
    with that x show False by simp
  qed
  moreover have "\<exists>d. float_repr x = d \<and> fl64 d = x \<or> float_repr x = x"
  proof (cases "filter (\<lambda>d. fl64 d = x) (concat (map (\<lambda>n. candidates n x) [1..<18]))")
    case (Cons d ds)
    have "d \<in> set (filter (\<lambda>d. fl64 d = x) (concat (map (\<lambda>n. candidates n x) [1..<18])))" unfolding Cons by simp
    then have "fl64 d = x" by simp
    then show ?thesis using Cons by (simp add: float_repr_def)
  qed (simp add: float_repr_def)
  ultimately show ?thesis using x by auto
qed

lemma valid_close_pos: "valid_close env raw = Some c \<Longrightarrow> 0 < c"
  by (auto simp: valid_close_def Let_def float_repr_pos split: option.splits json.splits if_splits)

lemma bind_result_Inr: "bind_result r f = Inr y \<longleftrightarrow> (\<exists>x. r = Inr x \<and> f x = Inr y)"
  by (cases r) (simp_all add: bind_result_def)

lemma map_sum_Inr: "map_sum f id r = Inr y \<longleftrightarrow> r = Inr y"
  by (cases r) simp_all

lemma yahoo_bars_Cons:
  assumes "yahoo_bars env series now (bar # bars) = Inr cs"
  shows "yahoo_bars env series now bars = Inr cs \<or>
    (\<exists>session close t rest. cs = provider_close series ''yahoo'' PROVIDER_DAILY_CLOSE now session close t # rest \<and> 0 < close \<and>
       is_session_complete (pv_tz env) session (rs_timezone series) now (rs_session_completion_hour series)
         (rs_session_completion_minute series) = Inr True \<and>
       yahoo_bars env series now bars = Inr rest)"
proof (cases "yahoo_bars env series now bars = Inr cs")
  case False
  obtain t0 c0 where bar: "bar = (t0, c0)" by (cases bar)
  obtain close where close: "valid_close env (Some c0) = Some close"
    using assms False by (cases "valid_close env (Some c0)") (simp_all add: bar)
  then obtain t session fin where
    "is_session_complete (pv_tz env) session (rs_timezone series) now (rs_session_completion_hour series)
       (rs_session_completion_minute series) = Inr fin"
    "(if \<not> fin then yahoo_bars env series now bars else bind_result (yahoo_bars env series now bars) (\<lambda>rest.
        Inr (provider_close series ''yahoo'' PROVIDER_DAILY_CLOSE now session close t # rest))) = Inr cs"
    using assms by (auto simp: bar bind_result_Inr map_sum_Inr)
  then show ?thesis using False valid_close_pos [OF close] by (cases fin) (auto simp: bind_result_Inr)
qed simp

lemma yahoo_bars_daily:
  assumes "yahoo_bars env series now bars = Inr cs" "c \<in> set cs"
  shows "\<exists>session close t. c = provider_close series ''yahoo'' PROVIDER_DAILY_CLOSE now session close t \<and> 0 < close \<and>
    is_session_complete (pv_tz env) session (rs_timezone series) now (rs_session_completion_hour series)
      (rs_session_completion_minute series) = Inr True"
  using assms
proof (induction bars arbitrary: cs)
  case (Cons bar bars)
  from yahoo_bars_Cons [OF Cons.prems(1)] show ?case using Cons by (elim disjE exE conjE) auto
qed simp

lemma valid_sampled_close_same: "valid_sampled_close c = Inr c' \<Longrightarrow> c' = c"
  by (auto simp: valid_sampled_close_def split: if_splits option.splits)

lemma biquote_bars_Cons:
  assumes "biquote_bars env series now (bar # bars) = Inr cs"
  shows "biquote_bars env series now bars = Inr cs \<or>
    (\<exists>kind t close rest. cs = provider_close series ''biquote.io'' kind now (date_of t) close t # rest \<and> 0 < close \<and>
       PriceKind_value kind = rs_price_kind series \<and> biquote_bars env series now bars = Inr rest)"
proof (cases "biquote_bars env series now bars = Inr cs")
  case False
  then obtain close where close: "valid_close env (jget bar ''close'') = Some close"
    using assms by (auto split: if_splits option.splits)
  then obtain t kind c rest where *: "enum_of PriceKind_all PriceKind_value (rs_price_kind series) = Some kind"
    "valid_sampled_close (provider_close series ''biquote.io'' kind now (date_of t) close t) = Inr c"
    "biquote_bars env series now bars = Inr rest" "cs = c # rest"
    using assms False by (auto simp: bind_result_Inr map_sum_Inr split: if_splits option.splits)
  then have "c = provider_close series ''biquote.io'' kind now (date_of t) close t" by (blast dest: valid_sampled_close_same)
  moreover have "PriceKind_value kind = rs_price_kind series" using *(1) by (simp add: price_kind.enum_of_Some_iff)
  ultimately show ?thesis using * valid_close_pos [OF close] by blast
qed simp

lemma biquote_bars_daily:
  assumes "biquote_bars env series now bars = Inr cs" "c \<in> set cs"
  shows "\<exists>kind session close t. c = provider_close series ''biquote.io'' kind now session close t \<and> 0 < close \<and>
    PriceKind_value kind = rs_price_kind series"
  using assms
proof (induction bars arbitrary: cs)
  case (Cons bar bars)
  from biquote_bars_Cons [OF Cons.prems(1)] show ?case using Cons by (elim disjE exE conjE) auto
qed simp

lemma adapter_fetch_daily:
  assumes "daily_registry (pv_registry env)" "adapter_fetch env now a asset_id session = Inr cs" "c \<in> set cs"
  shows "daily_close (pv_registry env) (co_session c) c"
proof -
  obtain series where series: "resolve (pv_registry env) asset_id = Inr series"
    using assms(2) by (auto simp: adapter_fetch_def yahoo_fetch_observations_def biquote_fetch_observations_def bind_result_Inr
        map_sum_Inr split: adapter.splits)
  note daily = resolve_daily [OF assms(1) series]
  have "\<exists>source kind session close t. c = provider_close series source kind now session close t \<and> 0 < close \<and>
      PriceKind_value kind = ''PROVIDER_DAILY_CLOSE''"
  proof (cases a)
    case YahooAdapter
    then obtain payload where "yahoo_parse env series now payload = Inr cs"
      using assms(2) series by (auto simp: adapter_fetch_def yahoo_fetch_observations_def bind_result_Inr map_sum_Inr
          split: prod.splits)
    then obtain bars where "yahoo_bars env series now bars = Inr cs"
      by (auto simp: yahoo_parse_def bind_result_Inr split: if_splits json.splits)
    from yahoo_bars_daily [OF this assms(3)] show ?thesis by (metis PriceKind_value.simps(1))
  next
    case BiquoteAdapter
    then obtain payload where "biquote_parse env series now payload = Inr cs"
      using assms(2) series by (auto simp: adapter_fetch_def biquote_fetch_observations_def bind_result_Inr map_sum_Inr
          split: prod.splits)
    then obtain bars where "biquote_bars env series now bars = Inr cs"
      by (auto simp: biquote_parse_def split: if_splits json.splits)
    from biquote_bars_daily [OF this assms(3)] show ?thesis unfolding daily(1) by blast
  qed
  then obtain source kind s close t where c: "c = provider_close series source kind now s close t" "0 < close"
    and kind: "PriceKind_value kind = ''PROVIDER_DAILY_CLOSE''" by blast
  have "kind = PROVIDER_DAILY_CLOSE" using kind by (cases kind) simp_all
  then show ?thesis using c daily(2,3) by (simp add: daily_close_def provider_close_def)
qed

lemma get_close_daily:
  assumes "daily_registry (pv_registry env)" "get_close env now asset_id session = Inr c"
  shows "daily_close (pv_registry env) session c"
proof -
  have adapter: "daily_close (pv_registry env) session c" if get: "adapter_get_close env now a x session = Inr c" for a x
  proof -
    obtain cs where "adapter_fetch env now a x session = Inr cs" "List.find (\<lambda>c. co_session c = session) cs = Some c"
      using get by (auto simp: adapter_get_close_def bind_result_Inr split: option.splits)
    then have "c \<in> set cs" "co_session c = session" using fetch_first_Some [of _ cs c] by (auto simp: fetch_first_def)
    then show ?thesis using adapter_fetch_daily [OF assms(1) \<open>adapter_fetch env now a x session = Inr cs\<close>] by blast
  qed
  then show ?thesis
    using assms(2) by (auto simp: get_close_def bind_result_Inr map_sum_Inr split: sum.splits if_splits option.splits)
qed

end
