(* ===== verification/Avanza.thy ===== *)
theory Avanza
  imports Providers
begin

text \<open>
  Avanza-first reads of the Market Data service (\<^verbatim>\<open>services/market-data/market_data/avanza.py\<close>, with
  \<^verbatim>\<open>snapshots/calendar.py\<close> and the listing mappings of \<^verbatim>\<open>snapshots/config.py\<close>).

  The mapping file is the parameter \<open>av_mappings\<close>: its decoded listings, or \<open>None\<close> when it cannot be read or
  decoded; \<^verbatim>\<open>validate_url\<close> is a predicate of the environment.  The stored samples are passed as a table.
  Any exception other than a pending one makes the reader fall back to the finance adapters.
\<close>

subsection \<open>Sessions and slots\<close>

record Session =
  ss_session :: date
  ss_opens_at :: instant
  ss_closes_at :: instant
  ss_next_open_at :: instant

definition session_for ::
  "(string \<Rightarrow> exchange_calendar option) \<Rightarrow> instant \<Rightarrow> string \<Rightarrow> string \<Rightarrow> (md_error, Session) result" where
  "session_for calendars now calendar_id timezone =
     (case calendars calendar_id of
        None \<Rightarrow> Inl (MPyError (ValueError ''unsupported exchange calendar''))
      | Some cal \<Rightarrow>
          if xc_tz cal \<noteq> timezone then Inl (MPyError (ValueError ''calendar timezone mismatch''))
          else
            let day = xc_date_to_session_next cal (xc_local_date cal now)
            in if xc_has_break cal day then Inl (MPyError (ValueError ''split sessions unsupported''))
               else Inr \<lparr>ss_session = day, ss_opens_at = xc_session_open cal day, ss_closes_at = xc_session_close cal day,
                         ss_next_open_at = xc_session_open cal (xc_next_session cal day)\<rparr>)"

definition slots :: "Session \<Rightarrow> int \<Rightarrow> (instant \<times> SampleKind) list" where
  "slots w interval_seconds =
     map (\<lambda>t. (t, REGULAR)) (slot_times (ss_opens_at w) (ss_closes_at w) (seconds interval_seconds)) @
     map (\<lambda>d. (ss_closes_at w + seconds d, CLOSE_CHECK)) [0, 120, 300]"

subsection \<open>Listing mappings\<close>

record Listing =
  li_asset_id :: AssetId
  li_market_code :: string
  li_instrument_id :: string
  li_page_url :: string
  li_expected_exchange :: string
  li_expected_currency :: string
  li_quote_unit :: string
  li_calendar_id :: string
  li_timezone :: string
  li_enabled :: bool
  li_verified :: bool
  li_validated_at :: "instant option"
  li_evidence_url :: "string option"

record avanza_env =
  av_providers :: provider_env
  av_calendars :: "string \<Rightarrow> exchange_calendar option"
  av_mappings :: "Listing list option"
  av_valid_url :: "string \<Rightarrow> string \<Rightarrow> bool"
  av_initialized :: bool

abbreviation av_registry :: "avanza_env \<Rightarrow> Registry" where
  "av_registry env \<equiv> pv_registry (av_providers env)"

definition valid_identity :: "avanza_env \<Rightarrow> Listing \<Rightarrow> bool" where
  "valid_identity env l \<longleftrightarrow>
     av_valid_url env (li_page_url l) (li_instrument_id l) \<and>
     (case li_evidence_url l of None \<Rightarrow> True | Some u \<Rightarrow> u = [] \<or> av_valid_url env u (li_instrument_id l)) \<and>
     li_quote_unit l = li_expected_currency l \<and>
     (li_enabled l \<longrightarrow> li_verified l \<and> li_validated_at l \<noteq> None \<and> li_evidence_url l = Some (li_page_url l))"

definition check_registry :: "Registry \<Rightarrow> Listing \<Rightarrow> (md_error, string) result" where
  "check_registry reg l =
     (case resolve reg (li_asset_id l) of
        Inl e \<Rightarrow> Inl (MRegistryError e)
      | Inr series \<Rightarrow>
          if rs_code series \<noteq> li_market_code l \<or> rs_currency series \<noteq> li_expected_currency l \<or>
             rs_expected_exchange series \<noteq> li_expected_exchange l \<or> rs_timezone series \<noteq> li_timezone l
          then Inl (MPyError (ValueError ''mapping disagrees with canonical registry''))
          else Inr (rs_registry_version series))"

definition load_mappings :: "avanza_env \<Rightarrow> (md_error, Listing list) result" where
  "load_mappings env =
     (case av_mappings env of
        None \<Rightarrow> Inl (MPyError (ValueError ''mapping file''))
      | Some ls \<Rightarrow>
          if \<not> list_all (valid_identity env) ls then Inl (MPyError (ValueError ''invalid listing''))
          else if \<not> distinct (map li_asset_id ls) then Inl (MPyError (ValueError ''duplicate asset mapping''))
          else if \<not> distinct (map li_instrument_id ls) then Inl (MPyError (ValueError ''duplicate instrument mapping''))
          else bind_result (map_result (check_registry (av_registry env)) ls) (\<lambda>_. Inr ls))"

subsection \<open>Samples\<close>

definition GRACE :: int where
  "GRACE = seconds 120"

record sample_row =
  px_sample :: PriceSampleObserved
  px_instrument_id :: string
  px_exchange :: string

definition provenance :: "PriceSampleObserved \<Rightarrow> (md_error, SampleProvenance) result" where
  "provenance s =
     (if ps_quality s \<notin> {FRESH, FRESHNESS_UNKNOWN} then Inl (AvanzaUnavailable ''INVALID_SAMPLE_QUALITY'')
      else map_sum MPyError id (valid_availability
        \<lparr>sp_sample_id = ps_sample_id s, sp_scheduled_at = ps_scheduled_at s, sp_observed_at = ps_observed_at s,
         sp_expires_at = min (ps_scheduled_at s + seconds (ps_interval_seconds s)) (ps_closes_at s),
         sp_interval_seconds = ps_interval_seconds s, sp_mapping_version = ps_mapping_version s,
         sp_currency = ps_currency s, sp_provider_quote_at = ps_provider_quote_at s,
         sp_quote_delay_seconds = ps_quote_delay_seconds s, sp_quality = ps_quality s\<rparr>))"

definition sample_identity_ok :: "AssetId \<Rightarrow> Session \<Rightarrow> string \<Rightarrow> string \<Rightarrow> PriceSampleObserved \<Rightarrow> bool" where
  "sample_identity_ok asset_id w currency registry_version s \<longleftrightarrow>
     ps_asset_id s = asset_id \<and> ps_currency s = currency \<and> ps_quote_unit s = currency \<and>
     ps_registry_version s = registry_version \<and> ps_session s = ss_session w \<and>
     ps_opens_at s = ss_opens_at w \<and> ps_closes_at s = ss_closes_at w"

definition sample_evidence_ok :: "Session \<Rightarrow> PriceSampleObserved \<Rightarrow> bool" where
  "sample_evidence_ok w s \<longleftrightarrow>
     (let offset = total_seconds (ps_scheduled_at s - ss_opens_at w) / of_int (ps_interval_seconds s)
      in ps_market_state s = REGULAR_OPEN \<and> ps_quality s \<in> {FRESH, FRESHNESS_UNKNOWN} \<and>
         ps_scheduled_at s \<le> ps_observed_at s \<and> ps_observed_at s < ss_closes_at w \<and>
         ps_observed_at s - ps_scheduled_at s \<le> GRACE \<and> offset = of_int \<lfloor>offset\<rfloor>)"

fun check_samples ::
  "AssetId \<Rightarrow> Session \<Rightarrow> string \<Rightarrow> string \<Rightarrow> PriceSampleObserved list \<Rightarrow> (md_error, unit) result" where
  "check_samples asset_id w currency registry_version [] = Inr ()"
| "check_samples asset_id w currency registry_version (s # ss) =
     (if \<not> sample_identity_ok asset_id w currency registry_version s then Inl (AvanzaUnavailable ''SAMPLE_IDENTITY_MISMATCH'')
      else if \<not> sample_evidence_ok w s then Inl (AvanzaUnavailable ''INVALID_SAMPLE_EVIDENCE'')
      else check_samples asset_id w currency registry_version ss)"

definition validate_samples ::
  "PriceSampleObserved list \<Rightarrow> AssetId \<Rightarrow> Session \<Rightarrow> string \<Rightarrow> string \<Rightarrow> instant \<Rightarrow>
   (md_error, PriceSampleObserved list) result" where
  "validate_samples samples asset_id w currency registry_version now =
     (let regular = sort_key ps_scheduled_at (filter (\<lambda>s. ps_kind s = REGULAR \<and> ps_observed_at s \<le> now) samples)
      in if length (remdups (map (\<lambda>s. (ps_mapping_version s, ps_interval_seconds s)) regular)) > 1
         then Inl (AvanzaUnavailable ''MIXED_MAPPING_OR_CADENCE'')
         else if \<not> distinct (map ps_scheduled_at regular) then Inl (AvanzaUnavailable ''DUPLICATE_SAMPLE_SLOT'')
         else bind_result (check_samples asset_id w currency registry_version regular) (\<lambda>_. Inr regular))"

record SessionSummary =
  sm_asset_id :: AssetId
  sm_session :: date
  sm_currency :: string
  sm_open :: dec
  sm_high :: dec
  sm_low :: dec
  sm_close :: dec
  sm_provisional :: bool
  sm_complete :: bool
  sm_observed_samples :: nat
  sm_expected_samples :: nat
  sm_missing_slots :: "instant list"
  sm_first_sample :: SampleProvenance
  sm_last_sample :: SampleProvenance

definition regular_slots :: "Session \<Rightarrow> int \<Rightarrow> instant list" where
  "regular_slots w interval_seconds = map fst (filter (\<lambda>(_, k). k = REGULAR) (slots w interval_seconds))"

definition summarize ::
  "AssetId \<Rightarrow> Session \<Rightarrow> PriceSampleObserved list \<Rightarrow> instant \<Rightarrow> (md_error, SessionSummary) result" where
  "summarize asset_id w samples now =
     (if samples = [] then
        (if now < ss_opens_at w + GRACE then Inl (AvanzaPending ''OPENING_SAMPLE_NOT_DUE'')
         else Inl (AvanzaUnavailable ''NO_AVANZA_HISTORY''))
      else
        let expected = regular_slots w (ps_interval_seconds (hd samples));
            present = set (map ps_scheduled_at samples)
        in bind_result (provenance (hd samples)) (\<lambda>first.
           bind_result (provenance (last samples)) (\<lambda>final.
             Inr \<lparr>sm_asset_id = asset_id, sm_session = ss_session w, sm_currency = ps_currency (hd samples),
                  sm_open = ps_price (hd samples),
                  sm_high = foldl max (ps_price (hd samples)) (map ps_price (tl samples)),
                  sm_low = foldl min (ps_price (hd samples)) (map ps_price (tl samples)),
                  sm_close = ps_price (last samples), sm_provisional = (now < ss_closes_at w + GRACE),
                  sm_complete = (present = set expected), sm_observed_samples = length samples,
                  sm_expected_samples = length expected,
                  sm_missing_slots = filter (\<lambda>t. t + GRACE \<le> now \<and> t \<notin> present) expected,
                  sm_first_sample = first, sm_last_sample = final\<rparr>)))"

definition minute_bar :: "PriceSampleObserved \<Rightarrow> SampleProvenance \<Rightarrow> instant \<Rightarrow> (md_error, IntradayBar) result" where
  "minute_bar s evidence t =
     map_sum MPyError id (coherent_bar
       \<lparr>ib_start = t, ib_open = ps_price s, ib_high = ps_price s, ib_low = ps_price s, ib_close = ps_price s,
        ib_sample = Some evidence, ib_carried_forward = (t \<noteq> floor_minute (ps_observed_at s))\<rparr>)"

definition covered_minutes :: "PriceSampleObserved \<Rightarrow> SampleProvenance \<Rightarrow> instant \<Rightarrow> instant list" where
  \<comment> \<open>\<^verbatim>\<open>while at < evidence.expires_at and at + MINUTE <= min(now, sample.closes_at)\<close>\<close>
  "covered_minutes s evidence now =
     filter (\<lambda>t. t + MINUTE \<le> min now (ps_closes_at s))
       (slot_times (floor_minute (ps_observed_at s)) (sp_expires_at evidence) MINUTE)"

fun minute_dict ::
  "PriceSampleObserved list \<Rightarrow> instant \<Rightarrow> (instant, IntradayBar) dict \<Rightarrow> (md_error, (instant, IntradayBar) dict) result" where
  "minute_dict [] now d = Inr d"
| "minute_dict (s # ss) now d =
     bind_result (provenance s) (\<lambda>evidence.
     bind_result (map_result (minute_bar s evidence) (covered_minutes s evidence now)) (\<lambda>bars.
       minute_dict ss now (foldl (\<lambda>d b. dict_set d (ib_start b) b) d bars)))"

definition minute_values :: "PriceSampleObserved list \<Rightarrow> instant \<Rightarrow> (md_error, IntradayBar list) result" where
  "minute_values samples now =
     bind_result (minute_dict samples now []) (\<lambda>d. Inr (sort_key ib_start (map snd d)))"

subsection \<open>Reader\<close>

definition listing :: "avanza_env \<Rightarrow> AssetId \<Rightarrow> (md_error, Listing) result" where
  "listing env asset_id =
     bind_result (load_mappings env) (\<lambda>ls.
       case List.find (\<lambda>l. li_asset_id l = asset_id \<and> li_enabled l) ls of
         None \<Rightarrow> Inl (AvanzaUnavailable ''UNSUPPORTED_AVANZA_LISTING'')
       | Some l \<Rightarrow> Inr l)"

definition window :: "avanza_env \<Rightarrow> AssetId \<Rightarrow> date \<Rightarrow> (md_error, Session) result" where
  "window env asset_id day =
     bind_result (listing env asset_id) (\<lambda>l.
       case pv_tz (av_providers env) (li_timezone l) of
         None \<Rightarrow> Inl (MPyError KeyError)
       | Some z \<Rightarrow>
           bind_result (session_for (av_calendars env) (utc_of z (days day + minutes (12 * 60))) (li_calendar_id l) (li_timezone l))
             (\<lambda>w. if ss_session w \<noteq> day then Inl (AvanzaPending ''NON_TRADING_SESSION'') else Inr w))"

definition read_samples ::
  "avanza_env \<Rightarrow> sample_row list \<Rightarrow> AssetId \<Rightarrow> date \<Rightarrow> instant \<Rightarrow> (md_error, Session \<times> PriceSampleObserved list) result" where
  "read_samples env table asset_id day now =
     bind_result (window env asset_id day) (\<lambda>w.
       if \<not> av_initialized env then
         (if now < ss_opens_at w + GRACE then Inl (AvanzaPending ''SESSION_NOT_STARTED'')
          else Inl (AvanzaUnavailable ''COLLECTOR_NOT_INITIALIZED''))
       else
         let rows = sort_key (ps_scheduled_at \<circ> px_sample) (sort_key (ps_observed_at \<circ> px_sample)
                      (filter (\<lambda>r. ps_asset_id (px_sample r) = asset_id \<and> ps_session (px_sample r) = day) table))
         in bind_result (map_sum MRegistryError id (resolve (av_registry env) asset_id)) (\<lambda>series.
            bind_result (listing env asset_id) (\<lambda>l.
              if rs_is_adjusted series then Inl (AvanzaUnavailable ''ADJUSTED_PRICE_SERIES_UNSUPPORTED'')
              else if list_ex (\<lambda>r. px_instrument_id r \<noteq> li_instrument_id l \<or> px_exchange r \<noteq> li_expected_exchange l) rows
              then Inl (AvanzaUnavailable ''STORED_LISTING_MISMATCH'')
              else bind_result (validate_samples (map px_sample rows) asset_id w (rs_currency series)
                     (rs_registry_version series) now) (\<lambda>ss. Inr (w, ss)))))"

definition read_summary ::
  "avanza_env \<Rightarrow> sample_row list \<Rightarrow> AssetId \<Rightarrow> date \<Rightarrow> instant \<Rightarrow> (md_error, SessionSummary) result" where
  "read_summary env table asset_id day now =
     bind_result (read_samples env table asset_id day now) (\<lambda>(w, ss). summarize asset_id w ss now)"

definition read_close ::
  "avanza_env \<Rightarrow> sample_row list \<Rightarrow> AssetId \<Rightarrow> date \<Rightarrow> instant \<Rightarrow> (md_error, CloseObservation) result" where
  "read_close env table asset_id day now =
     bind_result (window env asset_id day) (\<lambda>w.
       if now < ss_closes_at w + GRACE then Inl (AvanzaPending ''SESSION_STILL_OPEN_OR_FINALIZING'')
       else bind_result (read_summary env table asset_id day now) (\<lambda>summary.
         if \<not> sm_complete summary then Inl (AvanzaUnavailable ''INCOMPLETE_AVANZA_SESSION'')
         else bind_result (listing env asset_id) (\<lambda>l.
              bind_result (map_sum MRegistryError id (resolve (av_registry env) asset_id)) (\<lambda>series.
                if sm_close summary \<le> 0 then Inl (MPyError (ValueError ''close'')) else
                map_sum MPyError id (valid_sampled_close
                  \<lparr>co_session = day, co_close = sm_close summary, co_provider_bar_time = None, co_fetched_at = now,
                   co_source = ''avanza'', co_provider_symbol = li_instrument_id l, co_price_kind = AVANZA_SAMPLED_CLOSE,
                   co_is_adjusted = False, co_registry_version = rs_registry_version series,
                   co_sample = Some (sm_last_sample summary), co_fallback_reason = None\<rparr>)))))"

definition read_minutes ::
  "avanza_env \<Rightarrow> sample_row list \<Rightarrow> AssetId \<Rightarrow> date \<Rightarrow> instant \<Rightarrow> (md_error, IntradayBar list) result" where
  "read_minutes env table asset_id day now =
     bind_result (read_samples env table asset_id day now) (\<lambda>(w, ss).
     bind_result (summarize asset_id w ss now) (\<lambda>summary.
       if sm_missing_slots summary \<noteq> [] then Inl (AvanzaUnavailable ''MISSING_AVANZA_SLOT'')
       else minute_values ss now))"

subsection \<open>Avanza first, finance second\<close>

definition fallback_reason :: "md_error \<Rightarrow> string" where
  "fallback_reason e = (case e of AvanzaUnavailable r \<Rightarrow> r | _ \<Rightarrow> ''AVANZA_READ_ERROR'')"

fun is_avanza_pending :: "md_error \<Rightarrow> bool" where
  "is_avanza_pending (AvanzaPending _) = True"
| "is_avanza_pending _ = False"

definition settlement_open :: "avanza_env \<Rightarrow> AssetId \<Rightarrow> date \<Rightarrow> instant \<Rightarrow> (md_error, unit) result" where
  \<comment> \<open>the first \<^verbatim>\<open>try\<close> of \<^verbatim>\<open>get_pair\<close>: an open market is pending, never a provider failure\<close>
  "settlement_open env asset_id settlement now =
     (case window env asset_id settlement of
        Inr w \<Rightarrow> if now < ss_closes_at w + GRACE then Inl (AvanzaPending ''SESSION_STILL_OPEN_OR_FINALIZING'') else Inr ()
      | Inl e \<Rightarrow>
          if is_avanza_pending e then Inl e
          else
            bind_result (map_sum MRegistryError id (resolve (av_registry env) asset_id)) (\<lambda>series.
            bind_result (md_session_complete (pv_tz (av_providers env)) series settlement now) (\<lambda>done.
              if \<not> done then Inl (AvanzaPending ''SESSION_STILL_OPEN'') else Inr ())))"

definition avanza_pair ::
  "avanza_env \<Rightarrow> sample_row list \<Rightarrow> AssetId \<Rightarrow> date \<Rightarrow> date \<Rightarrow> instant \<Rightarrow>
   (md_error, CloseObservation \<times> CloseObservation) result" where
  "avanza_pair env table asset_id baseline settlement now =
     bind_result (read_close env table asset_id baseline now) (\<lambda>first.
     bind_result (read_close env table asset_id settlement now) (\<lambda>final.
       case (co_sample first, co_sample final) of
         (Some s, Some s') \<Rightarrow>
           if sp_mapping_version s \<noteq> sp_mapping_version s' then Inl (AvanzaUnavailable ''PAIR_MAPPING_CHANGED'')
           else Inr (first, final)
       | _ \<Rightarrow> Inl (AvanzaUnavailable ''PAIR_MAPPING_CHANGED'')))"

definition finance_pair ::
  "avanza_env \<Rightarrow> AssetId \<Rightarrow> date \<Rightarrow> date \<Rightarrow> instant \<Rightarrow> string \<Rightarrow>
   (md_error, CloseObservation \<times> CloseObservation) result" where
  "finance_pair env asset_id baseline settlement now reason =
     bind_result (get_close (av_providers env) now asset_id baseline) (\<lambda>first.
     bind_result (get_close (av_providers env) now asset_id settlement) (\<lambda>final.
     bind_result (map_sum MRegistryError id (resolve (av_registry env) asset_id)) (\<lambda>series.
       if co_provider_symbol first \<noteq> rs_provider_symbol series \<or> co_provider_symbol final \<noteq> rs_provider_symbol series
       then Inl (AvanzaUnavailable ''FINANCE_FALLBACK_LISTING_MISMATCH'')
       else if (co_source first, co_price_kind first, co_is_adjusted first, co_registry_version first) \<noteq>
               (co_source final, co_price_kind final, co_is_adjusted final, co_registry_version final)
       then Inl (AvanzaUnavailable ''FINANCE_FALLBACK_PAIR_MISMATCH'')
       else Inr (first\<lparr>co_fallback_reason := Some reason\<rparr>, final\<lparr>co_fallback_reason := Some reason\<rparr>))))"

definition get_pair ::
  "avanza_env \<Rightarrow> sample_row list \<Rightarrow> AssetId \<Rightarrow> date \<Rightarrow> date \<Rightarrow> instant \<Rightarrow>
   (md_error, CloseObservation \<times> CloseObservation) result" where
  "get_pair env table asset_id baseline settlement now =
     bind_result (settlement_open env asset_id settlement now) (\<lambda>_.
       case avanza_pair env table asset_id baseline settlement now of
         Inr p \<Rightarrow> Inr p
       | Inl e \<Rightarrow>
           if is_avanza_pending e then Inl e
           else finance_pair env asset_id baseline settlement now (fallback_reason e))"

subsection \<open>What a read close rests on\<close>

lemma check_samples_Inr:
  "check_samples a w cur ver ss = Inr () \<Longrightarrow> s \<in> set ss \<Longrightarrow> sample_identity_ok a w cur ver s \<and> sample_evidence_ok w s"
  by (induction ss) (auto split: if_splits)

lemma validate_samples_Inr:
  assumes "validate_samples samples a w cur ver now = Inr ss" "s \<in> set ss"
  shows "sample_identity_ok a w cur ver s" "sample_evidence_ok w s" "ps_observed_at s \<le> now" "s \<in> set samples"
    "ps_kind s = REGULAR"
  using assms check_samples_Inr by (auto simp: validate_samples_def Let_def bind_result_Inr split: if_splits)

lemma provenance_Inr:
  assumes "provenance s = Inr p"
  shows "sp_currency p = ps_currency s" "sp_mapping_version p = ps_mapping_version s" "sp_observed_at p = ps_observed_at s"
    "sp_scheduled_at p = ps_scheduled_at s" "sp_interval_seconds p = ps_interval_seconds s"
    "sp_expires_at p = min (ps_scheduled_at s + seconds (ps_interval_seconds s)) (ps_closes_at s)"
  using assms by (auto simp: provenance_def map_sum_Inr dest!: valid_availability_Inr split: if_splits)

lemma read_samples_Inr:
  assumes "read_samples env table a day now = Inr (w, ss)"
  shows "\<exists>series. resolve (av_registry env) a = Inr series \<and> \<not> rs_is_adjusted series \<and> window env a day = Inr w \<and>
    (\<forall>s \<in> set ss. sample_identity_ok a w (rs_currency series) (rs_registry_version series) s \<and> sample_evidence_ok w s \<and>
      ps_observed_at s \<le> now \<and> s \<in> px_sample ` set table)"
proof -
  define rows where "rows = sort_key (ps_scheduled_at \<circ> px_sample) (sort_key (ps_observed_at \<circ> px_sample)
    (filter (\<lambda>r. ps_asset_id (px_sample r) = a \<and> ps_session (px_sample r) = day) table))"
  obtain w' where w: "window env a day = Inr w'" using assms by (auto simp: read_samples_def bind_result_Inr)
  have init: "av_initialized env"
    using assms w by (auto simp: read_samples_def bind_result_Inr split: if_splits)
  obtain series where r: "resolve (av_registry env) a = Inr series" "\<not> rs_is_adjusted series"
    "validate_samples (map px_sample rows) a w (rs_currency series) (rs_registry_version series) now = Inr ss" "w' = w"
    using assms w init
    by (auto simp: read_samples_def bind_result_Inr map_sum_Inr Let_def rows_def [symmetric] split: if_splits)
  have "px_sample ` set rows \<subseteq> px_sample ` set table" by (auto simp: rows_def)
  then show ?thesis using r w validate_samples_Inr [OF r(3)] by (intro exI [of _ series]) auto
qed

lemma read_summary_Inr:
  assumes "read_summary env table a day now = Inr sm"
  shows "\<exists>series w. resolve (av_registry env) a = Inr series \<and> \<not> rs_is_adjusted series \<and> window env a day = Inr w \<and>
    sp_currency (sm_last_sample sm) = rs_currency series \<and> sp_observed_at (sm_last_sample sm) \<le> now"
proof -
  obtain w ss where r: "read_samples env table a day now = Inr (w, ss)" "summarize a w ss now = Inr sm"
    using assms by (auto simp: read_summary_def bind_result_Inr)
  from r(2) have ne: "ss \<noteq> []" by (auto simp: summarize_def split: if_splits)
  with r(2) have "provenance (last ss) = Inr (sm_last_sample sm)"
    by (auto simp: summarize_def Let_def bind_result_Inr)
  from provenance_Inr [OF this] read_samples_Inr [OF r(1)] last_in_set [OF ne] show ?thesis
    by (auto simp: sample_identity_ok_def)
qed

definition sampled_close :: "AssetReferenceSeries \<Rightarrow> date \<Rightarrow> CloseObservation \<Rightarrow> bool" where
  "sampled_close series session c \<longleftrightarrow>
     co_session c = session \<and> co_registry_version c = rs_registry_version series \<and> co_price_kind c = AVANZA_SAMPLED_CLOSE \<and>
     \<not> co_is_adjusted c \<and> \<not> rs_is_adjusted series \<and> (\<exists>s. co_sample c = Some s \<and> sp_currency s = rs_currency series) \<and> 0 < co_close c"

lemma read_close_Inr:
  assumes "read_close env table a day now = Inr c"
  shows "\<exists>series w. resolve (av_registry env) a = Inr series \<and> sampled_close series day c \<and>
    window env a day = Inr w \<and> ss_closes_at w + GRACE \<le> now"
proof -
  obtain w where w: "window env a day = Inr w" using assms by (auto simp: read_close_def bind_result_Inr)
  have over: "\<not> now < ss_closes_at w + GRACE" using assms w by (auto simp: read_close_def bind_result_Inr)
  obtain summary where sm: "read_summary env table a day now = Inr summary"
    using assms w over by (auto simp: read_close_def bind_result_Inr)
  obtain l where l: "listing env a = Inr l"
    using assms w over sm by (auto simp: read_close_def bind_result_Inr split: if_splits)
  obtain series where s: "resolve (av_registry env) a = Inr series"
    using assms w over sm l by (auto simp: read_close_def bind_result_Inr map_sum_Inr split: if_splits)
  have c: "valid_sampled_close
        \<lparr>co_session = day, co_close = sm_close summary, co_provider_bar_time = None, co_fetched_at = now,
         co_source = ''avanza'', co_provider_symbol = li_instrument_id l, co_price_kind = AVANZA_SAMPLED_CLOSE,
         co_is_adjusted = False, co_registry_version = rs_registry_version series,
         co_sample = Some (sm_last_sample summary), co_fallback_reason = None\<rparr> = Inr c"
    using assms w over sm l s by (auto simp: read_close_def bind_result_Inr map_sum_Inr split: if_splits)
  have pos: "0 < sm_close summary"
    using assms w over sm l s by (auto simp: read_close_def bind_result_Inr split: if_splits)
  note valid_sampled_close_same [OF c]
  with w over s pos read_summary_Inr [OF sm] show ?thesis by (auto simp: sampled_close_def)
qed

definition session_over :: "avanza_env \<Rightarrow> AssetId \<Rightarrow> date \<Rightarrow> instant \<Rightarrow> bool" where
  \<comment> \<open>the exchange calendar's close and its grace have passed, or the registry's completion time has\<close>
  "session_over env a session now \<longleftrightarrow>
     (\<exists>w. window env a session = Inr w \<and> ss_closes_at w + GRACE \<le> now) \<or>
     (\<exists>series. resolve (av_registry env) a = Inr series \<and>
        md_session_complete (pv_tz (av_providers env)) series session now = Inr True)"

lemma settlement_open_Inr: "settlement_open env a session now = Inr () \<Longrightarrow> session_over env a session now"
  by (auto simp: settlement_open_def session_over_def bind_result_Inr map_sum_Inr not_less split: sum.splits if_splits)

lemma avanza_pair_Inr:
  assumes "avanza_pair env table a b s now = Inr (c, c')"
  shows "read_close env table a b now = Inr c" "read_close env table a s now = Inr c'"
    "map_option sp_mapping_version (co_sample c) = map_option sp_mapping_version (co_sample c')"
proof -
  obtain d d' where r: "read_close env table a b now = Inr d" "read_close env table a s now = Inr d'"
    using assms by (auto simp: avanza_pair_def bind_result_Inr)
  then show "read_close env table a b now = Inr c" "read_close env table a s now = Inr c'"
    "map_option sp_mapping_version (co_sample c) = map_option sp_mapping_version (co_sample c')"
    using assms by (cases "co_sample d"; cases "co_sample d'"; auto simp: avanza_pair_def bind_result_Inr split: if_splits)+
qed

lemma finance_pair_Inr:
  assumes "finance_pair env a b s now reason = Inr (c, c')" "daily_registry (av_registry env)"
  shows "daily_close (av_registry env) b c" "daily_close (av_registry env) s c'"
proof -
  obtain d where d: "get_close (av_providers env) now a b = Inr d"
    using assms by (auto simp: finance_pair_def bind_result_Inr)
  obtain d' where d': "get_close (av_providers env) now a s = Inr d'"
    using assms d by (auto simp: finance_pair_def bind_result_Inr)
  have "c = d\<lparr>co_fallback_reason := Some reason\<rparr> \<and> c' = d'\<lparr>co_fallback_reason := Some reason\<rparr>"
    using assms(1) d d' by (simp add: finance_pair_def bind_result_Inr split: if_splits)
  then show "daily_close (av_registry env) b c" "daily_close (av_registry env) s c'"
    using get_close_daily [OF assms(2) d] get_close_daily [OF assms(2) d'] by (simp_all add: daily_close_def)
qed

definition pair_ok :: "Registry \<Rightarrow> AssetId \<Rightarrow> date \<Rightarrow> date \<Rightarrow> CloseObservation \<Rightarrow> CloseObservation \<Rightarrow> bool" where
  \<comment> \<open>two provider closes, or two sampled ones of one mapping, of exactly the given sessions\<close>
  "pair_ok reg a b s c c' \<longleftrightarrow>
     (daily_close reg b c \<and> daily_close reg s c') \<or>
     (\<exists>series. resolve reg a = Inr series \<and> sampled_close series b c \<and> sampled_close series s c' \<and>
        map_option sp_mapping_version (co_sample c) = map_option sp_mapping_version (co_sample c'))"

lemma get_pair_Inr:
  assumes "get_pair env table a b s now = Inr (c, c')" "daily_registry (av_registry env)"
  shows "session_over env a s now \<and> pair_ok (av_registry env) a b s c c'"
proof -
  have over: "session_over env a s now"
    using assms(1) by (auto simp: get_pair_def bind_result_Inr intro: settlement_open_Inr)
  show ?thesis
  proof (cases "avanza_pair env table a b s now")
    case (Inl e)
    then have "finance_pair env a b s now (fallback_reason e) = Inr (c, c')"
      using assms(1) by (auto simp: get_pair_def bind_result_Inr split: if_splits)
    from finance_pair_Inr [OF this assms(2)] over show ?thesis by (simp add: pair_ok_def)
  next
    case (Inr p)
    then have pair: "avanza_pair env table a b s now = Inr (c, c')"
      using assms(1) by (auto simp: get_pair_def bind_result_Inr)
    show ?thesis
      using read_close_Inr [OF avanza_pair_Inr(1) [OF pair]] read_close_Inr [OF avanza_pair_Inr(2) [OF pair]]
        avanza_pair_Inr(3) [OF pair] over by (auto simp: pair_ok_def)
  qed
qed

end
