(* ===== verification/MarketData.thy ===== *)
theory MarketData
  imports Avanza Outbox
begin

text \<open>
  The price requests of the Market Data service (\<^verbatim>\<open>services/market-data/market_data\<close>: \<^verbatim>\<open>db.py\<close>, \<^verbatim>\<open>storage.py\<close>,
  \<^verbatim>\<open>handler.py\<close>, and the message and scheduler callbacks of \<^verbatim>\<open>app.py\<close>).

  \<^verbatim>\<open>market_data_source\<close> selects whether closes come from the Avanza-first reader or from the routed
  adapters only.  One instant stands for every clock read of a call.  The content hash of a stored close
  is not kept: nothing reads it.
\<close>

subsection \<open>Tables\<close>

datatype RequestState = RQ_PENDING | RQ_BASELINE_OBSERVED | RQ_COMPLETED | RQ_ABANDONED

record request_row =
  rq_request_id :: uuid
  rq_prediction_id :: uuid
  rq_asset_id :: AssetId
  rq_baseline_session :: date
  rq_settlement_session :: date
  rq_market_calendar :: string
  rq_correlation_id :: uuid
  rq_state :: RequestState
  rq_attempts :: nat
  rq_next_attempt_at :: "instant option"
  rq_last_error :: "string option"
  rq_created_at :: instant

record market_db =
  mk_requests :: "request_row list"
  mk_closes :: "(AssetId \<times> CloseObservation) list"
  mk_sampled :: "(AssetId \<times> CloseObservation) list"
  mk_samples :: "sample_row list"
  mk_outbox :: "PriceObserved outbox_row list"
  mk_next_uuid :: uuid

record market_env =
  me_avanza :: avanza_env
  me_avanza_first :: bool
  me_backoff_base :: flt
  me_backoff_max :: flt
  me_abandon_after_days :: int

abbreviation me_providers :: "market_env \<Rightarrow> provider_env" where
  "me_providers env \<equiv> av_providers (me_avanza env)"

abbreviation me_registry :: "market_env \<Rightarrow> Registry" where
  "me_registry env \<equiv> pv_registry (me_providers env)"

type_synonym 'a mprog = "(market_db, md_error, 'a) prog"

subsection \<open>Repository\<close>

definition register_request :: "instant \<Rightarrow> PriceRequested \<Rightarrow> market_db \<Rightarrow> bool \<times> market_db" where
  "register_request now m db =
     (if pr_request_id m \<in> set (map rq_request_id (mk_requests db)) then (False, db)
      else (True, db\<lparr>mk_requests := mk_requests db @
        [\<lparr>rq_request_id = pr_request_id m, rq_prediction_id = pr_prediction_id m, rq_asset_id = pr_asset_id m,
          rq_baseline_session = pr_baseline_session m, rq_settlement_session = pr_settlement_session m,
          rq_market_calendar = pr_market_calendar m, rq_correlation_id = correlation_id m, rq_state = RQ_PENDING,
          rq_attempts = 0, rq_next_attempt_at = Some now, rq_last_error = None, rq_created_at = now\<rparr>]\<rparr>))"

definition open_state :: "RequestState \<Rightarrow> bool" where
  "open_state s \<longleftrightarrow> s = RQ_PENDING \<or> s = RQ_BASELINE_OBSERVED"

definition load_open_requests :: "Registry \<Rightarrow> instant \<Rightarrow> market_db \<Rightarrow> request_row list" where
  "load_open_requests reg now db =
     filter (\<lambda>r. is_known_asset reg (rq_asset_id r))
       (sort_key rq_created_at (filter (\<lambda>r. open_state (rq_state r) \<and>
          (case rq_next_attempt_at r of None \<Rightarrow> True | Some t \<Rightarrow> t \<le> now)) (mk_requests db)))"

definition sampled_key :: "AssetId \<times> CloseObservation \<Rightarrow> AssetId \<times> date \<times> string \<times> string option" where
  "sampled_key p = (fst p, co_session (snd p), co_registry_version (snd p), map_option sp_mapping_version (co_sample (snd p)))"

definition close_key :: "AssetId \<times> CloseObservation \<Rightarrow> AssetId \<times> date \<times> string" where
  "close_key p = (fst p, co_session (snd p), co_registry_version (snd p))"

definition upsert_observation :: "AssetId \<Rightarrow> CloseObservation \<Rightarrow> market_db \<Rightarrow> market_db" where
  "upsert_observation a c db =
     (if co_sample c \<noteq> None then db\<lparr>mk_sampled := insert_new sampled_key (a, c) (mk_sampled db)\<rparr>
      else db\<lparr>mk_closes := insert_new close_key (a, c) (mk_closes db)\<rparr>)"

definition mark_baseline_observed :: "instant \<Rightarrow> uuid \<Rightarrow> AssetId \<Rightarrow> CloseObservation \<Rightarrow> market_db \<Rightarrow> market_db" where
  "mark_baseline_observed now rid a baseline db =
     (let db' = upsert_observation a baseline db
      in db'\<lparr>mk_requests := update_where (\<lambda>r. rq_request_id r = rid \<and> rq_state r = RQ_PENDING)
           (\<lambda>r. r\<lparr>rq_state := RQ_BASELINE_OBSERVED, rq_attempts := rq_attempts r + 1,
                  rq_next_attempt_at := Some now, rq_last_error := None\<rparr>) (mk_requests db')\<rparr>)"

definition complete_request :: "PriceObserved \<Rightarrow> market_db \<Rightarrow> bool \<times> market_db" where
  "complete_request m db =
     (let db' = upsert_observation (po_asset_id m) (po_settlement m)
                  (upsert_observation (po_asset_id m) (po_baseline m) db)
      in if po_request_id m \<in> set (map ob_aggregate_id (mk_outbox db')) then (False, db')
         else (True, db'\<lparr>mk_outbox := mk_outbox db' @ [new_outbox_row (message_id m) (po_request_id m) m (occurred_at m)],
                mk_requests := update_where (\<lambda>r. rq_request_id r = po_request_id m)
                  (\<lambda>r. r\<lparr>rq_state := RQ_COMPLETED, rq_attempts := rq_attempts r + 1, rq_last_error := None\<rparr>)
                  (mk_requests db')\<rparr>))"

definition record_failure :: "uuid \<Rightarrow> string \<Rightarrow> instant \<Rightarrow> market_db \<Rightarrow> market_db" where
  "record_failure rid err next_attempt db =
     db\<lparr>mk_requests := update_where (\<lambda>r. rq_request_id r = rid)
          (\<lambda>r. r\<lparr>rq_attempts := rq_attempts r + 1, rq_last_error := Some err, rq_next_attempt_at := Some next_attempt\<rparr>)
          (mk_requests db)\<rparr>"

definition abandon_request :: "uuid \<Rightarrow> string \<Rightarrow> market_db \<Rightarrow> market_db" where
  "abandon_request rid reason db =
     db\<lparr>mk_requests := update_where (\<lambda>r. rq_request_id r = rid)
          (\<lambda>r. r\<lparr>rq_state := RQ_ABANDONED, rq_last_error := Some reason, rq_next_attempt_at := None\<rparr>)
          (mk_requests db)\<rparr>"

definition market_publish_pending ::
  "(PriceObserved \<Rightarrow> string option) \<Rightarrow> instant \<Rightarrow> nat \<Rightarrow> market_db \<Rightarrow> market_db \<times> (uuid \<times> PriceObserved) list" where
  "market_publish_pending send now batch_size db =
     (let (rows, sent) = relay Inr send now batch_size (mk_outbox db) in (db\<lparr>mk_outbox := rows\<rparr>, sent))"

definition get_recent_closes :: "AssetId \<Rightarrow> int \<Rightarrow> market_db \<Rightarrow> (date \<times> dec) list" where
  "get_recent_closes a sessions db =
     map (\<lambda>p. (co_session (snd p), co_close (snd p)))
       (take (nat (max 1 (min sessions 250)))
         (rev (sort_key (co_session \<circ> snd) (filter (\<lambda>p. fst p = a) (mk_closes db)))))"

subsection \<open>Request processing\<close>

record ProcessOutcome =
  oc_completed :: bool
  oc_published :: bool
  oc_pending_reason :: "string option"

definition timedelta_seconds :: "flt \<Rightarrow> int" where
  "timedelta_seconds s = (let whole = \<lfloor>s\<rfloor> in seconds whole + rhe (fl64 ((s - of_int whole) * 1000000)))"

definition backoff :: "market_env \<Rightarrow> nat \<Rightarrow> (md_error, int) result" where
  "backoff env attempts =
     (if attempts \<ge> 1024 then Inl MOverflowError
      else Inr (timedelta_seconds (min (fl64 (me_backoff_base env * 2 ^ attempts)) (me_backoff_max env))))"

definition defer_request :: "market_env \<Rightarrow> instant \<Rightarrow> request_row \<Rightarrow> string \<Rightarrow> unit mprog" where
  "defer_request env now r reason =
     bind_p (lift_p (backoff env (rq_attempts r))) (\<lambda>d.
       write_p (record_failure (rq_request_id r) reason (now + d)))"

definition defer_or_abandon :: "market_env \<Rightarrow> instant \<Rightarrow> request_row \<Rightarrow> string \<Rightarrow> bool mprog" where
  "defer_or_abandon env now r reason =
     (if date_of now \<le> rq_settlement_session r + me_abandon_after_days env
      then bind_p (defer_request env now r reason) (\<lambda>_. return_p False)
      else bind_p (write_p (abandon_request (rq_request_id r)
        (''abandoned after '' @ pv_str (me_providers env) (JNum (of_int (me_abandon_after_days env))) @
         '' days past settlement '' @ pv_isoformat (me_providers env) (rq_settlement_session r) @ '': '' @ reason)))
        (\<lambda>_. return_p True))"

definition build_price_observed ::
  "instant \<Rightarrow> request_row \<Rightarrow> CloseObservation \<Rightarrow> CloseObservation \<Rightarrow> PriceObserved mprog" where
  "build_price_observed now r baseline settlement db =
     (map_sum MPyError id (consistent_sampled_pair
        \<lparr>message_id = mk_next_uuid db, correlation_id = rq_correlation_id r, causation_id = Some (rq_request_id r),
         occurred_at = now, po_request_id = rq_request_id r, po_prediction_id = rq_prediction_id r,
         po_asset_id = rq_asset_id r, po_baseline = baseline, po_settlement = settlement\<rparr>),
      db\<lparr>mk_next_uuid := mk_next_uuid db + 1\<rparr>)"

definition complete_with :: "instant \<Rightarrow> request_row \<Rightarrow> CloseObservation \<Rightarrow> CloseObservation \<Rightarrow> ProcessOutcome mprog" where
  "complete_with now r baseline settlement =
     bind_p (build_price_observed now r baseline settlement) (\<lambda>m db.
       let (published, db') = complete_request m db
       in (Inr \<lparr>oc_completed = True, oc_published = published, oc_pending_reason = None\<rparr>, db'))"

definition pending_outcome :: "string \<Rightarrow> ProcessOutcome" where
  "pending_outcome why = \<lparr>oc_completed = False, oc_published = False, oc_pending_reason = Some why\<rparr>"

definition wait_for :: "market_env \<Rightarrow> instant \<Rightarrow> request_row \<Rightarrow> string \<Rightarrow> string \<Rightarrow> ProcessOutcome mprog" where
  "wait_for env now r reason why =
     bind_p (defer_or_abandon env now r reason) (\<lambda>abandoned.
       return_p (pending_outcome (if abandoned then ''abandoned'' else why)))"

fun error_text :: "md_error \<Rightarrow> string" where
  "error_text (PriceNotYetAvailableError s) = s"
| "error_text (AvanzaPending s) = s"
| "error_text _ = []"

definition observe_baseline :: "market_env \<Rightarrow> instant \<Rightarrow> request_row \<Rightarrow> CloseObservation mprog" where
  "observe_baseline env now r =
     bind_p (lift_p (get_close (me_providers env) now (rq_asset_id r) (rq_baseline_session r))) (\<lambda>baseline.
       if rq_state r = RQ_PENDING
       then bind_p (write_p (mark_baseline_observed now (rq_request_id r) (rq_asset_id r) baseline)) (\<lambda>_. return_p baseline)
       else return_p baseline)"

definition process_finance :: "market_env \<Rightarrow> instant \<Rightarrow> request_row \<Rightarrow> ProcessOutcome mprog" where
  "process_finance env now r =
     bind_p (lift_p (map_sum MRegistryError id (resolve (me_registry env) (rq_asset_id r)))) (\<lambda>series db.
       case observe_baseline env now r db of
         (Inl e, db1) \<Rightarrow>
           if not_yet e then wait_for env now r (''baseline pending: '' @ error_text e) ''baseline'' db1 else (Inl e, db1)
       | (Inr baseline, db1) \<Rightarrow>
           bind_p (lift_p (md_session_complete (pv_tz (me_providers env)) series (rq_settlement_session r) now)) (\<lambda>done.
             if \<not> done
             then bind_p (defer_request env now r ''settlement session not yet complete'') (\<lambda>_.
                    return_p (pending_outcome ''settlement_not_complete''))
             else (case get_close (me_providers env) now (rq_asset_id r) (rq_settlement_session r) of
                     Inl e \<Rightarrow>
                       if not_yet e then wait_for env now r (''settlement pending: '' @ error_text e) ''settlement_lag''
                       else raise_p e
                   | Inr settlement \<Rightarrow> complete_with now r baseline settlement)) db1)"

definition process_request :: "market_env \<Rightarrow> instant \<Rightarrow> request_row \<Rightarrow> ProcessOutcome mprog" where
  "process_request env now r db =
     (if me_avanza_first env then
        (case get_pair (me_avanza env) (mk_samples db) (rq_asset_id r) (rq_baseline_session r) (rq_settlement_session r) now of
           Inl e \<Rightarrow> if not_yet e then wait_for env now r (error_text e) ''pending_price'' db else (Inl e, db)
         | Inr (baseline, settlement) \<Rightarrow> complete_with now r baseline settlement db)
      else process_finance env now r db)"

subsection \<open>Callbacks\<close>

fun is_invalid :: "md_error \<Rightarrow> bool" where
  "is_invalid (InvalidObservationError _) = True"
| "is_invalid _ = False"

definition handle_price_request ::
  "market_env \<Rightarrow> (PriceObserved \<Rightarrow> string option) \<Rightarrow> instant \<Rightarrow> PriceRequested \<Rightarrow> unit mprog" where
  "handle_price_request env send now m db =
     (let db1 = snd (register_request now m db)
      in case List.find (\<lambda>r. rq_request_id r = pr_request_id m) (load_open_requests (me_registry env) now db1) of
           None \<Rightarrow> (Inr (), db1)
         | Some r \<Rightarrow>
             (case process_request env now r db1 of
                (Inl e, db2) \<Rightarrow> (Inl e, db2)
              | (Inr outcome, db2) \<Rightarrow>
                  (Inr (), if oc_published outcome then fst (market_publish_pending send now 100 db2) else db2)))"

fun redrive :: "market_env \<Rightarrow> instant \<Rightarrow> request_row list \<Rightarrow> unit mprog" where
  \<comment> \<open>the loop of \<^verbatim>\<open>_run_scheduler_tick\<close>: only an invalid observation is passed over\<close>
  "redrive env now [] db = (Inr (), db)"
| "redrive env now (r # rs) db =
     (case process_request env now r db of
        (Inl e, db') \<Rightarrow> if is_invalid e then redrive env now rs db' else (Inl e, db')
      | (Inr _, db') \<Rightarrow> redrive env now rs db')"

definition scheduler_tick :: "market_env \<Rightarrow> (PriceObserved \<Rightarrow> string option) \<Rightarrow> instant \<Rightarrow> market_db \<Rightarrow> market_db" where
  "scheduler_tick env send now db =
     (case redrive env now (load_open_requests (me_registry env) now db) db of
        (Inl _, db') \<Rightarrow> db'
      | (Inr _, db') \<Rightarrow> fst (market_publish_pending send now 100 db'))"

subsection \<open>What processing a request may do\<close>

text \<open>
  A request that is being processed is observed or deferred any number of times, and then left open,
  abandoned, or answered by one message for exactly its sessions.
\<close>

definition answers :: "market_env \<Rightarrow> request_row \<Rightarrow> PriceObserved \<Rightarrow> bool" where
  "answers env r m \<longleftrightarrow>
     po_request_id m = rq_request_id r \<and> po_prediction_id m = rq_prediction_id r \<and> po_asset_id m = rq_asset_id r \<and>
     correlation_id m = rq_correlation_id r \<and> causation_id m = Some (rq_request_id r) \<and>
     pair_ok (me_registry env) (rq_asset_id r) (rq_baseline_session r) (rq_settlement_session r) (po_baseline m) (po_settlement m) \<and>
     session_over (me_avanza env) (rq_asset_id r) (rq_settlement_session r) (occurred_at m)"

inductive progress :: "uuid \<Rightarrow> market_db \<Rightarrow> market_db \<Rightarrow> bool" for rid where
  fresh_uuid: "progress rid db (db\<lparr>mk_next_uuid := Suc (mk_next_uuid db)\<rparr>)"
| baseline: "progress rid db (mark_baseline_observed now rid a c db)"
| deferred: "progress rid db (record_failure rid err t db)"

inductive processed :: "market_env \<Rightarrow> request_row \<Rightarrow> market_db \<Rightarrow> market_db \<Rightarrow> bool" for env r db where
  waiting: "(progress (rq_request_id r))\<^sup>*\<^sup>* db db1 \<Longrightarrow> processed env r db db1"
| given_up: "(progress (rq_request_id r))\<^sup>*\<^sup>* db db1 \<Longrightarrow> processed env r db (abandon_request (rq_request_id r) reason db1)"
| answered: "(progress (rq_request_id r))\<^sup>*\<^sup>* db db1 \<Longrightarrow> answers env r m \<Longrightarrow> message_id m = mk_next_uuid db1 \<Longrightarrow>
    processed env r db (snd (complete_request m (db1\<lparr>mk_next_uuid := Suc (mk_next_uuid db1)\<rparr>)))"

inductive_cases progressE: "progress rid db db'"
inductive_cases processedE: "processed env r db db'"

lemma processed_after:
  assumes "(progress (rq_request_id r))\<^sup>*\<^sup>* db db1" "processed env r db1 db2"
  shows "processed env r db db2"
  using assms(2) by (elim processedE) (auto intro: processed.intros rtranclp_trans [OF assms(1)])

lemma processed_refl: "processed env r db db"
  by (rule waiting) simp

lemma defer_processed: "processed env r db (snd (defer_request env now r reason db))"
proof (cases "backoff env (rq_attempts r)")
  case (Inl e)
  then show ?thesis by (simp add: defer_request_def prog_simps processed_refl)
next
  case (Inr d)
  then show ?thesis by (auto simp: defer_request_def prog_simps intro!: waiting r_into_rtranclp deferred)
qed

lemma wait_for_processed: "processed env r db (snd (wait_for env now r reason why db))"
proof (cases "date_of now \<le> rq_settlement_session r + me_abandon_after_days env")
  case True
  then have "snd (wait_for env now r reason why db) = snd (defer_request env now r reason db)"
    by (simp add: wait_for_def defer_or_abandon_def prog_simps split: prod.splits sum.splits)
  then show ?thesis by (simp add: defer_processed)
next
  case False
  then show ?thesis by (auto simp: wait_for_def defer_or_abandon_def prog_simps intro!: given_up)
qed

lemma consistent_sampled_pair_same: "consistent_sampled_pair m = Inr m' \<Longrightarrow> m' = m"
  by (auto simp: consistent_sampled_pair_def Let_def split: if_splits option.splits)

lemma complete_with_processed:
  assumes "pair_ok (me_registry env) (rq_asset_id r) (rq_baseline_session r) (rq_settlement_session r) c c'"
    "session_over (me_avanza env) (rq_asset_id r) (rq_settlement_session r) now"
  shows "processed env r db (snd (complete_with now r c c' db))"
proof (cases "fst (build_price_observed now r c c' db)")
  case (Inl e)
  then have "snd (complete_with now r c c' db) = db\<lparr>mk_next_uuid := Suc (mk_next_uuid db)\<rparr>"
    by (auto simp: complete_with_def bind_p_def build_price_observed_def)
  then show ?thesis by (auto intro!: waiting r_into_rtranclp fresh_uuid)
next
  case (Inr m)
  then have m: "m = \<lparr>message_id = mk_next_uuid db, correlation_id = rq_correlation_id r, causation_id = Some (rq_request_id r),
         occurred_at = now, po_request_id = rq_request_id r, po_prediction_id = rq_prediction_id r,
         po_asset_id = rq_asset_id r, po_baseline = c, po_settlement = c'\<rparr>"
    by (auto simp: build_price_observed_def map_sum_Inr dest: consistent_sampled_pair_same)
  with Inr have "snd (complete_with now r c c' db) = snd (complete_request m (db\<lparr>mk_next_uuid := Suc (mk_next_uuid db)\<rparr>))"
    by (auto simp: complete_with_def bind_p_def build_price_observed_def split: prod.splits)
  then show ?thesis using assms by (auto simp: answers_def m intro!: answered)
qed

lemma session_over_finance:
  "resolve (me_registry env) a = Inr series \<Longrightarrow> md_session_complete (pv_tz (me_providers env)) series s now = Inr True \<Longrightarrow>
    session_over (me_avanza env) a s now"
  by (auto simp: session_over_def)

lemma observe_baseline_progress: "(progress (rq_request_id r))\<^sup>*\<^sup>* db (snd (observe_baseline env now r db))"
  by (cases "get_close (me_providers env) now (rq_asset_id r) (rq_baseline_session r)")
    (auto simp: observe_baseline_def prog_simps intro: baseline)

lemma observe_baseline_close:
  "observe_baseline env now r db = (Inr c, db1) \<Longrightarrow> get_close (me_providers env) now (rq_asset_id r) (rq_baseline_session r) = Inr c"
  by (cases "get_close (me_providers env) now (rq_asset_id r) (rq_baseline_session r)")
    (auto simp: observe_baseline_def prog_simps split: if_splits)

lemma finance_settlement_processed:
  assumes "daily_registry (me_registry env)" "resolve (me_registry env) (rq_asset_id r) = Inr series"
    "get_close (me_providers env) now (rq_asset_id r) (rq_baseline_session r) = Inr c"
    "md_session_complete (pv_tz (me_providers env)) series (rq_settlement_session r) now = Inr True"
    "get_close (me_providers env) now (rq_asset_id r) (rq_settlement_session r) = Inr c'"
  shows "processed env r db (snd (complete_with now r c c' db))"
  using get_close_daily [OF assms(1,3)] get_close_daily [OF assms(1,5)] session_over_finance [OF assms(2,4)]
  by (intro complete_with_processed) (simp_all add: pair_ok_def)

lemma process_finance_processed:
  assumes "daily_registry (me_registry env)"
  shows "processed env r db (snd (process_finance env now r db))"
proof (cases "resolve (me_registry env) (rq_asset_id r)")
  case (Inl e)
  then show ?thesis by (simp add: process_finance_def prog_simps processed_refl)
next
  case series: (Inr series)
  obtain res db1 where ob: "observe_baseline env now r db = (res, db1)" by fastforce
  then have db1: "(progress (rq_request_id r))\<^sup>*\<^sup>* db db1" using observe_baseline_progress [of r db env now] by simp
  show ?thesis
  proof (cases res)
    case (Inl e)
    then show ?thesis
      using series ob db1 processed_after [OF db1] wait_for_processed
      by (auto simp: process_finance_def prog_simps intro: waiting)
  next
    case (Inr c)
    note c = observe_baseline_close [OF ob [unfolded Inr]]
    have "processed env r db1 (snd (process_finance env now r db))"
    proof (cases "md_session_complete (pv_tz (me_providers env)) series (rq_settlement_session r) now")
      case (Inl e)
      then show ?thesis using series ob Inr by (simp add: process_finance_def prog_simps processed_refl)
    next
      case fin: (Inr d)
      show ?thesis
      proof (cases d)
        case False
        have "snd (process_finance env now r db) = snd (defer_request env now r ''settlement session not yet complete'' db1)"
          using series ob Inr fin False by (simp add: process_finance_def prog_simps split: prod.splits sum.splits)
        then show ?thesis by (simp add: defer_processed)
      next
        case True
        then show ?thesis
          using series ob \<open>res = Inr c\<close> fin finance_settlement_processed [OF assms series c]
          by (cases "get_close (me_providers env) now (rq_asset_id r) (rq_settlement_session r)")
            (auto simp: process_finance_def prog_simps wait_for_processed processed_refl)
      qed
    qed
    from processed_after [OF db1 this] show ?thesis .
  qed
qed

lemma process_request_processed:
  assumes "daily_registry (me_registry env)"
  shows "processed env r db (snd (process_request env now r db))"
proof (cases "me_avanza_first env")
  case True
  then show ?thesis
    using get_pair_Inr [of "me_avanza env" "mk_samples db" "rq_asset_id r" "rq_baseline_session r" "rq_settlement_session r" now] assms
    by (auto simp: process_request_def wait_for_processed processed_refl complete_with_processed split: sum.splits prod.splits)
next
  case False
  then show ?thesis using process_finance_processed [OF assms] by (simp add: process_request_def)
qed

subsection \<open>Invariant of the request table and its outbox\<close>

definition request_key :: "request_row \<Rightarrow> uuid \<times> uuid \<times> AssetId \<times> date \<times> date \<times> uuid" where
  "request_key r = (rq_request_id r, rq_prediction_id r, rq_asset_id r, rq_baseline_session r, rq_settlement_session r,
     rq_correlation_id r)"

definition reply_of :: "market_env \<Rightarrow> market_db \<Rightarrow> PriceObserved outbox_row \<Rightarrow> bool" where
  "reply_of env db row \<longleftrightarrow>
     ob_message_id row = message_id (ob_payload row) \<and> ob_message_id row < mk_next_uuid db \<and>
     ob_aggregate_id row = po_request_id (ob_payload row) \<and>
     (\<exists>r \<in> set (mk_requests db). rq_state r = RQ_COMPLETED \<and> answers env r (ob_payload row))"

definition wf_market :: "market_env \<Rightarrow> market_db \<Rightarrow> bool" where
  "wf_market env db \<longleftrightarrow>
     distinct (map rq_request_id (mk_requests db)) \<and> distinct (map ob_aggregate_id (mk_outbox db)) \<and>
     distinct (map ob_message_id (mk_outbox db)) \<and> (\<forall>row \<in> set (mk_outbox db). reply_of env db row) \<and>
     (\<forall>r \<in> set (mk_requests db). rq_state r = RQ_COMPLETED \<longrightarrow> rq_request_id r \<in> ob_aggregate_id ` set (mk_outbox db))"

definition held :: "request_row \<Rightarrow> market_db \<Rightarrow> bool" where
  \<comment> \<open>the table still has the loaded request, open\<close>
  "held r db \<longleftrightarrow> (\<exists>r' \<in> set (mk_requests db). request_key r' = request_key r \<and> open_state (rq_state r'))"

lemma answers_key: "request_key r = request_key r' \<Longrightarrow> answers env r m = answers env r' m"
  by (simp add: request_key_def answers_def)

lemma request_id_inj:
  "wf_market env db \<Longrightarrow> r \<in> set (mk_requests db) \<Longrightarrow> r' \<in> set (mk_requests db) \<Longrightarrow>
    rq_request_id r = rq_request_id r' \<Longrightarrow> r = r'"
  by (auto simp: wf_market_def dest: inj_onD [OF distinct_map [THEN iffD1, THEN conjunct2]])

lemma reply_of_cong:
  "mk_requests db = mk_requests db' \<Longrightarrow> mk_next_uuid db = mk_next_uuid db' \<Longrightarrow> reply_of env db row = reply_of env db' row"
  by (simp add: reply_of_def)

lemma upsert_observation_simps [simp]:
  "mk_requests (upsert_observation a c db) = mk_requests db" "mk_outbox (upsert_observation a c db) = mk_outbox db"
  "mk_next_uuid (upsert_observation a c db) = mk_next_uuid db" "mk_samples (upsert_observation a c db) = mk_samples db"
  by (simp_all add: upsert_observation_def)

lemma mark_baseline_requests:
  "mk_requests (mark_baseline_observed now rid a c db) =
     update_where (\<lambda>r. rq_request_id r = rid \<and> rq_state r = RQ_PENDING)
       (\<lambda>r. r\<lparr>rq_state := RQ_BASELINE_OBSERVED, rq_attempts := rq_attempts r + 1,
              rq_next_attempt_at := Some now, rq_last_error := None\<rparr>) (mk_requests db)"
  by (simp add: mark_baseline_observed_def Let_def)

lemma record_failure_requests:
  "mk_requests (record_failure rid err t db) =
     update_where (\<lambda>r. rq_request_id r = rid)
       (\<lambda>r. r\<lparr>rq_attempts := rq_attempts r + 1, rq_last_error := Some err, rq_next_attempt_at := Some t\<rparr>) (mk_requests db)"
  by (simp add: record_failure_def)

text \<open>Updating requests without changing their identity keeps the invariant if completion is kept.\<close>

lemma wf_market_update:
  assumes "wf_market env db" "mk_outbox db' = mk_outbox db" "mk_next_uuid db \<le> mk_next_uuid db'"
    "mk_requests db' = update_where p f (mk_requests db)"
    "\<And>r. p r \<Longrightarrow> request_key (f r) = request_key r"
    "\<And>r. r \<in> set (mk_requests db) \<Longrightarrow> p r \<Longrightarrow> (rq_state (f r) = RQ_COMPLETED) = (rq_state r = RQ_COMPLETED)"
  shows "wf_market env db'"
proof -
  have key: "rq_request_id (f r) = rq_request_id r" if "p r" for r
    using assms(5) [OF that] by (simp add: request_key_def)
  have "reply_of env db' row" if reply: "reply_of env db row" for row
  proof -
    obtain r where r: "r \<in> set (mk_requests db)" "rq_state r = RQ_COMPLETED" "answers env r (ob_payload row)"
      using reply by (auto simp: reply_of_def)
    let ?r = "if p r then f r else r"
    have "?r \<in> set (mk_requests db')" "rq_state ?r = RQ_COMPLETED" "answers env ?r (ob_payload row)"
      using r assms(4,6) assms(5) [of r, THEN answers_key] by (auto simp: set_update_where)
    with reply assms(3) show ?thesis by (auto simp: reply_of_def)
  qed
  then show ?thesis
    using assms(1,2,4,6) key by (auto simp: wf_market_def map_update_where ball_update_where)
qed

lemma progress_wf: "progress rid db db' \<Longrightarrow> wf_market env db \<Longrightarrow> wf_market env db'"
proof (elim progressE)
  assume wf: "wf_market env db"
  show "wf_market env db'" if "db' = db\<lparr>mk_next_uuid := Suc (mk_next_uuid db)\<rparr>"
    using wf by (rule wf_market_update [where p = "\<lambda>_. False" and f = id]) (simp_all add: that update_where_def)
  show "wf_market env db'" if "db' = mark_baseline_observed now rid a c db" for now a c
    unfolding that
    by (rule wf_market_update [OF wf _ _ mark_baseline_requests])
      (auto simp: mark_baseline_observed_def Let_def request_key_def)
  show "wf_market env db'" if "db' = record_failure rid err t db" for err t
    unfolding that
    by (rule wf_market_update [OF wf _ _ record_failure_requests]) (auto simp: record_failure_def request_key_def)
qed

lemma abandon_requests:
  "mk_requests (abandon_request rid reason db) =
     update_where (\<lambda>r. rq_request_id r = rid)
       (\<lambda>r. r\<lparr>rq_state := RQ_ABANDONED, rq_last_error := Some reason, rq_next_attempt_at := None\<rparr>) (mk_requests db)"
  by (simp add: abandon_request_def)

lemma held_update:
  assumes "held r db" "mk_requests db' = update_where p f (mk_requests db)"
    "\<And>r. p r \<Longrightarrow> request_key (f r) = request_key r"
    "\<And>r'. request_key r' = request_key r \<Longrightarrow> p r' \<Longrightarrow> open_state (rq_state r') \<Longrightarrow> open_state (rq_state (f r'))"
  shows "held r db'"
proof -
  obtain r' where r': "r' \<in> set (mk_requests db)" "request_key r' = request_key r" "open_state (rq_state r')"
    using assms(1) by (auto simp: held_def)
  then have "(if p r' then f r' else r') \<in> set (mk_requests db')" by (auto simp: assms(2) set_update_where)
  with r' assms(3,4) [of r'] show ?thesis by (auto simp: held_def split: if_splits)
qed

lemma progress_held: "progress rid db db' \<Longrightarrow> held r db \<Longrightarrow> held r db'"
proof (elim progressE)
  assume h: "held r db"
  show "held r db'" if "db' = db\<lparr>mk_next_uuid := Suc (mk_next_uuid db)\<rparr>" using h that by (simp add: held_def)
  show "held r db'" if "db' = mark_baseline_observed now rid a c db" for now a c
    unfolding that by (rule held_update [OF h mark_baseline_requests]) (auto simp: request_key_def open_state_def)
  show "held r db'" if "db' = record_failure rid err t db" for err t
    unfolding that by (rule held_update [OF h record_failure_requests]) (auto simp: request_key_def)
qed

lemma progress_steps:
  assumes "(progress rid)\<^sup>*\<^sup>* db db'" "wf_market env db"
  shows "wf_market env db'" "held r db \<Longrightarrow> held r db'"
  using assms by (induction rule: rtranclp_induct) (auto intro: progress_wf progress_held)

lemma held_unanswered: "wf_market env db \<Longrightarrow> held r db \<Longrightarrow> rq_request_id r \<notin> ob_aggregate_id ` set (mk_outbox db)"
proof
  assume wf: "wf_market env db" and h: "held r db" and "rq_request_id r \<in> ob_aggregate_id ` set (mk_outbox db)"
  then obtain row where row: "row \<in> set (mk_outbox db)" "rq_request_id r = ob_aggregate_id row" by auto
  obtain r' where r': "r' \<in> set (mk_requests db)" "request_key r' = request_key r" "open_state (rq_state r')"
    using h by (auto simp: held_def)
  obtain s where s: "s \<in> set (mk_requests db)" "rq_state s = RQ_COMPLETED" "answers env s (ob_payload row)"
    "ob_aggregate_id row = po_request_id (ob_payload row)"
    using wf row by (auto simp: wf_market_def reply_of_def)
  have "rq_request_id s = rq_request_id r'" using s row r'(2) by (simp add: answers_def request_key_def)
  from request_id_inj [OF wf s(1) r'(1) this] s(2) r'(3) show False by (simp add: open_state_def)
qed

lemma abandon_wf: "wf_market env db \<Longrightarrow> held r db \<Longrightarrow> wf_market env (abandon_request (rq_request_id r) reason db)"
proof (rule wf_market_update)
  assume wf: "wf_market env db" and h: "held r db"
  fix s assume "s \<in> set (mk_requests db)" "rq_request_id s = rq_request_id r"
  then have "rq_state s \<noteq> RQ_COMPLETED" using wf held_unanswered [OF wf h] by (metis wf_market_def)
  then show "(rq_state (s\<lparr>rq_state := RQ_ABANDONED, rq_last_error := Some reason, rq_next_attempt_at := None\<rparr>) = RQ_COMPLETED) =
      (rq_state s = RQ_COMPLETED)" by simp
qed (auto simp: abandon_request_def request_key_def)

lemma complete_wf:
  assumes "wf_market env db" "held r db" "answers env r m" "message_id m = mk_next_uuid db"
  shows "wf_market env (snd (complete_request m (db\<lparr>mk_next_uuid := Suc (mk_next_uuid db)\<rparr>)))" (is "wf_market env ?db")
proof -
  have rid: "po_request_id m = rq_request_id r" using assms(3) by (simp add: answers_def)
  let ?f = "\<lambda>s. s\<lparr>rq_state := RQ_COMPLETED, rq_attempts := rq_attempts s + 1, rq_last_error := None\<rparr>"
  let ?p = "\<lambda>s. rq_request_id s = rq_request_id r"
  have fresh: "rq_request_id r \<notin> ob_aggregate_id ` set (mk_outbox db)" by (rule held_unanswered [OF assms(1,2)])
  have outbox: "mk_outbox ?db = mk_outbox db @ [new_outbox_row (message_id m) (rq_request_id r) m (occurred_at m)]"
    and reqs: "mk_requests ?db = update_where ?p ?f (mk_requests db)" and nu: "mk_next_uuid ?db = Suc (mk_next_uuid db)"
    using fresh by (auto simp: complete_request_def Let_def rid)
  obtain r' where r': "r' \<in> set (mk_requests db)" "request_key r' = request_key r" using assms(2) by (auto simp: held_def)
  then have r'_id: "rq_request_id r' = rq_request_id r" by (simp add: request_key_def)
  have key: "request_key (?f s) = request_key s" for s by (simp add: request_key_def)
  have new: "reply_of env ?db (new_outbox_row (message_id m) (rq_request_id r) m (occurred_at m))"
  proof -
    have "?f r' \<in> set (mk_requests ?db)" using r'(1) r'_id by (force simp: reqs set_update_where)
    moreover have "answers env (?f r') m" using answers_key [of "?f r'" r env m] assms(3) r'(2) key by simp
    ultimately show ?thesis
      using assms(4) unfolding reply_of_def nu by (auto simp: new_outbox_row_def rid intro!: bexI [of _ "?f r'"])
  qed
  have old: "reply_of env ?db row" if row: "row \<in> set (mk_outbox db)" for row
  proof -
    obtain s where s: "s \<in> set (mk_requests db)" "rq_state s = RQ_COMPLETED" "answers env s (ob_payload row)"
      and ids: "ob_message_id row = message_id (ob_payload row)" "ob_message_id row < mk_next_uuid db"
        "ob_aggregate_id row = po_request_id (ob_payload row)"
      using assms(1) row by (auto simp: wf_market_def reply_of_def)
    have "rq_request_id s \<noteq> rq_request_id r" using fresh row s(3) ids(3) by (force simp: answers_def)
    then have "s \<in> set (mk_requests ?db)" using s(1) by (force simp: reqs set_update_where)
    with s ids show ?thesis by (auto simp: reply_of_def nu)
  qed
  have less: "message_id m \<notin> ob_message_id ` set (mk_outbox db)"
    using assms(1,4) by (fastforce simp: wf_market_def reply_of_def)
  show ?thesis
    using assms(1) fresh new old less unfolding wf_market_def outbox reqs
    by (auto simp: map_update_where ball_update_where new_outbox_row_def)
qed

lemma processed_wf: "processed env r db db' \<Longrightarrow> wf_market env db \<Longrightarrow> held r db \<Longrightarrow> wf_market env db'"
  by (elim processedE) (auto intro: abandon_wf complete_wf progress_steps)

lemma processed_held:
  assumes "processed env r db db'" "rq_request_id s \<noteq> rq_request_id r" "held s db" "wf_market env db"
  shows "held s db'"
  using assms(1)
proof (cases rule: processed.cases)
  case waiting
  then show ?thesis using progress_steps(2) assms(3,4) by blast
next
  case (given_up db1 reason)
  then have "held s db1" using progress_steps(2) assms(3,4) by blast
  then show ?thesis unfolding given_up(1)
    by (rule held_update [OF _ abandon_requests]) (use assms(2) in \<open>auto simp: request_key_def\<close>)
next
  case (answered db1 m)
  then have h: "held s db1" using progress_steps(2) assms(3,4) by blast
  have rid: "po_request_id m = rq_request_id r" using answered(3) by (simp add: answers_def)
  show ?thesis
  proof (cases "rq_request_id r \<in> ob_aggregate_id ` set (mk_outbox db1)")
    case True
    then show ?thesis using h by (simp add: answered(1) complete_request_def Let_def rid held_def)
  next
    case False
    then have "mk_requests db' = update_where (\<lambda>q. rq_request_id q = rq_request_id r)
        (\<lambda>q. q\<lparr>rq_state := RQ_COMPLETED, rq_attempts := rq_attempts q + 1, rq_last_error := None\<rparr>) (mk_requests db1)"
      by (simp add: answered(1) complete_request_def Let_def rid)
    from held_update [OF h this] show ?thesis using assms(2) by (auto simp: request_key_def)
  qed
qed

lemma redrive_wf:
  assumes "daily_registry (me_registry env)"
  shows "wf_market env db \<Longrightarrow> \<forall>r \<in> set rs. held r db \<Longrightarrow> distinct (map rq_request_id rs) \<Longrightarrow>
    wf_market env (snd (redrive env now rs db))"
proof (induction rs arbitrary: db)
  case Nil
  then show ?case by simp
next
  case (Cons r rs)
  obtain res db' where p: "process_request env now r db = (res, db')" by fastforce
  have step: "processed env r db db'" using process_request_processed [OF assms, of r db now] p by simp
  have wf: "wf_market env db'" using processed_wf [OF step] Cons.prems by simp
  have "\<forall>s \<in> set rs. held s db'"
  proof
    fix s assume s: "s \<in> set rs"
    then have "rq_request_id s \<noteq> rq_request_id r" using Cons.prems(3) by (auto simp: image_iff)
    then show "held s db'" using processed_held [OF step] s Cons.prems by simp
  qed
  then have "wf_market env (snd (redrive env now rs db'))" using Cons.IH wf Cons.prems(3) by simp
  with wf p show ?case by (cases res) simp_all
qed

lemma load_open_requests_mem:
  "r \<in> set (load_open_requests reg now db) \<Longrightarrow> r \<in> set (mk_requests db) \<and> open_state (rq_state r)"
  by (auto simp: load_open_requests_def)

lemma load_open_held: "r \<in> set (load_open_requests reg now db) \<Longrightarrow> held r db"
  by (auto simp: held_def dest: load_open_requests_mem)

lemma load_open_distinct: "wf_market env db \<Longrightarrow> distinct (map rq_request_id (load_open_requests reg now db))"
proof -
  assume "wf_market env db"
  then have "distinct (map rq_request_id (filter p (mk_requests db)))" for p
    by (simp add: wf_market_def distinct_map_filter)
  then have "distinct (map rq_request_id (sort_key rq_created_at (filter p (mk_requests db))))" for p
    by (simp add: distinct_map)
  then show ?thesis unfolding load_open_requests_def by (rule distinct_map_filter)
qed

lemma market_publish_wf:
  assumes "wf_market env db"
  shows "wf_market env (fst (market_publish_pending send now n db))"
proof -
  define rows where "rows = fst (relay Inr send now n (mk_outbox db))"
  have keep: "map (\<lambda>x. (ob_message_id x, ob_aggregate_id x, ob_payload x)) rows =
      map (\<lambda>x. (ob_message_id x, ob_aggregate_id x, ob_payload x)) (mk_outbox db)"
    unfolding rows_def by (rule relay_keeps) (simp_all add: mark_failed_def mark_delivered_def)
  have ids: "map ob_message_id rows = map ob_message_id (mk_outbox db)"
    "map ob_aggregate_id rows = map ob_aggregate_id (mk_outbox db)"
    using arg_cong [OF keep, of "map fst"] arg_cong [OF keep, of "map (fst \<circ> snd)"] by (simp_all add: comp_def)
  have db': "fst (market_publish_pending send now n db) = db\<lparr>mk_outbox := rows\<rparr>"
    by (simp add: market_publish_pending_def rows_def Let_def split: prod.split)
  have "reply_of env (db\<lparr>mk_outbox := rows\<rparr>) x" if x: "x \<in> set rows" for x
  proof -
    have "(\<lambda>x. (ob_message_id x, ob_aggregate_id x, ob_payload x)) x \<in>
        (\<lambda>x. (ob_message_id x, ob_aggregate_id x, ob_payload x)) ` set (mk_outbox db)"
      unfolding set_map [symmetric] keep [symmetric] using x by (simp only: set_map) (rule imageI)
    then obtain y where "y \<in> set (mk_outbox db)" "ob_message_id x = ob_message_id y"
      "ob_aggregate_id x = ob_aggregate_id y" "ob_payload x = ob_payload y" by auto
    then show ?thesis using assms by (auto simp: wf_market_def reply_of_def)
  qed
  moreover have "ob_aggregate_id ` set rows = ob_aggregate_id ` set (mk_outbox db)"
    using arg_cong [OF ids(2), of set] by simp
  ultimately show ?thesis using assms ids by (simp add: wf_market_def db')
qed

lemma register_wf: "wf_market env db \<Longrightarrow> wf_market env (snd (register_request now m db))"
  by (auto simp: register_request_def wf_market_def reply_of_def)

lemma handle_price_request_wf:
  assumes "daily_registry (me_registry env)" "wf_market env db"
  shows "wf_market env (snd (handle_price_request env send now m db))"
proof -
  define db1 where "db1 = snd (register_request now m db)"
  have wf1: "wf_market env db1" unfolding db1_def by (rule register_wf [OF assms(2)])
  show ?thesis
  proof (cases "List.find (\<lambda>r. rq_request_id r = pr_request_id m) (load_open_requests (me_registry env) now db1)")
    case None
    then show ?thesis using wf1 by (simp add: handle_price_request_def db1_def Let_def)
  next
    case (Some r)
    then have h: "held r db1" by (auto simp: find_Some_iff intro!: load_open_held nth_mem)
    obtain res db2 where p: "process_request env now r db1 = (res, db2)" by fastforce
    have "wf_market env db2"
      using processed_wf [OF process_request_processed [OF assms(1), of r db1 now] wf1 h] p by simp
    then show ?thesis
      using Some p market_publish_wf by (cases res) (simp_all add: handle_price_request_def db1_def Let_def)
  qed
qed

lemma scheduler_tick_wf:
  assumes "daily_registry (me_registry env)" "wf_market env db"
  shows "wf_market env (scheduler_tick env send now db)"
proof -
  have "wf_market env (snd (redrive env now (load_open_requests (me_registry env) now db) db))"
    using load_open_held load_open_distinct [OF assms(2)] by (intro redrive_wf [OF assms]) auto
  then show ?thesis by (auto simp: scheduler_tick_def intro: market_publish_wf split: prod.split sum.split)
qed

subsection \<open>Histories\<close>

inductive mstep :: "market_env \<Rightarrow> market_db \<Rightarrow> market_db \<Rightarrow> bool" for env where
  request: "mstep env db (snd (handle_price_request env send now m db))"
| tick: "mstep env db (scheduler_tick env send now db)"
| outbox_relay: "mstep env db (fst (market_publish_pending send now n db))"
| collected: "mstep env db (db\<lparr>mk_samples := rows\<rparr>)"

inductive_cases mstepE: "mstep env db db'"

definition empty_market :: market_db where
  "empty_market = \<lparr>mk_requests = [], mk_closes = [], mk_sampled = [], mk_samples = [], mk_outbox = [], mk_next_uuid = 0\<rparr>"

lemma empty_market_wf: "wf_market env empty_market"
  by (simp add: wf_market_def empty_market_def)

lemma collected_wf: "wf_market env db \<Longrightarrow> wf_market env (db\<lparr>mk_samples := rows\<rparr>)"
  using reply_of_cong [of "db\<lparr>mk_samples := rows\<rparr>" db env] by (simp add: wf_market_def)

lemma mstep_wf: "mstep env db db' \<Longrightarrow> daily_registry (me_registry env) \<Longrightarrow> wf_market env db \<Longrightarrow> wf_market env db'"
  by (elim mstepE) (auto intro: handle_price_request_wf scheduler_tick_wf market_publish_wf collected_wf)


subsection \<open>Head-of-line blocking\<close>

lemma transient_unprocessed:
  assumes "resolve (me_registry env) (rq_asset_id r) = Inr series"
    "if me_avanza_first env
     then get_pair (me_avanza env) (mk_samples db) (rq_asset_id r) (rq_baseline_session r) (rq_settlement_session r) now =
       Inl (AdapterUnavailableError why)
     else get_close (me_providers env) now (rq_asset_id r) (rq_baseline_session r) = Inl (AdapterUnavailableError why)"
  shows "process_request env now r db = (Inl (AdapterUnavailableError why), db)"
  using assms
  by (auto simp: process_request_def process_finance_def observe_baseline_def prog_simps not_yet_def split: if_splits)


subsection \<open>The promise a request is given\<close>

locale simulation =
  fixes cstep :: "'c \<Rightarrow> 'c \<Rightarrow> bool" and astep :: "'a \<Rightarrow> 'a \<Rightarrow> bool" and abs_of :: "'c \<Rightarrow> 'a" and inv :: "'c \<Rightarrow> bool"
  assumes inv_step: "inv s \<Longrightarrow> cstep s s' \<Longrightarrow> inv s'"
    and sim_step: "inv s \<Longrightarrow> cstep s s' \<Longrightarrow> astep\<^sup>*\<^sup>* (abs_of s) (abs_of s')"
begin

lemma simulates: "cstep\<^sup>*\<^sup>* s s' \<Longrightarrow> inv s \<Longrightarrow> inv s' \<and> astep\<^sup>*\<^sup>* (abs_of s) (abs_of s')"
  by (induction rule: rtranclp_induct) (auto intro: inv_step sim_step rtranclp_trans)

end

text \<open>
  What the service promises of a request, without rows, attempts or retries: it waits, and then it is
  answered for good or given up for good.
\<close>

datatype promise = Waiting "uuid \<times> uuid \<times> AssetId \<times> date \<times> date \<times> uuid" | Answered PriceObserved | GivenUp

inductive promise_step :: "market_env \<Rightarrow> (uuid \<rightharpoonup> promise) \<Rightarrow> (uuid \<rightharpoonup> promise) \<Rightarrow> bool" for env where
  accept: "p rid = None \<Longrightarrow> promise_step env p (p(rid \<mapsto> Waiting (rid, k)))"
| answer: "p rid = Some (Waiting (request_key r)) \<Longrightarrow> rid = rq_request_id r \<Longrightarrow> answers env r m \<Longrightarrow>
    promise_step env p (p(rid \<mapsto> Answered m))"
| give_up: "p rid = Some (Waiting k) \<Longrightarrow> promise_step env p (p(rid \<mapsto> GivenUp))"

definition promise_of :: "market_db \<Rightarrow> request_row \<Rightarrow> promise" where
  "promise_of db r =
     (case List.find (\<lambda>x. ob_aggregate_id x = rq_request_id r) (mk_outbox db) of
        Some x \<Rightarrow> Answered (ob_payload x)
      | None \<Rightarrow> if rq_state r = RQ_ABANDONED then GivenUp else Waiting (request_key r))"

definition promises :: "market_db \<Rightarrow> uuid \<rightharpoonup> promise" where
  "promises db rid = map_option (promise_of db) (List.find (\<lambda>r. rq_request_id r = rid) (mk_requests db))"

lemma find_update_where:
  assumes "\<And>r. q (f r) = q r"
  shows "List.find q (update_where p f rs) = map_option (\<lambda>r. if p r then f r else r) (List.find q rs)"
  using assms by (induction rs) auto

lemma find_map_eq:
  "map g xs = map g ys \<Longrightarrow> (\<And>x y. g x = g y \<Longrightarrow> q x = q y) \<Longrightarrow>
    map_option g (List.find q xs) = map_option g (List.find q ys)"
proof (induction xs arbitrary: ys)
  case (Cons x xs)
  from Cons.prems(1) obtain y ys' where ys: "ys = y # ys'" "g x = g y" "map g xs = map g ys'" by (cases ys) auto
  have "q x = q y" using Cons.prems(2) ys(2) .
  moreover have "map_option g (List.find q xs) = map_option g (List.find q ys')" by (rule Cons.IH [OF ys(3) Cons.prems(2)])
  ultimately show ?case using ys(2) by (simp add: ys(1))
qed simp

lemma promises_update:
  assumes "mk_outbox db' = mk_outbox db" "mk_requests db' = update_where p f (mk_requests db)"
    "\<And>r. request_key (f r) = request_key r" "\<And>r. r \<in> set (mk_requests db) \<Longrightarrow> p r \<Longrightarrow>
      (rq_state (f r) = RQ_ABANDONED) = (rq_state r = RQ_ABANDONED)"
  shows "promises db' = promises db"
proof
  fix rid
  have id: "rq_request_id (f r) = rq_request_id r" for r using assms(3) [of r] by (simp add: request_key_def)
  have "promise_of db' (if p r then f r else r) = promise_of db r" if "r \<in> set (mk_requests db)" for r
    using assms(1,3,4) id that by (auto simp: promise_of_def split: option.split)
  moreover have "r \<in> set (mk_requests db)" if "List.find (\<lambda>r. rq_request_id r = rid) (mk_requests db) = Some r" for r
    using that by (auto simp: find_Some_iff)
  ultimately show "promises db' rid = promises db rid"
    by (cases "List.find (\<lambda>r. rq_request_id r = rid) (mk_requests db)")
      (simp_all add: promises_def assms(2) find_update_where id)
qed

lemma promises_outside: "mk_requests db' = mk_requests db \<Longrightarrow> mk_outbox db' = mk_outbox db \<Longrightarrow> promises db' = promises db"
proof (rule ext)
  fix rid
  assume eq: "mk_requests db' = mk_requests db" "mk_outbox db' = mk_outbox db"
  have "promise_of db' r = promise_of db r" for r by (simp add: promise_of_def eq)
  then show "promises db' rid = promises db rid" by (cases "List.find (\<lambda>r. rq_request_id r = rid) (mk_requests db)") (simp_all add: promises_def eq)
qed

lemma progress_promises: "progress rid db db' \<Longrightarrow> promises db' = promises db"
proof (elim progressE)
  show "promises db' = promises db" if "db' = db\<lparr>mk_next_uuid := Suc (mk_next_uuid db)\<rparr>"
    unfolding that by (rule promises_outside) simp_all
  show "promises db' = promises db" if "db' = mark_baseline_observed now rid a c db" for now a c
    unfolding that by (rule promises_update [OF _ mark_baseline_requests])
      (auto simp: mark_baseline_observed_def Let_def request_key_def)
  show "promises db' = promises db" if "db' = record_failure rid err t db" for err t
    unfolding that by (rule promises_update [OF _ record_failure_requests]) (auto simp: record_failure_def request_key_def)
qed

lemma progress_steps_promises: "(progress rid)\<^sup>*\<^sup>* db db' \<Longrightarrow> promises db' = promises db"
  by (induction rule: rtranclp_induct) (auto dest: progress_promises)

lemma find_request: "wf_market env db \<Longrightarrow> r \<in> set (mk_requests db) \<Longrightarrow>
    List.find (\<lambda>s. rq_request_id s = rq_request_id r) (mk_requests db) = Some r"
proof -
  assume wf: "wf_market env db" and r: "r \<in> set (mk_requests db)"
  then obtain s where s: "List.find (\<lambda>s. rq_request_id s = rq_request_id r) (mk_requests db) = Some s"
    by (cases "List.find (\<lambda>s. rq_request_id s = rq_request_id r) (mk_requests db)") (auto simp: find_None_iff)
  then have "s \<in> set (mk_requests db)" "rq_request_id s = rq_request_id r" by (auto simp: find_Some_iff)
  with request_id_inj [OF wf _ r] s show ?thesis by simp
qed

lemma promise_of_held:
  assumes "wf_market env db" "held r db"
  shows "promises db (rq_request_id r) = Some (Waiting (request_key r))"
proof -
  obtain r' where r': "r' \<in> set (mk_requests db)" "request_key r' = request_key r" "open_state (rq_state r')"
    using assms(2) by (auto simp: held_def)
  then have "rq_request_id r' = rq_request_id r" by (simp add: request_key_def)
  moreover have "List.find (\<lambda>x. ob_aggregate_id x = rq_request_id r') (mk_outbox db) = None"
    using held_unanswered [OF assms] \<open>rq_request_id r' = rq_request_id r\<close> by (force simp: find_None_iff)
  ultimately show ?thesis
    using find_request [OF assms(1) r'(1)] r' by (auto simp: promises_def promise_of_def open_state_def)
qed

lemma abandon_promises:
  assumes "wf_market env db" "held r db"
  shows "promises (abandon_request (rq_request_id r) reason db) = (promises db)(rq_request_id r \<mapsto> GivenUp)"
proof (rule ext)
  fix rid
  let ?db = "abandon_request (rq_request_id r) reason db"
  have out: "mk_outbox ?db = mk_outbox db" by (simp add: abandon_request_def)
  have other: "promise_of ?db s = promise_of db s" for s by (simp add: promise_of_def out)
  have none: "List.find (\<lambda>x. ob_aggregate_id x = rq_request_id r) (mk_outbox db) = None"
    using held_unanswered [OF assms] by (force simp: find_None_iff)
  have found: "s \<in> set (mk_requests db) \<and> rq_request_id s = rid"
    if "List.find (\<lambda>s. rq_request_id s = rid) (mk_requests db) = Some s" for s
    using that by (auto simp: find_Some_iff)
  show "promises ?db rid = ((promises db)(rq_request_id r \<mapsto> GivenUp)) rid"
  proof (cases "rid = rq_request_id r")
    case True
    then obtain s where s: "List.find (\<lambda>s. rq_request_id s = rid) (mk_requests db) = Some s"
      using promise_of_held [OF assms] by (auto simp: promises_def)
    with found [OF s] show ?thesis
      using True none by (simp add: promises_def abandon_requests find_update_where promise_of_def out)
  next
    case False
    show ?thesis
    proof (cases "List.find (\<lambda>s. rq_request_id s = rid) (mk_requests db)")
      case None
      then show ?thesis using False by (simp add: promises_def abandon_requests find_update_where)
    next
      case (Some s)
      then show ?thesis using False found [OF Some] by (simp add: promises_def abandon_requests find_update_where other)
    qed
  qed
qed

lemma find_append: "List.find q (xs @ ys) = (case List.find q xs of None \<Rightarrow> List.find q ys | Some x \<Rightarrow> Some x)"
  by (induction xs) auto

lemma complete_promises:
  assumes "wf_market env db" "held r db" "answers env r m" "message_id m = mk_next_uuid db"
  shows "promises (snd (complete_request m (db\<lparr>mk_next_uuid := Suc (mk_next_uuid db)\<rparr>))) =
    (promises db)(rq_request_id r \<mapsto> Answered m)" (is "promises ?db = _")
proof (rule ext)
  fix rid
  have rid_m: "po_request_id m = rq_request_id r" using assms(3) by (simp add: answers_def)
  have fresh: "rq_request_id r \<notin> ob_aggregate_id ` set (mk_outbox db)" by (rule held_unanswered [OF assms(1,2)])
  let ?f = "\<lambda>s. s\<lparr>rq_state := RQ_COMPLETED, rq_attempts := rq_attempts s + 1, rq_last_error := None\<rparr>"
  have outbox: "mk_outbox ?db = mk_outbox db @ [new_outbox_row (message_id m) (rq_request_id r) m (occurred_at m)]"
    and reqs: "mk_requests ?db = update_where (\<lambda>s. rq_request_id s = rq_request_id r) ?f (mk_requests db)"
    using fresh by (auto simp: complete_request_def Let_def rid_m)
  have none: "List.find (\<lambda>x. ob_aggregate_id x = rq_request_id r) (mk_outbox db) = None"
    using fresh by (force simp: find_None_iff)
  have found: "rq_request_id s = rid" if "List.find (\<lambda>s. rq_request_id s = rid) (mk_requests db) = Some s" for s
    using that by (auto simp: find_Some_iff)
  have other: "promise_of ?db s = promise_of db s" if "rq_request_id s \<noteq> rq_request_id r" for s
    using that by (auto simp: promise_of_def outbox find_append new_outbox_row_def split: option.split)
  show "promises ?db rid = ((promises db)(rq_request_id r \<mapsto> Answered m)) rid"
  proof (cases "rid = rq_request_id r")
    case True
    then obtain s where s: "List.find (\<lambda>s. rq_request_id s = rid) (mk_requests db) = Some s"
      using promise_of_held [OF assms(1,2)] by (auto simp: promises_def)
    with found [OF s] show ?thesis
      using True none
      by (simp add: promises_def reqs find_update_where promise_of_def outbox find_append new_outbox_row_def)
  next
    case False
    show ?thesis
    proof (cases "List.find (\<lambda>s. rq_request_id s = rid) (mk_requests db)")
      case None
      then show ?thesis using False by (simp add: promises_def reqs find_update_where)
    next
      case (Some s)
      then show ?thesis using False found [OF Some] other [of s] by (simp add: promises_def reqs find_update_where)
    qed
  qed
qed

lemma processed_promises:
  assumes "processed env r db db'" "wf_market env db" "held r db"
  shows "(promise_step env)\<^sup>*\<^sup>* (promises db) (promises db')"
  using assms(1)
proof (cases rule: processed.cases)
  case waiting
  then show ?thesis by (simp add: progress_steps_promises)
next
  case (given_up db1 reason)
  note keep = progress_steps(1) [OF given_up(2) assms(2)] progress_steps(2) [OF given_up(2) assms(2,3)]
  have "promise_step env (promises db1) (promises db')"
    unfolding given_up(1) abandon_promises [OF keep] using promise_of_held [OF keep] by (rule give_up)
  then show ?thesis by (simp add: progress_steps_promises [OF given_up(2), symmetric])
next
  case (answered db1 m)
  note keep = progress_steps(1) [OF answered(2) assms(2)] progress_steps(2) [OF answered(2) assms(2,3)]
  have "promise_step env (promises db1) (promises db')"
    unfolding answered(1) complete_promises [OF keep answered(3,4)]
    using promise_of_held [OF keep] refl answered(3) by (rule answer)
  then show ?thesis by (simp add: progress_steps_promises [OF answered(2), symmetric])
qed

lemma redrive_promises:
  assumes "daily_registry (me_registry env)"
  shows "wf_market env db \<Longrightarrow> \<forall>r \<in> set rs. held r db \<Longrightarrow> distinct (map rq_request_id rs) \<Longrightarrow>
    (promise_step env)\<^sup>*\<^sup>* (promises db) (promises (snd (redrive env now rs db)))"
proof (induction rs arbitrary: db)
  case Nil
  then show ?case by simp
next
  case (Cons r rs)
  obtain res db' where p: "process_request env now r db = (res, db')" by fastforce
  have step: "processed env r db db'" using process_request_processed [OF assms, of r db now] p by simp
  have wf: "wf_market env db'" using processed_wf [OF step] Cons.prems by simp
  have first: "(promise_step env)\<^sup>*\<^sup>* (promises db) (promises db')" using processed_promises [OF step] Cons.prems by simp
  have "\<forall>s \<in> set rs. held s db'"
    using processed_held [OF step _ _ Cons.prems(1)] Cons.prems(2,3) by (auto simp: image_iff)
  then have "(promise_step env)\<^sup>*\<^sup>* (promises db') (promises (snd (redrive env now rs db')))"
    using Cons.IH wf Cons.prems(3) by simp
  with first p show ?case by (cases res) (auto intro: rtranclp_trans)
qed

lemma publish_promises: "promises (fst (market_publish_pending send now n db)) = promises db"
proof (rule ext)
  fix rid
  define rows where "rows = fst (relay Inr send now n (mk_outbox db))"
  have "map (\<lambda>x. (ob_aggregate_id x, ob_payload x)) rows = map (\<lambda>x. (ob_aggregate_id x, ob_payload x)) (mk_outbox db)"
    unfolding rows_def by (rule relay_keeps) (simp_all add: mark_failed_def mark_delivered_def)
  then have "map_option (\<lambda>x. (ob_aggregate_id x, ob_payload x)) (List.find (\<lambda>x. ob_aggregate_id x = i) rows) =
      map_option (\<lambda>x. (ob_aggregate_id x, ob_payload x)) (List.find (\<lambda>x. ob_aggregate_id x = i) (mk_outbox db))" for i
    by (rule find_map_eq) simp
  then have "map_option ob_payload (List.find (\<lambda>x. ob_aggregate_id x = i) rows) =
      map_option ob_payload (List.find (\<lambda>x. ob_aggregate_id x = i) (mk_outbox db))" for i
    using arg_cong [of _ _ "map_option snd"] by (fastforce simp: option.map_comp comp_def)
  note pay = this
  have "promise_of (db\<lparr>mk_outbox := rows\<rparr>) r = promise_of db r" for r
    using pay [of "rq_request_id r"]
    by (cases "List.find (\<lambda>x. ob_aggregate_id x = rq_request_id r) rows";
        cases "List.find (\<lambda>x. ob_aggregate_id x = rq_request_id r) (mk_outbox db)") (simp_all add: promise_of_def)
  moreover have "fst (market_publish_pending send now n db) = db\<lparr>mk_outbox := rows\<rparr>"
    by (simp add: market_publish_pending_def rows_def Let_def split: prod.split)
  ultimately show "promises (fst (market_publish_pending send now n db)) rid = promises db rid"
    by (cases "List.find (\<lambda>r. rq_request_id r = rid) (mk_requests db)") (simp_all add: promises_def)
qed

lemma register_promises:
  assumes "wf_market env db"
  shows "(promise_step env)\<^sup>*\<^sup>* (promises db) (promises (snd (register_request now m db)))"
proof (cases "pr_request_id m \<in> set (map rq_request_id (mk_requests db))")
  case True
  then show ?thesis by (simp add: register_request_def)
next
  case False
  define r where "r = last (mk_requests (snd (register_request now m db)))"
  have rows: "mk_requests (snd (register_request now m db)) = mk_requests db @ [r]"
    "mk_outbox (snd (register_request now m db)) = mk_outbox db"
    and r: "rq_request_id r = pr_request_id m" "rq_state r = RQ_PENDING"
    using False by (auto simp: register_request_def r_def)
  have "List.find (\<lambda>x. ob_aggregate_id x = rq_request_id r) (mk_outbox db) = None"
    using assms False r by (auto simp: find_None_iff wf_market_def reply_of_def answers_def image_iff) metis
  then have new: "promise_of (snd (register_request now m db)) r = Waiting (request_key r)"
    by (simp add: promise_of_def rows r)
  have old: "promise_of (snd (register_request now m db)) s = promise_of db s" for s by (simp add: promise_of_def rows)
  have none: "List.find (\<lambda>s. rq_request_id s = pr_request_id m) (mk_requests db) = None"
    using False by (force simp: find_None_iff)
  have "promises (snd (register_request now m db)) rid = ((promises db)(rq_request_id r \<mapsto> Waiting (request_key r))) rid" for rid
    using none r(1) by (cases "List.find (\<lambda>s. rq_request_id s = rid) (mk_requests db)") (auto simp: promises_def rows find_append old new [unfolded old])
  then have "promises (snd (register_request now m db)) = (promises db)(rq_request_id r \<mapsto> Waiting (request_key r))" by (rule ext)
  moreover have "promises db (rq_request_id r) = None" using none r(1) by (simp add: promises_def)
  then have "promise_step env (promises db) ((promises db)(rq_request_id r \<mapsto> Waiting (request_key r)))"
    unfolding request_key_def by (rule accept)
  ultimately show ?thesis by simp
qed

lemma handle_price_request_promises:
  assumes "daily_registry (me_registry env)" "wf_market env db"
  shows "(promise_step env)\<^sup>*\<^sup>* (promises db) (promises (snd (handle_price_request env send now m db)))"
proof -
  define db1 where "db1 = snd (register_request now m db)"
  have wf1: "wf_market env db1" unfolding db1_def by (rule register_wf [OF assms(2)])
  have first: "(promise_step env)\<^sup>*\<^sup>* (promises db) (promises db1)" unfolding db1_def by (rule register_promises [OF assms(2)])
  show ?thesis
  proof (cases "List.find (\<lambda>r. rq_request_id r = pr_request_id m) (load_open_requests (me_registry env) now db1)")
    case None
    then show ?thesis using first by (simp add: handle_price_request_def db1_def Let_def)
  next
    case (Some r)
    then have h: "held r db1" by (auto simp: find_Some_iff intro!: load_open_held nth_mem)
    obtain res db2 where p: "process_request env now r db1 = (res, db2)" by fastforce
    have "(promise_step env)\<^sup>*\<^sup>* (promises db1) (promises db2)"
      using processed_promises [OF process_request_processed [OF assms(1), of r db1 now] wf1 h] p by simp
    with first have "(promise_step env)\<^sup>*\<^sup>* (promises db) (promises db2)" by (rule rtranclp_trans)
    then show ?thesis
      using Some p by (cases res) (simp_all add: handle_price_request_def db1_def Let_def publish_promises)
  qed
qed

lemma scheduler_tick_promises:
  assumes "daily_registry (me_registry env)" "wf_market env db"
  shows "(promise_step env)\<^sup>*\<^sup>* (promises db) (promises (scheduler_tick env send now db))"
proof -
  have "(promise_step env)\<^sup>*\<^sup>* (promises db) (promises (snd (redrive env now (load_open_requests (me_registry env) now db) db)))"
    using load_open_held load_open_distinct [OF assms(2)] by (intro redrive_promises [OF assms]) auto
  then show ?thesis by (auto simp: scheduler_tick_def publish_promises split: prod.split sum.split)
qed

interpretation market: simulation "mstep env" "promise_step env" promises
  "\<lambda>db. daily_registry (me_registry env) \<and> wf_market env db" for env
proof
  fix db db'
  assume inv: "daily_registry (me_registry env) \<and> wf_market env db" and step: "mstep env db db'"
  then show "daily_registry (me_registry env) \<and> wf_market env db'" using mstep_wf by blast
  have "(promise_step env)\<^sup>*\<^sup>* (promises db) (promises (db\<lparr>mk_samples := rows\<rparr>))" for rows
    using promises_outside [of "db\<lparr>mk_samples := rows\<rparr>" db] by simp
  with step inv show "(promise_step env)\<^sup>*\<^sup>* (promises db) (promises db')"
    by (elim mstepE) (auto simp: publish_promises intro: handle_price_request_promises scheduler_tick_promises)
qed


subsection \<open>Witnesses\<close>

definition sample_providers :: provider_env where
  \<comment> \<open>both providers are down\<close>
  "sample_providers =
     \<lparr>pv_registry = sample_registry, pv_tz = (\<lambda>_. Some (fixed_zone 0)), pv_yahoo = (\<lambda>_ _ _. HttpError ''503''),
      pv_biquote = (\<lambda>_ _ _. HttpError ''503''), pv_fetch_window_days = 7, pv_str = (\<lambda>_. []),
      pv_float_of_str = (\<lambda>_. None), pv_fromisoformat = (\<lambda>_. None), pv_isoformat = (\<lambda>_. [])\<rparr>"

definition sample_market :: market_env where
  "sample_market =
     \<lparr>me_avanza = \<lparr>av_providers = sample_providers, av_calendars = (\<lambda>_. None), av_mappings = None,
        av_valid_url = (\<lambda>_ _. True), av_initialized = False\<rparr>,
      me_avanza_first = False, me_backoff_base = 2, me_backoff_max = 8, me_abandon_after_days = 7\<rparr>"

definition sample_price_request :: PriceRequested where
  "sample_price_request =
     \<lparr>message_id = 1, correlation_id = 2, causation_id = None, occurred_at = 0, pr_request_id = 7, pr_prediction_id = 8,
      pr_asset_id = ''GOLD'', pr_baseline_session = 100, pr_settlement_session = 101, pr_market_calendar = ''America/New_York''\<rparr>"

lemma sample_market_daily: "daily_registry (me_registry sample_market)"
  by (simp add: sample_market_def sample_providers_def daily_registry_def sample_registry_def sample_entry_def)



definition sample_due :: market_db where
  "sample_due = snd (register_request 0 sample_price_request empty_market)"


end
