(* ===== verification/Settlement.thy ===== *)
theory Settlement
  imports Verification MarketData
begin

text \<open>
  The settlement loop: the daily Verification service and the Market Data service exchange
  \<^verbatim>\<open>PriceRequested\<close> and \<^verbatim>\<open>PriceObserved\<close> through their outboxes.  The broker may deliver any message an
  outbox holds, any number of times and in any order.
\<close>

inductive loop_step ::
  "verification_env \<Rightarrow> market_env \<Rightarrow> verification_db \<times> market_db \<Rightarrow> verification_db \<times> market_db \<Rightarrow> bool" for venv menv where
  predicted: "loop_step venv menv (v, k) (snd (process_prediction venv now m v), k)"
| requested: "q \<in> set (requests (vd_outbox v)) \<Longrightarrow>
    loop_step venv menv (v, k) (v, snd (handle_price_request menv send now q k))"
| ticked: "loop_step venv menv (v, k) (v, scheduler_tick menv send now k)"
| collected: "loop_step venv menv (v, k) (v, k\<lparr>mk_samples := rows\<rparr>)"
| observed: "row \<in> set (mk_outbox k) \<Longrightarrow> loop_step venv menv (v, k) (snd (process_price venv now (ob_payload row) v), k)"
| request_relay: "loop_step venv menv (v, k) (v\<lparr>vd_outbox := fst (verification_publish_pending send now n (vd_outbox v))\<rparr>, k)"
| price_relay: "loop_step venv menv (v, k) (v, fst (market_publish_pending send now n k))"

inductive_cases loop_stepE: "loop_step venv menv (v, k) s"

subsection \<open>Evaluations and their requests\<close>

definition ev_key :: "EvaluationRecord \<Rightarrow> uuid \<times> AssetId \<times> date \<times> date" where
  "ev_key e = (er_request_id e, er_asset_id e, er_baseline_session e, er_settlement_session e)"

definition rq_key :: "request_row \<Rightarrow> uuid \<times> AssetId \<times> date \<times> date" where
  "rq_key r = (rq_request_id r, rq_asset_id r, rq_baseline_session r, rq_settlement_session r)"

definition pr_key :: "PriceRequested \<Rightarrow> uuid \<times> AssetId \<times> date \<times> date" where
  "pr_key q = (pr_request_id q, pr_asset_id q, pr_baseline_session q, pr_settlement_session q)"

definition resolved :: "Registry \<Rightarrow> EvaluationRecord \<Rightarrow> bool" where
  "resolved reg e \<longleftrightarrow> (\<exists>series. resolve reg (er_asset_id e) = Inr series \<and> er_registry_version e = rs_registry_version series)"

definition evaluations_ok :: "verification_env \<Rightarrow> verification_db \<Rightarrow> bool" where
  "evaluations_ok venv v \<longleftrightarrow> wf_vdb venv v \<and> (\<forall>e \<in> set (vd_evaluations v). resolved (ve_registry venv) e) \<and>
     pr_key ` set (requests (vd_outbox v)) \<subseteq> ev_key ` set (vd_evaluations v)"

lemma status_keeps:
  "map ev_key (update_where p (\<lambda>e. e\<lparr>er_status := st\<rparr>) evs) = map ev_key evs"
  "(\<forall>e \<in> set (update_where p (\<lambda>e. e\<lparr>er_status := st\<rparr>) evs). resolved reg e) \<longleftrightarrow> (\<forall>e \<in> set evs. resolved reg e)"
  by (induction evs) (auto simp: ev_key_def resolved_def)

lemma status_keeps_set:
  "ev_key ` set (update_where p (\<lambda>e. e\<lparr>er_status := st\<rparr>) evs) = ev_key ` set evs"
  using arg_cong [OF status_keeps(1), of set] by simp

lemma evaluation_of_resolved: "evaluation_of venv m = Inr e \<Longrightarrow> resolved (ve_registry venv) e"
  by (auto simp: evaluation_of_def resolved_def split: sum.splits prod.splits)

lemma evaluation_of_asset: "evaluation_of venv m = Inr e \<Longrightarrow> er_asset_id e = pm_asset_id m"
  by (auto simp: evaluation_of_def split: sum.splits prod.splits)

lemma process_prediction_ok:
  assumes "evaluations_ok venv v"
  shows "evaluations_ok venv (snd (process_prediction venv now m v)) \<and>
    ev_key ` set (vd_evaluations v) \<subseteq> ev_key ` set (vd_evaluations (snd (process_prediction venv now m v)))"
proof (cases "evaluation_of venv m")
  case (Inl e)
  then show ?thesis using assms by (simp add: process_prediction_def)
next
  case (Inr e)
  let ?q = "price_request now (vd_next_uuid v) m e"
  let ?v = "v\<lparr>vd_next_uuid := vd_next_uuid v + 1\<rparr>"
  obtain res v1 where c: "create_evaluation_with_outbox e ?q ?v = (res, v1)" by fastforce
  have key: "pr_key ?q = ev_key (e\<lparr>er_status := EV_PENDING\<rparr>)"
    by (simp add: pr_key_def ev_key_def price_request_def evaluation_of_asset [OF Inr])
  have "resolved (ve_registry venv) (e\<lparr>er_status := EV_PENDING\<rparr>)"
    using evaluation_of_resolved [OF Inr] by (simp add: resolved_def)
  note new = this
  have "(vd_evaluations v1 = vd_evaluations v \<and> requests (vd_outbox v1) = requests (vd_outbox v)) \<or>
      (vd_evaluations v1 = vd_evaluations v @ [e\<lparr>er_status := EV_PENDING\<rparr>] \<and>
       requests (vd_outbox v1) = requests (vd_outbox v) @ [?q])"
    using c by (auto simp: create_evaluation_with_outbox_def split: if_splits)
  then have v1: "\<forall>e \<in> set (vd_evaluations v1). resolved (ve_registry venv) e"
    "pr_key ` set (requests (vd_outbox v1)) \<subseteq> ev_key ` set (vd_evaluations v1)"
    "ev_key ` set (vd_evaluations v) \<subseteq> ev_key ` set (vd_evaluations v1)"
    using new key assms unfolding evaluations_ok_def by (elim disjE conjE; simp; blast)+
  have w: "snd (process_prediction venv now m v) = (case res of Inl _ \<Rightarrow> v1 | Inr _ \<Rightarrow> withdraw_superseded m v1)"
    using c by (simp add: process_prediction_def Inr Let_def split: sum.split)
  have "ev_key ` set (vd_evaluations (withdraw_superseded m v1)) = ev_key ` set (vd_evaluations v1)"
    "vd_outbox (withdraw_superseded m v1) = vd_outbox v1"
    "(\<forall>e \<in> set (vd_evaluations (withdraw_superseded m v1)). resolved (ve_registry venv) e)"
    using v1(1) by (auto simp: withdraw_superseded_def withdraw_evaluation_def status_keeps status_keeps_set split: option.split)
  moreover have "wf_vdb venv (snd (process_prediction venv now m v))"
    using assms by (simp add: evaluations_ok_def process_prediction_wf)
  ultimately show ?thesis using v1 unfolding evaluations_ok_def by (cases res) (simp_all add: w)
qed

lemma store_score_frame:
  "ev_key ` set (vd_evaluations (snd (store_score_with_outbox s v))) = ev_key ` set (vd_evaluations v)"
  "(\<forall>e \<in> set (vd_evaluations (snd (store_score_with_outbox s v))). resolved reg e) \<longleftrightarrow> (\<forall>e \<in> set (vd_evaluations v). resolved reg e)"
  "requests (vd_outbox (snd (store_score_with_outbox s v))) = requests (vd_outbox v)"
  by (auto simp: store_score_with_outbox_def mark_scored_def status_keeps status_keeps_set)

lemma process_price_ok:
  assumes "evaluations_ok venv v"
  shows "evaluations_ok venv (snd (process_price venv now m v)) \<and>
    ev_key ` set (vd_evaluations (snd (process_price venv now m v))) = ev_key ` set (vd_evaluations v)"
proof -
  have "wf_vdb venv (snd (process_price venv now m v))" using assms by (simp add: evaluations_ok_def process_price_wf)
  moreover have "ev_key ` set (vd_evaluations (snd (process_price venv now m v))) = ev_key ` set (vd_evaluations v)"
    "(\<forall>e \<in> set (vd_evaluations (snd (process_price venv now m v))). resolved reg e) \<longleftrightarrow> (\<forall>e \<in> set (vd_evaluations v). resolved reg e)"
    "requests (vd_outbox (snd (process_price venv now m v))) = requests (vd_outbox v)" for reg
    by (simp_all add: process_price_def Let_def store_score_frame split: sum.split option.split)
  ultimately show ?thesis using assms by (simp add: evaluations_ok_def)
qed

lemma request_relay_ok:
  assumes "evaluations_ok venv v"
  shows "evaluations_ok venv (v\<lparr>vd_outbox := fst (verification_publish_pending send now n (vd_outbox v))\<rparr>)"
proof -
  have "requests rows = concat (map (\<lambda>p. case snd p of VPriceRequested q \<Rightarrow> [q] | _ \<Rightarrow> []) (map ob_payload rows))" for rows
    by (simp add: requests_def comp_def)
  then have "requests (fst (verification_publish_pending send now n (vd_outbox v))) = requests (vd_outbox v)"
    by (simp only: relay_payloads verification_publish_pending_def)
  then show ?thesis using assms by (simp add: evaluations_ok_def relay_wf_vdb)
qed

subsection \<open>Requests and their evaluations\<close>

lemma update_keys:
  "mk_requests db' = update_where p f (mk_requests db) \<Longrightarrow> (\<And>r. request_key (f r) = request_key r) \<Longrightarrow>
    map request_key (mk_requests db') = map request_key (mk_requests db)"
  by (simp add: map_update_where)

lemma progress_keys: "progress rid db db' \<Longrightarrow> map request_key (mk_requests db') = map request_key (mk_requests db)"
proof (elim progressE)
  show "map request_key (mk_requests db') = map request_key (mk_requests db)"
    if "db' = db\<lparr>mk_next_uuid := Suc (mk_next_uuid db)\<rparr>" by (simp add: that)
  show "map request_key (mk_requests db') = map request_key (mk_requests db)"
    if "db' = mark_baseline_observed now rid a c db" for now a c
    unfolding that by (rule update_keys [OF mark_baseline_requests]) (simp add: request_key_def)
  show "map request_key (mk_requests db') = map request_key (mk_requests db)" if "db' = record_failure rid err t db" for err t
    unfolding that by (rule update_keys [OF record_failure_requests]) (simp add: request_key_def)
qed

lemma processed_keys: "processed env r db db' \<Longrightarrow> map request_key (mk_requests db') = map request_key (mk_requests db)"
proof -
  have steps: "(progress rid)\<^sup>*\<^sup>* db db1 \<Longrightarrow> map request_key (mk_requests db1) = map request_key (mk_requests db)" for rid db1
    by (induction rule: rtranclp_induct) (auto dest: progress_keys)
  have "map request_key (mk_requests (abandon_request rid reason db1)) = map request_key (mk_requests db1)" for rid reason db1
    by (rule update_keys [OF abandon_requests]) (simp add: request_key_def)
  moreover have "map request_key (mk_requests (snd (complete_request m db1))) = map request_key (mk_requests db1)" for m db1
    by (simp add: complete_request_def Let_def map_update_where request_key_def)
  ultimately show "processed env r db db' \<Longrightarrow> ?thesis" by (elim processedE) (auto dest: steps)
qed

lemma process_request_keys:
  "daily_registry (me_registry env) \<Longrightarrow>
    map request_key (mk_requests (snd (process_request env now r db))) = map request_key (mk_requests db)"
  by (rule processed_keys [OF process_request_processed])

lemma redrive_keys:
  assumes "daily_registry (me_registry env)"
  shows "map request_key (mk_requests (snd (redrive env now rs db))) = map request_key (mk_requests db)"
proof (induction rs arbitrary: db)
  case (Cons r rs)
  obtain res db' where p: "process_request env now r db = (res, db')" by fastforce
  then have "map request_key (mk_requests db') = map request_key (mk_requests db)"
    using process_request_keys [OF assms, of now r db] by simp
  with Cons.IH [of db'] p show ?case by (cases res) simp_all
qed simp

lemma publish_requests: "mk_requests (fst (market_publish_pending send now n db)) = mk_requests db"
  by (simp add: market_publish_pending_def Let_def split: prod.split)

lemma publish_empty: "mk_outbox (fst (market_publish_pending send now n db)) = [] \<longleftrightarrow> mk_outbox db = []"
  using relay_payloads(1) [of Inr send now n "mk_outbox db"]
  by (auto simp: market_publish_pending_def Let_def split: prod.split)

lemma request_key_set:
  "map request_key xs = map request_key ys \<Longrightarrow> rq_key ` set xs = rq_key ` set ys"
proof -
  have "rq_key r = (\<lambda>(i, p, a, b, s, c). (i, a, b, s)) (request_key r)" for r by (simp add: rq_key_def request_key_def)
  then have "rq_key ` set zs = (\<lambda>(i, p, a, b, s, c). (i, a, b, s)) ` set (map request_key zs)" for zs
    by (simp add: image_image)
  then show "map request_key xs = map request_key ys \<Longrightarrow> ?thesis" by metis
qed

lemma tick_keys:
  assumes "daily_registry (me_registry env)"
  shows "rq_key ` set (mk_requests (scheduler_tick env send now db)) = rq_key ` set (mk_requests db)"
  by (rule request_key_set)
    (use redrive_keys [OF assms, of now "load_open_requests (me_registry env) now db" db] in
      \<open>auto simp: scheduler_tick_def publish_requests split: prod.split sum.split\<close>)

lemma handle_keys:
  assumes "daily_registry (me_registry env)"
  shows "rq_key ` set (mk_requests (snd (handle_price_request env send now q db))) \<subseteq> insert (pr_key q) (rq_key ` set (mk_requests db))"
proof -
  define db1 where "db1 = snd (register_request now q db)"
  have reg: "rq_key ` set (mk_requests db1) \<subseteq> insert (pr_key q) (rq_key ` set (mk_requests db))"
    by (auto simp: db1_def register_request_def rq_key_def pr_key_def)
  have "map request_key (mk_requests (snd (handle_price_request env send now q db))) = map request_key (mk_requests db1)"
    using process_request_keys [OF assms, of now _ db1]
    by (auto simp: handle_price_request_def db1_def [symmetric] Let_def publish_requests split: option.split prod.split sum.split)
      (metis snd_conv)+
  from request_key_set [OF this] reg show ?thesis by simp
qed

subsection \<open>The loop\<close>

definition loop_ok :: "verification_env \<Rightarrow> market_env \<Rightarrow> verification_db \<times> market_db \<Rightarrow> bool" where
  "loop_ok venv menv s \<longleftrightarrow> evaluations_ok venv (fst s) \<and> wf_market menv (snd s) \<and>
     rq_key ` set (mk_requests (snd s)) \<subseteq> ev_key ` set (vd_evaluations (fst s))"

lemma loop_step_ok:
  assumes "daily_registry (me_registry menv)" "loop_ok venv menv s" "loop_step venv menv s s'"
  shows "loop_ok venv menv s'"
  using assms(3,2)
proof (cases rule: loop_step.cases)
  case (predicted v k now m)
  then show ?thesis using assms(2) process_prediction_ok [of venv v now m] by (simp add: loop_ok_def) blast
next
  case (requested q v k send now)
  then have "pr_key q \<in> ev_key ` set (vd_evaluations v)" using assms(2) by (auto simp: loop_ok_def evaluations_ok_def)
  moreover have "rq_key ` set (mk_requests k) \<subseteq> ev_key ` set (vd_evaluations v)"
    using requested(1) assms(2) by (simp add: loop_ok_def)
  ultimately have "insert (pr_key q) (rq_key ` set (mk_requests k)) \<subseteq> ev_key ` set (vd_evaluations v)" by simp
  with handle_keys [OF assms(1), of send now q k]
  have "rq_key ` set (mk_requests (snd (handle_price_request menv send now q k))) \<subseteq> ev_key ` set (vd_evaluations v)"
    by (rule subset_trans)
  moreover have "evaluations_ok venv v" "wf_market menv k" using requested(1) assms(2) by (simp_all add: loop_ok_def)
  ultimately show ?thesis
    unfolding requested(2) loop_ok_def fst_conv snd_conv using handle_price_request_wf [OF assms(1)] by blast
next
  case (ticked v k send now)
  then show ?thesis using assms(2) tick_keys [OF assms(1)] scheduler_tick_wf [OF assms(1)] by (simp add: loop_ok_def)
next
  case collected
  then show ?thesis using assms(2) collected_wf by (simp add: loop_ok_def)
next
  case (observed row k v now)
  then show ?thesis using assms(2) process_price_ok [of venv v now "ob_payload row"] by (simp add: loop_ok_def)
next
  case request_relay
  then show ?thesis using assms(2) request_relay_ok by (simp add: loop_ok_def)
next
  case price_relay
  then show ?thesis using assms(2) market_publish_wf by (simp add: loop_ok_def publish_requests)
qed

lemma daily_validates:
  "resolve reg a = Inr series \<Longrightarrow> daily_registry reg \<Longrightarrow> er_registry_version e = rs_registry_version series \<Longrightarrow>
    daily_close reg session c \<Longrightarrow> validate_close series e c = Inr ()"
  using resolve_daily [of reg a series] by (simp add: validate_close_def daily_close_def)

lemma sampled_validates:
  "er_registry_version e = rs_registry_version series \<Longrightarrow> sampled_close series session c \<Longrightarrow> validate_close series e c = Inr ()"
  by (auto simp: validate_close_def sampled_close_def)

lemma answer_validates:
  assumes "daily_registry (ve_registry venv)" "me_registry menv = ve_registry venv" "answers menv r m"
    "rq_key r = ev_key e" "resolved (ve_registry venv) e"
  shows "validate_observation venv m e = Inr () \<and> 0 < co_close (po_baseline m)"
proof -
  let ?reg = "ve_registry venv"
  obtain series where series: "resolve ?reg (er_asset_id e) = Inr series" "er_registry_version e = rs_registry_version series"
    using assms(5) by (auto simp: resolved_def)
  have m: "po_asset_id m = er_asset_id e"
    and pair: "pair_ok ?reg (er_asset_id e) (er_baseline_session e) (er_settlement_session e) (po_baseline m) (po_settlement m)"
    using assms(2-4) by (auto simp: answers_def rq_key_def ev_key_def)
  from pair consider
      (daily) "daily_close ?reg (er_baseline_session e) (po_baseline m)" "daily_close ?reg (er_settlement_session e) (po_settlement m)"
    | (sampled) "sampled_close series (er_baseline_session e) (po_baseline m)"
        "sampled_close series (er_settlement_session e) (po_settlement m)"
    unfolding pair_ok_def using series(1) by auto
  then show ?thesis
  proof cases
    case daily
    then show ?thesis
      using m series daily_validates [OF series(1) assms(1) series(2)]
      by (simp add: validate_observation_def bind_result_def daily_close_def)
  next
    case sampled
    then show ?thesis
      using m series sampled_validates [OF series(2)]
      by (simp add: validate_observation_def bind_result_def sampled_close_def)
  qed
qed

text \<open>
  C3: Verification accepts every price Market Data sends it.  Let the two services share a registry of
  unadjusted daily series, and let the broker deliver their messages in any order and any number of
  times, with predictions, superseding ones, scheduler ticks, collected samples and provider failures in
  between: handling any \<^verbatim>\<open>PriceObserved\<close> from Market Data's outbox then returns normally.  It is never an
  orphan, never of the wrong asset, session, registry version, price kind, currency or adjustment,
  and never impossible to score.
\<close>

theorem prices_are_accepted:
  assumes "daily_registry (ve_registry venv)" "me_registry menv = ve_registry venv"
    "(loop_step venv menv)\<^sup>*\<^sup>* (empty_vdb, empty_market) (v, k)" "row \<in> set (mk_outbox k)"
  shows "fst (process_price venv now (ob_payload row) v) = Inr ()"
proof -
  have daily: "daily_registry (me_registry menv)" using assms(1,2) by simp
  have "loop_ok venv menv (empty_vdb, empty_market)"
    by (simp add: loop_ok_def evaluations_ok_def empty_vdb_wf empty_market_wf) (simp add: empty_vdb_def empty_market_def)
  with assms(3) have ok: "loop_ok venv menv (v, k)"
    by (induction rule: rtranclp_induct) (auto intro: loop_step_ok [OF daily])
  let ?m = "ob_payload row"
  obtain r where r: "r \<in> set (mk_requests k)" "answers menv r ?m"
    using ok assms(4) by (auto simp: loop_ok_def wf_market_def reply_of_def)
  obtain e where e: "e \<in> set (vd_evaluations v)" "rq_key r = ev_key e" "resolved (ve_registry venv) e"
    using ok r(1) by (auto simp: loop_ok_def evaluations_ok_def image_subset_iff)
  have rid: "po_request_id ?m = er_request_id e" using r(2) e(2) by (simp add: answers_def rq_key_def ev_key_def)
  have "fetch_first (\<lambda>x. er_request_id x = po_request_id ?m) (vd_evaluations v) = Some e"
  proof (cases "fetch_first (\<lambda>x. er_request_id x = po_request_id ?m) (vd_evaluations v)")
    case None
    then show ?thesis using e(1) rid by (auto simp: fetch_first_None_iff)
  next
    case (Some x)
    then have "x \<in> set (vd_evaluations v)" "er_request_id x = er_request_id e"
      using fetch_first_Some [OF Some] rid by auto
    moreover have "distinct (map er_request_id (vd_evaluations v))" using ok by (simp add: loop_ok_def evaluations_ok_def wf_vdb_def)
    ultimately show ?thesis using e(1) Some by (metis distinct_map inj_onD)
  qed
  moreover have "is_known_asset (ve_registry venv) (er_asset_id e)"
    using e(3) by (auto simp: resolved_def is_known_asset_def resolve_def split: option.splits dest!: dict_get_mem) force
  ultimately have load: "load_evaluation_by_request_id (ve_registry venv) (po_request_id ?m) v = Inr (Some e)"
    by (simp add: load_evaluation_by_request_id_def)
  have valid: "validate_observation venv ?m e = Inr ()" and pos: "0 < co_close (po_baseline ?m)"
    using answer_validates [OF assms(1,2) r(2) e(2,3)] by auto
  then obtain oc where "score (co_close (po_baseline ?m)) (co_close (po_settlement ?m)) (er_predicted_direction e) (ve_deadband venv)
      (ve_magnitude_medium_min venv) (ve_magnitude_large_min venv) = Inr oc"
    by (simp add: score_def Let_def)
  with load valid show ?thesis by (simp add: process_price_def Let_def)
qed

subsection \<open>A run of the loop\<close>

definition loop_registry :: Registry where
  "loop_registry = sample_registry\<lparr>rg_rollover_policy := ROLLOVER_INCLUDE_ALL\<rparr>"

definition yahoo_reply :: json where
  \<comment> \<open>two daily bars, of 2024-04-23 and 2024-04-24\<close>
  "yahoo_reply = JObj [(''chart'', JObj [(''error'', JNull), (''result'', JList [JObj
     [(''meta'', JObj []), (''timestamp'', JList [JNum 1713830400, JNum 1713916800]),
      (''indicators'', JObj [(''quote'', JList [JObj [(''close'', JList [JNum 100, JNum 101])]])])]])])]"

definition loop_providers :: provider_env where
  "loop_providers = sample_providers\<lparr>pv_registry := loop_registry, pv_yahoo := \<lambda>_ _ _. Body yahoo_reply\<rparr>"

definition loop_market :: market_env where
  "loop_market = sample_market\<lparr>me_avanza := (me_avanza sample_market)\<lparr>av_providers := loop_providers\<rparr>\<rparr>"

definition loop_venv :: verification_env where
  "loop_venv = sample_venv\<lparr>ve_registry := loop_registry\<rparr>"

definition loop_series :: AssetReferenceSeries where
  "loop_series = to_series (sample_entry ''GOLD'' ''METALS'') ''1'' ROLLOVER_INCLUDE_ALL"

lemma loop_series_sel [simp]:
  "resolve loop_registry ''GOLD'' = Inr loop_series" "rs_provider loop_series = ''yahoo''"
  "rs_rollover_policy loop_series = ROLLOVER_INCLUDE_ALL" "rs_timezone loop_series = ''America/New_York''"
  "rs_session_completion_hour loop_series = 17" "rs_session_completion_minute loop_series = 0"
  "rs_asset_id loop_series = ''GOLD''" "rs_registry_version loop_series = ''1''" "rs_provider_symbol loop_series = ''GOLD''"
  "rs_is_adjusted loop_series = False"
  by (simp_all add: resolve_def loop_registry_def sample_registry_def loop_series_def to_series_def sample_entry_def
      session_hour_def session_minute_def)

lemma loop_sessions: "resolve_baseline_settlement (ve_tz loop_venv) (days 739000) ''America/New_York'' 17 0 = Inr (738999, 739000)"
proof -
  have "back_to_session 739000 = 739000" "previous_session 739000 = 738999" "next_session 738999 = 739000"
    by (simp_all add: back_to_session.simps forward_to_session.simps previous_session_def next_session_def is_trading_day_def weekday_def)
  then show ?thesis
    by (simp add: resolve_baseline_settlement_def local_date_in_def zone_of_def loop_venv_def sample_venv_def bind_result_def
        is_session_complete_def session_completed_at_def Let_def date_of_def local_of_def utc_of_def close_wall_def fixed_zone_def
        duration_defs)
qed

lemma loop_evaluates: "\<exists>e. evaluation_of loop_venv (superseding 3 None) = Inr e \<and> ev_key e = (103, ''GOLD'', 738999, 739000)"
  using loop_sessions by (simp add: evaluation_of_def superseding_def ev_key_def) (simp add: loop_venv_def sample_venv_def)

lemma loop_bar:
  assumes "(x, d) = (1713830400, 738999) \<or> (x, d) = (1713916800, 739000)"
  shows "epoch_to_utc (JNum x) = Inr (days d)"
proof -
  have "fl64 x = x" "rhe 0 = 0" using assms fl64_numeral rhe_of_int [of 0] by (elim disjE; simp)+
  then show ?thesis using assms
    by (elim disjE) (simp_all add: epoch_to_utc_def Let_def finite_float_def UNIX_EPOCH_def duration_defs)
qed

lemma loop_close_value:
  assumes "x = 100 \<or> x = 101"
  shows "valid_close loop_providers (Some (JNum x)) = Some (float_repr x)"
proof -
  have "fl64 x = x" using assms fl64_numeral by (elim disjE) simp_all
  then show ?thesis using assms by (auto simp: valid_close_def Let_def finite_float_def)
qed

lemma loop_complete:
  assumes "d \<le> 739000"
  shows "is_session_complete (pv_tz loop_providers) d ''America/New_York'' (days 739002) 17 0 = Inr True"
  using assms by (simp add: is_session_complete_def session_completed_at_def zone_of_def loop_providers_def sample_providers_def
      bind_result_def utc_of_def close_wall_def fixed_zone_def duration_defs)

lemma loop_parse:
  "yahoo_parse loop_providers loop_series (days 739002) yahoo_reply =
     Inr [provider_close loop_series ''yahoo'' PROVIDER_DAILY_CLOSE (days 739002) 738999 (float_repr 100) (days 738999),
          provider_close loop_series ''yahoo'' PROVIDER_DAILY_CLOSE (days 739002) 739000 (float_repr 101) (days 739000)]"
proof -
  have session: "provider_bar_to_session (pv_tz loop_providers) (days d) ''America/New_York'' = Inr d" for d
    by (simp add: provider_bar_to_session_def zone_of_def loop_providers_def sample_providers_def bind_result_def date_of_def
        local_of_def fixed_zone_def days_def)
  have "yahoo_bars loop_providers loop_series (days 739002) [(JNum 1713830400, JNum 100), (JNum 1713916800, JNum 101)] =
      Inr [provider_close loop_series ''yahoo'' PROVIDER_DAILY_CLOSE (days 739002) 738999 (float_repr 100) (days 738999),
           provider_close loop_series ''yahoo'' PROVIDER_DAILY_CLOSE (days 739002) 739000 (float_repr 101) (days 739000)]"
    using loop_bar [of 1713830400 738999] loop_bar [of 1713916800 739000] loop_close_value [of 100] loop_close_value [of 101]
    by (simp add: session loop_complete bind_result_def)
  then show ?thesis
    by (simp add: yahoo_parse_def yahoo_reply_def require_result_def close_array_def validate_identity_def jat_def dict_get_def
        bind_result_def Let_def)
qed

lemma loop_get_close:
  assumes "(d, x) = (738999, 100) \<or> (d, x) = (739000, 101)"
  shows "get_close loop_providers (days 739002) ''GOLD'' d =
    Inr (provider_close loop_series ''yahoo'' PROVIDER_DAILY_CLOSE (days 739002) d (float_repr x) (days d))"
proof -
  have reg: "pv_registry loop_providers = loop_registry" by (simp add: loop_providers_def)
  have "yahoo_fetch_observations loop_providers (days 739002) ''GOLD'' d = yahoo_parse loop_providers loop_series (days 739002) yahoo_reply"
    by (simp add: yahoo_fetch_observations_def reg http_body_def bind_result_def request_window_def Let_def)
      (simp add: loop_providers_def)
  then show ?thesis
    using assms unfolding loop_parse
    by (elim disjE) (simp_all add: get_close_def adapter_for_def adapter_get_close_def adapter_fetch_def reg bind_result_def provider_close_def)
qed

definition loop_v :: verification_db where
  "loop_v = snd (process_prediction loop_venv 0 (superseding 3 None) empty_vdb)"

definition loop_q :: PriceRequested where
  "loop_q = hd (requests (vd_outbox loop_v))"

definition loop_k :: market_db where
  "loop_k = snd (handle_price_request loop_market (\<lambda>_. None) (days 739002) loop_q empty_market)"

lemma loop_request: "requests (vd_outbox loop_v) = [loop_q]" "pr_key loop_q = (103, ''GOLD'', 738999, 739000)"
proof -
  obtain e where e: "evaluation_of loop_venv (superseding 3 None) = Inr e" "ev_key e = (103, ''GOLD'', 738999, 739000)"
    using loop_evaluates by blast
  then have v: "requests (vd_outbox loop_v) = [price_request 0 0 (superseding 3 None) e]"
    by (simp add: loop_v_def process_prediction_def create_evaluation_with_outbox_def empty_vdb_def Let_def withdraw_superseded_def)
  show "requests (vd_outbox loop_v) = [loop_q]" by (simp add: loop_q_def v)
  show "pr_key loop_q = (103, ''GOLD'', 738999, 739000)"
    using e(2) evaluation_of_asset [OF e(1)] by (simp add: loop_q_def v pr_key_def ev_key_def price_request_def)
qed

lemma loop_answered: "mk_outbox loop_k \<noteq> []"
proof -
  define db1 where "db1 = snd (register_request (days 739002) loop_q empty_market)"
  define r where "r = hd (mk_requests db1)"
  have q: "pr_request_id loop_q = 103" "pr_asset_id loop_q = ''GOLD''" "pr_baseline_session loop_q = 738999"
    "pr_settlement_session loop_q = 739000" using loop_request(2) by (auto simp: pr_key_def)
  have db1: "mk_requests db1 = [r]" "mk_outbox db1 = []" and r: "rq_request_id r = 103" "rq_asset_id r = ''GOLD''"
    "rq_baseline_session r = 738999" "rq_settlement_session r = 739000" "rq_state r = RQ_PENDING"
    "rq_next_attempt_at r = Some (days 739002)"
    by (simp_all add: db1_def r_def register_request_def empty_market_def q)
  have env: "me_providers loop_market = loop_providers" "pv_registry loop_providers = loop_registry" "\<not> me_avanza_first loop_market"
    by (simp_all add: loop_market_def loop_providers_def sample_market_def)
  have due: "load_open_requests loop_registry (days 739002) db1 = [r]"
    by (simp add: load_open_requests_def db1 r open_state_def is_known_asset_def loop_registry_def sample_registry_def)
  note b = loop_get_close [of 738999 100, simplified] and s = loop_get_close [of 739000 101, simplified]
  have fin: "md_session_complete (pv_tz loop_providers) loop_series 739000 (days 739002) = Inr True"
    by (simp add: md_session_complete_def loop_complete)
  define db2 where "db2 = mark_baseline_observed (days 739002) 103 ''GOLD''
    (provider_close loop_series ''yahoo'' PROVIDER_DAILY_CLOSE (days 739002) 738999 (float_repr 100) (days 738999)) db1"
  have db2: "mk_outbox db2 = []" by (simp add: db2_def mark_baseline_observed_def Let_def db1)
  have ob: "observe_baseline loop_market (days 739002) r db1 =
      (Inr (provider_close loop_series ''yahoo'' PROVIDER_DAILY_CLOSE (days 739002) 738999 (float_repr 100) (days 738999)), db2)"
    by (simp add: observe_baseline_def env r b prog_simps db2_def)
  obtain oc db3 where p: "process_request loop_market (days 739002) r db1 = (Inr oc, db3)" "mk_outbox db3 \<noteq> []"
    by (simp add: process_request_def process_finance_def env r ob fin s prog_simps complete_with_def build_price_observed_def
        consistent_sampled_pair_def provider_close_def complete_request_def db2 Let_def)
  have "mk_outbox loop_k \<noteq> []"
    using p by (simp add: loop_k_def handle_price_request_def env db1_def [symmetric] due q r Let_def publish_empty)
  then show ?thesis .
qed

theorem prices_are_accepted_witness:
  "mk_outbox loop_k \<noteq> [] \<and> fst (process_price loop_venv 0 (ob_payload (hd (mk_outbox loop_k))) loop_v) = Inr ()"
proof -
  have reg: "daily_registry (ve_registry loop_venv)" "me_registry loop_market = ve_registry loop_venv"
    by (simp_all add: loop_venv_def loop_market_def loop_providers_def daily_registry_def loop_registry_def sample_registry_def
        sample_entry_def)
  have "loop_step loop_venv loop_market (empty_vdb, empty_market) (loop_v, empty_market)"
    unfolding loop_v_def by (rule predicted)
  moreover have "loop_step loop_venv loop_market (loop_v, empty_market) (loop_v, loop_k)"
    unfolding loop_k_def by (rule requested) (simp add: loop_request)
  ultimately have "(loop_step loop_venv loop_market)\<^sup>*\<^sup>* (empty_vdb, empty_market) (loop_v, loop_k)" by simp
  from prices_are_accepted [OF reg this list.set_sel(1) [OF loop_answered]] loop_answered show ?thesis by blast
qed

end
