(* ===== verification/Text.thy ===== *)
theory Text
  imports Registry "HOL-Library.Sublist"
begin

text \<open>
  The news text gate (\<^verbatim>\<open>shared/shared/text.py\<close>): \<open>clean_text\<close> repairs a value, \<open>sentences\<close> splits it,
  \<open>assess_text\<close> keeps the sentences that pass every quality test.

  The record \<open>text_tools\<close> holds what the module takes from elsewhere: \<^verbatim>\<open>ftfy\<close> (\<open>tt_fix_encoding\<close>, \<open>tt_is_bad\<close>),
  the tokeniser of \<^verbatim>\<open>html.parser\<close> as a list of its callbacks (\<open>tt_tokens\<close>), \<^verbatim>\<open>html.unescape\<close>, the Unicode
  tables (\<open>tt_nfc\<close>, \<open>tt_is_control\<close>, \<open>tt_undecodable\<close> for a sentence with a replacement character or a surrogate,
  \<open>tt_is_alpha\<close>, \<open>tt_is_space\<close>, \<open>tt_casefold\<close>), and the five regular expressions of the module that
  look for a word anywhere in a text.  Characters are single code points; the whitespace rules of \<^verbatim>\<open>clean_text\<close>
  are written out.
\<close>

datatype html_callback = StartTag string | EndTag string | Data string

record text_tools =
  tt_fix_encoding :: "string \<Rightarrow> string"
  tt_is_bad :: "string \<Rightarrow> bool"
  tt_is_page :: "string \<Rightarrow> bool"
  tt_has_tag :: "string \<Rightarrow> bool"
  tt_tokens :: "string \<Rightarrow> html_callback list"
  tt_unescape :: "string \<Rightarrow> string"
  tt_nfc :: "string \<Rightarrow> string"
  tt_is_control :: "char \<Rightarrow> bool"
  tt_undecodable :: "string \<Rightarrow> bool"
  tt_residue :: "string \<Rightarrow> bool"
  tt_boilerplate :: "string \<Rightarrow> bool"
  tt_is_alpha :: "char \<Rightarrow> bool"
  tt_is_space :: "char \<Rightarrow> bool"
  tt_casefold :: "string \<Rightarrow> string"
  tt_split :: "string \<Rightarrow> string list"

abbreviation newline :: char where
  "newline \<equiv> CHR 0x0A"

abbreviation carriage :: char where
  "carriage \<equiv> CHR 0x0D"

abbreviation tab :: char where
  "tab \<equiv> CHR 0x09"

subsection \<open>The HTML fragment parser\<close>

record fragment_parser =
  fp_parts :: "string list"
  fp_hidden :: "string list" \<comment> \<open>the stack, its top at the end\<close>

definition handle_starttag :: "string \<Rightarrow> fragment_parser \<Rightarrow> fragment_parser" where
  "handle_starttag tag p =
     (let p = (if tag \<in> {''script'', ''style'', ''iframe'', ''head'', ''noscript''}
               then p\<lparr>fp_hidden := fp_hidden p @ [tag]\<rparr> else p)
      in if tag \<in> {''p'', ''div'', ''br'', ''li'', ''tr''} then p\<lparr>fp_parts := fp_parts p @ [[newline]]\<rparr> else p)"

definition handle_endtag :: "string \<Rightarrow> fragment_parser \<Rightarrow> fragment_parser" where
  "handle_endtag tag p =
     (let p = (if fp_hidden p \<noteq> [] \<and> tag = last (fp_hidden p) then p\<lparr>fp_hidden := butlast (fp_hidden p)\<rparr> else p)
      in if tag \<in> {''p'', ''div'', ''li'', ''tr''} then p\<lparr>fp_parts := fp_parts p @ [[newline]]\<rparr> else p)"

definition handle_data :: "string \<Rightarrow> fragment_parser \<Rightarrow> fragment_parser" where
  "handle_data d p = (if fp_hidden p = [] then p\<lparr>fp_parts := fp_parts p @ [d]\<rparr> else p)"

fun callback :: "fragment_parser \<Rightarrow> html_callback \<Rightarrow> fragment_parser" where
  "callback p (StartTag t) = handle_starttag t p"
| "callback p (EndTag t) = handle_endtag t p"
| "callback p (Data d) = handle_data d p"

definition parse_fragment :: "text_tools \<Rightarrow> string \<Rightarrow> string" where
  "parse_fragment E s = concat (fp_parts (foldl callback \<lparr>fp_parts = [], fp_hidden = []\<rparr> (tt_tokens E s)))"

subsection \<open>Cleaning\<close>

definition decode_round :: "text_tools \<Rightarrow> string \<Rightarrow> string option" where
  \<comment> \<open>one round of the decoding loop; \<open>None\<close> for a full page\<close>
  "decode_round E s =
     (let s = tt_fix_encoding E s
      in if tt_is_page E (take 2048 s) then None
         else Some (tt_unescape E (if tt_has_tag E s then parse_fragment E s else s)))"

fun decode_rounds :: "text_tools \<Rightarrow> nat \<Rightarrow> string \<Rightarrow> string option" where
  \<comment> \<open>the \<^verbatim>\<open>for\<close> loop with its \<^verbatim>\<open>else\<close>: \<open>None\<close> when the empty string is returned at once\<close>
  "decode_rounds E 0 s = None"
| "decode_rounds E (Suc n) s =
     (case decode_round E s of
        None \<Rightarrow> None
      | Some s' \<Rightarrow> if s' = s then Some s' else decode_rounds E n s')"

fun unify_newlines :: "string \<Rightarrow> string" where
  "unify_newlines (c # d # cs) =
     (if c = carriage \<and> d = newline then newline # unify_newlines cs
      else (if c = carriage then newline else c) # unify_newlines (d # cs))"
| "unify_newlines [c] = [if c = carriage then newline else c]"
| "unify_newlines [] = []"

fun squeeze_blanks :: "(char \<Rightarrow> bool) \<Rightarrow> bool \<Rightarrow> string \<Rightarrow> string" where
  \<comment> \<open>every run of whitespace other than newlines becomes one space; the flag says that a run is being read\<close>
  "squeeze_blanks sp inside [] = []"
| "squeeze_blanks sp inside (c # cs) =
     (if sp c \<and> c \<noteq> newline then (if inside then [] else '' '') @ squeeze_blanks sp True cs
      else c # squeeze_blanks sp False cs)"

abbreviation blanks :: "string \<Rightarrow> string" where
  "blanks s \<equiv> dropWhile (\<lambda>c. c = CHR '' '') s"

lemma length_dropWhile_hd:
  "r \<noteq> [] \<Longrightarrow> P (hd r) \<Longrightarrow> length (dropWhile P r) < length r"
  by (cases r) (simp_all add: le_imp_less_Suc length_dropWhile_le)

function squeeze_lines :: "string \<Rightarrow> string" where
  \<comment> \<open>leftmost, greedy replacement of blanks, newlines, blanks by one newline\<close>
  "squeeze_lines s =
     (case s of
        [] \<Rightarrow> []
      | c # cs \<Rightarrow>
          (let r = blanks s
           in if r \<noteq> [] \<and> hd r = newline
              then newline # squeeze_lines (blanks (dropWhile (\<lambda>c. c = newline) r))
              else c # squeeze_lines cs))"
  by pat_completeness auto

termination
proof (relation "measure length")
  fix s c cs r
  assume s: "s = c # cs" and r: "r = blanks s" and nl: "r \<noteq> [] \<and> hd r = newline"
  have "length (blanks (dropWhile (\<lambda>c. c = newline) r)) \<le> length (dropWhile (\<lambda>c. c = newline) r)"
    by (rule length_dropWhile_le)
  also have "\<dots> < length r" using nl by (intro length_dropWhile_hd) simp_all
  also have "\<dots> \<le> length s" unfolding r by (rule length_dropWhile_le)
  finally show "(blanks (dropWhile (\<lambda>c. c = newline) r), s) \<in> measure length" by simp
qed simp_all

declare squeeze_lines.simps [simp del]

definition strip_by :: "(char \<Rightarrow> bool) \<Rightarrow> string \<Rightarrow> string" where
  "strip_by sp s = rev (dropWhile sp (rev (dropWhile sp s)))"

definition tidy :: "text_tools \<Rightarrow> string \<Rightarrow> string" where
  "tidy E s =
     (let s = map (\<lambda>c. if tt_is_control E c \<and> c \<notin> {newline, carriage, tab} then CHR '' '' else c) (tt_nfc E s)
      in strip_by (tt_is_space E) (squeeze_lines (squeeze_blanks (tt_is_space E) False (unify_newlines s))))"

definition clean_text :: "text_tools \<Rightarrow> string \<Rightarrow> string" where
  \<comment> \<open>\<^verbatim>\<open>lstrip\<close> of the byte order mark is part of \<open>tt_nfc\<close>: the mark is not a character of this model\<close>
  "clean_text E value = (case decode_rounds E 8 value of None \<Rightarrow> [] | Some s \<Rightarrow> tidy E s)"

subsection \<open>Sentences and their assessment\<close>

definition sentences :: "text_tools \<Rightarrow> string \<Rightarrow> string list" where
  "sentences E s = filter (\<lambda>x. x \<noteq> []) (map (strip_by (tt_is_space E)) (tt_split E s))"

record TextQuality =
  tq_clean :: string
  tq_usable :: string
  tq_status :: string
  tq_reasons :: "string list"

definition join_lines :: "string list \<Rightarrow> string" where
  "join_lines spans = (case spans of [] \<Rightarrow> [] | s # ss \<Rightarrow> s @ concat (map (\<lambda>x. newline # x) ss))"

definition span_fault :: "text_tools \<Rightarrow> string \<Rightarrow> string option" where
  \<comment> \<open>the first five tests of the chain\<close>
  "span_fault E snt =
     (if tt_undecodable E snt then Some ''unrecoverable_encoding''
      else if tt_is_bad E snt then Some ''suspected_mojibake''
      else if tt_residue E snt then Some ''markup_or_script_residue''
      else if tt_boilerplate E snt then Some ''boilerplate''
      else if \<not> list_ex (tt_is_alpha E) snt then Some ''no_linguistic_content''
      else None)"

record assessment =
  am_accepted :: "string list"
  am_reasons :: "string list"
  am_seen :: "string list"

definition assess_span :: "text_tools \<Rightarrow> assessment \<Rightarrow> string \<Rightarrow> assessment" where
  "assess_span E a snt =
     (case span_fault E snt of
        Some reason \<Rightarrow> a\<lparr>am_reasons := reason # am_reasons a\<rparr>
      | None \<Rightarrow>
          if tt_casefold E snt \<in> set (am_seen a) then a\<lparr>am_reasons := ''repetition'' # am_reasons a\<rparr>
          else a\<lparr>am_accepted := am_accepted a @ [snt], am_seen := tt_casefold E snt # am_seen a\<rparr>)"

definition assess_spans :: "text_tools \<Rightarrow> string list \<Rightarrow> assessment" where
  "assess_spans E spans = foldl (assess_span E) \<lparr>am_accepted = [], am_reasons = [], am_seen = []\<rparr> spans"

definition all_reasons :: "string list" where
  \<comment> \<open>the reasons \<^verbatim>\<open>assess_text\<close> can add, in the order \<^verbatim>\<open>sorted\<close> gives them\<close>
  "all_reasons = [''boilerplate'', ''markup_or_script_residue'', ''no_linguistic_content'', ''repetition'',
     ''suspected_mojibake'', ''unrecoverable_encoding'']"

definition assess_text :: "text_tools \<Rightarrow> bool \<Rightarrow> string \<Rightarrow> TextQuality" where
  "assess_text E title value =
     (let clean = clean_text E value
      in if clean = []
         then \<lparr>tq_clean = clean, tq_usable = [], tq_status = ''rejected'', tq_reasons = [''empty_or_html_page'']\<rparr>
         else
           let a = assess_spans E (if title then [clean] else sentences E clean);
               usable = join_lines (am_accepted a)
           in \<lparr>tq_clean = clean, tq_usable = usable,
               tq_status = (if usable = [] then ''rejected'' else if am_reasons a \<noteq> [] then ''partial'' else ''usable''),
               tq_reasons = filter (\<lambda>r. r \<in> set (am_reasons a)) all_reasons\<rparr>)"


subsection \<open>What the gate keeps\<close>

lemma decode_rounds_fixpoint:
  "decode_rounds E n s = Some s' \<Longrightarrow> decode_round E s' = Some s'"
  by (induction n arbitrary: s) (auto split: option.splits if_splits)

lemma decoding_idempotent: "decode_rounds E n s = Some s' \<Longrightarrow> decode_rounds E 8 s' = Some s'"
  by (simp add: decode_rounds_fixpoint eval_nat_numeral)

definition kept_of :: "text_tools \<Rightarrow> string list \<Rightarrow> string list \<Rightarrow> bool" where
  \<comment> \<open>\<open>kept\<close> is what remains of \<open>spans\<close>: in order, faultless, no two equal up to case, none left out needlessly\<close>
  "kept_of E spans kept \<longleftrightarrow>
     subseq kept spans \<and> list_all (\<lambda>k. span_fault E k = None) kept \<and> distinct (map (tt_casefold E) kept) \<and>
     list_all (\<lambda>x. span_fault E x = None \<longrightarrow> tt_casefold E x \<in> set (map (tt_casefold E) kept)) spans"

definition assess_inv :: "text_tools \<Rightarrow> string list \<Rightarrow> assessment \<Rightarrow> bool" where
  "assess_inv E spans a \<longleftrightarrow>
     kept_of E spans (am_accepted a) \<and> set (am_seen a) = set (map (tt_casefold E) (am_accepted a)) \<and>
     length (am_accepted a) + length (am_reasons a) = length spans"

lemma assess_span_inv:
  assumes "assess_inv E spans a"
  shows "assess_inv E (spans @ [x]) (assess_span E a x)"
proof (cases "span_fault E x")
  case (Some reason)
  then show ?thesis using assms
    by (auto simp: assess_inv_def kept_of_def assess_span_def intro: list_emb_prefix)
next
  case None
  show ?thesis
  proof (cases "tt_casefold E x \<in> set (am_seen a)")
    case True
    then show ?thesis using assms None
      by (auto simp: assess_inv_def kept_of_def assess_span_def intro: list_emb_prefix)
  next
    case False
    then show ?thesis using assms None
      by (auto simp: assess_inv_def kept_of_def assess_span_def list_all_iff)
  qed
qed

lemma assess_spans_inv: "assess_inv E spans (assess_spans E spans)"
proof (induction spans rule: rev_induct)
  case Nil
  show ?case by (simp add: assess_spans_def assess_inv_def kept_of_def)
next
  case (snoc x spans)
  then show ?case using assess_span_inv by (simp add: assess_spans_def)
qed

definition gate_spans :: "text_tools \<Rightarrow> bool \<Rightarrow> string \<Rightarrow> string list" where
  "gate_spans E title value =
     (let clean = clean_text E value in if clean = [] then [] else if title then [clean] else sentences E clean)"

lemma span_fault_nonempty: "span_fault E x = None \<Longrightarrow> x \<noteq> []"
  by (auto simp: span_fault_def split: if_splits)

lemma join_lines_empty:
  "kept_of E spans kept \<Longrightarrow> join_lines kept = [] \<longleftrightarrow> kept = []"
  by (cases kept) (auto simp: join_lines_def kept_of_def dest: span_fault_nonempty)

lemma assess_text_accepted:
  fixes E title v
  defines "a \<equiv> assess_spans E (gate_spans E title v)"
  shows "tq_usable (assess_text E title v) = join_lines (am_accepted a)"
    and "tq_status (assess_text E title v) =
      (if am_accepted a = [] then ''rejected'' else if am_reasons a \<noteq> [] then ''partial'' else ''usable'')"
proof -
  have kept: "kept_of E (gate_spans E title v) (am_accepted a)"
    using assess_spans_inv unfolding a_def assess_inv_def by blast
  have empty: "am_accepted a = []" if "clean_text E v = []"
    using that by (simp add: a_def gate_spans_def assess_spans_def)
  have quality: "assess_text E title v =
      \<lparr>tq_clean = clean_text E v, tq_usable = join_lines (am_accepted a),
       tq_status = (if join_lines (am_accepted a) = [] then ''rejected''
                    else if am_reasons a \<noteq> [] then ''partial'' else ''usable''),
       tq_reasons = filter (\<lambda>r. r \<in> set (am_reasons a)) all_reasons\<rparr>" if "clean_text E v \<noteq> []"
    using that by (simp add: assess_text_def a_def gate_spans_def Let_def)
  show "tq_usable (assess_text E title v) = join_lines (am_accepted a)"
    using empty quality by (cases "clean_text E v = []") (simp_all add: assess_text_def join_lines_def)
  show "tq_status (assess_text E title v) =
      (if am_accepted a = [] then ''rejected'' else if am_reasons a \<noteq> [] then ''partial'' else ''usable'')"
    using empty quality join_lines_empty [OF kept]
    by (cases "clean_text E v = []") (simp_all add: assess_text_def)
qed

text \<open>
  The text gate keeps, in order, exactly the sentences that pass every quality test, each once up to
  case: the usable text is their join, nothing faultless is lost, the status is \<open>rejected\<close> exactly when
  nothing is kept and \<open>usable\<close> exactly when everything is.
\<close>

theorem assess_text_keeps:
  "\<exists>kept. tq_usable (assess_text E title v) = join_lines kept \<and> kept_of E (gate_spans E title v) kept \<and>
     (tq_status (assess_text E title v) = ''rejected'' \<longleftrightarrow> kept = []) \<and>
     (tq_status (assess_text E title v) = ''usable'' \<longleftrightarrow> kept \<noteq> [] \<and> kept = gate_spans E title v)"
proof -
  let ?a = "assess_spans E (gate_spans E title v)"
  have inv: "assess_inv E (gate_spans E title v) ?a" by (rule assess_spans_inv)
  then have sub: "subseq (am_accepted ?a) (gate_spans E title v)"
    and len: "length (am_accepted ?a) + length (am_reasons ?a) = length (gate_spans E title v)"
    by (simp_all add: assess_inv_def kept_of_def)
  have all: "am_reasons ?a = [] \<longleftrightarrow> am_accepted ?a = gate_spans E title v"
    using len subseq_same_length [OF sub] by (metis add_cancel_right_right length_0_conv)
  show ?thesis
    by (rule exI [of _ "am_accepted ?a"])
      (use inv all in \<open>simp add: assess_text_accepted assess_inv_def\<close>)
qed

text \<open>The tools on plain ASCII text without HTML, for concrete evaluation.\<close>

definition plain_tools :: text_tools where
  \<comment> \<open>plain ASCII text without HTML: one sentence per line\<close>
  "plain_tools =
     \<lparr>tt_fix_encoding = (\<lambda>s. s), tt_is_bad = (\<lambda>_. False), tt_is_page = (\<lambda>_. False), tt_has_tag = (\<lambda>_. False),
      tt_tokens = (\<lambda>s. [Data s]), tt_unescape = (\<lambda>s. s), tt_nfc = (\<lambda>s. s), tt_is_control = (\<lambda>_. False),
      tt_undecodable = (\<lambda>_. False), tt_residue = (\<lambda>_. False), tt_boilerplate = (\<lambda>_. False),
      tt_is_alpha = (\<lambda>c. is_lower c \<or> is_upper c), tt_is_space = is_space, tt_casefold = lower,
      tt_split = split_char newline\<rparr>"

end
