(* ===== verification/Taxonomy.thy ===== *)
theory Taxonomy
  imports Text
begin

text \<open>
  The deterministic classifier of the Cleansing service (\<^verbatim>\<open>services/cleansing/cleansing\<close>: \<^verbatim>\<open>taxonomy.py\<close>,
  \<^verbatim>\<open>sections.py\<close>, \<^verbatim>\<open>evidence.py\<close>).

  The vocabularies (action keywords, generic and non-financial keywords, cue lists, section tables) are fields
  of the record \<open>taxonomy\<close>: what is shown holds for every vocabulary.  The tables that select assets are
  written out.  Each regular expression the modules search for is a field \<open>rx_\<close> (\<open>rx_cancels keyword low\<close> for
  the one built from a keyword), as are Unicode lower-casing, the word characters of \<^verbatim>\<open>re\<close> and \<^verbatim>\<open>urlsplit\<close>.
  \<^verbatim>\<open>AssetId(member)\<close> on a member of a loaded registry group is the member: the loader admits registered
  members only.
\<close>

subsection \<open>Substrings\<close>

fun find_at :: "string \<Rightarrow> string \<Rightarrow> nat option" where
  \<comment> \<open>\<^verbatim>\<open>str.find\<close>\<close>
  "find_at needle [] = (if needle = [] then Some 0 else None)"
| "find_at needle (c # cs) =
     (if take (length needle) (c # cs) = needle then Some 0 else map_option Suc (find_at needle cs))"

definition contains :: "string \<Rightarrow> string \<Rightarrow> bool" where
  "contains needle txt = (find_at needle txt \<noteq> None)"

lemma find_at_bound: "find_at needle hay = Some i \<Longrightarrow> i + length needle \<le> length hay"
proof (induction hay arbitrary: i)
  case (Cons c cs)
  show ?case
  proof (cases "take (length needle) (c # cs) = needle")
    case True
    then have "length needle \<le> length (c # cs)" by (metis length_take min.cobounded2 nat_le_linear take_all)
    then show ?thesis using True Cons.prems by simp
  next
    case False
    then show ?thesis using Cons.prems Cons.IH by auto
  qed
qed (simp split: if_splits)

subsection \<open>Vocabularies\<close>

record taxonomy =
  tx_registry :: Registry
  tx_action :: "(string \<times> EventType) list"
  tx_generic :: "string list"
  tx_non_financial :: "(string \<times> EventType) list"
  tx_section_override :: "string list"
  tx_universal_sections :: "(string \<times> EventType) list"
  tx_publisher_sections :: "((string \<times> string) \<times> EventType) list"
  tx_fallback_cues :: "(string \<times> string list) list"
  tx_compound_cues :: "string list"
  tx_corroboration :: "string list"
  tx_resolution_cues :: "string list"
  tx_resolution_negation :: "string list"
  tx_approval_cues :: "string list"
  tx_enforcement_cues :: "string list"
  tx_transport_cues :: "string list"
  tx_lower :: "string \<Rightarrow> string"
  tx_word_or_space :: "char \<Rightarrow> bool"
  tx_stopwords :: "string list"
  tx_urlsplit :: "string \<Rightarrow> (string \<times> string) option"
  tx_tools :: text_tools
  rx_money_or_percent :: "string \<Rightarrow> bool"
  rx_should_resign :: "string \<Rightarrow> bool"
  rx_reader_service :: "string \<Rightarrow> bool"
  rx_joked :: "string \<Rightarrow> bool"
  rx_military :: "string \<Rightarrow> bool"
  rx_denies_event :: "string \<Rightarrow> bool"
  rx_hedged :: "string \<Rightarrow> bool"
  rx_ceasefire :: "string \<Rightarrow> bool"
  rx_reopens :: "string \<Rightarrow> bool"
  rx_lifts_sanctions :: "string \<Rightarrow> bool"
  rx_cancels :: "string \<Rightarrow> string \<Rightarrow> bool"
  rx_terms :: "string \<Rightarrow> string list"

definition NON_FINANCIAL_EVENT_TYPES :: "EventType set" where
  "NON_FINANCIAL_EVENT_TYPES = {SPORT, ENTERTAINMENT, LIFESTYLE}"

definition NON_CLUSTERING_EVENT_TYPES :: "EventType set" where
  "NON_CLUSTERING_EVENT_TYPES = NON_FINANCIAL_EVENT_TYPES \<union> {OTHER}"

definition GEOPOLITICAL_EVENT_TYPES :: "EventType set" where
  "GEOPOLITICAL_EVENT_TYPES = {MILITARY_CONFLICT, SANCTIONS, POLITICAL_TRANSITION}"

fun EVENT_TYPE_ASSETS :: "EventType \<Rightarrow> AssetId list" where
  "EVENT_TYPE_ASSETS MILITARY_CONFLICT = [''NEM_NYSE'', ''XOM_NYSE'']"
| "EVENT_TYPE_ASSETS STRAIT_CLOSURE = [''NEM_NYSE'', ''XOM_NYSE'']"
| "EVENT_TYPE_ASSETS SUPPLY_DISRUPTION = [''XOM_NYSE'']"
| "EVENT_TYPE_ASSETS SANCTIONS = [''NEM_NYSE'', ''XOM_NYSE'']"
| "EVENT_TYPE_ASSETS RATE_DECISION = [''NEM_NYSE'', ''XOM_NYSE'']"
| "EVENT_TYPE_ASSETS INFLATION_CHANGE = [''NEM_NYSE'']"
| "EVENT_TYPE_ASSETS RECESSION_SIGNAL = [''NEM_NYSE'', ''XOM_NYSE'']"
| "EVENT_TYPE_ASSETS NATURAL_DISASTER = [''NEM_NYSE'', ''XOM_NYSE'']"
| "EVENT_TYPE_ASSETS POLITICAL_TRANSITION = [''NEM_NYSE'']"
| "EVENT_TYPE_ASSETS _ = []"

fun EVENT_TYPE_GROUPS :: "EventType \<Rightarrow> string list" where
  "EVENT_TYPE_GROUPS MILITARY_CONFLICT = [''WEAPON_INDUSTRY'']"
| "EVENT_TYPE_GROUPS SANCTIONS = [''WEAPON_INDUSTRY'']"
| "EVENT_TYPE_GROUPS STRAIT_CLOSURE = [''OIL_GAS'']"
| "EVENT_TYPE_GROUPS SUPPLY_DISRUPTION = [''OIL_GAS'']"
| "EVENT_TYPE_GROUPS COMMODITY_PRICE_SHOCK = [''PRECIOUS_METALS'', ''OIL_GAS'']"
| "EVENT_TYPE_GROUPS _ = []"

definition FALLBACK_TARGET_FAMILY :: "(string \<times> string) list" where
  "FALLBACK_TARGET_FAMILY =
     [(''NEM_NYSE'', ''SAFE_HAVEN''), (''PRECIOUS_METALS'', ''SAFE_HAVEN''), (''XOM_NYSE'', ''ENERGY''),
      (''OIL_GAS'', ''ENERGY''), (''WEAPON_INDUSTRY'', ''DEFENCE'')]"

definition fallback_targets :: "EventType \<Rightarrow> string list" where
  "fallback_targets k = EVENT_TYPE_ASSETS k @ EVENT_TYPE_GROUPS k"

definition validate_fallback_targets :: bool where
  \<comment> \<open>\<^verbatim>\<open>_validate_fallback_targets\<close>, run when the module is imported\<close>
  "validate_fallback_targets =
     list_all (\<lambda>k. list_all (\<lambda>t. t \<in> set (map fst FALLBACK_TARGET_FAMILY)) (fallback_targets k)) EventType_all"

definition family_of :: "string \<Rightarrow> string option" where
  "family_of target = dict_get FALLBACK_TARGET_FAMILY target"

subsection \<open>Matching\<close>

definition normalise :: "taxonomy \<Rightarrow> string \<Rightarrow> string" where
  "normalise T txt = map (\<lambda>c. if tx_word_or_space T c then c else CHR '' '') txt"

definition haystack_of :: "taxonomy \<Rightarrow> string \<Rightarrow> string" where
  "haystack_of T txt = '' '' @ normalise T (tx_lower T txt) @ '' ''"

definition keyword_present :: "taxonomy \<Rightarrow> string \<Rightarrow> string \<Rightarrow> bool" where
  "keyword_present T haystack keyword =
     (let keyword = normalise T keyword
      in if CHR '' '' \<in> set keyword then contains keyword haystack
         else list_ex (\<lambda>suffix. contains ('' '' @ keyword @ suffix @ '' '') haystack)
                [[], ''s'', ''es'', ''er'', ''ar'', ''et'', ''en'', ''ing''])"

definition cue_present :: "string \<Rightarrow> string \<Rightarrow> bool" where
  "cue_present haystack cue = contains (if CHR '' '' \<in> set cue then cue else '' '' @ cue @ '' '') haystack"

definition scan_pos :: "taxonomy \<Rightarrow> string \<Rightarrow> string \<Rightarrow> nat option" where
  "scan_pos T haystack keyword =
     (if CHR '' '' \<in> set keyword then map_option Suc (find_at ('' '' @ keyword) haystack)
      else if keyword_present T haystack keyword
      then Some (case find_at ('' '' @ keyword) haystack of None \<Rightarrow> 0 | Some i \<Rightarrow> Suc i)
      else None)"

record scan_best =
  sb_pos :: nat
  sb_len :: nat
  sb_type :: EventType
  sb_keyword :: "string option"

definition scan_step :: "taxonomy \<Rightarrow> string \<Rightarrow> scan_best \<Rightarrow> string \<times> EventType \<Rightarrow> scan_best" where
  "scan_step T haystack best entry =
     (case scan_pos T haystack (fst entry) of
        None \<Rightarrow> best
      | Some pos \<Rightarrow>
          if pos < sb_pos best \<or> (pos = sb_pos best \<and> length (fst entry) > sb_len best)
          then \<lparr>sb_pos = pos, sb_len = length (fst entry), sb_type = snd entry, sb_keyword = Some (fst entry)\<rparr>
          else best)"

definition allowed :: "string list option \<Rightarrow> string list option \<Rightarrow> string \<Rightarrow> bool" where
  "allowed incl excl keyword =
     ((case incl of None \<Rightarrow> True | Some ks \<Rightarrow> keyword \<in> set ks) \<and>
      (case excl of None \<Rightarrow> True | Some ks \<Rightarrow> keyword \<notin> set ks))"

definition scan ::
  "taxonomy \<Rightarrow> string \<Rightarrow> (string \<times> EventType) list \<Rightarrow> string list option \<Rightarrow> string list option \<Rightarrow>
   EventType \<times> string option" where
  "scan T txt table incl excl =
     (let haystack = haystack_of T txt;
          best = foldl (scan_step T haystack)
                   \<lparr>sb_pos = length haystack + 1, sb_len = 0, sb_type = OTHER, sb_keyword = None\<rparr>
                   (filter (\<lambda>e. allowed incl excl (fst e)) table)
      in (sb_type best, sb_keyword best))"

definition map_action :: "taxonomy \<Rightarrow> string option \<Rightarrow> EventType" where
  "map_action T lemma_text =
     (case lemma_text of
        None \<Rightarrow> OTHER
      | Some l \<Rightarrow> if l = [] then OTHER
                  else (case dict_get (tx_action T) (tx_lower T (strip_by (tt_is_space (tx_tools T)) l)) of None \<Rightarrow> OTHER | Some t \<Rightarrow> t))"

subsection \<open>Factuality guards\<close>

definition safety_reason :: "taxonomy \<Rightarrow> string \<Rightarrow> string option" where
  "safety_reason T title =
     (let t = tt_casefold (tx_tools T) title
      in if rx_should_resign T t then Some ''resignation_opinion''
         else if rx_reader_service T t then Some ''reader_service''
         else if rx_joked T t \<and> rx_military T t then Some ''reported_joke''
         else if rx_denies_event T t then Some ''denied_event''
         else None)"

definition relevant_body :: "taxonomy \<Rightarrow> string \<Rightarrow> string \<Rightarrow> string" where
  "relevant_body T title body =
     (let terms = set (rx_terms T (tt_casefold (tx_tools T) title)) - set (tx_stopwords T)
      in join_lines (filter (\<lambda>s. terms \<inter> set (rx_terms T (tt_casefold (tx_tools T) s)) \<noteq> {})
           (sentences (tx_tools T) body)))"

datatype classification_mode = TITLE_FIRST | TITLE_ONLY | TITLE_WITH_RELEVANT_CONTEXT

definition prepare_inputs :: "taxonomy \<Rightarrow> classification_mode \<Rightarrow> string \<Rightarrow> string \<Rightarrow> string \<times> string" where
  "prepare_inputs T mode title body =
     (let title = tq_usable (assess_text (tx_tools T) True title);
          body = (if mode = TITLE_ONLY then [] else tq_usable (assess_text (tx_tools T) False body))
      in (title, if mode = TITLE_WITH_RELEVANT_CONTEXT then relevant_body T title body else body))"

subsection \<open>Companies, industries, cue families\<close>

definition asset_keywords :: "taxonomy \<Rightarrow> (AssetId \<times> string list) list" where
  "asset_keywords T =
     map (\<lambda>e. (ae_asset_id e, ae_keywords e)) (filter (\<lambda>e. ae_keywords e \<noteq> []) (dict_values (rg_assets (tx_registry T))))"

definition industry_keywords :: "taxonomy \<Rightarrow> (string \<times> string list) list" where
  "industry_keywords T =
     map (\<lambda>g. (ag_group_id g, ag_industry_keywords g))
       (filter (\<lambda>g. ag_industry_keywords g \<noteq> []) (dict_values (rg_groups (tx_registry T))))"

definition keyword_hits :: "taxonomy \<Rightarrow> string \<Rightarrow> string list \<Rightarrow> string list" where
  "keyword_hits T haystack keywords = filter (keyword_present T haystack) keywords"

definition company_matches :: "taxonomy \<Rightarrow> string \<Rightarrow> AssetId list \<times> string list" where
  "company_matches T haystack =
     (let found = filter (\<lambda>(a, kws). keyword_hits T haystack kws \<noteq> []) (asset_keywords T)
      in (map fst found, concat (map (\<lambda>(a, kws). keyword_hits T haystack kws) found)))"

definition add_new :: "'a list \<Rightarrow> 'a \<Rightarrow> 'a list" where
  "add_new xs x = (if x \<in> set xs then xs else xs @ [x])"

definition industry_matches :: "taxonomy \<Rightarrow> string \<Rightarrow> AssetId list \<times> string list" where
  "industry_matches T haystack =
     (let found = filter (\<lambda>(g, kws). keyword_hits T haystack kws \<noteq> []) (industry_keywords T)
      in (foldl add_new [] (concat (map (\<lambda>(g, kws). members_of (tx_registry T) g) found)),
          concat (map (\<lambda>(g, kws). keyword_hits T haystack kws) found)))"

definition cue_families_present :: "taxonomy \<Rightarrow> string \<Rightarrow> string list" where
  "cue_families_present T txt =
     (let haystack = haystack_of T txt
      in map fst (filter (\<lambda>(family, cues). list_ex (\<lambda>cue. keyword_present T haystack cue \<or>
           (cue \<in> set (tx_compound_cues T) \<and> contains cue haystack)) cues) (tx_fallback_cues T)))"

definition assets_for_event_type :: "taxonomy \<Rightarrow> EventType \<Rightarrow> AssetId list" where
  "assets_for_event_type T k =
     foldl add_new (EVENT_TYPE_ASSETS k) (concat (map (members_of (tx_registry T)) (EVENT_TYPE_GROUPS k)))"

definition evidenced :: "string list \<Rightarrow> string \<Rightarrow> bool" where
  "evidenced families target = (case family_of target of None \<Rightarrow> False | Some f \<Rightarrow> f \<in> set families)"

definition gated_assets_for_event_type :: "taxonomy \<Rightarrow> EventType \<Rightarrow> string \<Rightarrow> AssetId list \<times> string list" where
  "gated_assets_for_event_type T k txt =
     (let families = cue_families_present T txt
      in if safety_reason T txt \<noteq> None \<or> families = [] then ([], [])
         else
           let assets = filter (evidenced families) (EVENT_TYPE_ASSETS k);
               groups = filter (evidenced families) (EVENT_TYPE_GROUPS k)
           \<comment> \<open>the families of \<open>FALLBACK_TARGET_FAMILY\<close> in the order \<^verbatim>\<open>sorted\<close> gives them\<close>
           in (foldl add_new assets (concat (map (members_of (tx_registry T)) groups)),
               filter (\<lambda>f. f \<in> set (List.map_filter family_of (assets @ groups))) [''DEFENCE'', ''ENERGY'', ''SAFE_HAVEN'']))"

subsection \<open>Scope\<close>

datatype NewsScope = SC_COMPANY | SC_INDUSTRY | SC_EVENT_TYPE | SC_NONE

record AssetScope =
  as_scope :: NewsScope
  as_assets :: "AssetId list"
  as_matched :: "string list"

definition no_scope :: AssetScope where
  "no_scope = \<lparr>as_scope = SC_NONE, as_assets = [], as_matched = []\<rparr>"

definition infer_assets :: "taxonomy \<Rightarrow> string \<Rightarrow> AssetId list" where
  "infer_assets T txt = fst (company_matches T (haystack_of T txt))"

definition resolve_scope :: "taxonomy \<Rightarrow> string \<Rightarrow> EventType \<Rightarrow> AssetScope" where
  "resolve_scope T txt k =
     (if k \<in> NON_CLUSTERING_EVENT_TYPES \<or> safety_reason T txt \<noteq> None then no_scope
      else
        let haystack = haystack_of T txt;
            (companies, company_kws) = company_matches T haystack;
            (industry, industry_kws) = industry_matches T haystack;
            (fallback, families) = gated_assets_for_event_type T k txt
        in if companies \<noteq> [] then \<lparr>as_scope = SC_COMPANY, as_assets = companies, as_matched = company_kws\<rparr>
           else if industry \<noteq> [] then \<lparr>as_scope = SC_INDUSTRY, as_assets = industry, as_matched = industry_kws\<rparr>
           else if fallback \<noteq> []
           then \<lparr>as_scope = SC_EVENT_TYPE, as_assets = fallback, as_matched = EventType_value k # families\<rparr>
           else no_scope)"

definition gate2_compatible :: "EventType \<Rightarrow> EventType \<Rightarrow> bool" where
  "gate2_compatible left right \<longleftrightarrow> left = right \<and> left \<notin> NON_CLUSTERING_EVENT_TYPES"

subsection \<open>Polarity and conditions\<close>

definition is_favourable_regulatory :: "taxonomy \<Rightarrow> string \<Rightarrow> EventType \<Rightarrow> bool" where
  "is_favourable_regulatory T haystack k \<longleftrightarrow>
     k = REGULATORY_ACTION \<and> \<not> list_ex (cue_present haystack) (tx_enforcement_cues T) \<and>
     list_ex (cue_present haystack) (tx_approval_cues T)"

definition event_relative_polarity :: "taxonomy \<Rightarrow> string \<Rightarrow> EventType \<Rightarrow> EventPolarity" where
  "event_relative_polarity T title k =
     (let low = normalise T (tt_casefold (tx_tools T) title)
      in if safety_reason T title \<noteq> None \<or> rx_hedged T low then OCCURRENCE
         else if k \<in> {MILITARY_CONFLICT, GEOPOLITICAL_TENSION} \<and> rx_ceasefire T low then RESOLUTION
         else if k = STRAIT_CLOSURE \<and> rx_reopens T low then RESOLUTION
         else if k = SANCTIONS \<and> rx_lifts_sanctions T low then RESOLUTION
         else if list_ex (\<lambda>(keyword, kind). kind = k \<and> rx_cancels T keyword low) (tx_action T) then RESOLUTION
         else OCCURRENCE)"

definition classify_polarity :: "taxonomy \<Rightarrow> string \<Rightarrow> EventType option \<Rightarrow> EventPolarity" where
  "classify_polarity T txt kind =
     (let haystack = haystack_of T txt
      in if (case kind of None \<Rightarrow> False | Some k \<Rightarrow> is_favourable_regulatory T haystack k) then RESOLUTION
         else if list_ex (cue_present haystack) (tx_resolution_negation T) then OCCURRENCE
         else case kind of
                Some k \<Rightarrow> event_relative_polarity T txt k
              | None \<Rightarrow> if list_ex (cue_present haystack) (tx_resolution_cues T) then RESOLUTION else OCCURRENCE)"

definition infer_conditions :: "taxonomy \<Rightarrow> string \<Rightarrow> EventType \<Rightarrow> ConditionCode list" where
  "infer_conditions T txt k =
     (if list_ex (cue_present (haystack_of T txt)) (tx_transport_cues T) then [TRANSPORT_AFFECTED]
      else if k \<in> GEOPOLITICAL_EVENT_TYPES then [SAFE_HAVEN_ONLY] else [])"

subsection \<open>Publisher sections\<close>

definition section_event_type :: "taxonomy \<Rightarrow> string \<Rightarrow> EventType option" where
  "section_event_type T url =
     (if url = [] then None
      else case tx_urlsplit T url of
        None \<Rightarrow> None
      | Some (netloc, path) \<Rightarrow>
          let host = hd (split_char (CHR '':'') (tx_lower T netloc));
              segments = filter (\<lambda>s. s \<noteq> []) (split_char (CHR ''/'') path)
          in if host = [] \<or> segments = [] then None
             else
               let section = tx_lower T (hd segments)
               in case dict_get (tx_publisher_sections T) (host, section) of
                    Some k \<Rightarrow> Some k
                  | None \<Rightarrow> dict_get (tx_universal_sections T) section)"

definition mapped_section_types :: "taxonomy \<Rightarrow> EventType set" where
  "mapped_section_types T = set (map snd (tx_universal_sections T)) \<union> set (map snd (tx_publisher_sections T))"

definition validate_section_types :: "taxonomy \<Rightarrow> bool" where
  \<comment> \<open>\<^verbatim>\<open>_validate_section_types_are_non_financial\<close>, run when the module is imported\<close>
  "validate_section_types T \<longleftrightarrow> mapped_section_types T \<subseteq> NON_FINANCIAL_EVENT_TYPES"

subsection \<open>Classification\<close>

definition names_company :: "taxonomy \<Rightarrow> string \<Rightarrow> bool" where
  "names_company T haystack = (fst (company_matches T haystack) \<noteq> [])"

definition is_corroborated :: "taxonomy \<Rightarrow> string \<Rightarrow> string \<Rightarrow> bool \<Rightarrow> bool" where
  "is_corroborated T title haystack company \<longleftrightarrow>
     company \<or> fst (industry_matches T haystack) \<noteq> [] \<or> rx_money_or_percent T title \<or>
     list_ex (keyword_present T haystack) (tx_corroboration T) \<or> cue_families_present T title \<noteq> []"

definition vetoed_by_body ::
  "taxonomy \<Rightarrow> EventType \<times> string option \<Rightarrow> string \<Rightarrow> bool \<Rightarrow> string \<Rightarrow> EventType \<times> string option" where
  "vetoed_by_body T hit body company title_haystack =
     (if fst hit \<in> NON_CLUSTERING_EVENT_TYPES \<or> body = [] \<or> company \<or> fst (industry_matches T title_haystack) \<noteq> [] then hit
      else let rejected = scan T body (tx_non_financial T) None None
           in if fst rejected \<noteq> OTHER then rejected else hit)"

definition section_keyword :: "taxonomy \<Rightarrow> EventType \<Rightarrow> string" where
  "section_keyword T k = ''section:'' @ tx_lower T (EventType_value k)"

definition classify_text_tiers :: "taxonomy \<Rightarrow> string \<Rightarrow> string \<Rightarrow> EventType \<times> string option" where
  \<comment> \<open>tiers 2 to 4 of \<^verbatim>\<open>_classify_tiers\<close>\<close>
  "classify_text_tiers T title body =
     (let haystack = haystack_of T title; company = names_company T haystack;
          specific = scan T title (tx_action T) None (Some (tx_generic T));
          generic = scan T title (tx_action T) (Some (tx_generic T)) None
      in if fst specific \<noteq> OTHER then vetoed_by_body T specific body company haystack
         else if is_corroborated T title haystack company \<and> fst generic \<noteq> OTHER
         then vetoed_by_body T generic body company haystack
         else if body \<noteq> []
         then vetoed_by_body T (scan T body (tx_action T) None (Some (tx_generic T))) body company haystack
         else (OTHER, None))"

definition classify_tiers :: "taxonomy \<Rightarrow> string \<Rightarrow> string \<Rightarrow> string \<Rightarrow> EventType \<times> string option" where
  "classify_tiers T title body url =
     (let haystack = haystack_of T title; rejected = scan T title (tx_non_financial T) None None
      in if \<not> names_company T haystack \<and> \<not> list_ex (keyword_present T haystack) (tx_section_override T)
         then (case section_event_type T url of
                 Some k \<Rightarrow> (k, Some (section_keyword T k))
               | None \<Rightarrow> if fst rejected \<noteq> OTHER then rejected else classify_text_tiers T title body)
         else classify_text_tiers T title body)"

record ClassificationDecision =
  cd_event_type :: EventType
  cd_keyword :: "string option"
  cd_source :: string
  cd_reason :: string
  cd_evidence :: string
  cd_allow_llm :: bool

definition starts_with :: "string \<Rightarrow> string \<Rightarrow> bool" where
  "starts_with p txt = (take (length p) txt = p)"

definition classify_decision :: "taxonomy \<Rightarrow> classification_mode \<Rightarrow> string \<Rightarrow> string \<Rightarrow> string \<Rightarrow> ClassificationDecision" where
  "classify_decision T mode title0 body0 url =
     (let (title, body) = prepare_inputs T mode title0 body0
      in if title = []
         then \<lparr>cd_event_type = OTHER, cd_keyword = None, cd_source = ''title'', cd_reason = ''unusable_title'',
               cd_evidence = [], cd_allow_llm = False\<rparr>
         else case safety_reason T title of
           Some reason \<Rightarrow>
             \<lparr>cd_event_type = (if reason = ''reported_joke'' then GEOPOLITICAL_TENSION else OTHER), cd_keyword = None,
              cd_source = ''title'', cd_reason = reason, cd_evidence = title, cd_allow_llm = False\<rparr>
         | None \<Rightarrow>
             let from_title = classify_tiers T title [] url; (kind, keyword) = classify_tiers T title body url;
                 by_section = (case keyword of None \<Rightarrow> False | Some kw \<Rightarrow> starts_with ''section:'' kw);
                 by_body = ((kind, keyword) \<noteq> from_title)
             in \<lparr>cd_event_type = kind, cd_keyword = keyword,
                 cd_source = (if by_section then ''publisher_section''
                              else if by_body then (if kind \<in> NON_FINANCIAL_EVENT_TYPES then ''body_veto'' else ''body'')
                              else ''title''),
                 cd_reason = (if kind = OTHER then ''unmapped'' else ''tiered_rule''),
                 cd_evidence = (if by_section then the keyword
                                else if by_body then
                                  (case List.find (\<lambda>s. case keyword of None \<Rightarrow> False
                                       | Some kw \<Rightarrow> kw \<noteq> [] \<and> keyword_present T (haystack_of T s) kw) (sentences (tx_tools T) body) of
                                     Some s \<Rightarrow> s | None \<Rightarrow> body)
                                else title),
                 cd_allow_llm = (kind = OTHER)\<rparr>)"


subsection \<open>The scan finds the earliest keyword\<close>

lemma scan_pos_bound: "scan_pos T hay kw = Some p \<Longrightarrow> p \<le> length hay"
  using find_at_bound [of "'' '' @ kw" hay]
  by (fastforce simp: scan_pos_def split: if_splits option.splits)

definition scan_start :: "string \<Rightarrow> scan_best" where
  "scan_start hay = \<lparr>sb_pos = length hay + 1, sb_len = 0, sb_type = OTHER, sb_keyword = None\<rparr>"

definition occurs_at :: "taxonomy \<Rightarrow> string \<Rightarrow> string \<times> EventType \<Rightarrow> nat \<Rightarrow> bool" where
  "occurs_at T hay e p \<longleftrightarrow> scan_pos T hay (fst e) = Some p"

definition beats :: "nat \<times> nat \<Rightarrow> nat \<times> nat \<Rightarrow> bool" where
  \<comment> \<open>position and length: earlier, or no later and not shorter\<close>
  "beats a b \<longleftrightarrow> fst a < fst b \<or> (fst a = fst b \<and> snd b \<le> snd a)"

definition scan_won :: "taxonomy \<Rightarrow> string \<Rightarrow> (string \<times> EventType) list \<Rightarrow> scan_best \<Rightarrow> string \<times> EventType \<Rightarrow> bool" where
  "scan_won T hay entries best e \<longleftrightarrow>
     e \<in> set entries \<and> sb_keyword best = Some (fst e) \<and> sb_type best = snd e \<and> sb_len best = length (fst e) \<and>
     occurs_at T hay e (sb_pos best) \<and>
     (\<forall>e' p. e' \<in> set entries \<longrightarrow> occurs_at T hay e' p \<longrightarrow> beats (sb_pos best, sb_len best) (p, length (fst e')))"

definition scan_inv :: "taxonomy \<Rightarrow> string \<Rightarrow> (string \<times> EventType) list \<Rightarrow> scan_best \<Rightarrow> bool" where
  "scan_inv T hay entries best \<longleftrightarrow>
     (best = scan_start hay \<and> (\<forall>e \<in> set entries. scan_pos T hay (fst e) = None)) \<or>
     (\<exists>e. scan_won T hay entries best e)"

lemma beats_trans: "beats a b \<Longrightarrow> beats b c \<Longrightarrow> beats a c"
  by (auto simp: beats_def)

lemma beats_refl [simp]: "beats a a"
  by (simp add: beats_def)

lemma scan_step_inv:
  assumes inv: "scan_inv T hay entries best"
  shows "scan_inv T hay (entries @ [e]) (scan_step T hay best e)"
proof (cases "scan_pos T hay (fst e)")
  case None
  then show ?thesis using inv by (auto simp: scan_inv_def scan_won_def scan_step_def occurs_at_def)
next
  case (Some p)
  let ?mine = "\<lparr>sb_pos = p, sb_len = length (fst e), sb_type = snd e, sb_keyword = Some (fst e)\<rparr>"
  have wins: "scan_inv T hay (entries @ [e]) ?mine"
    if "\<And>e' q. e' \<in> set entries \<Longrightarrow> occurs_at T hay e' q \<Longrightarrow> beats (p, length (fst e)) (q, length (fst e'))"
    using that Some unfolding scan_inv_def scan_won_def by (intro disjI2 exI [of _ e]) (auto simp: occurs_at_def)
  from inv consider "best = scan_start hay" "\<forall>e \<in> set entries. scan_pos T hay (fst e) = None"
    | e0 where "scan_won T hay entries best e0" unfolding scan_inv_def by blast
  then show ?thesis
  proof cases
    case 1
    then have "scan_step T hay best e = ?mine"
      using Some scan_pos_bound [OF Some] by (simp add: scan_step_def scan_start_def)
    then show ?thesis using wins 1(2) by (simp add: occurs_at_def)
  next
    case 2
    show ?thesis
    proof (cases "p < sb_pos best \<or> (p = sb_pos best \<and> length (fst e) > sb_len best)")
      case True
      then have "scan_step T hay best e = ?mine" using Some by (simp add: scan_step_def)
      moreover have "beats (p, length (fst e)) (sb_pos best, sb_len best)" using True by (auto simp: beats_def)
      then have "scan_inv T hay (entries @ [e]) ?mine"
        using 2 by (intro wins, elim beats_trans) (unfold scan_won_def, blast)
      ultimately show ?thesis by simp
    next
      case False
      then have "scan_step T hay best e = best" using Some by (auto simp: scan_step_def)
      moreover have "beats (sb_pos best, sb_len best) (p, length (fst e))" using False by (auto simp: beats_def)
      ultimately show ?thesis using 2 Some
        unfolding scan_inv_def scan_won_def by (intro disjI2 exI [of _ e0]) (auto simp: occurs_at_def)
    qed
  qed
qed

lemma scan_fold_inv: "scan_inv T hay entries (foldl (scan_step T hay) (scan_start hay) entries)"
proof (induction entries rule: rev_induct)
  case Nil
  show ?case by (simp add: scan_inv_def)
next
  case (snoc e entries)
  then show ?case using scan_step_inv by simp
qed

definition admissible_keywords :: "string list option \<Rightarrow> string list option \<Rightarrow> (string \<times> EventType) list \<Rightarrow> (string \<times> EventType) set" where
  "admissible_keywords incl excl table = {e \<in> set table. allowed incl excl (fst e)}"

text \<open>
  The keyword scan returns the earliest admissible keyword of the table, the longest one when several
  start at the same place, with the type the table gives it; it answers OTHER with no keyword exactly when
  no admissible keyword occurs in the normalised text.
\<close>

theorem scan_earliest:
  "case scan T headline table incl excl of
     (k, None) \<Rightarrow> k = OTHER \<and> (\<forall>e \<in> admissible_keywords incl excl table. scan_pos T (haystack_of T headline) (fst e) = None)
   | (k, Some kw) \<Rightarrow>
       (kw, k) \<in> admissible_keywords incl excl table \<and>
       (\<exists>p. occurs_at T (haystack_of T headline) (kw, k) p \<and>
          (\<forall>e \<in> admissible_keywords incl excl table. \<forall>q. occurs_at T (haystack_of T headline) e q \<longrightarrow>
             beats (p, length kw) (q, length (fst e))))"
proof -
  let ?hay = "haystack_of T headline" and ?es = "filter (\<lambda>e. allowed incl excl (fst e)) table"
  let ?best = "foldl (scan_step T ?hay) (scan_start ?hay) ?es"
  have adm: "set ?es = admissible_keywords incl excl table" by (auto simp: admissible_keywords_def)
  have scan: "scan T headline table incl excl = (sb_type ?best, sb_keyword ?best)"
    by (simp add: scan_def scan_start_def Let_def)
  have "scan_inv T ?hay ?es ?best" by (rule scan_fold_inv)
  then consider "?best = scan_start ?hay" "\<forall>e \<in> set ?es. scan_pos T ?hay (fst e) = None"
    | e where "scan_won T ?hay ?es ?best e" unfolding scan_inv_def by blast
  then show ?thesis
  proof cases
    case 1
    then show ?thesis unfolding scan adm by (simp add: scan_start_def)
  next
    case 2
    then show ?thesis unfolding scan scan_won_def adm by auto
  qed
qed

subsection \<open>A section can only reject\<close>

lemma section_event_type_mapped: "section_event_type T url = Some k \<Longrightarrow> k \<in> mapped_section_types T"
  by (force simp: section_event_type_def mapped_section_types_def Let_def
      split: if_splits option.splits dest: dict_get_mem)

lemma section_event_type_Nil [simp]: "section_event_type T [] = None"
  by (simp add: section_event_type_def)

definition section_rejects :: "taxonomy \<Rightarrow> string \<Rightarrow> string \<Rightarrow> EventType option" where
  "section_rejects T title url =
     (if \<not> names_company T (haystack_of T title) \<and>
         \<not> list_ex (keyword_present T (haystack_of T title)) (tx_section_override T)
      then section_event_type T url else None)"

lemma section_rejects_non_financial:
  "validate_section_types T \<Longrightarrow> section_rejects T title url = Some k \<Longrightarrow> k \<in> NON_FINANCIAL_EVENT_TYPES"
  using section_event_type_mapped
  by (fastforce simp: section_rejects_def validate_section_types_def split: if_splits)

lemma classify_tiers_section:
  "classify_tiers T title body url =
     (case section_rejects T title url of
        Some k \<Rightarrow> (k, Some (section_keyword T k))
      | None \<Rightarrow> classify_tiers T title body [])"
  by (simp add: classify_tiers_def section_rejects_def Let_def split: option.splits)

text \<open>
  A publisher section can only reject.  Once the section tables pass the import check, the URL of an
  article either makes its type a non-financial one or leaves the whole decision (type, keyword, source,
  reason, evidence, and whether the LLM may be asked) as it is without a URL.
\<close>

theorem section_only_rejects:
  assumes "validate_section_types T"
  shows "cd_event_type (classify_decision T mode title body url) \<in> NON_FINANCIAL_EVENT_TYPES \<or>
    classify_decision T mode title body url = classify_decision T mode title body []"
proof -
  obtain t b where prep: "prepare_inputs T mode title body = (t, b)" by (cases "prepare_inputs T mode title body")
  show ?thesis
  proof (cases "section_rejects T t url")
    case None
    then have same: "classify_tiers T t b' url = classify_tiers T t b' []" for b'
      using classify_tiers_section [of T t b' url] by simp
    have "classify_decision T mode title body url = classify_decision T mode title body []"
      by (simp only: classify_decision_def prep prod.case Let_def same)
    then show ?thesis ..
  next
    case (Some k)
    then have "classify_tiers T t b' url = (k, Some (section_keyword T k))" for b'
      using classify_tiers_section [of T t b' url] by simp
    then show ?thesis using section_rejects_non_financial [OF assms Some]
      by (simp add: classify_decision_def prep Let_def split: option.splits)
  qed
qed

subsection \<open>A concrete vocabulary\<close>

definition sample_taxonomy :: taxonomy where
  "sample_taxonomy =
     \<lparr>tx_registry = sample_registry,
      tx_action = [(''war'', MILITARY_CONFLICT), (''merger'', CORPORATE_ACQUISITION), (''ceasefire'', MILITARY_CONFLICT)],
      tx_generic = [], tx_non_financial = [(''football'', SPORT)], tx_section_override = [],
      tx_universal_sections = [(''sport'', SPORT)], tx_publisher_sections = [],
      tx_fallback_cues = [(''SAFE_HAVEN'', [''gold'']), (''ENERGY'', [''oil'']), (''DEFENCE'', [''missile''])],
      tx_compound_cues = [], tx_corroboration = [], tx_resolution_cues = [], tx_resolution_negation = [],
      tx_approval_cues = [], tx_enforcement_cues = [], tx_transport_cues = [''shipping''],
      tx_lower = lower, tx_word_or_space = (\<lambda>c. is_alnum c \<or> c = CHR ''_'' \<or> is_space c), tx_stopwords = [],
      tx_urlsplit = (\<lambda>url. Some (''www.dn.se'', url)), tx_tools = plain_tools,
      rx_money_or_percent = (\<lambda>_. False), rx_should_resign = (\<lambda>_. False), rx_reader_service = (\<lambda>_. False),
      rx_joked = (\<lambda>_. False), rx_military = (\<lambda>_. False), rx_denies_event = (\<lambda>_. False), rx_hedged = (\<lambda>_. False),
      rx_ceasefire = contains ''ceasefire'', rx_reopens = (\<lambda>_. False), rx_lifts_sanctions = (\<lambda>_. False),
      rx_cancels = (\<lambda>_ _. False), rx_terms = split_char (CHR '' '')\<rparr>"

text \<open>
  A keyword is found as a whole word but ranked by the place of its first occurrence as a prefix.  In
  \<^verbatim>\<open>Warrant merger war\<close> the first word of the table is \<^verbatim>\<open>merger\<close>, but the scan answers \<^verbatim>\<open>war\<close>, with the
  position of \<^verbatim>\<open>Warrant\<close>; without that word it answers \<^verbatim>\<open>merger\<close>.
\<close>

lemma scan_ranks_by_prefix:
  "scan sample_taxonomy ''Warrant merger war'' (tx_action sample_taxonomy) None None =
     (MILITARY_CONFLICT, Some ''war'') \<and>
   scan sample_taxonomy ''A merger war'' (tx_action sample_taxonomy) None None =
     (CORPORATE_ACQUISITION, Some ''merger'')"
  by code_simp

theorem scan_earliest_witness:
  "(''merger'', CORPORATE_ACQUISITION) \<in> admissible_keywords None None (tx_action sample_taxonomy) \<and>
   (\<exists>p. occurs_at sample_taxonomy (haystack_of sample_taxonomy ''A merger war'') (''merger'', CORPORATE_ACQUISITION) p \<and>
      (\<forall>q. occurs_at sample_taxonomy (haystack_of sample_taxonomy ''A merger war'') (''war'', MILITARY_CONFLICT) q \<longrightarrow>
         beats (p, length ''merger'') (q, length ''war'')))"
proof -
  have answer: "scan sample_taxonomy ''A merger war'' (tx_action sample_taxonomy) None None = (CORPORATE_ACQUISITION, Some ''merger'')"
    by code_simp
  have "(''war'', MILITARY_CONFLICT) \<in> admissible_keywords None None (tx_action sample_taxonomy)"
    by (simp add: admissible_keywords_def sample_taxonomy_def allowed_def)
  moreover note scan_earliest [where T = sample_taxonomy and headline = "''A merger war''" and table = "tx_action sample_taxonomy"
      and incl = None and excl = None, unfolded answer prod.case option.case]
  ultimately show ?thesis by (metis fst_conv)
qed

theorem section_only_rejects_witness:
  "cd_event_type (classify_decision sample_taxonomy TITLE_FIRST ''War'' [] ''/sport/x'') = SPORT \<and>
   cd_event_type (classify_decision sample_taxonomy TITLE_FIRST ''War'' [] ''/news/x'') = MILITARY_CONFLICT \<and>
   (cd_event_type (classify_decision sample_taxonomy TITLE_FIRST ''War'' [] ''/news/x'') \<in> NON_FINANCIAL_EVENT_TYPES \<or>
    classify_decision sample_taxonomy TITLE_FIRST ''War'' [] ''/news/x'' =
    classify_decision sample_taxonomy TITLE_FIRST ''War'' [] [])"
proof -
  have "validate_section_types sample_taxonomy" by code_simp
  note section_only_rejects [OF this, of TITLE_FIRST "''War''" "[]" "''/news/x''"]
  moreover have "cd_event_type (classify_decision sample_taxonomy TITLE_FIRST ''War'' [] ''/sport/x'') = SPORT"
    by code_simp
  moreover have "cd_event_type (classify_decision sample_taxonomy TITLE_FIRST ''War'' [] ''/news/x'') = MILITARY_CONFLICT"
    by code_simp
  ultimately show ?thesis by simp
qed

subsection \<open>Scope against its specification\<close>

lemma set_add_new: "set (foldl add_new xs ys) = set xs \<union> set ys"
  by (induction ys arbitrary: xs) (auto simp: add_new_def)

lemma distinct_add_new: "distinct xs \<Longrightarrow> distinct (foldl add_new xs ys)"
  by (induction ys arbitrary: xs) (auto simp: add_new_def)

definition names :: "taxonomy \<Rightarrow> string \<Rightarrow> string list \<Rightarrow> bool" where
  "names T txt keywords = list_ex (keyword_present T (haystack_of T txt)) keywords"

definition companies_named :: "taxonomy \<Rightarrow> string \<Rightarrow> AssetId set" where
  "companies_named T txt = {a. \<exists>kws. (a, kws) \<in> set (asset_keywords T) \<and> names T txt kws}"

definition industries_named :: "taxonomy \<Rightarrow> string \<Rightarrow> AssetId set" where
  "industries_named T txt =
     {a. \<exists>g kws. (g, kws) \<in> set (industry_keywords T) \<and> names T txt kws \<and> a \<in> set (members_of (tx_registry T) g)}"

definition evidenced_targets :: "taxonomy \<Rightarrow> EventType \<Rightarrow> string \<Rightarrow> AssetId set" where
  "evidenced_targets T k txt =
     {a \<in> set (EVENT_TYPE_ASSETS k). evidenced (cue_families_present T txt) a} \<union>
     {a. \<exists>g \<in> set (EVENT_TYPE_GROUPS k). evidenced (cue_families_present T txt) g \<and> a \<in> set (members_of (tx_registry T) g)}"

definition scope_spec :: "taxonomy \<Rightarrow> string \<Rightarrow> EventType \<Rightarrow> NewsScope \<times> AssetId set" where
  "scope_spec T txt k =
     (if k \<in> NON_CLUSTERING_EVENT_TYPES \<or> safety_reason T txt \<noteq> None then (SC_NONE, {})
      else if companies_named T txt \<noteq> {} then (SC_COMPANY, companies_named T txt)
      else if industries_named T txt \<noteq> {} then (SC_INDUSTRY, industries_named T txt)
      else if evidenced_targets T k txt \<noteq> {} then (SC_EVENT_TYPE, evidenced_targets T k txt)
      else (SC_NONE, {}))"

lemma keyword_hits_names: "keyword_hits T (haystack_of T txt) kws = [] \<longleftrightarrow> \<not> names T txt kws"
  by (auto simp: keyword_hits_def names_def filter_empty_conv list_ex_iff)

lemma set_company_matches: "set (fst (company_matches T (haystack_of T txt))) = companies_named T txt"
  by (force simp: company_matches_def companies_named_def keyword_hits_names Let_def)

lemma set_industry_matches: "set (fst (industry_matches T (haystack_of T txt))) = industries_named T txt"
  by (fastforce simp: industry_matches_def industries_named_def keyword_hits_names Let_def set_add_new)

lemma evidenced_none [simp]: "evidenced [] target = False"
  by (simp add: evidenced_def split: option.splits)

lemma set_gated:
  "safety_reason T txt = None \<Longrightarrow> set (fst (gated_assets_for_event_type T k txt)) = evidenced_targets T k txt"
  by (auto simp: gated_assets_for_event_type_def evidenced_targets_def Let_def set_add_new)

lemma fst_eq_Nil_iff: "fst p = [] \<longleftrightarrow> set (fst p) = {}"
  by simp


end
