(* ===== verification/ActionExtraction.thy ===== *)
theory ActionExtraction
  imports Taxonomy
begin

text \<open>
  Action extraction of the Cleansing service (\<^verbatim>\<open>extraction.py\<close>, \<^verbatim>\<open>classify.py\<close>).

  The LLM gateway is an argument: \<open>None\<close> when none is configured, otherwise a function from the title, the
  excerpt of the body and the URL to the decoded answer or the exception text.  A loaded spaCy pipeline is a
  function from a title to its tokens; \<open>pipelines language\<close> is \<open>None\<close> when the language has no pipeline.
\<close>

subsection \<open>The LLM fallback\<close>

type_synonym classify_gateway = "string \<Rightarrow> string \<Rightarrow> string \<Rightarrow> (string, json) result"

definition EventType_of :: "string \<Rightarrow> EventType option" where
  \<comment> \<open>\<^verbatim>\<open>EventType(raw)\<close>\<close>
  "EventType_of = enum_of EventType_all EventType_value"

definition validated_type :: "json \<Rightarrow> EventType" where
  "validated_type content =
     (case jget content ''event_type'' of
        Some (JStr raw) \<Rightarrow> (case EventType_of raw of Some k \<Rightarrow> k | None \<Rightarrow> OTHER)
      | _ \<Rightarrow> OTHER)"

record LlmClassifier =
  lc_gateway :: classify_gateway
  lc_body_chars :: nat

definition llm_classify :: "taxonomy \<Rightarrow> LlmClassifier \<Rightarrow> string \<Rightarrow> string \<Rightarrow> string \<Rightarrow> EventType" where
  "llm_classify T lc title0 body0 url =
     (let (title, body) = prepare_inputs T TITLE_FIRST title0 body0
      in if title = [] \<or> safety_reason T title \<noteq> None then OTHER
         else case lc_gateway lc title (take (lc_body_chars lc) body) url of
                Inl _ \<Rightarrow> OTHER
              | Inr content \<Rightarrow> validated_type content)"

subsection \<open>Actions\<close>

record ClassificationAudit =
  ca_decision :: ClassificationDecision
  ca_source :: string
  ca_evidence :: string
  ca_predicate :: "string option"
  ca_event_type :: EventType
  ca_mode :: classification_mode
  ca_backend_disagreement :: bool

record ExtractedAction =
  ea_actor :: "string option"
  ea_action_lemma :: "string option"
  ea_object :: "string option"
  ea_original_lemma :: "string option"
  ea_event_type :: EventType
  ea_affected_asset_ids :: "AssetId list"
  ea_polarity :: EventPolarity
  ea_context_tags :: "ConditionCode list"
  ea_audit :: "ClassificationAudit option"

definition build_action ::
  "taxonomy \<Rightarrow> string \<Rightarrow> EventType \<Rightarrow> string option \<Rightarrow> string option \<Rightarrow> string option \<Rightarrow> string option \<Rightarrow> ExtractedAction" where
  "build_action T title k actor action_lemma obj original_lemma =
     \<lparr>ea_actor = actor, ea_action_lemma = action_lemma, ea_object = obj, ea_original_lemma = original_lemma,
      ea_event_type = k, ea_affected_asset_ids = as_assets (resolve_scope T title k),
      ea_polarity = classify_polarity T title (Some k), ea_context_tags = infer_conditions T title k,
      ea_audit = None\<rparr>"

definition audited ::
  "ExtractedAction \<Rightarrow> ClassificationDecision \<Rightarrow> string \<Rightarrow> classification_mode \<Rightarrow> string option \<Rightarrow> ExtractedAction" where
  "audited a d source mode evidence_override =
     a\<lparr>ea_audit := Some \<lparr>ca_decision = d, ca_source = source,
        ca_evidence = (case evidence_override of None \<Rightarrow> cd_evidence d | Some e \<Rightarrow> e),
        ca_predicate = ea_original_lemma a, ca_event_type = ea_event_type a, ca_mode = mode,
        ca_backend_disagreement = (ea_event_type a \<noteq> cd_event_type d \<and> source = ''spacy_lemma'')\<rparr>\<rparr>"

definition keyword_extract ::
  "taxonomy \<Rightarrow> LlmClassifier option \<Rightarrow> classification_mode \<Rightarrow> string \<Rightarrow> string \<Rightarrow> string \<Rightarrow> ExtractedAction" where
  \<comment> \<open>\<^verbatim>\<open>KeywordExtractor.extract\<close>; the language is not read\<close>
  "keyword_extract T llm mode title0 body0 url =
     (let (title, body) = prepare_inputs T mode title0 body0;
          d = classify_decision T TITLE_FIRST title body url;
          (k, source) = (case llm of
             Some lc \<Rightarrow> if cd_allow_llm d then (llm_classify T lc title body url, ''llm_fallback'')
                        else (cd_event_type d, cd_source d)
           | None \<Rightarrow> (cd_event_type d, cd_source d))
      in audited (build_action T title k None (cd_keyword d) None (cd_keyword d)) d source mode None)"

record spacy_token =
  st_text :: string
  st_dep :: string
  st_pos :: string
  st_lemma :: string

definition parse_token ::
  "taxonomy \<Rightarrow> string option \<times> string option \<times> string option \<Rightarrow> spacy_token \<Rightarrow>
   string option \<times> string option \<times> string option" where
  "parse_token T acc t =
     (let (actor, lem, obj) = acc
      in if st_dep t \<in> {''nsubj'', ''nsubjpass''} \<and> actor = None then (Some (st_text t), lem, obj)
         else if st_pos t = ''VERB'' \<and> lem = None then (actor, Some (tx_lower T (st_lemma t)), obj)
         else if st_dep t \<in> {''dobj'', ''obj'', ''pobj''} \<and> obj = None then (actor, lem, Some (st_text t))
         else acc)"

definition or_else :: "string option \<Rightarrow> string option \<Rightarrow> string option" where
  \<comment> \<open>Python's \<^verbatim>\<open>or\<close>: the empty string counts as missing\<close>
  "or_else a b = (if a = None \<or> a = Some [] then b else a)"

definition spacy_extract ::
  "taxonomy \<Rightarrow> (string \<Rightarrow> (string \<Rightarrow> spacy_token list) option) \<Rightarrow> LlmClassifier option \<Rightarrow> classification_mode \<Rightarrow>
   string \<Rightarrow> string \<Rightarrow> string \<Rightarrow> string \<Rightarrow> ExtractedAction" where
  "spacy_extract T pipelines llm mode title0 language body0 url =
     (let (title, body) = prepare_inputs T mode title0 body0;
          d = classify_decision T TITLE_FIRST title body url;
          nlp = (case pipelines language of Some p \<Rightarrow> Some p | None \<Rightarrow> pipelines ''en'')
      in case nlp of
           None \<Rightarrow> keyword_extract T llm mode title body url
         | Some p \<Rightarrow>
             if cd_reason d \<notin> {''unmapped'', ''tiered_rule''} then keyword_extract T llm mode title body url
             else
               let (actor, verb, obj) = foldl (parse_token T) (None, None, None) (p title);
                   by_lemma = map_action T verb;
                   lemma_mapped = (by_lemma \<noteq> OTHER);
                   mapped = (if lemma_mapped then by_lemma else cd_event_type d);
                   lem = (if lemma_mapped then verb else or_else verb (cd_keyword d));
                   (k, source) = (case llm of
                      Some lc \<Rightarrow> if mapped = OTHER \<and> cd_allow_llm d then (llm_classify T lc title body url, ''llm_fallback'')
                                 else (mapped, if lemma_mapped then ''spacy_lemma'' else cd_source d)
                    | None \<Rightarrow> (mapped, if lemma_mapped then ''spacy_lemma'' else cd_source d))
               in audited (build_action T title k actor lem obj lem) d source mode
                    (if source = ''spacy_lemma'' then Some title else None))"

datatype nlp_backend = KEYWORD | SPACY

definition extract_action ::
  "taxonomy \<Rightarrow> nlp_backend \<Rightarrow> (string \<Rightarrow> (string \<Rightarrow> spacy_token list) option) \<Rightarrow> LlmClassifier option \<Rightarrow>
   classification_mode \<Rightarrow> string \<Rightarrow> string \<Rightarrow> string \<Rightarrow> string \<Rightarrow> ExtractedAction" where
  "extract_action T backend pipelines llm mode title language body url =
     (case backend of
        KEYWORD \<Rightarrow> keyword_extract T llm mode title body url
      | SPACY \<Rightarrow> spacy_extract T pipelines llm mode title language body url)"

subsection \<open>The LLM never overrides\<close>

lemma allow_llm_OTHER: "cd_allow_llm (classify_decision T mode title body url) \<Longrightarrow>
    cd_event_type (classify_decision T mode title body url) = OTHER"
  by (auto simp: classify_decision_def Let_def split: prod.splits option.splits if_splits)

lemma ea_event_type_audited [simp]: "ea_event_type (audited a d source mode ev) = ea_event_type a"
  by (simp add: audited_def)

lemma ea_event_type_build [simp]: "ea_event_type (build_action T title k actor lem obj orig) = k"
  by (simp add: build_action_def)

lemma keyword_extract_local:
  assumes "ea_event_type (keyword_extract T None mode title body url) \<noteq> OTHER"
  shows "keyword_extract T llm mode title body url = keyword_extract T None mode title body url"
proof -
  obtain t b where prep: "prepare_inputs T mode title body = (t, b)" by (cases "prepare_inputs T mode title body")
  let ?d = "classify_decision T TITLE_FIRST t b url"
  have "cd_event_type ?d \<noteq> OTHER" using assms by (simp add: keyword_extract_def prep Let_def)
  then have "\<not> cd_allow_llm ?d" using allow_llm_OTHER [of T TITLE_FIRST t b url] by blast
  then show ?thesis by (cases llm) (simp_all add: keyword_extract_def prep Let_def)
qed

text \<open>
  The LLM is a last resort.  Whenever the local extractor, keyword or spaCy, finds an event type other
  than OTHER on its own, the extracted action is the same whatever LLM is configured and whatever it answers.
\<close>

theorem llm_never_overrides:
  assumes "ea_event_type (extract_action T backend pipelines None mode title language body url) \<noteq> OTHER"
  shows "extract_action T backend pipelines llm mode title language body url =
    extract_action T backend pipelines None mode title language body url"
proof (cases backend)
  case KEYWORD
  then show ?thesis using assms by (auto simp: extract_action_def intro: keyword_extract_local)
next
  case SPACY
  obtain t b where prep: "prepare_inputs T mode title body = (t, b)" by (cases "prepare_inputs T mode title body")
  let ?d = "classify_decision T TITLE_FIRST t b url"
  let ?nlp = "case pipelines language of Some p \<Rightarrow> Some p | None \<Rightarrow> pipelines ''en''"
  show ?thesis
  proof (cases "\<exists>p. ?nlp = Some p \<and> cd_reason ?d \<in> {''unmapped'', ''tiered_rule''}")
    case True
    then obtain p where p: "?nlp = Some p" "cd_reason ?d \<in> {''unmapped'', ''tiered_rule''}" by blast
    obtain actor verb obj where parsed: "foldl (parse_token T) (None, None, None) (p t) = (actor, verb, obj)"
      by (cases "foldl (parse_token T) (None, None, None) (p t)")
    have "(if map_action T verb \<noteq> OTHER then map_action T verb else cd_event_type ?d) \<noteq> OTHER"
      using assms SPACY p by (simp add: extract_action_def spacy_extract_def prep parsed Let_def split: if_splits)
    then show ?thesis using SPACY p
      by (cases llm) (auto simp: extract_action_def spacy_extract_def prep parsed Let_def)
  next
    case False
    then have local: "spacy_extract T pipelines l mode title language body url = keyword_extract T l mode t b url" for l
      by (auto simp: spacy_extract_def prep Let_def split: option.split)
    show ?thesis using assms SPACY by (auto simp: extract_action_def local intro: keyword_extract_local)
  qed
qed

end
