(* ===== verification/Dedup.thy ===== *)
theory Dedup
  imports Prelude "HOL-Library.Word" "HOL-Library.Multiset"
begin

text \<open>
  SimHash near-duplicate detection of the Cleansing service (\<^verbatim>\<open>dedup.py\<close>).  Fingerprints are \<open>64 word\<close>: the
  code masks every feature hash to 64 bits, sets bits below 64 only, and stores and reads the number back
  unchanged.  The tokens of the text and the hash of one token (\<^verbatim>\<open>blake2b\<close>) are arguments.
\<close>

unbundle bit_operations_syntax

definition HASH_BITS :: nat where
  "HASH_BITS = 64"

definition add_feature :: "64 word \<Rightarrow> int list \<Rightarrow> int list" where
  "add_feature h weights = map (\<lambda>(i, w). w + (if bit h i then 1 else - 1)) (List.enumerate 0 weights)"

definition feature_weights :: "(string \<Rightarrow> 64 word) \<Rightarrow> string list \<Rightarrow> int list" where
  "feature_weights feature_hash tokens = foldl (\<lambda>ws t. add_feature (feature_hash t) ws) (replicate HASH_BITS 0) tokens"

definition simhash :: "(string \<Rightarrow> 64 word) \<Rightarrow> string list \<Rightarrow> 64 word" where
  "simhash feature_hash tokens =
     (if tokens = [] then 0
      else let weights = feature_weights feature_hash tokens
           in foldl (\<lambda>f i. if weights ! i > 0 then f OR push_bit i 1 else f) 0 [0..<HASH_BITS])"

definition hamming_distance :: "64 word \<Rightarrow> 64 word \<Rightarrow> nat" where
  "hamming_distance left right = length (filter (bit (left XOR right)) [0..<HASH_BITS])"

definition is_near_duplicate :: "64 word \<Rightarrow> 64 word \<Rightarrow> nat \<Rightarrow> bool" where
  "is_near_duplicate candidate existing max_distance = (hamming_distance candidate existing \<le> max_distance)"

subsection \<open>Every bit is a strict majority of the tokens\<close>

lemma length_add_feature [simp]: "length (add_feature h ws) = length ws"
  by (simp add: add_feature_def)

lemma nth_add_feature: "i < length ws \<Longrightarrow> add_feature h ws ! i = ws ! i + (if bit h i then 1 else - 1)"
  by (simp add: add_feature_def nth_enumerate_eq)

lemma length_feature_weights [simp]: "length (feature_weights fh tokens) = HASH_BITS"
  unfolding feature_weights_def by (induction tokens rule: rev_induct) simp_all

definition votes :: "(string \<Rightarrow> 64 word) \<Rightarrow> nat \<Rightarrow> string list \<Rightarrow> nat" where
  "votes fh i tokens = length (filter (\<lambda>t. bit (fh t) i) tokens)"

lemma nth_feature_weights:
  "i < HASH_BITS \<Longrightarrow> feature_weights fh tokens ! i = 2 * int (votes fh i tokens) - int (length tokens)"
proof (induction tokens rule: rev_induct)
  case Nil
  then show ?case by (simp add: feature_weights_def votes_def)
next
  case (snoc t tokens)
  have "feature_weights fh (tokens @ [t]) = add_feature (fh t) (feature_weights fh tokens)"
    by (simp add: feature_weights_def)
  then show ?case using snoc by (simp add: nth_add_feature votes_def)
qed

lemma bit_or_fold:
  "n \<le> 64 \<Longrightarrow> bit (foldl (\<lambda>f i. if P i then f OR push_bit i (1 :: 64 word) else f) 0 [0..<n]) j \<longleftrightarrow> j < n \<and> P j"
proof (induction n)
  case (Suc n)
  then show ?case by (auto simp: bit_simps less_Suc_eq)
qed simp

lemma votes_mset: "mset xs = mset ys \<Longrightarrow> votes fh i xs = votes fh i ys"
  unfolding votes_def by (metis mset_filter size_mset)

lemma simhash_bit: "bit (simhash fh tokens) i \<longleftrightarrow> i < 64 \<and> length tokens < 2 * votes fh i tokens"
proof (cases "tokens = []")
  case True
  then show ?thesis by (simp add: simhash_def votes_def)
next
  case False
  have weight: "feature_weights fh tokens ! i > 0 \<longleftrightarrow> length tokens < 2 * votes fh i tokens" if "i < 64"
    using nth_feature_weights [of i fh tokens] that by (simp add: HASH_BITS_def) linarith
  have "bit (simhash fh tokens) i \<longleftrightarrow> i < 64 \<and> feature_weights fh tokens ! i > 0"
    using False bit_or_fold [of 64 "\<lambda>i. feature_weights fh tokens ! i > 0" i] by (simp add: simhash_def HASH_BITS_def)
  then show ?thesis using weight by blast
qed

text \<open>
  The fingerprint of a text is the bitwise strict majority of its tokens' hashes, so it depends on the
  multiset of words only: exchanging any two stretches of a text gives a near-duplicate at distance 0.
\<close>

theorem simhash_majority:
  "bit (simhash fh tokens) i = (i < 64 \<and> length tokens < 2 * votes fh i tokens) \<and>
   hamming_distance (simhash fh (xs @ ys @ zs @ ws)) (simhash fh (xs @ zs @ ys @ ws)) = 0"
proof -
  have "votes fh j (xs @ ys @ zs @ ws) = votes fh j (xs @ zs @ ys @ ws)" for j by (rule votes_mset) simp
  then have "simhash fh (xs @ ys @ zs @ ws) = simhash fh (xs @ zs @ ys @ ws)"
    by (intro bit_eqI) (simp add: simhash_bit add.commute add.left_commute)
  then show ?thesis by (simp add: simhash_bit hamming_distance_def)
qed

subsection \<open>The distance is a metric\<close>

lemma hamming_symmetric: "hamming_distance a b = hamming_distance b a"
  by (simp add: hamming_distance_def xor.commute)

lemma hamming_zero: "hamming_distance a b = 0 \<longleftrightarrow> a = b"
proof
  assume "hamming_distance a b = 0"
  then have "\<not> bit (a XOR b) i" if "i < 64" for i
    using that by (auto simp: hamming_distance_def HASH_BITS_def filter_empty_conv)
  then show "a = b" by (intro bit_eqI) (auto simp: bit_simps)
qed (simp add: hamming_distance_def)

lemma hamming_card: "hamming_distance a b = card {i. i < 64 \<and> bit a i \<noteq> bit b i}"
proof -
  have "hamming_distance a b = card (set (filter (bit (a XOR b)) [0..<64]))"
    unfolding hamming_distance_def HASH_BITS_def by (rule distinct_card [symmetric]) simp
  also have "set (filter (bit (a XOR b)) [0..<64]) = {i. i < 64 \<and> bit a i \<noteq> bit b i}"
    by (auto simp: bit_simps)
  finally show ?thesis .
qed

lemma hamming_triangle: "hamming_distance a c \<le> hamming_distance a b + hamming_distance b c"
proof -
  have "{i. i < 64 \<and> bit a i \<noteq> bit c i} \<subseteq> {i. i < 64 \<and> bit a i \<noteq> bit b i} \<union> {i. i < 64 \<and> bit b i \<noteq> bit c i}"
    by auto
  then have "card {i. i < 64 \<and> bit a i \<noteq> bit c i} \<le>
      card ({i. i < 64 \<and> bit a i \<noteq> bit b i} \<union> {i. i < 64 \<and> bit b i \<noteq> bit c i})"
    by (intro card_mono) auto
  also have "\<dots> \<le> card {i. i < 64 \<and> bit a i \<noteq> bit b i} + card {i. i < 64 \<and> bit b i \<noteq> bit c i}"
    by (rule card_Un_le)
  finally show ?thesis by (simp add: hamming_card)
qed

end
