(* ===== verification/Clustering.thy ===== *)
theory Clustering
  imports ActionExtraction Dedup Outbox
begin

text \<open>
  The stores and decisions of the Cleansing service (\<^verbatim>\<open>services/cleansing/cleansing\<close>: \<^verbatim>\<open>models.py\<close>,
  \<^verbatim>\<open>clustering.py\<close>, \<^verbatim>\<open>db.py\<close>, \<^verbatim>\<open>repository.py\<close>).

  Vector columns hold single-precision numbers: \<open>ce_float4\<close> is the rounding of the column type and
  \<open>ce_read_back\<close> the number its printed form reads as; \<open>ce_distance\<close> is pgvector's cosine distance, \<open>None\<close> for
  NaN (a vector of norm zero).  A vector of another length than the column is refused.  Clock reads of one
  handler are one instant, fresh UUIDs come from a counter.
\<close>

subsection \<open>Models\<close>

datatype ClusterState = CS_OPEN | CS_QUIET | CS_READY | CS_MERGING | CS_MERGED | CS_ERROR_RETRYABLE | CS_ERROR_TERMINAL

record ArticleFacts =
  af_article_id :: uuid
  af_source_id :: string
  af_canonical_url :: string
  af_title :: string
  af_body :: string
  af_language :: string
  af_country :: string
  af_published_at :: instant
  af_correlation_id :: uuid

record ClusterRecord =
  cr_cluster_id :: uuid
  cr_event_type :: EventType
  cr_state :: ClusterState
  cr_article_count :: nat
  cr_first_seen_at :: instant
  cr_last_seen_at :: instant
  cr_quiet_deadline :: instant
  cr_lifetime_deadline :: instant
  cr_centroid :: "flt list"
  cr_version :: string

subsection \<open>Clustering decisions\<close>

record ClusterCandidate =
  cc_cluster_id :: uuid
  cc_event_type :: EventType
  cc_similarity :: "flt option" \<comment> \<open>\<open>None\<close> is NaN\<close>

record AssignmentDecision =
  ad_cluster_id :: "uuid option"
  ad_reason :: string

definition flt_less :: "flt option \<Rightarrow> flt option \<Rightarrow> bool" where
  \<comment> \<open>\<^verbatim>\<open><\<close> on floats: false when either side is NaN\<close>
  "flt_less x y = (case (x, y) of (Some a, Some b) \<Rightarrow> a < b | _ \<Rightarrow> False)"

definition better_candidate ::
  "EventType \<Rightarrow> flt \<Rightarrow> ClusterCandidate option \<Rightarrow> ClusterCandidate \<Rightarrow> ClusterCandidate option" where
  "better_candidate k threshold best c =
     (if flt_less (cc_similarity c) (Some threshold) then best
      else if \<not> gate2_compatible k (cc_event_type c) then best
      else case best of
        None \<Rightarrow> Some c
      | Some b \<Rightarrow> if flt_less (cc_similarity b) (cc_similarity c) then Some c else best)"

definition decide_assignment :: "EventType \<Rightarrow> ClusterCandidate list \<Rightarrow> flt \<Rightarrow> AssignmentDecision" where
  "decide_assignment k candidates threshold =
     (case foldl (better_candidate k threshold) None candidates of
        None \<Rightarrow> \<lparr>ad_cluster_id = None, ad_reason = ''no_gate_passing_candidate''\<rparr>
      | Some b \<Rightarrow> \<lparr>ad_cluster_id = Some (cc_cluster_id b), ad_reason = ''gate1_gate2_passed''\<rparr>)"

definition quiet_deadline :: "instant \<Rightarrow> int \<Rightarrow> instant" where
  "quiet_deadline last_seen quiet_minutes = last_seen + minutes quiet_minutes"

definition lifetime_deadline :: "instant \<Rightarrow> int \<Rightarrow> instant" where
  "lifetime_deadline first_seen lifetime_hours = first_seen + minutes (60 * lifetime_hours)"

definition is_ready_to_close :: "instant \<Rightarrow> instant \<Rightarrow> instant \<Rightarrow> bool" where
  "is_ready_to_close now quiet_at lifetime_at \<longleftrightarrow> now \<ge> quiet_at \<or> now \<ge> lifetime_at"

definition update_centroid :: "flt list \<Rightarrow> nat \<Rightarrow> flt list \<Rightarrow> flt list option" where
  \<comment> \<open>\<open>None\<close> is the \<^verbatim>\<open>ValueError\<close>\<close>
  "update_centroid centroid article_count new_vector =
     (if centroid = [] then Some new_vector
      else if length centroid \<noteq> length new_vector then None
      else Some (map2 (\<lambda>e i. fl64 (fl64 (fl64 (e * of_nat article_count) + i) / of_nat (article_count + 1)))
                  centroid new_vector))"

definition can_accept_article :: "ClusterState \<Rightarrow> bool" where
  "can_accept_article s \<longleftrightarrow> s \<in> {CS_OPEN, CS_QUIET}"

subsection \<open>Tables\<close>

record fingerprint_row =
  fp_article_id :: uuid
  fp_simhash :: "64 word"
  fp_source_id :: string
  fp_published_at :: instant
  fp_version :: string

record embedding_row =
  em_article_id :: uuid
  em_vector :: "flt list"
  em_version :: string

record action_row =
  ar_article_id :: uuid
  ar_action :: ExtractedAction
  ar_language :: string

record member_row =
  mr_cluster_id :: uuid
  mr_article_id :: uuid
  mr_title :: string
  mr_source_id :: string
  mr_canonical_url :: string
  mr_published_at :: instant
  mr_correlation_id :: uuid

record event_row =
  er_event_id :: uuid
  er_cluster_id :: uuid
  er_event_type :: EventType
  er_canonical_summary :: string
  er_extraction_method :: ExtractionMethod
  er_payload :: EventDetected

record cleansing_db =
  cl_fingerprints :: "fingerprint_row list"
  cl_embeddings :: "embedding_row list"
  cl_actions :: "action_row list"
  cl_clusters :: "ClusterRecord list"
  cl_members :: "member_row list"
  cl_events :: "event_row list"
  cl_outbox :: "EventDetected outbox_row list"
  cl_next_uuid :: uuid

definition EMBEDDING_DIM :: nat where
  "EMBEDDING_DIM = 1024"

record cleansing_settings =
  cs_dedup_window_hours :: int
  cs_simhash_max_distance :: nat
  cs_similarity_threshold :: flt
  cs_quiet_period_minutes :: int
  cs_max_lifetime_hours :: int
  cs_mode :: classification_mode
  cs_nlp_backend :: nlp_backend
  cs_processing_version :: string

record merge_answer =
  ma_content :: json
  ma_prompt_version :: string
  ma_model :: string
  ma_context_hash :: string
  ma_input_tokens :: nat
  ma_output_tokens :: nat
  ma_latency_ms :: nat
  ma_attempt_count :: nat
  ma_status :: string

record LlmMerger =
  lg_gateway :: "EventType \<Rightarrow> string list \<Rightarrow> (string, merge_answer) result"
  lg_max_excerpts :: nat
  lg_excerpt_chars :: nat

record cleansing_env =
  ce_taxonomy :: taxonomy
  ce_settings :: cleansing_settings
  ce_tokens :: "string \<Rightarrow> string list"
  ce_feature_hash :: "string \<Rightarrow> 64 word"
  ce_embed :: "string \<Rightarrow> (string, flt list) result"
  ce_pipelines :: "string \<Rightarrow> (string \<Rightarrow> spacy_token list) option"
  ce_classifier :: "LlmClassifier option"
  ce_merger :: "LlmMerger option"
  ce_float4 :: "flt \<Rightarrow> flt"
  ce_read_back :: "flt \<Rightarrow> flt"
  ce_distance :: "flt list \<Rightarrow> flt list \<Rightarrow> flt option"
  ce_pystr :: "json \<Rightarrow> string"
  ce_uuid_str :: "uuid \<Rightarrow> string"

datatype cleansing_error =
    DatabaseError string
  | CentroidMismatch
  | EmbeddingUnavailableError string
  | AmbiguousMergeError string
  | ValidationError string
  | UnknownAsset py_error

type_synonym 'a cleansing_prog = "(cleansing_db, cleansing_error, 'a) prog"

abbreviation ce_registry :: "cleansing_env \<Rightarrow> Registry" where
  "ce_registry env \<equiv> tx_registry (ce_taxonomy env)"

subsection \<open>Repository\<close>

definition article_already_processed :: "uuid \<Rightarrow> cleansing_db \<Rightarrow> bool" where
  "article_already_processed aid db = (aid \<in> set (map fp_article_id (cl_fingerprints db)))"

definition recent_fingerprints :: "cleansing_env \<Rightarrow> instant \<Rightarrow> cleansing_db \<Rightarrow> 64 word list" where
  "recent_fingerprints env since db =
     map fp_simhash (filter (\<lambda>r. fp_published_at r \<ge> since \<and> fp_version r = cs_processing_version (ce_settings env))
       (cl_fingerprints db))"

definition pg_vector :: "cleansing_env \<Rightarrow> flt list \<Rightarrow> (cleansing_error, flt list) result" where
  \<comment> \<open>the cast to \<^verbatim>\<open>vector(1024)\<close>\<close>
  "pg_vector env v =
     (if length v = EMBEDDING_DIM then Inr (map (ce_float4 env) v) else Inl (DatabaseError ''expected 1024 dimensions''))"

definition store_fingerprint :: "cleansing_env \<Rightarrow> uuid \<Rightarrow> 64 word \<Rightarrow> string \<Rightarrow> instant \<Rightarrow> unit cleansing_prog" where
  "store_fingerprint env aid h source published =
     write_p (\<lambda>db. db\<lparr>cl_fingerprints := insert_new fp_article_id
       \<lparr>fp_article_id = aid, fp_simhash = h, fp_source_id = source, fp_published_at = published,
        fp_version = cs_processing_version (ce_settings env)\<rparr> (cl_fingerprints db)\<rparr>)"

definition store_embedding :: "cleansing_env \<Rightarrow> uuid \<Rightarrow> flt list \<Rightarrow> unit cleansing_prog" where
  "store_embedding env aid v =
     bind_p (lift_p (pg_vector env v)) (\<lambda>w.
     write_p (\<lambda>db. db\<lparr>cl_embeddings := insert_new em_article_id
       \<lparr>em_article_id = aid, em_vector = w, em_version = cs_processing_version (ce_settings env)\<rparr> (cl_embeddings db)\<rparr>))"

definition store_action :: "uuid \<Rightarrow> ExtractedAction \<Rightarrow> string \<Rightarrow> unit cleansing_prog" where
  "store_action aid action language =
     write_p (\<lambda>db. db\<lparr>cl_actions := insert_new ar_article_id
       \<lparr>ar_article_id = aid, ar_action = action, ar_language = language\<rparr> (cl_actions db)\<rparr>)"

definition by_distance :: "(ClusterRecord \<Rightarrow> flt option) \<Rightarrow> ClusterRecord list \<Rightarrow> ClusterRecord list" where
  \<comment> \<open>\<^verbatim>\<open>ORDER BY\<close> a distance: NaN sorts last\<close>
  "by_distance d rows = sort_key (\<lambda>r. case d r of Some x \<Rightarrow> x | None \<Rightarrow> 0) (filter (\<lambda>r. d r \<noteq> None) rows) @
     filter (\<lambda>r. d r = None) rows"

definition find_candidate_clusters ::
  "cleansing_env \<Rightarrow> flt list \<Rightarrow> EventType \<Rightarrow> nat \<Rightarrow> cleansing_db \<Rightarrow> (cleansing_error, ClusterCandidate list) result" where
  "find_candidate_clusters env v k limit db =
     bind_result (pg_vector env v) (\<lambda>w.
       let d = (\<lambda>c. ce_distance env (cr_centroid c) w);
           rows = filter (\<lambda>c. cr_state c \<in> {CS_OPEN, CS_QUIET} \<and> cr_event_type c = k \<and>
                    cr_version c = cs_processing_version (ce_settings env)) (cl_clusters db)
       in Inr (map (\<lambda>c. \<lparr>cc_cluster_id = cr_cluster_id c, cc_event_type = cr_event_type c,
                         cc_similarity = map_option (\<lambda>x. fl64 (1 - x)) (d c)\<rparr>) (take limit (by_distance d rows))))"

definition member_of :: "uuid \<Rightarrow> ArticleFacts \<Rightarrow> member_row" where
  "member_of cid f =
     \<lparr>mr_cluster_id = cid, mr_article_id = af_article_id f, mr_title = af_title f, mr_source_id = af_source_id f,
      mr_canonical_url = af_canonical_url f, mr_published_at = af_published_at f,
      mr_correlation_id = af_correlation_id f\<rparr>"

definition insert_membership :: "uuid \<Rightarrow> ArticleFacts \<Rightarrow> cleansing_db \<Rightarrow> cleansing_db" where
  "insert_membership cid f db =
     db\<lparr>cl_members := insert_new (\<lambda>m. (mr_cluster_id m, mr_article_id m)) (member_of cid f) (cl_members db)\<rparr>"

definition create_cluster ::
  "cleansing_env \<Rightarrow> ArticleFacts \<Rightarrow> EventType \<Rightarrow> flt list \<Rightarrow> instant \<Rightarrow> instant \<Rightarrow> uuid cleansing_prog" where
  "create_cluster env f k v quiet_at lifetime_at =
     bind_p (lift_p (pg_vector env v)) (\<lambda>w.
     bind_p (read_p cl_next_uuid) (\<lambda>cid.
     bind_p (write_p (\<lambda>db. insert_membership cid f
       (db\<lparr>cl_next_uuid := cl_next_uuid db + 1,
           cl_clusters := cl_clusters db @
             [\<lparr>cr_cluster_id = cid, cr_event_type = k, cr_state = CS_OPEN, cr_article_count = 1,
               cr_first_seen_at = af_published_at f, cr_last_seen_at = af_published_at f,
               cr_quiet_deadline = quiet_at, cr_lifetime_deadline = lifetime_at, cr_centroid = w,
               cr_version = cs_processing_version (ce_settings env)\<rparr>]\<rparr>))) (\<lambda>_.
     return_p cid)))"

definition cluster_row :: "uuid \<Rightarrow> cleansing_db \<Rightarrow> ClusterRecord option" where
  "cluster_row cid db = fetch_first (\<lambda>c. cr_cluster_id c = cid) (cl_clusters db)"

definition update_cluster :: "uuid \<Rightarrow> (ClusterRecord \<Rightarrow> ClusterRecord) \<Rightarrow> cleansing_db \<Rightarrow> cleansing_db" where
  "update_cluster cid f db = db\<lparr>cl_clusters := update_where (\<lambda>c. cr_cluster_id c = cid) f (cl_clusters db)\<rparr>"

definition add_article_to_cluster :: "cleansing_env \<Rightarrow> uuid \<Rightarrow> ArticleFacts \<Rightarrow> flt list \<Rightarrow> instant \<Rightarrow> unit cleansing_prog" where
  "add_article_to_cluster env cid f v quiet_at =
     bind_p (read_p (cluster_row cid)) (\<lambda>row.
       case row of
         None \<Rightarrow> return_p ()
       | Some c \<Rightarrow>
           (case update_centroid (map (ce_read_back env) (cr_centroid c)) (cr_article_count c) v of
              None \<Rightarrow> raise_p CentroidMismatch
            | Some u \<Rightarrow>
                bind_p (lift_p (pg_vector env u)) (\<lambda>w.
                write_p (\<lambda>db. insert_membership cid f (update_cluster cid
                  (\<lambda>r. r\<lparr>cr_article_count := cr_article_count r + 1, cr_last_seen_at := af_published_at f,
                         cr_quiet_deadline := quiet_at, cr_centroid := w, cr_state := CS_OPEN\<rparr>) db)))))"

definition cluster_due :: "instant \<Rightarrow> ClusterRecord \<Rightarrow> bool" where
  "cluster_due now c \<longleftrightarrow> cr_state c \<in> {CS_OPEN, CS_QUIET} \<and> (cr_quiet_deadline c \<le> now \<or> cr_lifetime_deadline c \<le> now)"

definition set_cluster_state :: "uuid \<Rightarrow> ClusterState \<Rightarrow> cleansing_db \<Rightarrow> cleansing_db" where
  "set_cluster_state cid s = update_cluster cid (\<lambda>r. r\<lparr>cr_state := s\<rparr>)"

definition claim_ready_clusters :: "cleansing_env \<Rightarrow> instant \<Rightarrow> nat \<Rightarrow> ClusterRecord list cleansing_prog" where
  "claim_ready_clusters env now limit db =
     (let rows = select_ordered (cluster_due now) cr_quiet_deadline limit (cl_clusters db)
      in (Inr (map (\<lambda>r. r\<lparr>cr_state := CS_MERGING, cr_centroid := map (ce_read_back env) (cr_centroid r)\<rparr>) rows),
          foldl (\<lambda>db r. set_cluster_state (cr_cluster_id r) CS_MERGING db) db rows))"

definition load_cluster_articles :: "uuid \<Rightarrow> cleansing_db \<Rightarrow> member_row list" where
  "load_cluster_articles cid db = sort_key mr_published_at (filter (\<lambda>m. mr_cluster_id m = cid) (cl_members db))"

definition load_cluster_actions :: "uuid \<Rightarrow> cleansing_db \<Rightarrow> action_row list" where
  "load_cluster_actions cid db =
     filter (\<lambda>a. (cid, ar_article_id a) \<in> set (map (\<lambda>m. (mr_cluster_id m, mr_article_id m)) (cl_members db)))
       (cl_actions db)"

definition store_event_with_outbox :: "instant \<Rightarrow> EventDetected \<Rightarrow> cleansing_db \<Rightarrow> cleansing_db" where
  "store_event_with_outbox now e db =
     set_cluster_state (ed_cluster_id e) CS_MERGED
       (db\<lparr>cl_events := insert_new er_cluster_id
             \<lparr>er_event_id = ed_event_id e, er_cluster_id = ed_cluster_id e, er_event_type = ed_event_type e,
              er_canonical_summary = ed_canonical_summary e, er_extraction_method = ed_extraction_method e,
              er_payload = e\<rparr> (cl_events db),
           cl_outbox := insert_new ob_message_id (new_outbox_row (message_id e) (ed_event_id e) e now) (cl_outbox db)\<rparr>)"

subsection \<open>The dual gate\<close>

definition passes :: "EventType \<Rightarrow> flt \<Rightarrow> ClusterCandidate \<Rightarrow> bool" where
  "passes k threshold c \<longleftrightarrow> \<not> flt_less (cc_similarity c) (Some threshold) \<and> gate2_compatible k (cc_event_type c)"

definition chosen :: "EventType \<Rightarrow> flt \<Rightarrow> ClusterCandidate list \<Rightarrow> ClusterCandidate option \<Rightarrow> bool" where
  "chosen k threshold cs best \<longleftrightarrow>
     (case best of
        None \<Rightarrow> \<forall>c \<in> set cs. \<not> passes k threshold c
      | Some b \<Rightarrow> b \<in> set cs \<and> passes k threshold b \<and>
          (\<forall>c \<in> set cs. passes k threshold c \<longrightarrow> \<not> flt_less (cc_similarity b) (cc_similarity c)))"

lemma better_candidate_chosen:
  assumes "chosen k threshold cs best"
  shows "chosen k threshold (cs @ [c]) (better_candidate k threshold best c)"
proof (cases "passes k threshold c")
  case False
  then have "better_candidate k threshold best c = best" by (auto simp: better_candidate_def passes_def)
  then show ?thesis using assms False by (auto simp: chosen_def split: option.splits)
next
  case True
  then show ?thesis using assms
    by (auto simp: chosen_def better_candidate_def passes_def flt_less_def split: option.splits)
qed

lemma decided_chosen: "chosen k threshold cs (foldl (better_candidate k threshold) None cs)"
proof (induction cs rule: rev_induct)
  case Nil
  show ?case by (simp add: chosen_def)
next
  case (snoc c cs)
  then show ?case using better_candidate_chosen by simp
qed

lemma decide_assignment_joins:
  assumes "ad_cluster_id (decide_assignment k cs threshold) = Some cid"
  obtains c where "c \<in> set cs" "cc_cluster_id c = cid" "passes k threshold c"
  using assms decided_chosen [of k threshold cs]
  by (auto simp: decide_assignment_def chosen_def split: option.splits)

text \<open>
  C18: an article joins a cluster only through both gates, and joins the best one: the chosen candidate has the
  article's own, clusterable event type, its similarity is not below the threshold, and no candidate that
  passes is more similar; a new cluster is opened exactly when no candidate passes.
\<close>

theorem decide_assignment_dual_gate:
  "case ad_cluster_id (decide_assignment k cs threshold) of
     None \<Rightarrow> \<forall>c \<in> set cs. \<not> passes k threshold c
   | Some cid \<Rightarrow> \<exists>b \<in> set cs. cc_cluster_id b = cid \<and> cc_event_type b = k \<and> k \<notin> NON_CLUSTERING_EVENT_TYPES \<and>
       passes k threshold b \<and> (\<forall>c \<in> set cs. passes k threshold c \<longrightarrow> \<not> flt_less (cc_similarity b) (cc_similarity c))"
  using decided_chosen [of k threshold cs]
  by (auto simp: decide_assignment_def chosen_def passes_def gate2_compatible_def split: option.splits)

theorem decide_assignment_dual_gate_witness:
  "ad_cluster_id (decide_assignment SANCTIONS
     [\<lparr>cc_cluster_id = 1, cc_event_type = SANCTIONS, cc_similarity = Some (81 / 100)\<rparr>,
      \<lparr>cc_cluster_id = 2, cc_event_type = SANCTIONS, cc_similarity = Some (9 / 10)\<rparr>] (4 / 5)) = Some 2 \<and>
   gate2_compatible SANCTIONS SANCTIONS"
  using decide_assignment_dual_gate [where k = SANCTIONS and threshold = "4 / 5" and cs =
     "[\<lparr>cc_cluster_id = 1, cc_event_type = SANCTIONS, cc_similarity = Some (81 / 100)\<rparr>,
      \<lparr>cc_cluster_id = 2, cc_event_type = SANCTIONS, cc_similarity = Some (9 / 10)\<rparr>]"]
  by (simp add: decide_assignment_def better_candidate_def flt_less_def gate2_compatible_def
      NON_CLUSTERING_EVENT_TYPES_def NON_FINANCIAL_EVENT_TYPES_def)

text \<open>
  A similarity that is not a number passes the first gate: \<^verbatim>\<open>nan < threshold\<close> is false, so a candidate at no
  defined distance is joined whatever the threshold.
\<close>

lemma nan_passes_gate1:
  "gate2_compatible k k \<Longrightarrow>
     ad_cluster_id (decide_assignment k [\<lparr>cc_cluster_id = cid, cc_event_type = k, cc_similarity = None\<rparr>] threshold) = Some cid"
  by (simp add: decide_assignment_def better_candidate_def flt_less_def)

lemma candidates_from_clusters:
  assumes "find_candidate_clusters env v k n db = Inr cs" "c \<in> set cs"
  obtains r where "r \<in> set (cl_clusters db)" "cr_cluster_id r = cc_cluster_id c" "cr_event_type r = k"
    "cc_event_type c = k" "cr_state r \<in> {CS_OPEN, CS_QUIET}"
proof -
  have "set (take n (by_distance d rows)) \<subseteq> set rows" for d rows
    using set_take_subset [of n "by_distance d rows"] by (auto simp: by_distance_def)
  then show thesis using assms that
    by (fastforce simp: find_candidate_clusters_def bind_result_Inr_iff Let_def)
qed

end
