(* ===== verification/Cleansing.thy ===== *)
theory Cleansing
  imports Clustering
begin

text \<open>
  Event construction and the pipeline of the Cleansing service (\<^verbatim>\<open>merge.py\<close>, \<^verbatim>\<open>pipeline.py\<close>, and the message and
  scheduler callbacks of \<^verbatim>\<open>app.py\<close>).

  \<^verbatim>\<open>process_article\<close> is written as its part up to the assignment decision followed by the part that applies
  it: between the two the close sweep may run, and the step relations below let it.  The rows of a join
  without \<^verbatim>\<open>ORDER BY\<close> come in the order of the table.  The prompt is represented by what it is built from:
  the cluster's event type and the excerpts.
\<close>

subsection \<open>Event construction\<close>

record ClusterInputs =
  ci_record :: ClusterRecord
  ci_articles :: "member_row list"
  ci_actions :: "action_row list"

definition sources_of :: "member_row list \<Rightarrow> SourceRef list" where
  "sources_of articles =
     map (\<lambda>r. \<lparr>sr_article_id = mr_article_id r, sr_source_id = mr_source_id r, sr_canonical_url = mr_canonical_url r,
               sr_title = mr_title r, sr_published_at = mr_published_at r\<rparr>) articles"

definition present :: "string option list \<Rightarrow> string list" where
  \<comment> \<open>the truthy values\<close>
  "present values = filter (\<lambda>v. v \<noteq> []) (List.map_filter id values)"

definition distinct_nonempty :: "string option list \<Rightarrow> string list" where
  "distinct_nonempty values = foldl add_new [] (present values)"

definition actors :: "action_row list \<Rightarrow> string option list" where
  "actors actions = map (ea_actor \<circ> ar_action) actions"

definition detect_fact_conflicts ::
  "cleansing_env \<Rightarrow> action_row list \<Rightarrow> (cleansing_error, FactConflict list) result" where
  "detect_fact_conflicts env actions =
     (if length (distinct_nonempty (actors actions)) > 1
      then if list_ex (\<lambda>v. strip v = []) (present (actors actions)) then Inl (ValidationError ''value'')
           else Inr [\<lparr>fc_field = ''actor'',
             fc_values = map (\<lambda>a. \<lparr>fcv_source_id = ce_uuid_str env (ar_article_id a),
                                  fcv_value = strip (the (ea_actor (ar_action a)))\<rparr>)
               (filter (\<lambda>a. ea_actor (ar_action a) \<notin> {None, Some []}) actions),
             fc_resolution = None\<rparr>]
      else Inr [])"

definition majority :: "string option list \<Rightarrow> string option" where
  \<comment> \<open>\<^verbatim>\<open>Counter.most_common(1)\<close>: the first value of the highest count\<close>
  "majority values =
     (let vs = present values
      in if vs = [] then None
         else List.find (\<lambda>v. list_all (\<lambda>w. count_list vs w \<le> count_list vs v) vs) vs)"

fun collect_assets :: "Registry \<Rightarrow> string list \<Rightarrow> AssetId list \<Rightarrow> (cleansing_error, AssetId list) result" where
  "collect_assets reg [] acc = Inr acc"
| "collect_assets reg (raw # raws) acc =
     (case AssetId_new reg raw of
        Inl e \<Rightarrow> Inl (UnknownAsset e)
      | Inr a \<Rightarrow> collect_assets reg raws (add_new acc a))"

definition affected_assets :: "Registry \<Rightarrow> action_row list \<Rightarrow> (cleansing_error, AssetId list) result" where
  "affected_assets reg actions = collect_assets reg (concat (map (ea_affected_asset_ids \<circ> ar_action) actions)) []"

fun join_spaces :: "string list \<Rightarrow> string" where
  "join_spaces [] = []"
| "join_spaces [s] = s"
| "join_spaces (s # ss) = s @ '' '' @ join_spaces ss"

definition resolved_assets ::
  "cleansing_env \<Rightarrow> action_row list \<Rightarrow> EventType \<Rightarrow> member_row list \<Rightarrow> (cleansing_error, AssetId list) result" where
  "resolved_assets env actions k articles =
     bind_result (affected_assets (ce_registry env) actions) (\<lambda>assets.
       if assets \<noteq> [] then Inr assets
       else if k \<in> NON_CLUSTERING_EVENT_TYPES then Inr []
       else Inr (fst (gated_assets_for_event_type (ce_taxonomy env) k
              (join_spaces (filter (\<lambda>t. t \<noteq> []) (map mr_title articles))))))"

definition event_polarity :: "action_row list \<Rightarrow> EventPolarity" where
  "event_polarity actions =
     (let resolution = length (filter (\<lambda>a. ea_polarity (ar_action a) = RESOLUTION) actions)
      in if resolution > length actions - resolution then RESOLUTION else OCCURRENCE)"

definition context_tags :: "action_row list \<Rightarrow> ConditionCode list" where
  "context_tags actions = foldl add_new [] (concat (map (ea_context_tags \<circ> ar_action) actions))"

definition envelope_id :: "uuid \<Rightarrow> member_row list \<Rightarrow> uuid" where
  "envelope_id fresh articles = (case articles of [] \<Rightarrow> fresh | r # _ \<Rightarrow> mr_correlation_id r)"

definition seen_between :: "ClusterInputs \<Rightarrow> instant \<times> instant" where
  "seen_between inputs =
     (let ts = map mr_published_at (ci_articles inputs)
      in if ts = [] then (cr_first_seen_at (ci_record inputs), cr_last_seen_at (ci_record inputs))
         else (Min (set ts), Max (set ts)))"

definition event_of ::
  "cleansing_env \<Rightarrow> instant \<Rightarrow> uuid \<Rightarrow> ClusterInputs \<Rightarrow> string \<Rightarrow> string option \<times> string option \<times> string option \<Rightarrow>
   FactConflict list \<Rightarrow> ExtractionMethod \<Rightarrow> LlmMetadata option \<Rightarrow> (cleansing_error, EventDetected) result" where
  \<comment> \<open>the constructor call both builders end with; empty strings are refused by the model's validation\<close>
  "event_of env now fresh inputs summary triple conflicts meth metadata =
     bind_result (resolved_assets env (ci_actions inputs) (cr_event_type (ci_record inputs)) (ci_articles inputs)) (\<lambda>assets.
       if strip summary = [] \<or> list_ex (\<lambda>r. strip (mr_title r) = [] \<or> strip (mr_source_id r) = []) (ci_articles inputs)
       then Inl (ValidationError ''String should have at least 1 character'')
       else Inr
         \<lparr>message_id = fresh, correlation_id = envelope_id (fresh + 2) (ci_articles inputs), causation_id = None,
          occurred_at = now, ed_event_id = fresh + 1, ed_cluster_id = cr_cluster_id (ci_record inputs),
          ed_canonical_summary = strip summary, ed_event_type = cr_event_type (ci_record inputs),
          ed_actor = fst triple, ed_action = fst (snd triple), ed_object = snd (snd triple), ed_entities = [],
          ed_affected_asset_ids = assets, ed_polarity = event_polarity (ci_actions inputs),
          ed_context_tags = context_tags (ci_actions inputs), ed_first_seen_at = fst (seen_between inputs),
          ed_last_seen_at = snd (seen_between inputs), ed_sources = sources_of (ci_articles inputs),
          ed_fact_conflicts = conflicts, ed_extraction_method = meth, ed_llm_metadata = metadata\<rparr>)"

definition build_local_event :: "cleansing_env \<Rightarrow> instant \<Rightarrow> uuid \<Rightarrow> ClusterInputs \<Rightarrow> (cleansing_error, EventDetected) result" where
  "build_local_event env now fresh inputs =
     event_of env now fresh inputs
       (case ci_articles inputs of [] \<Rightarrow> EventType_value (cr_event_type (ci_record inputs)) | r # _ \<Rightarrow> mr_title r)
       (majority (actors (ci_actions inputs)), majority (map (ea_action_lemma \<circ> ar_action) (ci_actions inputs)),
        majority (map (ea_object \<circ> ar_action) (ci_actions inputs)))
       [] LOCAL None"

definition opt_str :: "(json \<Rightarrow> string) \<Rightarrow> json option \<Rightarrow> string option" where
  "opt_str pystr v =
     (case v of
        None \<Rightarrow> None
      | Some JNull \<Rightarrow> None
      | Some j \<Rightarrow> if strip (json_str pystr j) = [] then None else Some (strip (json_str pystr j)))"

definition llm_merge ::
  "cleansing_env \<Rightarrow> LlmMerger \<Rightarrow> instant \<Rightarrow> uuid \<Rightarrow> ClusterInputs \<Rightarrow> (cleansing_error, EventDetected) result" where
  "llm_merge env lg now fresh inputs =
     (case lg_gateway lg (cr_event_type (ci_record inputs))
             (map (\<lambda>r. take (lg_excerpt_chars lg) (mr_title r)) (take (lg_max_excerpts lg) (ci_articles inputs))) of
        Inl err \<Rightarrow> Inl (AmbiguousMergeError (''LLM merge failed: '' @ err))
      | Inr r \<Rightarrow>
          let field = jget (ma_content r);
              summary = (if jget_truthy (ma_content r) ''canonical_summary''
                         then strip (json_str (ce_pystr env) (the (field ''canonical_summary''))) else [])
          in if summary = [] then Inl (AmbiguousMergeError ''LLM merge returned an empty canonical_summary'')
             else
               bind_result (detect_fact_conflicts env (ci_actions inputs)) (\<lambda>conflicts.
               event_of env now fresh inputs summary
                 (opt_str (ce_pystr env) (field ''actor''), opt_str (ce_pystr env) (field ''action''),
                  opt_str (ce_pystr env) (field ''object''))
                 conflicts LLM_ASSISTED
                 (Some \<lparr>lm_prompt_version = ma_prompt_version r, lm_model = ma_model r, lm_context_hash = ma_context_hash r,
                   lm_input_tokens = ma_input_tokens r, lm_output_tokens = ma_output_tokens r,
                   lm_latency_ms = ma_latency_ms r, lm_attempt_count = max 1 (ma_attempt_count r),
                   lm_status = (if ma_status r = ''SUCCESS'' then SUCCESS else FAILED)\<rparr>)))"

subsection \<open>One article\<close>

definition facts_from_message :: "ArticleIngested \<Rightarrow> ArticleFacts" where
  "facts_from_message m =
     \<lparr>af_article_id = ai_article_id m, af_source_id = ai_source_id m, af_canonical_url = ai_canonical_url m,
      af_title = ai_title m, af_body = ai_body m, af_language = ai_language m, af_country = ai_country m,
      af_published_at = ai_published_at m, af_correlation_id = correlation_id m\<rparr>"

definition title_usable :: "cleansing_env \<Rightarrow> ArticleFacts \<Rightarrow> string" where
  "title_usable env f = tq_usable (assess_text (tx_tools (ce_taxonomy env)) True (af_title f))"

definition body_usable :: "cleansing_env \<Rightarrow> ArticleFacts \<Rightarrow> string" where
  "body_usable env f = tq_usable (assess_text (tx_tools (ce_taxonomy env)) False (af_body f))"

definition article_text :: "cleansing_env \<Rightarrow> ArticleFacts \<Rightarrow> string" where
  "article_text env f = title_usable env f @ [newline] @ body_usable env f"

definition clean_facts :: "cleansing_env \<Rightarrow> ArticleFacts \<Rightarrow> ArticleFacts" where
  "clean_facts env f =
     f\<lparr>af_title := (if title_usable env f = [] then ''[unusable title]'' else title_usable env f),
       af_body := body_usable env f\<rparr>"

definition fingerprint_of :: "cleansing_env \<Rightarrow> ArticleFacts \<Rightarrow> 64 word" where
  "fingerprint_of env f = simhash (ce_feature_hash env) (ce_tokens env (article_text env f))"

definition near_duplicate :: "cleansing_env \<Rightarrow> instant \<Rightarrow> ArticleFacts \<Rightarrow> cleansing_db \<Rightarrow> bool" where
  "near_duplicate env now f db =
     list_ex (\<lambda>existing. is_near_duplicate (fingerprint_of env f) existing (cs_simhash_max_distance (ce_settings env)))
       (recent_fingerprints env (now - minutes (60 * cs_dedup_window_hours (ce_settings env))) db)"

definition action_of :: "cleansing_env \<Rightarrow> ArticleFacts \<Rightarrow> ExtractedAction" where
  "action_of env f =
     (let S = ce_settings env; (title, body) = prepare_inputs (ce_taxonomy env) (cs_mode S) (af_title f) (af_body f)
      in extract_action (ce_taxonomy env) (cs_nlp_backend S) (ce_pipelines env) (ce_classifier env) (cs_mode S)
           title (af_language f) body (af_canonical_url f))"

record assignment =
  an_facts :: ArticleFacts
  an_event_type :: EventType
  an_vector :: "flt list"
  an_cluster :: "uuid option"
  an_quiet_at :: instant
  an_lifetime_at :: instant

definition assign_decision ::
  "cleansing_env \<Rightarrow> instant \<Rightarrow> ArticleFacts \<Rightarrow> EventType \<Rightarrow> flt list \<Rightarrow> assignment cleansing_prog" where
  \<comment> \<open>\<^verbatim>\<open>_assign_to_cluster\<close> up to the decision\<close>
  "assign_decision env now f k v =
     bind_p (\<lambda>db. (if k = OTHER then Inr [] else find_candidate_clusters env v k 5 db, db)) (\<lambda>candidates.
     return_p \<lparr>an_facts = f, an_event_type = k, an_vector = v,
       an_cluster = ad_cluster_id (decide_assignment k candidates (cs_similarity_threshold (ce_settings env))),
       an_quiet_at = quiet_deadline now (cs_quiet_period_minutes (ce_settings env)),
       an_lifetime_at = lifetime_deadline now (cs_max_lifetime_hours (ce_settings env))\<rparr>)"

definition apply_assignment :: "cleansing_env \<Rightarrow> assignment \<Rightarrow> unit cleansing_prog" where
  "apply_assignment env a =
     (case an_cluster a of
        None \<Rightarrow> bind_p (create_cluster env (an_facts a) (an_event_type a) (an_vector a) (an_quiet_at a) (an_lifetime_at a))
                  (\<lambda>_. return_p ())
      | Some cid \<Rightarrow> add_article_to_cluster env cid (an_facts a) (an_vector a) (an_quiet_at a))"

definition begin_article :: "cleansing_env \<Rightarrow> instant \<Rightarrow> ArticleIngested \<Rightarrow> assignment option cleansing_prog" where
  \<comment> \<open>\<^verbatim>\<open>process_article\<close> up to the assignment decision; \<open>None\<close> when it returned early\<close>
  "begin_article env now m =
     (let f0 = facts_from_message m; f = clean_facts env f0 in
      bind_p (read_p (article_already_processed (af_article_id f0))) (\<lambda>replayed.
      if replayed then return_p None else
      bind_p (read_p (near_duplicate env now f0)) (\<lambda>duplicate.
      if duplicate then return_p None else
      bind_p (lift_p (case ce_embed env (article_text env f0) of
                        Inl err \<Rightarrow> Inl (EmbeddingUnavailableError err) | Inr v \<Rightarrow> Inr v)) (\<lambda>v.
      let action = action_of env f0 in
      bind_p (store_fingerprint env (af_article_id f) (fingerprint_of env f0) (af_source_id f) (af_published_at f)) (\<lambda>_.
      bind_p (store_embedding env (af_article_id f) v) (\<lambda>_.
      bind_p (store_action (af_article_id f) action (af_language f)) (\<lambda>_.
      bind_p (assign_decision env now f (ea_event_type action) v) (\<lambda>a.
      return_p (Some a)))))))))"

definition process_article :: "cleansing_env \<Rightarrow> instant \<Rightarrow> ArticleIngested \<Rightarrow> unit cleansing_prog" where
  "process_article env now m =
     bind_p (begin_article env now m) (\<lambda>r.
       case r of None \<Rightarrow> return_p () | Some a \<Rightarrow> apply_assignment env a)"

subsection \<open>The close sweep\<close>

definition inputs_of :: "ClusterRecord \<Rightarrow> cleansing_db \<Rightarrow> ClusterInputs" where
  "inputs_of r db =
     \<lparr>ci_record = r, ci_articles = load_cluster_articles (cr_cluster_id r) db,
      ci_actions = load_cluster_actions (cr_cluster_id r) db\<rparr>"

definition merge_event :: "cleansing_env \<Rightarrow> instant \<Rightarrow> ClusterRecord \<Rightarrow> cleansing_db \<Rightarrow> (cleansing_error, EventDetected) result" where
  "merge_event env now r db =
     bind_result (detect_fact_conflicts env (ci_actions (inputs_of r db))) (\<lambda>conflicts.
       if conflicts \<noteq> [] then
         (case ce_merger env of
            None \<Rightarrow> Inl (AmbiguousMergeError ''ambiguous cluster and no LLM merger configured'')
          | Some lg \<Rightarrow> llm_merge env lg now (cl_next_uuid db) (inputs_of r db))
       else build_local_event env now (cl_next_uuid db) (inputs_of r db))"

definition close_one :: "cleansing_env \<Rightarrow> instant \<Rightarrow> ClusterRecord \<Rightarrow> nat \<Rightarrow> nat cleansing_prog" where
  "close_one env now r produced db =
     (case merge_event env now r db of
        Inl (AmbiguousMergeError _) \<Rightarrow> (Inr produced, set_cluster_state (cr_cluster_id r) CS_ERROR_RETRYABLE db)
      | Inl err \<Rightarrow> (Inl err, db)
      | Inr e \<Rightarrow> (Inr (produced + 1), store_event_with_outbox now e (db\<lparr>cl_next_uuid := cl_next_uuid db + 3\<rparr>)))"

definition close_ready_clusters :: "cleansing_env \<Rightarrow> instant \<Rightarrow> nat cleansing_prog" where
  "close_ready_clusters env now =
     bind_p (claim_ready_clusters env now 20) (\<lambda>claimed. fold_p (close_one env now) claimed 0)"

subsection \<open>Callbacks\<close>

definition publish_events ::
  "(EventDetected \<Rightarrow> string option) \<Rightarrow> instant \<Rightarrow> nat \<Rightarrow> cleansing_db \<Rightarrow> cleansing_db \<times> (uuid \<times> EventDetected) list" where
  "publish_events send now batch_size db =
     (let (rows, sent) = cleansing_publish_pending send now batch_size (cl_outbox db) in (db\<lparr>cl_outbox := rows\<rparr>, sent))"

definition run_close ::
  "cleansing_env \<Rightarrow> (EventDetected \<Rightarrow> string option) \<Rightarrow> instant \<Rightarrow> cleansing_db \<Rightarrow> cleansing_db \<times> (uuid \<times> EventDetected) list" where
  \<comment> \<open>\<^verbatim>\<open>_run_close\<close>: an exception of the sweep is logged, and nothing is published in that tick\<close>
  "run_close env send now db =
     (case close_ready_clusters env now db of
        (Inl _, db') \<Rightarrow> (db', [])
      | (Inr _, db') \<Rightarrow> publish_events send now 100 db')"

datatype consumer_outcome = Acked | DeadLettered string | Failed cleansing_error

definition on_article :: "cleansing_env \<Rightarrow> instant \<Rightarrow> (string, ArticleIngested) result \<Rightarrow> cleansing_db \<Rightarrow> consumer_outcome \<times> cleansing_db" where
  \<comment> \<open>\<^verbatim>\<open>_on_message\<close>, on the outcome of decoding the body\<close>
  "on_article env now decoded db =
     (case decoded of
        Inl err \<Rightarrow> (DeadLettered (''invalid ArticleIngested: '' @ err), db)
      | Inr m \<Rightarrow> (case process_article env now m db of
                     (Inl e, db') \<Rightarrow> (Failed e, db')
                   | (Inr _, db') \<Rightarrow> (Acked, db')))"

end
