(* ===== verification/CleansingSafety.thy ===== *)
theory CleansingSafety
  imports Cleansing
begin

text \<open>
  What holds of the Cleansing service in every interleaving.  The consumer and the close sweep are two tasks
  of one event loop: between the assignment decision of an article and the statement that applies it, and
  between the claim of a cluster and its event, the other task may run.  \<open>cl_step\<close> is one atomic piece of
  either task; the environment (registry, vocabulary, settings, backends) may differ from step to step.
\<close>

subsection \<open>Interleavings\<close>

record cleansing_sys =
  sy_db :: cleansing_db
  sy_joins :: "assignment list" \<comment> \<open>articles between their decision and its application\<close>
  sy_claims :: "ClusterRecord list" \<comment> \<open>claimed clusters the sweep has still to close\<close>

inductive cl_step :: "cleansing_sys \<Rightarrow> cleansing_sys \<Rightarrow> bool" where
  decided: "begin_article env now m (sy_db s) = (Inr (Some a), db) \<Longrightarrow>
     cl_step s (s\<lparr>sy_db := db, sy_joins := a # sy_joins s\<rparr>)"
| skipped: "begin_article env now m (sy_db s) = (r, db) \<Longrightarrow> (\<And>a. r \<noteq> Inr (Some a)) \<Longrightarrow> cl_step s (s\<lparr>sy_db := db\<rparr>)"
| applied: "a \<in> set (sy_joins s) \<Longrightarrow> apply_assignment env a (sy_db s) = (r, db) \<Longrightarrow>
     cl_step s (s\<lparr>sy_db := db, sy_joins := remove1 a (sy_joins s)\<rparr>)"
| claimed: "claim_ready_clusters env now n (sy_db s) = (Inr rows, db) \<Longrightarrow>
     cl_step s (s\<lparr>sy_db := db, sy_claims := sy_claims s @ rows\<rparr>)"
| closed: "sy_claims s = row # rows \<Longrightarrow> close_one env now row n (sy_db s) = (r, db) \<Longrightarrow>
     cl_step s (s\<lparr>sy_db := db, sy_claims := rows\<rparr>)"
| published: "publish_events send now n (sy_db s) = (db, sent) \<Longrightarrow> cl_step s (s\<lparr>sy_db := db\<rparr>)"
| stopped: "cl_step s (s\<lparr>sy_joins := [], sy_claims := []\<rparr>)"

definition empty_cleansing :: cleansing_db where
  "empty_cleansing =
     \<lparr>cl_fingerprints = [], cl_embeddings = [], cl_actions = [], cl_clusters = [], cl_members = [], cl_events = [],
      cl_outbox = [], cl_next_uuid = 0\<rparr>"

definition initial_sys :: cleansing_sys where
  "initial_sys = \<lparr>sy_db = empty_cleansing, sy_joins = [], sy_claims = []\<rparr>"

abbreviation cl_reachable :: "cleansing_sys \<Rightarrow> bool" where
  "cl_reachable s \<equiv> cl_step\<^sup>*\<^sup>* initial_sys s"

subsection \<open>The invariant\<close>

definition cluster_types :: "cleansing_db \<Rightarrow> (uuid \<times> EventType) list" where
  "cluster_types db = map (\<lambda>c. (cr_cluster_id c, cr_event_type c)) (cl_clusters db)"

definition typed_action :: "cleansing_db \<Rightarrow> uuid \<Rightarrow> EventType \<Rightarrow> bool" where
  "typed_action db aid k \<longleftrightarrow> (\<exists>r \<in> set (cl_actions db). ar_article_id r = aid \<and> ea_event_type (ar_action r) = k)"

definition member_ok :: "cleansing_db \<Rightarrow> member_row \<Rightarrow> bool" where
  "member_ok db m \<longleftrightarrow> (\<exists>k. (mr_cluster_id m, k) \<in> set (cluster_types db) \<and> typed_action db (mr_article_id m) k)"

definition event_ok :: "cleansing_db \<Rightarrow> EventDetected \<Rightarrow> bool" where
  "event_ok db e \<longleftrightarrow>
     (ed_cluster_id e, ed_event_type e) \<in> set (cluster_types db) \<and>
     (ed_event_type e \<in> NON_CLUSTERING_EVENT_TYPES \<longrightarrow> ed_affected_asset_ids e = []) \<and>
     (\<forall>x \<in> set (ed_sources e). \<exists>m \<in> set (cl_members db).
        mr_cluster_id m = ed_cluster_id e \<and> mr_article_id m = sr_article_id x)"

definition types_ok :: "cleansing_db \<Rightarrow> bool" where
  "types_ok db \<longleftrightarrow> distinct (map fst (cluster_types db)) \<and> (\<forall>p \<in> set (cluster_types db). fst p < cl_next_uuid db)"

definition actions_ok :: "cleansing_db \<Rightarrow> bool" where
  "actions_ok db \<longleftrightarrow>
     distinct (map ar_article_id (cl_actions db)) \<and>
     ar_article_id ` set (cl_actions db) \<subseteq> fp_article_id ` set (cl_fingerprints db) \<and>
     (\<forall>r \<in> set (cl_actions db). ea_event_type (ar_action r) \<in> NON_CLUSTERING_EVENT_TYPES \<longrightarrow>
        ea_affected_asset_ids (ar_action r) = [])"

definition alone :: "cleansing_db \<Rightarrow> uuid \<Rightarrow> bool" where
  \<comment> \<open>the cluster has at most one article\<close>
  "alone db cid \<longleftrightarrow>
     (\<forall>m \<in> set (cl_members db). \<forall>m' \<in> set (cl_members db).
        mr_cluster_id m = cid \<longrightarrow> mr_cluster_id m' = cid \<longrightarrow> mr_article_id m = mr_article_id m')"

definition memberships_ok :: "cleansing_db \<Rightarrow> bool" where
  "memberships_ok db \<longleftrightarrow>
     (\<forall>m \<in> set (cl_members db). member_ok db m) \<and>
     (\<forall>cid k. (cid, k) \<in> set (cluster_types db) \<longrightarrow> k \<in> NON_CLUSTERING_EVENT_TYPES \<longrightarrow> alone db cid)"

definition events_ok :: "cleansing_db \<Rightarrow> bool" where
  "events_ok db \<longleftrightarrow> (\<forall>e \<in> ob_payload ` set (cl_outbox db). event_ok db e)"

definition good_db :: "cleansing_db \<Rightarrow> bool" where
  "good_db db \<longleftrightarrow> types_ok db \<and> actions_ok db \<and> memberships_ok db \<and> events_ok db"

lemma good_dbD:
  assumes "good_db db"
  shows "distinct (map fst (cluster_types db))" "p \<in> set (cluster_types db) \<Longrightarrow> fst p < cl_next_uuid db"
    "distinct (map ar_article_id (cl_actions db))"
    "ar_article_id ` set (cl_actions db) \<subseteq> fp_article_id ` set (cl_fingerprints db)"
    "r \<in> set (cl_actions db) \<Longrightarrow> ea_event_type (ar_action r) \<in> NON_CLUSTERING_EVENT_TYPES \<Longrightarrow>
       ea_affected_asset_ids (ar_action r) = []"
    "m \<in> set (cl_members db) \<Longrightarrow> member_ok db m"
    "(cid, k) \<in> set (cluster_types db) \<Longrightarrow> k \<in> NON_CLUSTERING_EVENT_TYPES \<Longrightarrow> alone db cid"
    "e \<in> ob_payload ` set (cl_outbox db) \<Longrightarrow> event_ok db e"
  using assms unfolding good_db_def types_ok_def actions_ok_def memberships_ok_def events_ok_def by blast+

definition good_join :: "cleansing_db \<Rightarrow> assignment \<Rightarrow> bool" where
  "good_join db a \<longleftrightarrow>
     typed_action db (af_article_id (an_facts a)) (an_event_type a) \<and>
     (\<forall>cid. an_cluster a = Some cid \<longrightarrow>
        (cid, an_event_type a) \<in> set (cluster_types db) \<and> an_event_type a \<notin> NON_CLUSTERING_EVENT_TYPES)"

definition good_claim :: "cleansing_db \<Rightarrow> ClusterRecord \<Rightarrow> bool" where
  "good_claim db r \<longleftrightarrow> (cr_cluster_id r, cr_event_type r) \<in> set (cluster_types db)"

definition good_sys :: "cleansing_sys \<Rightarrow> bool" where
  "good_sys s \<longleftrightarrow> good_db (sy_db s) \<and> (\<forall>a \<in> set (sy_joins s). good_join (sy_db s) a) \<and>
     (\<forall>r \<in> set (sy_claims s). good_claim (sy_db s) r)"

definition grows :: "cleansing_db \<Rightarrow> cleansing_db \<Rightarrow> bool" where
  \<comment> \<open>no cluster changes its type or disappears, no action and no membership is lost\<close>
  "grows db db' \<longleftrightarrow>
     set (cluster_types db) \<subseteq> set (cluster_types db') \<and> set (cl_actions db) \<subseteq> set (cl_actions db') \<and>
     set (cl_members db) \<subseteq> set (cl_members db')"

lemma grows_refl [simp]: "grows db db"
  by (simp add: grows_def)

lemma grows_trans: "grows a b \<Longrightarrow> grows b c \<Longrightarrow> grows a c"
  by (auto simp: grows_def)

lemma grows_stable:
  assumes "grows db db'"
  shows "typed_action db aid k \<Longrightarrow> typed_action db' aid k"
    and "member_ok db m \<Longrightarrow> member_ok db' m"
    and "event_ok db e \<Longrightarrow> event_ok db' e"
    and "good_join db a \<Longrightarrow> good_join db' a"
    and "good_claim db r \<Longrightarrow> good_claim db' r"
  using assms
  unfolding grows_def typed_action_def member_ok_def event_ok_def good_join_def good_claim_def
  by (blast | fast)+

lemma good_sys_step:
  assumes "good_sys s" "grows (sy_db s) db'" "good_db db'"
    "set joins \<subseteq> set (sy_joins s)" "set claims \<subseteq> set (sy_claims s)"
  shows "good_sys (s\<lparr>sy_db := db', sy_joins := joins, sy_claims := claims\<rparr>)"
  using assms grows_stable [OF assms(2)] by (auto simp: good_sys_def)

subsection \<open>The operations keep it\<close>

lemma cluster_types_update [simp]:
  assumes "\<And>r. cr_cluster_id (f r) = cr_cluster_id r" "\<And>r. cr_event_type (f r) = cr_event_type r"
  shows "cluster_types (update_cluster cid f db) = cluster_types db"
  using assms by (auto simp: cluster_types_def update_cluster_def update_where_def)

lemma update_cluster_other [simp]:
  "cl_next_uuid (update_cluster cid f db) = cl_next_uuid db"
  "cl_actions (update_cluster cid f db) = cl_actions db"
  "cl_fingerprints (update_cluster cid f db) = cl_fingerprints db"
  "cl_members (update_cluster cid f db) = cl_members db"
  "cl_outbox (update_cluster cid f db) = cl_outbox db"
  "cl_events (update_cluster cid f db) = cl_events db"
  "cl_embeddings (update_cluster cid f db) = cl_embeddings db"
  by (simp_all add: update_cluster_def)

lemma same_rows:
  assumes "cluster_types db' = cluster_types db" "cl_actions db' = cl_actions db" "cl_members db' = cl_members db"
  shows "member_ok db' = member_ok db" "event_ok db' = event_ok db" "typed_action db' = typed_action db"
    "grows db db'"
  using assms by (auto simp: fun_eq_iff member_ok_def event_ok_def typed_action_def grows_def)

lemma same_rows_ok:
  assumes "cluster_types db' = cluster_types db" "cl_actions db' = cl_actions db" "cl_members db' = cl_members db"
  shows "memberships_ok db' = memberships_ok db"
    "cl_next_uuid db \<le> cl_next_uuid db' \<Longrightarrow> types_ok db \<Longrightarrow> types_ok db'"
    "cl_fingerprints db' = cl_fingerprints db \<Longrightarrow> actions_ok db' = actions_ok db"
proof -
  show "memberships_ok db' = memberships_ok db"
    by (simp only: memberships_ok_def alone_def same_rows [OF assms] assms)
  show "types_ok db'" if "cl_next_uuid db \<le> cl_next_uuid db'" "types_ok db"
    using that unfolding types_ok_def assms(1) by (meson order_less_le_trans)
  show "actions_ok db' = actions_ok db" if "cl_fingerprints db' = cl_fingerprints db"
    by (simp only: actions_ok_def assms that)
qed

lemma good_db_cong:
  assumes "good_db db" "cluster_types db' = cluster_types db" "cl_actions db' = cl_actions db"
    "cl_members db' = cl_members db" "cl_next_uuid db \<le> cl_next_uuid db'"
    "cl_fingerprints db' = cl_fingerprints db" "ob_payload ` set (cl_outbox db') \<subseteq> ob_payload ` set (cl_outbox db)"
  shows "good_db db'"
proof -
  have "events_ok db'" using assms(1,7) unfolding events_ok_def good_db_def same_rows [OF assms(2-4)] by blast
  then show ?thesis using assms(1,5,6) same_rows_ok [OF assms(2-4)] by (simp add: good_db_def)
qed

lemma good_update_cluster:
  assumes "\<And>r. cr_cluster_id (f r) = cr_cluster_id r" "\<And>r. cr_event_type (f r) = cr_event_type r" "good_db db"
  shows "good_db (update_cluster cid f db)" "grows db (update_cluster cid f db)"
proof -
  show "good_db (update_cluster cid f db)" using assms by (intro good_db_cong [OF assms(3)]) simp_all
  show "grows db (update_cluster cid f db)" using assms by (intro same_rows(4)) simp_all
qed

lemma good_set_state:
  assumes "good_db db"
  shows "good_db (set_cluster_state cid st db)" "grows db (set_cluster_state cid st db)"
  unfolding set_cluster_state_def by (rule good_update_cluster, simp_all add: assms)+

lemma type_unique:
  assumes "good_db db" "(cid, k) \<in> set (cluster_types db)" "(cid, k') \<in> set (cluster_types db)"
  shows "k = k'"
  using eq_key_imp_eq_value [OF good_dbD(1) [OF assms(1)] assms(2,3)] .

lemma grows_insert_membership: "grows db (insert_membership cid f db)"
  by (auto simp: grows_def insert_membership_def cluster_types_def intro: insert_new_keeps)

lemma insert_membership_other [simp]:
  "cluster_types (insert_membership cid f db) = cluster_types db"
  "cl_next_uuid (insert_membership cid f db) = cl_next_uuid db"
  "cl_actions (insert_membership cid f db) = cl_actions db"
  "cl_fingerprints (insert_membership cid f db) = cl_fingerprints db"
  "cl_outbox (insert_membership cid f db) = cl_outbox db"
  "cl_clusters (insert_membership cid f db) = cl_clusters db"
  "cl_events (insert_membership cid f db) = cl_events db"
  by (simp_all add: insert_membership_def cluster_types_def)

lemma members_insert_membership: "set (cl_members (insert_membership cid f db)) \<subseteq> insert (member_of cid f) (set (cl_members db))"
  using insert_new_subset by (simp add: insert_membership_def)

lemma good_insert_membership:
  assumes good: "good_db db" and ct: "(cid, k) \<in> set (cluster_types db)"
    and act: "typed_action db (af_article_id f) k"
    and fresh: "k \<notin> NON_CLUSTERING_EVENT_TYPES \<or> cid \<notin> mr_cluster_id ` set (cl_members db)"
  shows "good_db (insert_membership cid f db)"
proof -
  let ?db = "insert_membership cid f db"
  have grow: "grows db ?db" by (rule grows_insert_membership)
  have new: "m \<in> set (cl_members ?db) \<Longrightarrow> m = member_of cid f \<or> m \<in> set (cl_members db)" for m
    using members_insert_membership [of cid f db] by auto
  have "member_ok ?db m" if m: "m \<in> set (cl_members ?db)" for m
  proof (cases "m = member_of cid f")
    case True
    then show ?thesis using ct grows_stable(1) [OF grow act] by (auto simp: member_ok_def member_of_def)
  next
    case False
    then have "m \<in> set (cl_members db)" using new [OF m] by blast
    then show ?thesis by (intro grows_stable(2) [OF grow] good_dbD(6) [OF good])
  qed
  moreover have "alone ?db c" if p: "(c, k') \<in> set (cluster_types db)" "k' \<in> NON_CLUSTERING_EVENT_TYPES" for c k'
  proof (cases "c = cid")
    case True
    then have "k' = k" using type_unique [OF good, of cid k' k] p(1) ct by simp
    then have none: "cid \<notin> mr_cluster_id ` set (cl_members db)" using fresh p(2) by simp
    have only: "m = member_of cid f" if "m \<in> set (cl_members ?db)" "mr_cluster_id m = cid" for m
      using new [OF that(1)] that(2) none by blast
    show ?thesis unfolding alone_def True by (metis only)
  next
    case False
    have old: "m \<in> set (cl_members db)" if "m \<in> set (cl_members ?db)" "mr_cluster_id m = c" for m
      using new [OF that(1)] that(2) False by (auto simp: member_of_def)
    show ?thesis using good_dbD(7) [OF good p] unfolding alone_def by (meson old)
  qed
  moreover have "events_ok ?db"
    unfolding events_ok_def insert_membership_other using good_dbD(8) [OF good] grows_stable(3) [OF grow] by blast
  ultimately show ?thesis using good by (simp add: good_db_def types_ok_def actions_ok_def memberships_ok_def)
qed

lemma cluster_actions_typed:
  assumes "good_db db" "(cid, k) \<in> set (cluster_types db)" "a \<in> set (load_cluster_actions cid db)"
  shows "a \<in> set (cl_actions db)" "ea_event_type (ar_action a) = k"
proof -
  show a: "a \<in> set (cl_actions db)" using assms(3) by (simp add: load_cluster_actions_def)
  obtain m where m: "m \<in> set (cl_members db)" "mr_cluster_id m = cid" "mr_article_id m = ar_article_id a"
    using assms(3) by (auto simp: load_cluster_actions_def)
  then obtain k' where k': "(cid, k') \<in> set (cluster_types db)" "typed_action db (ar_article_id a) k'"
    using good_dbD(6) [OF assms(1)] unfolding member_ok_def by metis
  then have "k' = k" using type_unique [OF assms(1)] assms(2) by blast
  moreover obtain r where r: "r \<in> set (cl_actions db)" "ar_article_id r = ar_article_id a" "ea_event_type (ar_action r) = k'"
    using k'(2) by (auto simp: typed_action_def)
  moreover have "r = a" using good_dbD(3) [OF assms(1)] r(1,2) a by (metis distinct_map inj_onD)
  ultimately show "ea_event_type (ar_action a) = k" by simp
qed

lemma collect_assets_Nil [simp]: "collect_assets reg [] acc = Inr acc"
  by simp

lemma resolved_assets_rejected:
  assumes "k \<in> NON_CLUSTERING_EVENT_TYPES" "\<And>a. a \<in> set actions \<Longrightarrow> ea_affected_asset_ids (ar_action a) = []"
  shows "resolved_assets env actions k articles = Inr []"
proof -
  have none: "concat (map (ea_affected_asset_ids \<circ> ar_action) actions) = []" using assms(2) by simp
  show ?thesis unfolding resolved_assets_def affected_assets_def none using assms(1) by simp
qed

lemma event_of_Inr:
  assumes "event_of env now fresh inputs summary triple conflicts meth metadata = Inr e"
  shows "ed_cluster_id e = cr_cluster_id (ci_record inputs)" "ed_event_type e = cr_event_type (ci_record inputs)"
    "ed_sources e = sources_of (ci_articles inputs)" "message_id e = fresh" "ed_event_id e = fresh + 1"
    "resolved_assets env (ci_actions inputs) (cr_event_type (ci_record inputs)) (ci_articles inputs) =
       Inr (ed_affected_asset_ids e)"
    "occurred_at e = now"
  using assms by (auto simp: event_of_def bind_result_Inr_iff split: if_splits)

lemma merge_event_Inr:
  assumes "merge_event env now r db = Inr e"
  obtains summary triple conflicts meth metadata where
    "event_of env now (cl_next_uuid db) (inputs_of r db) summary triple conflicts meth metadata = Inr e"
  using assms
  by (auto simp: merge_event_def bind_result_Inr_iff llm_merge_def build_local_event_def Let_def
      split: if_splits option.splits sum.splits)

lemma merge_event_ok:
  assumes good: "good_db db" and claim: "good_claim db r" and e: "merge_event env now r db = Inr e"
  shows "event_ok db e" "ed_cluster_id e = cr_cluster_id r" "message_id e = cl_next_uuid db"
proof -
  obtain summary triple conflicts meth metadata where
    ev: "event_of env now (cl_next_uuid db) (inputs_of r db) summary triple conflicts meth metadata = Inr e"
    using merge_event_Inr [OF e] .
  note of_e = event_of_Inr [OF ev]
  show cid: "ed_cluster_id e = cr_cluster_id r" and "message_id e = cl_next_uuid db"
    using of_e by (simp_all add: inputs_of_def)
  have ct: "(cr_cluster_id r, cr_event_type r) \<in> set (cluster_types db)" using claim by (simp add: good_claim_def)
  have "ed_affected_asset_ids e = []" if "cr_event_type r \<in> NON_CLUSTERING_EVENT_TYPES"
  proof -
    have "ea_affected_asset_ids (ar_action a) = []" if "a \<in> set (load_cluster_actions (cr_cluster_id r) db)" for a
      using cluster_actions_typed [OF good ct that] \<open>cr_event_type r \<in> NON_CLUSTERING_EVENT_TYPES\<close>
      by (intro good_dbD(5) [OF good]) simp_all
    then show ?thesis using of_e(6) resolved_assets_rejected [OF that] by (simp add: inputs_of_def)
  qed
  moreover have "\<exists>m \<in> set (cl_members db). mr_cluster_id m = cr_cluster_id r \<and> mr_article_id m = sr_article_id x"
    if "x \<in> set (ed_sources e)" for x
    using that of_e(3) by (auto simp: inputs_of_def sources_of_def load_cluster_articles_def)
  ultimately show "event_ok db e" using ct of_e(1,2) cid by (simp add: event_ok_def inputs_of_def)
qed

lemma good_store_event:
  assumes good: "good_db db" and e: "event_ok db e"
  shows "good_db (store_event_with_outbox now e db)" "grows db (store_event_with_outbox now e db)"
proof -
  define db1 where "db1 = db\<lparr>cl_events := insert_new er_cluster_id
             \<lparr>er_event_id = ed_event_id e, er_cluster_id = ed_cluster_id e, er_event_type = ed_event_type e,
              er_canonical_summary = ed_canonical_summary e, er_extraction_method = ed_extraction_method e,
              er_payload = e\<rparr> (cl_events db),
           cl_outbox := insert_new ob_message_id (new_outbox_row (message_id e) (ed_event_id e) e now) (cl_outbox db)\<rparr>"
  have rows: "cluster_types db1 = cluster_types db" "cl_actions db1 = cl_actions db" "cl_members db1 = cl_members db"
    by (simp_all add: db1_def cluster_types_def)
  have "r \<in> set (cl_outbox db1) \<Longrightarrow> r \<in> set (cl_outbox db) \<or> ob_payload r = e" for r
    using insert_new_subset [of ob_message_id "new_outbox_row (message_id e) (ed_event_id e) e now" "cl_outbox db"]
    by (auto simp: db1_def new_outbox_row_def)
  then have "events_ok db1" using good_dbD(8) [OF good] e unfolding events_ok_def same_rows [OF rows] by blast
  moreover have "types_ok db1" "actions_ok db1" "memberships_ok db1"
    using good same_rows_ok [OF rows] by (simp_all add: good_db_def db1_def)
  ultimately have "good_db db1" by (simp add: good_db_def)
  moreover have "store_event_with_outbox now e db = set_cluster_state (ed_cluster_id e) CS_MERGED db1"
    by (simp add: store_event_with_outbox_def db1_def)
  moreover have "grows db db1" using same_rows(4) [OF rows] .
  ultimately show "good_db (store_event_with_outbox now e db)" "grows db (store_event_with_outbox now e db)"
    using good_set_state grows_trans by metis+
qed

lemma good_close_one:
  assumes good: "good_db db" and claim: "good_claim db r" and run: "close_one env now r n db = (res, db')"
  shows "good_db db' \<and> grows db db'"
proof (cases "merge_event env now r db")
  case (Inl err)
  then have "db' = db \<or> db' = set_cluster_state (cr_cluster_id r) CS_ERROR_RETRYABLE db"
    using run by (auto simp: close_one_def split: cleansing_error.splits)
  then show ?thesis using good good_set_state by auto
next
  case (Inr e)
  let ?db = "db\<lparr>cl_next_uuid := cl_next_uuid db + 3\<rparr>"
  have rows: "cluster_types ?db = cluster_types db" "cl_actions ?db = cl_actions db" "cl_members ?db = cl_members db"
    by (simp_all add: cluster_types_def)
  have "good_db ?db" using rows by (intro good_db_cong [OF good]) simp_all
  moreover have "event_ok ?db e" using merge_event_ok(1) [OF good claim Inr] same_rows [OF rows] by simp
  moreover have "db' = store_event_with_outbox now e ?db" using run Inr by (simp add: close_one_def)
  ultimately show ?thesis using good_store_event grows_trans [OF same_rows(4) [OF rows]] by metis
qed

lemma good_claim_states:
  "good_db db \<Longrightarrow> good_db (foldl (\<lambda>db r. set_cluster_state (cr_cluster_id r) CS_MERGING db) db rows) \<and>
     grows db (foldl (\<lambda>db r. set_cluster_state (cr_cluster_id r) CS_MERGING db) db rows)"
proof (induction rows arbitrary: db)
  case (Cons r rows)
  show ?case unfolding foldl.simps
    using Cons.IH [OF good_set_state(1) [OF Cons.prems]] grows_trans [OF good_set_state(2) [OF Cons.prems]] by blast
qed simp

lemma good_claim_ready:
  assumes "good_db db" "claim_ready_clusters env now n db = (Inr rows, db')"
  shows "good_db db' \<and> grows db db' \<and> (\<forall>r \<in> set rows. good_claim db r)"
proof -
  have "set (select_ordered (cluster_due now) cr_quiet_deadline n (cl_clusters db)) \<subseteq> set (cl_clusters db)"
    using set_select_ordered [of "cluster_due now" cr_quiet_deadline n "cl_clusters db"] by blast
  then have "\<forall>r \<in> set rows. good_claim db r"
    using assms(2) by (auto simp: claim_ready_clusters_def Let_def good_claim_def cluster_types_def subset_iff)
  then show ?thesis using assms good_claim_states [OF assms(1)] by (auto simp: claim_ready_clusters_def Let_def)
qed

lemma good_new_cluster:
  assumes good: "good_db db" and c: "cr_cluster_id c = cl_next_uuid db"
  defines "db' \<equiv> db\<lparr>cl_next_uuid := cl_next_uuid db + 1, cl_clusters := cl_clusters db @ [c]\<rparr>"
  shows "good_db db'" "grows db db'" "(cl_next_uuid db, cr_event_type c) \<in> set (cluster_types db')"
    "cl_next_uuid db \<notin> mr_cluster_id ` set (cl_members db')"
proof -
  have ct: "cluster_types db' = cluster_types db @ [(cl_next_uuid db, cr_event_type c)]"
    by (simp add: cluster_types_def db'_def c)
  have rest: "cl_members db' = cl_members db" "cl_actions db' = cl_actions db" "cl_outbox db' = cl_outbox db"
    "cl_fingerprints db' = cl_fingerprints db" "cl_next_uuid db' = cl_next_uuid db + 1"
    by (simp_all add: db'_def)
  show grow: "grows db db'" by (auto simp: grows_def ct rest)
  show "(cl_next_uuid db, cr_event_type c) \<in> set (cluster_types db')" by (simp add: ct)
  show none: "cl_next_uuid db \<notin> mr_cluster_id ` set (cl_members db')"
    using good_dbD(6) [OF good] good_dbD(2) [OF good] unfolding rest member_ok_def by fastforce
  have new: "cl_next_uuid db \<notin> fst ` set (cluster_types db)" using good_dbD(2) [OF good] by force
  have "types_ok db'"
    using good_dbD(1) [OF good] good_dbD(2) [OF good] new unfolding types_ok_def ct rest by (auto simp: less_Suc_eq)
  moreover have "actions_ok db'" using good unfolding good_db_def actions_ok_def rest by blast
  moreover have "memberships_ok db'"
  proof -
    have "alone db' (cl_next_uuid db)" using none by (force simp: alone_def)
    moreover have "alone db' cid" if "(cid, k) \<in> set (cluster_types db)" "k \<in> NON_CLUSTERING_EVENT_TYPES" for cid k
      using good_dbD(7) [OF good that] unfolding alone_def rest .
    moreover have "member_ok db' m" if "m \<in> set (cl_members db)" for m
      by (rule grows_stable(2) [OF grow good_dbD(6) [OF good that]])
    ultimately show ?thesis unfolding memberships_ok_def rest ct by auto
  qed
  moreover have "events_ok db'" using good_dbD(8) [OF good] grows_stable(3) [OF grow] unfolding events_ok_def rest by blast
  ultimately show "good_db db'" by (simp add: good_db_def)
qed

lemma create_cluster_cases:
  assumes "create_cluster env f k v q l db = (r, db')"
  obtains (refused) "db' = db" "\<exists>e. r = Inl e"
  | (created) c where "cr_cluster_id c = cl_next_uuid db" "cr_event_type c = k" "cr_state c = CS_OPEN"
      "db' = insert_membership (cl_next_uuid db) f
         (db\<lparr>cl_next_uuid := cl_next_uuid db + 1, cl_clusters := cl_clusters db @ [c]\<rparr>)" "r = Inr (cl_next_uuid db)"
proof (cases "pg_vector env v")
  case (Inl e)
  then show thesis using assms by (intro refused) (auto simp: create_cluster_def prog_simps)
next
  case (Inr w)
  show thesis
    by (rule created [of "\<lparr>cr_cluster_id = cl_next_uuid db, cr_event_type = k, cr_state = CS_OPEN, cr_article_count = 1,
               cr_first_seen_at = af_published_at f, cr_last_seen_at = af_published_at f,
               cr_quiet_deadline = q, cr_lifetime_deadline = l, cr_centroid = w,
               cr_version = cs_processing_version (ce_settings env)\<rparr>"])
      (use assms Inr in \<open>simp_all add: create_cluster_def prog_simps\<close>)
qed

lemma add_article_cases:
  assumes "add_article_to_cluster env cid f v q db = (r, db')"
  obtains (unchanged) "db' = db"
  | (added) w c where "cluster_row cid db = Some c" "r = Inr ()"
      "db' = insert_membership cid f (update_cluster cid
         (\<lambda>r. r\<lparr>cr_article_count := cr_article_count r + 1, cr_last_seen_at := af_published_at f,
                cr_quiet_deadline := q, cr_centroid := w, cr_state := CS_OPEN\<rparr>) db)"
  using assms
  by (auto simp: add_article_to_cluster_def prog_simps split: option.splits sum.splits prod.splits)

lemma good_apply:
  assumes good: "good_db db" and join: "good_join db a" and run: "apply_assignment env a db = (r, db')"
  shows "good_db db' \<and> grows db db'"
proof (cases "an_cluster a")
  case None
  obtain r1 where "create_cluster env (an_facts a) (an_event_type a) (an_vector a) (an_quiet_at a) (an_lifetime_at a) db = (r1, db')"
    using run None by (auto simp: apply_assignment_def prog_simps split: prod.splits sum.splits)
  then show ?thesis
  proof (cases rule: create_cluster_cases)
    case refused
    then show ?thesis using good by simp
  next
    case (created c)
    let ?db1 = "db\<lparr>cl_next_uuid := cl_next_uuid db + 1, cl_clusters := cl_clusters db @ [c]\<rparr>"
    note new = good_new_cluster [OF good created(1)]
    have "typed_action ?db1 (af_article_id (an_facts a)) (an_event_type a)"
      using join by (intro grows_stable(1) [OF new(2)]) (simp add: good_join_def)
    then have "good_db db'" unfolding created(4) using new created(2) by (intro good_insert_membership) simp_all
    then show ?thesis unfolding created(4) using grows_trans [OF new(2) grows_insert_membership] by blast
  qed
next
  case (Some cid)
  then have "add_article_to_cluster env cid (an_facts a) (an_vector a) (an_quiet_at a) db = (r, db')"
    using run by (simp add: apply_assignment_def)
  then show ?thesis
  proof (cases rule: add_article_cases)
    case unchanged
    then show ?thesis using good by simp
  next
    case (added w c)
    let ?f = "\<lambda>r. r\<lparr>cr_article_count := cr_article_count r + 1, cr_last_seen_at := af_published_at (an_facts a),
                cr_quiet_deadline := an_quiet_at a, cr_centroid := w, cr_state := CS_OPEN\<rparr>"
    have upd: "good_db (update_cluster cid ?f db)" "grows db (update_cluster cid ?f db)"
      by (rule good_update_cluster; simp add: good)+
    have join': "good_join (update_cluster cid ?f db) a" by (rule grows_stable(4) [OF upd(2) join])
    then have "good_db db'" unfolding added(3)
      using Some upd(1) by (intro good_insert_membership) (auto simp: good_join_def)
    then show ?thesis unfolding added(3) using grows_trans [OF upd(2) grows_insert_membership] by blast
  qed
qed

subsection \<open>Taking in an article\<close>

definition stored_article :: "cleansing_env \<Rightarrow> ArticleFacts \<Rightarrow> flt list \<Rightarrow> cleansing_db \<Rightarrow> cleansing_db" where
  \<comment> \<open>the three rows an article leaves before its assignment\<close>
  "stored_article env f0 v db =
     snd (store_action (af_article_id f0) (action_of env f0) (af_language f0)
       (snd (store_embedding env (af_article_id f0) v
         (snd (store_fingerprint env (af_article_id f0) (fingerprint_of env f0) (af_source_id f0) (af_published_at f0) db)))))"

lemma clean_facts_simps [simp]:
  "af_article_id (clean_facts env f) = af_article_id f" "af_source_id (clean_facts env f) = af_source_id f"
  "af_published_at (clean_facts env f) = af_published_at f" "af_language (clean_facts env f) = af_language f"
  by (simp_all add: clean_facts_def)

lemma begin_article_cases:
  assumes "begin_article env now m db = (r, db')"
  defines "f0 \<equiv> facts_from_message m"
  obtains (early) "db' = db" "r = Inr None \<or> (\<exists>e. r = Inl e)"
  | (failed) e where "\<not> article_already_processed (af_article_id f0) db" "r = Inl e"
      "db' = snd (store_fingerprint env (af_article_id f0) (fingerprint_of env f0) (af_source_id f0) (af_published_at f0) db)"
  | (stored) v where "\<not> article_already_processed (af_article_id f0) db" "db' = stored_article env f0 v db"
      "ce_embed env (article_text env f0) = Inr v" "\<exists>w. pg_vector env v = Inr w"
      "(r, db') = bind_p (assign_decision env now (clean_facts env f0) (ea_event_type (action_of env f0)) v)
         (\<lambda>a. return_p (Some a)) db'"
proof (cases "article_already_processed (af_article_id f0) db \<or> near_duplicate env now f0 db")
  case True
  then show thesis using assms(1)
    by (intro early) (auto simp: begin_article_def f0_def prog_simps Let_def split: if_splits)
next
  case False
  show thesis
  proof (cases "ce_embed env (article_text env f0)")
    case (Inl err)
    then show thesis using assms(1) False
      by (intro early) (auto simp: begin_article_def f0_def prog_simps Let_def)
  next
    case embedded: (Inr v)
    show thesis
    proof (cases "pg_vector env v")
      case (Inl e)
      then show thesis using assms(1) False embedded
        by (intro failed [of e]) (auto simp: begin_article_def f0_def prog_simps Let_def store_fingerprint_def store_embedding_def)
    next
      case (Inr w)
      then show thesis using assms(1) False embedded
        by (intro stored [of v])
          (auto simp: begin_article_def f0_def prog_simps Let_def stored_article_def store_fingerprint_def
             store_embedding_def store_action_def assign_decision_def split: prod.splits sum.splits)
    qed
  qed
qed

lemma resolve_scope_rejected: "k \<in> NON_CLUSTERING_EVENT_TYPES \<Longrightarrow> as_assets (resolve_scope T title k) = []"
  by (simp add: resolve_scope_def no_scope_def)

definition no_asset_if_rejected :: "ExtractedAction \<Rightarrow> bool" where
  "no_asset_if_rejected a \<longleftrightarrow> (ea_event_type a \<in> NON_CLUSTERING_EVENT_TYPES \<longrightarrow> ea_affected_asset_ids a = [])"

lemma built_no_asset [simp]: "no_asset_if_rejected (audited (build_action T title k actor lem obj orig) d source mode ev)"
  by (simp add: no_asset_if_rejected_def audited_def build_action_def resolve_scope_rejected)

lemma keyword_extract_no_asset [simp]: "no_asset_if_rejected (keyword_extract T llm mode t0 b0 url)"
  by (simp add: keyword_extract_def Let_def split: prod.split)

lemma spacy_extract_no_asset [simp]: "no_asset_if_rejected (spacy_extract T pipelines llm mode t0 language b0 url)"
proof (cases "prepare_inputs T mode t0 b0")
  case (Pair t b)
  show ?thesis unfolding spacy_extract_def Pair
    by (simp add: Let_def split: option.split) (simp split: prod.split)
qed

lemma action_of_no_asset: "no_asset_if_rejected (action_of env f)"
  by (simp add: action_of_def extract_action_def Let_def split: prod.split nlp_backend.split)

lemma good_fingerprint:
  assumes "good_db db"
  shows "good_db (snd (store_fingerprint env aid h src pub db))" "grows db (snd (store_fingerprint env aid h src pub db))"
proof -
  let ?db = "snd (store_fingerprint env aid h src pub db)"
  have rows: "cluster_types ?db = cluster_types db" "cl_actions ?db = cl_actions db" "cl_members ?db = cl_members db"
    by (simp_all add: store_fingerprint_def prog_simps cluster_types_def)
  have more: "fp_article_id ` set (cl_fingerprints db) \<subseteq> fp_article_id ` set (cl_fingerprints ?db)"
    by (auto simp: store_fingerprint_def prog_simps intro!: image_eqI insert_new_keeps)
  have "actions_ok ?db" using assms more unfolding good_db_def actions_ok_def rows by blast
  moreover have "types_ok ?db" "memberships_ok ?db"
    using assms same_rows_ok [OF rows] by (simp_all add: good_db_def store_fingerprint_def prog_simps)
  moreover have "events_ok ?db"
    using assms unfolding good_db_def events_ok_def same_rows [OF rows] by (simp add: store_fingerprint_def prog_simps)
  ultimately show "good_db ?db" by (simp add: good_db_def)
  show "grows db ?db" by (rule same_rows(4) [OF rows])
qed

lemma good_stored:
  assumes good: "good_db db" and new: "\<not> article_already_processed (af_article_id f) db" and v: "\<exists>w. pg_vector env v = Inr w"
  shows "good_db (stored_article env f v db)" "grows db (stored_article env f v db)"
    "typed_action (stored_article env f v db) (af_article_id f) (ea_event_type (action_of env f))"
    "cluster_types (stored_article env f v db) = cluster_types db"
    "cl_clusters (stored_article env f v db) = cl_clusters db"
proof -
  let ?aid = "af_article_id f" and ?row = "\<lparr>ar_article_id = af_article_id f, ar_action = action_of env f, ar_language = af_language f\<rparr>"
  let ?db1 = "snd (store_fingerprint env ?aid (fingerprint_of env f) (af_source_id f) (af_published_at f) db)"
  let ?db = "stored_article env f v db"
  obtain w where w: "pg_vector env v = Inr w" using v by blast
  note fp = good_fingerprint [OF good, of env ?aid "fingerprint_of env f" "af_source_id f" "af_published_at f"]
  have fresh: "?aid \<notin> ar_article_id ` set (cl_actions db)"
    using good_dbD(4) [OF good] new by (auto simp: article_already_processed_def)
  have rows: "cl_actions ?db = cl_actions db @ [?row]" "cl_members ?db = cl_members db" "cl_clusters ?db = cl_clusters db"
    "cl_outbox ?db = cl_outbox db" "cl_next_uuid ?db = cl_next_uuid db" "cl_fingerprints ?db = cl_fingerprints ?db1"
    using insert_new_fresh [of ar_article_id ?row "cl_actions db"] fresh
    by (simp_all add: stored_article_def store_action_def store_embedding_def store_fingerprint_def prog_simps w)
  show clusters: "cl_clusters ?db = cl_clusters db" by (rule rows)
  then show ct: "cluster_types ?db = cluster_types db" by (simp add: cluster_types_def)
  show grow: "grows db ?db" by (auto simp: grows_def ct rows)
  show "typed_action ?db ?aid (ea_event_type (action_of env f))" by (auto simp: typed_action_def rows)
  have here: "?aid \<in> fp_article_id ` set (cl_fingerprints ?db1)"
    using insert_new_key [of fp_article_id "\<lparr>fp_article_id = ?aid, fp_simhash = fingerprint_of env f, fp_source_id = af_source_id f,
        fp_published_at = af_published_at f, fp_version = cs_processing_version (ce_settings env)\<rparr>" "cl_fingerprints db"]
    by (simp add: store_fingerprint_def prog_simps)
  have "actions_ok ?db1" using fp(1) by (simp add: good_db_def)
  moreover have "cl_actions ?db1 = cl_actions db" by (simp add: store_fingerprint_def prog_simps)
  ultimately have "actions_ok ?db"
    using here fresh action_of_no_asset [of env f] unfolding actions_ok_def rows no_asset_if_rejected_def by auto
  moreover have "types_ok ?db" using good unfolding good_db_def types_ok_def ct rows by blast
  moreover have "memberships_ok ?db"
    using good_dbD(6) [OF good] good_dbD(7) [OF good] grows_stable(2) [OF grow]
    unfolding memberships_ok_def alone_def rows ct by blast
  moreover have "events_ok ?db"
    using good_dbD(8) [OF good] grows_stable(3) [OF grow] unfolding events_ok_def rows by blast
  ultimately show "good_db ?db" by (simp add: good_db_def)
qed

lemma assign_decision_joins:
  assumes "assign_decision env now f k v db = (Inr a, db')"
  shows "an_facts a = f" "an_event_type a = k" "db' = db"
    "an_cluster a = Some cid \<Longrightarrow> (cid, k) \<in> set (cluster_types db) \<and> k \<notin> NON_CLUSTERING_EVENT_TYPES \<and>
       (\<exists>r \<in> set (cl_clusters db). cr_cluster_id r = cid \<and> cr_state r \<in> {CS_OPEN, CS_QUIET})"
proof -
  obtain cs where cs: "(if k = OTHER then Inr [] else find_candidate_clusters env v k 5 db) = (Inr cs :: (cleansing_error, _) result)"
    and a: "an_facts a = f" "an_event_type a = k" "db' = db"
      "an_cluster a = ad_cluster_id (decide_assignment k cs (cs_similarity_threshold (ce_settings env)))"
    using assms by (auto simp: assign_decision_def prog_simps split: sum.splits)
  show "an_facts a = f" "an_event_type a = k" "db' = db" by (rule a)+
  assume "an_cluster a = Some cid"
  then obtain c where c: "c \<in> set cs" "cc_cluster_id c = cid" "passes k (cs_similarity_threshold (ce_settings env)) c"
    using a(4) decide_assignment_joins by metis
  then have "find_candidate_clusters env v k 5 db = Inr cs" using cs by (auto split: if_splits)
  from candidates_from_clusters [OF this c(1)] obtain r where
    r: "r \<in> set (cl_clusters db)" "cr_cluster_id r = cid" "cr_event_type r = k" "cr_state r \<in> {CS_OPEN, CS_QUIET}"
    using c(2) by metis
  then have "(cid, k) \<in> set (cluster_types db)" by (auto simp: cluster_types_def)
  then show "(cid, k) \<in> set (cluster_types db) \<and> k \<notin> NON_CLUSTERING_EVENT_TYPES \<and>
       (\<exists>r \<in> set (cl_clusters db). cr_cluster_id r = cid \<and> cr_state r \<in> {CS_OPEN, CS_QUIET})"
    using c(3) r by (auto simp: passes_def gate2_compatible_def)
qed

lemma good_begin:
  assumes good: "good_db db" and run: "begin_article env now m db = (r, db')"
  shows "good_db db' \<and> grows db db'" "r = Inr (Some a) \<Longrightarrow> good_join db' a"
proof -
  from run show "good_db db' \<and> grows db db'"
  proof (cases rule: begin_article_cases)
    case early
    then show ?thesis using good by simp
  next
    case (failed e)
    then show ?thesis using good_fingerprint [OF good] by simp
  next
    case (stored v)
    then show ?thesis using good_stored [OF good stored(1,4)] by simp
  qed
  assume r: "r = Inr (Some a)"
  from run show "good_join db' a"
  proof (cases rule: begin_article_cases)
    case (stored v)
    let ?f = "facts_from_message m"
    have dec: "assign_decision env now (clean_facts env ?f) (ea_event_type (action_of env ?f)) v db' = (Inr a, db')"
      using stored(5) unfolding r by (auto simp: prog_simps split: prod.splits sum.splits)
    show ?thesis
      using assign_decision_joins [OF dec] good_stored(3) [OF good stored(1,4)] stored(2) by (simp add: good_join_def)
  qed (use r in auto)
qed

lemma publish_events_rows:
  assumes "publish_events send now n db = (db', sent)"
  shows "\<exists>rows. db' = db\<lparr>cl_outbox := rows\<rparr> \<and> map ob_payload rows = map ob_payload (cl_outbox db) \<and>
    map ob_message_id rows = map ob_message_id (cl_outbox db)"
  using assms relay_payloads [of Inr send now n "cl_outbox db"]
  by (auto simp: publish_events_def cleansing_publish_pending_def split: prod.splits)

lemma good_publish:
  assumes "good_db db" "publish_events send now n db = (db', sent)"
  shows "good_db db' \<and> grows db db'"
proof -
  obtain rows where rows: "db' = db\<lparr>cl_outbox := rows\<rparr>" "map ob_payload rows = map ob_payload (cl_outbox db)"
    using publish_events_rows [OF assms(2)] by blast
  have same: "cluster_types db' = cluster_types db" "cl_actions db' = cl_actions db" "cl_members db' = cl_members db"
    by (simp_all add: rows(1) cluster_types_def)
  have "good_db db'" using rows same by (intro good_db_cong [OF assms(1)]) (simp_all flip: set_map)
  then show ?thesis using same_rows(4) [OF same] by simp
qed

lemma good_step:
  assumes "cl_step s s'" "good_sys s"
  shows "good_sys s'"
  using assms
proof (cases rule: cl_step.cases)
  case (decided env now m a db)
  have good: "good_db (sy_db s)" using assms(2) by (simp add: good_sys_def)
  note grown = good_begin [OF good decided(2)]
  show ?thesis using assms(2) grown grows_stable(4,5) [of "sy_db s" db] unfolding decided(1) good_sys_def by auto
next
  case (skipped env now m r db)
  have good: "good_db (sy_db s)" using assms(2) by (simp add: good_sys_def)
  show ?thesis unfolding skipped(1)
    using assms(2) good_begin(1) [OF good skipped(2)] grows_stable(4,5) [of "sy_db s" db] by (auto simp: good_sys_def)
next
  case (applied a env r db)
  have good: "good_db (sy_db s)" "good_join (sy_db s) a" using assms(2) applied(2) by (simp_all add: good_sys_def)
  show ?thesis unfolding applied(1)
    using assms(2) good_apply [OF good applied(3)] grows_stable(4,5) [of "sy_db s" db]
    by (auto simp: good_sys_def dest: notin_set_remove1)
next
  case (claimed env now n rows db)
  have good: "good_db (sy_db s)" using assms(2) by (simp add: good_sys_def)
  show ?thesis unfolding claimed(1)
    using assms(2) good_claim_ready [OF good claimed(2)] grows_stable(4,5) [of "sy_db s" db] by (auto simp: good_sys_def)
next
  case (closed row rows env now n r db)
  have good: "good_db (sy_db s)" "good_claim (sy_db s) row" using assms(2) closed(2) by (simp_all add: good_sys_def)
  show ?thesis unfolding closed(1)
    using assms(2) good_close_one [OF good closed(3)] grows_stable(4,5) [of "sy_db s" db] closed(2) by (auto simp: good_sys_def)
next
  case (published send now n db sent)
  have good: "good_db (sy_db s)" using assms(2) by (simp add: good_sys_def)
  show ?thesis unfolding published(1)
    using assms(2) good_publish [OF good published(2)] grows_stable(4,5) [of "sy_db s" db] by (auto simp: good_sys_def)
next
  case stopped
  then show ?thesis using assms(2) by (simp add: good_sys_def)
qed

lemma good_reachable: "cl_reachable s \<Longrightarrow> good_sys s"
proof (induction rule: rtranclp_induct)
  case base
  show ?case
    by (simp add: good_sys_def initial_sys_def empty_cleansing_def good_db_def types_ok_def actions_ok_def
        memberships_ok_def events_ok_def cluster_types_def)
next
  case (step s s')
  then show ?case using good_step by blast
qed

end
