(* ===== verification/CleansingSerial.thy ===== *)
theory CleansingSerial
  imports CleansingSafety
begin

text \<open>
  What holds of the Cleansing service when no article is between its assignment decision and the statement
  that applies it while a sweep runs: \<open>cl_serial\<close> runs whole handlers one after the other.  These runs are
  among the interleavings of \<open>cl_step\<close>, so everything shown there holds of them too.
\<close>

inductive cl_serial :: "cleansing_db \<Rightarrow> cleansing_db \<Rightarrow> bool" where
  article: "process_article env now m db = (r, db') \<Longrightarrow> cl_serial db db'"
| sweep: "close_ready_clusters env now db = (r, db') \<Longrightarrow> cl_serial db db'"
| publish: "publish_events send now n db = (db', sent) \<Longrightarrow> cl_serial db db'"

lemma run_close_serial: "run_close env send now db = (db', sent) \<Longrightarrow> cl_serial\<^sup>*\<^sup>* db db'"
  by (auto simp: run_close_def split: prod.splits sum.splits intro: cl_serial.intros converse_rtranclp_into_rtranclp)

definition quiescent :: "cleansing_db \<Rightarrow> cleansing_sys" where
  "quiescent db = \<lparr>sy_db = db, sy_joins = [], sy_claims = []\<rparr>"

lemma close_loop_steps:
  assumes "fold_p (close_one env now) rows n db = (r, db')"
  shows "\<exists>rest. cl_step\<^sup>*\<^sup>* \<lparr>sy_db = db, sy_joins = [], sy_claims = rows\<rparr> \<lparr>sy_db = db', sy_joins = [], sy_claims = rest\<rparr>"
  using assms
proof (induction rows arbitrary: n db)
  case Nil
  then show ?case by (auto simp: prog_simps)
next
  case (Cons row rows)
  obtain r1 db1 where one: "close_one env now row n db = (r1, db1)" by (cases "close_one env now row n db")
  have step: "cl_step \<lparr>sy_db = db, sy_joins = [], sy_claims = row # rows\<rparr> \<lparr>sy_db = db1, sy_joins = [], sy_claims = rows\<rparr>"
    using cl_step.closed [of "\<lparr>sy_db = db, sy_joins = [], sy_claims = row # rows\<rparr>" row rows env now n r1 db1] one by simp
  show ?case
  proof (cases r1)
    case (Inl e)
    then show ?thesis using Cons.prems one step by (auto simp: prog_simps)
  next
    case (Inr n1)
    then have "fold_p (close_one env now) rows n1 db1 = (r, db')" using Cons.prems one by (simp add: prog_simps)
    from Cons.IH [OF this] show ?thesis using step by (meson converse_rtranclp_into_rtranclp)
  qed
qed

lemma serial_step_reachable:
  assumes "cl_serial db db'"
  shows "cl_step\<^sup>*\<^sup>* (quiescent db) (quiescent db')"
  using assms
proof (cases rule: cl_serial.cases)
  case (article env now m r)
  obtain r1 db1 where begun: "begin_article env now m db = (r1, db1)" by (cases "begin_article env now m db")
  show ?thesis
  proof (cases "\<exists>a. r1 = Inr (Some a)")
    case True
    then obtain a where a: "r1 = Inr (Some a)" by blast
    have "cl_step (quiescent db) \<lparr>sy_db = db1, sy_joins = [a], sy_claims = []\<rparr>"
      using cl_step.decided [of env now m "quiescent db" a db1] begun a by (simp add: quiescent_def)
    moreover have "cl_step \<lparr>sy_db = db1, sy_joins = [a], sy_claims = []\<rparr> (quiescent db')"
      using cl_step.applied [of a "\<lparr>sy_db = db1, sy_joins = [a], sy_claims = []\<rparr>" env r db'] article begun a
      by (simp add: quiescent_def process_article_def prog_simps)
    ultimately show ?thesis by (meson r_into_rtranclp rtranclp.rtrancl_into_rtrancl)
  next
    case False
    then have "db' = db1" using article begun by (auto simp: process_article_def prog_simps split: sum.splits option.splits)
    then show ?thesis using cl_step.skipped [of env now m "quiescent db" r1 db1] begun False by (auto simp: quiescent_def)
  qed
next
  case (sweep env now r)
  obtain rows db1 where claimed: "claim_ready_clusters env now 20 db = (Inr rows, db1)"
    by (simp add: claim_ready_clusters_def Let_def)
  have "cl_step (quiescent db) \<lparr>sy_db = db1, sy_joins = [], sy_claims = rows\<rparr>"
    using cl_step.claimed [of env now 20 "quiescent db" rows db1] claimed by (simp add: quiescent_def)
  moreover have loop: "fold_p (close_one env now) rows 0 db1 = (r, db')"
    using sweep claimed by (simp add: close_ready_clusters_def prog_simps)
  obtain rest where "cl_step\<^sup>*\<^sup>* \<lparr>sy_db = db1, sy_joins = [], sy_claims = rows\<rparr> \<lparr>sy_db = db', sy_joins = [], sy_claims = rest\<rparr>"
    using close_loop_steps [OF loop] by blast
  moreover have "cl_step \<lparr>sy_db = db', sy_joins = [], sy_claims = rest\<rparr> (quiescent db')"
    using cl_step.stopped [of "\<lparr>sy_db = db', sy_joins = [], sy_claims = rest\<rparr>"] by (simp add: quiescent_def)
  ultimately show ?thesis by (meson converse_rtranclp_into_rtranclp rtranclp.rtrancl_into_rtrancl)
next
  case (publish send now n sent)
  then show ?thesis using cl_step.published [of send now n "quiescent db" db' sent] by (auto simp: quiescent_def)
qed

lemma serial_reachable: "cl_serial\<^sup>*\<^sup>* empty_cleansing db \<Longrightarrow> cl_reachable (quiescent db)"
proof (induction rule: rtranclp_induct)
  case base
  show ?case by (simp add: quiescent_def initial_sys_def)
next
  case (step db db')
  then show ?case using serial_step_reachable by (meson rtranclp_trans)
qed

lemma serial_good: "cl_serial\<^sup>*\<^sup>* empty_cleansing db \<Longrightarrow> good_db db"
  using good_reachable [OF serial_reachable] by (simp add: good_sys_def quiescent_def)

subsection \<open>One event per cluster\<close>

definition emitted :: "cleansing_db \<Rightarrow> uuid list" where
  "emitted db = map (ed_cluster_id \<circ> ob_payload) (cl_outbox db)"

definition once_db :: "cleansing_db \<Rightarrow> bool" where
  "once_db db \<longleftrightarrow>
     distinct (emitted db) \<and>
     (\<forall>c \<in> set (cl_clusters db). cr_state c = CS_MERGED \<longleftrightarrow> cr_cluster_id c \<in> set (emitted db)) \<and>
     map er_payload (cl_events db) = map ob_payload (cl_outbox db) \<and> map er_cluster_id (cl_events db) = emitted db \<and>
     (\<forall>r \<in> set (cl_outbox db). ob_message_id r < cl_next_uuid db)"

lemma once_cong:
  assumes "once_db db" "cl_clusters db' = cl_clusters db" "cl_outbox db' = cl_outbox db" "cl_events db' = cl_events db"
    "cl_next_uuid db \<le> cl_next_uuid db'"
  shows "once_db db'"
  using assms by (auto simp: once_db_def emitted_def)

lemma emitted_other [simp]:
  "emitted (update_cluster cid f db) = emitted db" "emitted (insert_membership cid f' db) = emitted db"
  by (simp_all add: emitted_def)

lemma once_update_cluster:
  assumes "once_db db" "cid \<notin> set (emitted db)" "\<And>r. cr_cluster_id (f r) = cr_cluster_id r" "\<And>r. cr_state (f r) \<noteq> CS_MERGED"
  shows "once_db (update_cluster cid f db)"
proof -
  have "cr_state c = CS_MERGED \<longleftrightarrow> cr_cluster_id c \<in> set (emitted db)"
    if c: "c \<in> set (cl_clusters (update_cluster cid f db))" for c
  proof -
    obtain c0 where c0: "c0 \<in> set (cl_clusters db)" "c = (if cr_cluster_id c0 = cid then f c0 else c0)"
      using c by (auto simp: update_cluster_def set_update_where)
    then show ?thesis using assms by (auto simp: once_db_def)
  qed
  then show ?thesis using assms(1) by (simp add: once_db_def)
qed

lemma once_set_state:
  "once_db db \<Longrightarrow> cid \<notin> set (emitted db) \<Longrightarrow> st \<noteq> CS_MERGED \<Longrightarrow> once_db (set_cluster_state cid st db)"
  unfolding set_cluster_state_def by (rule once_update_cluster) simp_all

lemma emitted_set_state [simp]: "emitted (set_cluster_state cid st db) = emitted db"
  by (simp add: set_cluster_state_def)

lemma once_store_event:
  assumes once: "once_db db" and new: "ed_cluster_id e \<notin> set (emitted db)"
    and mid: "message_id e \<notin> ob_message_id ` set (cl_outbox db)" "message_id e < cl_next_uuid db"
  shows "once_db (store_event_with_outbox now e db)" "emitted (store_event_with_outbox now e db) = emitted db @ [ed_cluster_id e]"
proof -
  let ?db = "store_event_with_outbox now e db" and ?cid = "ed_cluster_id e"
  have outbox: "cl_outbox ?db = cl_outbox db @ [new_outbox_row (message_id e) (ed_event_id e) e now]"
    using mid(1) by (auto simp: store_event_with_outbox_def set_cluster_state_def insert_new_def new_outbox_row_def)
  have "?cid \<notin> er_cluster_id ` set (cl_events db)" using once new unfolding once_db_def by (metis set_map)
  then have events: "\<exists>row. cl_events ?db = cl_events db @ [row] \<and> er_payload row = e \<and> er_cluster_id row = ?cid"
    by (auto simp: store_event_with_outbox_def set_cluster_state_def insert_new_def)
  show em: "emitted ?db = emitted db @ [?cid]" by (simp add: emitted_def outbox new_outbox_row_def)
  have "cr_state c = CS_MERGED \<longleftrightarrow> cr_cluster_id c \<in> set (emitted ?db)" if c: "c \<in> set (cl_clusters ?db)" for c
  proof -
    obtain c0 where c0: "c0 \<in> set (cl_clusters db)" "c = (if cr_cluster_id c0 = ?cid then c0\<lparr>cr_state := CS_MERGED\<rparr> else c0)"
      using c by (auto simp: store_event_with_outbox_def set_cluster_state_def update_cluster_def set_update_where)
    then show ?thesis using once em by (auto simp: once_db_def)
  qed
  moreover have "cl_next_uuid ?db = cl_next_uuid db" by (simp add: store_event_with_outbox_def set_cluster_state_def)
  ultimately show "once_db ?db"
    using once new em events outbox mid(2) by (auto simp: once_db_def new_outbox_row_def)
qed

lemma once_close_one:
  assumes good: "good_db db" and once: "once_db db" and claim: "good_claim db r"
    and new: "cr_cluster_id r \<notin> set (emitted db)" and run: "close_one env now r n db = (res, db')"
  shows "once_db db' \<and> set (emitted db') \<subseteq> insert (cr_cluster_id r) (set (emitted db))"
proof (cases "merge_event env now r db")
  case (Inl err)
  then have "db' = db \<or> db' = set_cluster_state (cr_cluster_id r) CS_ERROR_RETRYABLE db"
    using run by (auto simp: close_one_def split: cleansing_error.splits)
  then show ?thesis using once once_set_state [OF once new, of CS_ERROR_RETRYABLE] by auto
next
  case (Inr e)
  let ?db = "db\<lparr>cl_next_uuid := cl_next_uuid db + 3\<rparr>"
  have db': "db' = store_event_with_outbox now e ?db" using run Inr by (simp add: close_one_def)
  have once': "once_db ?db" by (rule once_cong [OF once]) simp_all
  have em: "emitted ?db = emitted db" by (simp add: emitted_def)
  note e = merge_event_ok(2,3) [OF good claim Inr]
  have mid: "message_id e \<notin> ob_message_id ` set (cl_outbox ?db)" "message_id e < cl_next_uuid ?db"
    using once e(2) by (auto simp: once_db_def)
  show ?thesis unfolding db'
    using once_store_event [OF once' _ mid, of now] new e(1) em by simp
qed

lemma once_unmerged:
  "once_db db \<Longrightarrow> c \<in> set (cl_clusters db) \<Longrightarrow> cr_state c \<noteq> CS_MERGED \<Longrightarrow> cr_cluster_id c \<notin> set (emitted db)"
  by (simp add: once_db_def)

lemma due_unmerged: "cluster_due now c \<Longrightarrow> cr_state c \<noteq> CS_MERGED"
  by (auto simp: cluster_due_def)

subsection \<open>Rows an operation does not touch\<close>

definition untouched :: "uuid set \<Rightarrow> cleansing_db \<Rightarrow> cleansing_db \<Rightarrow> bool" where
  "untouched ids db db' \<longleftrightarrow> (\<forall>c \<in> set (cl_clusters db). cr_cluster_id c \<notin> ids \<longrightarrow> c \<in> set (cl_clusters db'))"

lemma untouched_same: "cl_clusters db' = cl_clusters db \<Longrightarrow> untouched ids db db'"
  by (simp add: untouched_def)

lemma untouched_trans: "untouched A db db' \<Longrightarrow> untouched B db' db'' \<Longrightarrow> untouched (A \<union> B) db db''"
  by (auto simp: untouched_def)

lemma untouched_mono: "untouched A db db' \<Longrightarrow> A \<subseteq> B \<Longrightarrow> untouched B db db'"
  by (auto simp: untouched_def)

lemma untouched_update: "untouched {cid} db (update_cluster cid f db)"
  by (force simp: untouched_def update_cluster_def set_update_where)

lemma untouched_close_one:
  assumes good: "good_db db" and claim: "good_claim db r" and run: "close_one env now r n db = (res, db')"
  shows "untouched {cr_cluster_id r} db db'"
proof (cases "merge_event env now r db")
  case (Inl err)
  then have "db' = db \<or> db' = set_cluster_state (cr_cluster_id r) CS_ERROR_RETRYABLE db"
    using run by (auto simp: close_one_def split: cleansing_error.splits)
  then show ?thesis using untouched_update untouched_same by (auto simp: set_cluster_state_def)
next
  case (Inr e)
  then have "ed_cluster_id e = cr_cluster_id r" using merge_event_ok(2) [OF good claim] by blast
  then show ?thesis using run Inr
    by (force simp: close_one_def untouched_def store_event_with_outbox_def set_cluster_state_def update_cluster_def set_update_where)
qed

lemma claim_states_rows:
  "untouched (cr_cluster_id ` set rows) db (foldl (\<lambda>db r. set_cluster_state (cr_cluster_id r) CS_MERGING db) db rows) \<and>
   (once_db db \<and> (\<forall>r \<in> set rows. cr_cluster_id r \<notin> set (emitted db)) \<longrightarrow>
    once_db (foldl (\<lambda>db r. set_cluster_state (cr_cluster_id r) CS_MERGING db) db rows)) \<and>
   emitted (foldl (\<lambda>db r. set_cluster_state (cr_cluster_id r) CS_MERGING db) db rows) = emitted db"
proof (induction rows arbitrary: db)
  case Nil
  show ?case by (simp add: untouched_def)
next
  case (Cons r rows)
  let ?db = "set_cluster_state (cr_cluster_id r) CS_MERGING db"
  have "untouched {cr_cluster_id r} db ?db" unfolding set_cluster_state_def by (rule untouched_update)
  then have "untouched ({cr_cluster_id r} \<union> cr_cluster_id ` set rows) db
      (foldl (\<lambda>db r. set_cluster_state (cr_cluster_id r) CS_MERGING db) ?db rows)"
    using Cons.IH [of ?db] untouched_trans by blast
  then show ?case using Cons.IH [of ?db] once_set_state [of db "cr_cluster_id r" CS_MERGING] by auto
qed

lemma close_loop:
  assumes "fold_p (close_one env now) rows n db = (res, db')"
    "good_db db" "once_db db" "distinct (map cr_cluster_id rows)"
    "\<forall>r \<in> set rows. good_claim db r \<and> cr_cluster_id r \<notin> set (emitted db)"
  shows "once_db db' \<and> untouched (cr_cluster_id ` set rows) db db'"
  using assms
proof (induction rows arbitrary: n db)
  case Nil
  then show ?case by (auto simp: prog_simps untouched_def)
next
  case (Cons r rows)
  obtain r1 db1 where one: "close_one env now r n db = (r1, db1)" by (cases "close_one env now r n db")
  have claim: "good_claim db r" and new: "cr_cluster_id r \<notin> set (emitted db)" using Cons.prems(5) by simp_all
  note once = once_close_one [OF Cons.prems(2,3) claim new one]
  note good = good_close_one [OF Cons.prems(2) claim one]
  note touch = untouched_close_one [OF Cons.prems(2) claim one]
  show ?case
  proof (cases r1)
    case (Inl e)
    then have "db' = db1" using Cons.prems(1) one by (simp add: prog_simps)
    then show ?thesis using once untouched_mono [OF touch] by simp
  next
    case (Inr n1)
    then have rest: "fold_p (close_one env now) rows n1 db1 = (res, db')" using Cons.prems(1) one by (simp add: prog_simps)
    have "\<forall>x \<in> set rows. good_claim db1 x \<and> cr_cluster_id x \<notin> set (emitted db1)"
    proof
      fix x assume x: "x \<in> set rows"
      then have "cr_cluster_id x \<noteq> cr_cluster_id r" using Cons.prems(4) by (metis distinct.simps(2) image_eqI list.simps(9) set_map)
      moreover have "good_claim db x" "cr_cluster_id x \<notin> set (emitted db)" using Cons.prems(5) x by simp_all
      ultimately show "good_claim db1 x \<and> cr_cluster_id x \<notin> set (emitted db1)"
        using once good grows_stable(5) [of db db1 x] by blast
    qed
    then have "once_db db' \<and> untouched (cr_cluster_id ` set rows) db1 db'"
      using Cons.IH [OF rest] good once Cons.prems(4) by simp
    then show ?thesis using untouched_trans [OF touch, of "cr_cluster_id ` set rows" db'] by simp
  qed
qed

lemma sweep_once:
  assumes run: "close_ready_clusters env now db = (res, db')" and good: "good_db db" and once: "once_db db"
  shows "once_db db' \<and> untouched {cr_cluster_id c | c. c \<in> set (cl_clusters db) \<and> cluster_due now c} db db'"
proof -
  obtain rows db1 where claimed: "claim_ready_clusters env now 20 db = (Inr rows, db1)"
    by (simp add: claim_ready_clusters_def Let_def)
  let ?sel = "select_ordered (cluster_due now) cr_quiet_deadline 20 (cl_clusters db)"
  let ?ids = "{cr_cluster_id c | c. c \<in> set (cl_clusters db) \<and> cluster_due now c}"
  have db1: "db1 = foldl (\<lambda>db r. set_cluster_state (cr_cluster_id r) CS_MERGING db) db ?sel"
    and ids: "map cr_cluster_id rows = map cr_cluster_id ?sel"
    using claimed by (auto simp: claim_ready_clusters_def Let_def)
  have sel: "set ?sel \<subseteq> {c \<in> set (cl_clusters db). cluster_due now c}" by (rule set_select_ordered)
  have new: "\<forall>r \<in> set ?sel. cr_cluster_id r \<notin> set (emitted db)"
    using sel once_unmerged [OF once] due_unmerged by blast
  note states = claim_states_rows [of ?sel db, folded db1]
  have once1: "once_db db1" and em: "emitted db1 = emitted db" using states once new by blast+
  note ready = good_claim_ready [OF good claimed]
  have "distinct (map cr_cluster_id (cl_clusters db))"
    using good_dbD(1) [OF good] by (simp add: cluster_types_def comp_def)
  then have dist: "distinct (map cr_cluster_id rows)" unfolding ids by (rule distinct_select_ordered)
  have img: "cr_cluster_id ` set rows = cr_cluster_id ` set ?sel" using ids by (metis set_map)
  then have "\<forall>r \<in> set rows. good_claim db1 r \<and> cr_cluster_id r \<notin> set (emitted db1)"
    using ready grows_stable(5) [of db db1] new em by (metis imageE image_eqI)
  moreover have "fold_p (close_one env now) rows 0 db1 = (res, db')"
    using run claimed by (simp add: close_ready_clusters_def prog_simps)
  ultimately have "once_db db' \<and> untouched (cr_cluster_id ` set rows) db1 db'"
    using close_loop ready once1 dist by blast
  moreover have "untouched (cr_cluster_id ` set ?sel) db db1" using states by blast
  ultimately have "once_db db' \<and> untouched (cr_cluster_id ` set ?sel) db db'"
    using untouched_trans [of "cr_cluster_id ` set ?sel" db db1 "cr_cluster_id ` set rows" db'] img by simp
  moreover have "cr_cluster_id ` set ?sel \<subseteq> ?ids" using sel by blast
  ultimately show ?thesis using untouched_mono by blast
qed

subsection \<open>Whole handlers\<close>

lemma begin_article_frame:
  assumes "begin_article env now m db = (r, db')"
  shows "cl_clusters db' = cl_clusters db" "cl_outbox db' = cl_outbox db" "cl_events db' = cl_events db"
    "cl_next_uuid db' = cl_next_uuid db" "cl_members db' = cl_members db"
  using assms
  by (cases rule: begin_article_cases;
      auto simp: store_fingerprint_def stored_article_def store_embedding_def store_action_def prog_simps
        split: sum.splits)+

lemma begin_article_open:
  assumes "begin_article env now m db = (Inr (Some a), db')" "an_cluster a = Some cid"
  obtains c where "c \<in> set (cl_clusters db)" "cr_cluster_id c = cid" "cr_state c \<in> {CS_OPEN, CS_QUIET}"
  using assms(1)
proof (cases rule: begin_article_cases)
  case (stored v)
  let ?f = "facts_from_message m"
  have "assign_decision env now (clean_facts env ?f) (ea_event_type (action_of env ?f)) v db' = (Inr a, db')"
    using stored(5) by (auto simp: prog_simps split: prod.splits sum.splits)
  from assign_decision_joins(4) [OF this assms(2)] show thesis
    using begin_article_frame(1) [OF assms(1)] that by auto
qed auto

lemma article_once:
  assumes run: "process_article env now m db = (r, db')" and good: "good_db db" and once: "once_db db"
  shows "once_db db' \<and> untouched {cr_cluster_id c | c. c \<in> set (cl_clusters db) \<and> cr_state c \<in> {CS_OPEN, CS_QUIET}} db db'"
proof -
  let ?ids = "{cr_cluster_id c | c. c \<in> set (cl_clusters db) \<and> cr_state c \<in> {CS_OPEN, CS_QUIET}}"
  obtain r1 db1 where begun: "begin_article env now m db = (r1, db1)" by (cases "begin_article env now m db")
  note frame = begin_article_frame [OF begun]
  have once1: "once_db db1" by (rule once_cong [OF once]) (simp_all add: frame)
  have good1: "good_db db1" using good_begin(1) [OF good begun] by simp
  show ?thesis
  proof (cases "\<exists>a. r1 = Inr (Some a)")
    case False
    then have "db' = db1" using run begun by (auto simp: process_article_def prog_simps split: sum.splits option.splits)
    then show ?thesis using once1 untouched_same frame(1) by simp
  next
    case True
    then obtain a where a: "r1 = Inr (Some a)" by blast
    then have app: "apply_assignment env a db1 = (r, db')" using run begun by (simp add: process_article_def prog_simps)
    show ?thesis
    proof (cases "an_cluster a")
      case None
      then obtain r2 where
        "create_cluster env (an_facts a) (an_event_type a) (an_vector a) (an_quiet_at a) (an_lifetime_at a) db1 = (r2, db')"
        using app by (auto simp: apply_assignment_def prog_simps split: prod.splits sum.splits)
      then show ?thesis
      proof (cases rule: create_cluster_cases)
        case refused
        then show ?thesis using once1 untouched_same frame(1) by simp
      next
        case (created c)
        have "cl_next_uuid db1 \<notin> set (emitted db1)"
          using good_dbD(8) [OF good1] good_dbD(2) [OF good1] by (fastforce simp: emitted_def event_ok_def)
        then have "once_db db'"
          using once1 created by (auto simp: once_db_def emitted_def less_Suc_eq)
        then show ?thesis using created(4) frame(1) by (auto simp: untouched_def)
      qed
    next
      case (Some cid)
      obtain c where c: "c \<in> set (cl_clusters db)" "cr_cluster_id c = cid" "cr_state c \<in> {CS_OPEN, CS_QUIET}"
        using begin_article_open [OF _ Some] begun a by blast
      have new: "cid \<notin> set (emitted db1)"
        using once_unmerged [OF once c(1)] c(2,3) frame(2) by (auto simp: emitted_def)
      have "add_article_to_cluster env cid (an_facts a) (an_vector a) (an_quiet_at a) db1 = (r, db')"
        using app Some by (simp add: apply_assignment_def)
      then show ?thesis
      proof (cases rule: add_article_cases)
        case unchanged
        then show ?thesis using once1 untouched_same frame(1) by simp
      next
        case (added w c')
        let ?f = "\<lambda>r. r\<lparr>cr_article_count := cr_article_count r + 1, cr_last_seen_at := af_published_at (an_facts a),
                cr_quiet_deadline := an_quiet_at a, cr_centroid := w, cr_state := CS_OPEN\<rparr>"
        have "once_db (update_cluster cid ?f db1)" using new by (intro once_update_cluster once1) simp_all
        then have "once_db db'" unfolding added(3) by (rule once_cong) simp_all
        moreover have "untouched {cid} db db'"
          using untouched_update [of cid db1 ?f] unfolding added(3) untouched_def frame(1) insert_membership_other .
        moreover have "cid \<in> ?ids" using c by blast
        ultimately show ?thesis using untouched_mono [of "{cid}" db db' ?ids] by (simp only: insert_subset empty_subsetI)
      qed
    qed
  qed
qed

lemma publish_once:
  assumes "publish_events send now n db = (db', sent)" "once_db db"
  shows "once_db db' \<and> cl_clusters db' = cl_clusters db"
proof -
  obtain rows where rows: "db' = db\<lparr>cl_outbox := rows\<rparr>" "map ob_payload rows = map ob_payload (cl_outbox db)"
    "map ob_message_id rows = map ob_message_id (cl_outbox db)"
    using publish_events_rows [OF assms(1)] by blast
  have "emitted db' = emitted db" unfolding emitted_def rows(1) by (simp flip: map_map add: rows(2))
  moreover have "(\<forall>r \<in> set rows. ob_message_id r < k) \<longleftrightarrow> (\<forall>r \<in> set (cl_outbox db). ob_message_id r < k)" for k
    using rows(3) by (metis (no_types, lifting) imageE image_eqI set_map)
  ultimately show ?thesis using assms(2) rows by (simp add: once_db_def)
qed

lemma serial_once: "cl_serial\<^sup>*\<^sup>* empty_cleansing db \<Longrightarrow> once_db db"
proof (induction rule: rtranclp_induct)
  case base
  show ?case by (simp add: once_db_def empty_cleansing_def emitted_def)
next
  case (step db db')
  note good = serial_good [OF step.hyps(1)]
  from step.hyps(2) show ?case
    by (cases rule: cl_serial.cases)
      (use article_once sweep_once publish_once good step.IH in blast)+
qed

subsection \<open>Clusters nothing picks up again\<close>

lemma serial_step_keeps:
  assumes step: "cl_serial db db'" and good: "good_db db" and once: "once_db db"
    and c: "c \<in> set (cl_clusters db)" "cr_state c \<notin> {CS_OPEN, CS_QUIET}"
  shows "c \<in> set (cl_clusters db')"
proof -
  have dist: "distinct (map cr_cluster_id (cl_clusters db))"
    using good_dbD(1) [OF good] by (simp add: cluster_types_def comp_def)
  then have only: "c' = c" if "c' \<in> set (cl_clusters db)" "cr_cluster_id c' = cr_cluster_id c" for c'
    using c(1) that by (metis distinct_map inj_onD)
  have active: "cr_cluster_id c \<notin> {cr_cluster_id c' | c'. c' \<in> set (cl_clusters db) \<and> cr_state c' \<in> {CS_OPEN, CS_QUIET}}"
    using only c(2) by fastforce
  have not_due: "cr_cluster_id c \<notin> {cr_cluster_id c' | c'. c' \<in> set (cl_clusters db) \<and> cluster_due now c'}" for now
    using only c(2) unfolding cluster_due_def by fastforce
  from step show ?thesis
  proof (cases rule: cl_serial.cases)
    case (article env now m r)
    then show ?thesis using article_once [OF _ good once] active c(1) unfolding untouched_def by blast
  next
    case (sweep env now r)
    then show ?thesis using sweep_once [OF _ good once] not_due c(1) unfolding untouched_def by blast
  next
    case (publish send now n sent)
    then show ?thesis using publish_once [OF _ once] c(1) by simp
  qed
qed

end
