(* ===== verification/CleansingRuns.thy ===== *)
theory CleansingRuns
  imports CleansingSerial
begin

text \<open>
  Concrete runs of the Cleansing service: two articles of one event, and the close sweep before or after the
  second one is added to its cluster.
\<close>

definition run_taxonomy :: taxonomy where
  \<comment> \<open>lower-case text without punctuation\<close>
  "run_taxonomy = sample_taxonomy\<lparr>tx_lower := (\<lambda>s. s), tx_word_or_space := (\<lambda>_. True),
     tx_tools := plain_tools\<lparr>tt_casefold := (\<lambda>s. s), tt_is_alpha := (\<lambda>_. True),
       tt_is_space := (\<lambda>c. c = CHR '' '' \<or> c = newline)\<rparr>\<rparr>"

definition run_settings :: "nlp_backend \<Rightarrow> cleansing_settings" where
  "run_settings backend =
     \<lparr>cs_dedup_window_hours = 48, cs_simhash_max_distance = 0, cs_similarity_threshold = 4 / 5,
      cs_quiet_period_minutes = 30, cs_max_lifetime_hours = 24, cs_mode = TITLE_FIRST, cs_nlp_backend = backend,
      cs_processing_version = ''v1''\<rparr>"

definition run_vector :: "flt list" where
  "run_vector = replicate EMBEDDING_DIM 1"

definition run_env :: "nlp_backend \<Rightarrow> cleansing_env" where
  \<comment> \<open>every text has the same embedding; a parsed title is its own subject; no LLM is configured\<close>
  "run_env backend =
     \<lparr>ce_taxonomy = run_taxonomy, ce_settings = run_settings backend, ce_tokens = (\<lambda>t. [t]),
      ce_feature_hash = (\<lambda>t. of_nat (length t)), ce_embed = (\<lambda>_. Inr run_vector),
      ce_pipelines = (\<lambda>_. Some (\<lambda>t. [\<lparr>st_text = t, st_dep = ''nsubj'', st_pos = ''NOUN'', st_lemma = t\<rparr>])),
      ce_classifier = None, ce_merger = None, ce_float4 = (\<lambda>x. x), ce_read_back = (\<lambda>x. x),
      ce_distance = (\<lambda>_ _. Some 0), ce_pystr = (\<lambda>_. []), ce_uuid_str = (\<lambda>_. ''id'')\<rparr>"

definition run_article :: "uuid \<Rightarrow> string \<Rightarrow> ArticleIngested" where
  "run_article aid title =
     \<lparr>message_id = 100 + aid, correlation_id = 200 + aid, causation_id = None, occurred_at = 0, ai_article_id = aid,
      ai_source_id = ''dn'', ai_canonical_url = ''/a'', ai_title = title, ai_body = [], ai_published_at = 0,
      ai_language = ''en'', ai_country = ''SE'', ai_content_hash = ''h''\<rparr>"

abbreviation run_facts :: "uuid \<Rightarrow> string \<Rightarrow> ArticleFacts" where
  "run_facts aid title \<equiv> facts_from_message (run_article aid title)"

lemma run_env_simps [simp]:
  "ce_settings (run_env b) = run_settings b" "ce_embed (run_env b) t = Inr run_vector" "ce_merger (run_env b) = None"
  "ce_distance (run_env b) v w = Some 0" "ce_read_back (run_env b) = (\<lambda>x. x)" "ce_float4 (run_env b) = (\<lambda>x. x)"
  by (simp_all add: run_env_def)

lemma run_settings_simps [simp]:
  "cs_dedup_window_hours (run_settings b) = 48" "cs_simhash_max_distance (run_settings b) = 0"
  "cs_similarity_threshold (run_settings b) = 4 / 5" "cs_quiet_period_minutes (run_settings b) = 30"
  "cs_max_lifetime_hours (run_settings b) = 24" "cs_processing_version (run_settings b) = ''v1''"
  by (simp_all add: run_settings_def)

lemma run_facts_simps [simp]:
  "af_article_id (run_facts aid t) = aid" "af_source_id (run_facts aid t) = ''dn''" "af_title (run_facts aid t) = t"
  "af_published_at (run_facts aid t) = 0" "af_language (run_facts aid t) = ''en''"
  by (simp_all add: facts_from_message_def run_article_def)

lemma run_types:
  "ea_event_type (action_of (run_env b) (run_facts 7 ''war'')) = MILITARY_CONFLICT"
  "ea_event_type (action_of (run_env b) (run_facts 8 ''wars'')) = MILITARY_CONFLICT"
  by (cases b; (hypsubst, code_simp))+

lemma run_assets:
  "ea_affected_asset_ids (action_of (run_env KEYWORD) (run_facts 7 ''war'')) = []"
  "ea_affected_asset_ids (action_of (run_env KEYWORD) (run_facts 8 ''wars'')) = []"
  by code_simp+

lemma run_actors:
  "ea_actor (action_of (run_env SPACY) (run_facts 7 ''war'')) = Some ''war''"
  "ea_actor (action_of (run_env SPACY) (run_facts 8 ''wars'')) = Some ''wars''"
  by code_simp+

lemma run_texts:
  "article_text (run_env b) (run_facts 7 ''war'') = ''war'' @ [newline]"
  "article_text (run_env b) (run_facts 8 ''wars'') = ''wars'' @ [newline]"
  by (cases b; (hypsubst, code_simp))+

lemma keyword_no_actor [simp]: "ea_actor (keyword_extract T llm mode t b url) = None"
  by (simp add: keyword_extract_def audited_def build_action_def Let_def split: prod.split)

lemma run_no_actor: "ea_actor (action_of (run_env KEYWORD) f) = None"
  by (simp add: action_of_def extract_action_def run_env_def run_settings_def Let_def split: prod.split)

lemma simhash_single: "simhash fh [t] = fh t"
  by (rule bit_eqI) (simp add: simhash_bit votes_def)

lemma map2_replicate: "map2 f (replicate n a) (replicate n b) = replicate n (f a b)"
  by (simp add: zip_replicate map_replicate)

lemma run_vector_ok [simp]: "pg_vector (run_env b) run_vector = Inr run_vector"
  by (simp add: pg_vector_def run_vector_def run_env_def)

lemma run_centroid [simp]: "update_centroid run_vector (Suc 0) run_vector = Some run_vector"
proof -
  have "fl64 (fl64 (fl64 (1 * of_nat (Suc 0)) + 1) / of_nat (Suc 0 + 1)) = 1"
    using fl64_numeral [of "num.Bit0 num.One"] by simp
  then show ?thesis
    by (simp add: update_centroid_def run_vector_def map2_replicate EMBEDDING_DIM_def)
qed

lemma begin_article_new:
  fixes env m
  defines "f \<equiv> facts_from_message m"
  assumes "\<not> article_already_processed (af_article_id f) db" "\<not> near_duplicate env now f db"
    "ce_embed env (article_text env f) = Inr v" "pg_vector env v = Inr w"
    "ea_event_type (action_of env f) = k" "k \<noteq> OTHER"
    "find_candidate_clusters env v k 5 (stored_article env f v db) = Inr cs"
  shows "begin_article env now m db =
    (Inr (Some \<lparr>an_facts = clean_facts env f, an_event_type = k, an_vector = v,
       an_cluster = ad_cluster_id (decide_assignment k cs (cs_similarity_threshold (ce_settings env))),
       an_quiet_at = quiet_deadline now (cs_quiet_period_minutes (ce_settings env)),
       an_lifetime_at = lifetime_deadline now (cs_max_lifetime_hours (ce_settings env))\<rparr>),
     stored_article env f v db)"
  using assms
  by (simp add: begin_article_def assign_decision_def prog_simps Let_def stored_article_def store_embedding_def
      store_fingerprint_def store_action_def)

lemma run_titles:
  "title_usable (run_env b) (run_facts 7 ''war'') = ''war''"
  "title_usable (run_env b) (run_facts 8 ''wars'') = ''wars''"
  by (cases b; (hypsubst, code_simp))+

lemma run_strips: "strip ''war'' = ''war''" "strip ''wars'' = ''wars''" "strip ''dn'' = ''dn''"
  by code_simp+

lemma majority_free_conflicts:
  "\<forall>a \<in> set actions. ea_actor (ar_action a) = None \<Longrightarrow> detect_fact_conflicts env actions = Inr []"
proof -
  assume "\<forall>a \<in> set actions. ea_actor (ar_action a) = None"
  then have "present (actors actions) = []"
    by (induction actions) (auto simp: present_def actors_def List.map_filter_simps)
  then show ?thesis by (simp add: detect_fact_conflicts_def distinct_nonempty_def)
qed

lemma affected_none:
  "\<forall>a \<in> set actions. ea_affected_asset_ids (ar_action a) = [] \<Longrightarrow> affected_assets reg actions = Inr []"
proof -
  assume "\<forall>a \<in> set actions. ea_affected_asset_ids (ar_action a) = []"
  then have none: "concat (map (ea_affected_asset_ids \<circ> ar_action) actions) = []" by simp
  show ?thesis unfolding affected_assets_def none by simp
qed

lemma local_event_exists:
  assumes "\<forall>a \<in> set (cl_actions db). ea_actor (ar_action a) = None \<and> ea_affected_asset_ids (ar_action a) = []"
    "\<forall>m \<in> set (cl_members db). strip (mr_title m) \<noteq> [] \<and> strip (mr_source_id m) \<noteq> []"
    "m \<in> set (cl_members db)" "mr_cluster_id m = cr_cluster_id r"
  shows "\<exists>e. merge_event env now r db = Inr e"
proof -
  have actions: "\<forall>a \<in> set (load_cluster_actions (cr_cluster_id r) db).
      ea_actor (ar_action a) = None \<and> ea_affected_asset_ids (ar_action a) = []"
    using assms(1) by (auto simp: load_cluster_actions_def)
  have articles: "\<forall>m \<in> set (load_cluster_articles (cr_cluster_id r) db). strip (mr_title m) \<noteq> [] \<and> strip (mr_source_id m) \<noteq> []"
    using assms(2) by (auto simp: load_cluster_articles_def)
  have "m \<in> set (load_cluster_articles (cr_cluster_id r) db)" using assms(3,4) by (simp add: load_cluster_articles_def)
  then obtain x xs where xs: "load_cluster_articles (cr_cluster_id r) db = x # xs"
    by (cases "load_cluster_articles (cr_cluster_id r) db") auto
  have "resolved_assets env (load_cluster_actions (cr_cluster_id r) db) k (load_cluster_articles (cr_cluster_id r) db) \<noteq> Inl err" for k err
    using affected_none actions by (auto simp: resolved_assets_def)
  then obtain assets where
    "resolved_assets env (load_cluster_actions (cr_cluster_id r) db) (cr_event_type r) (load_cluster_articles (cr_cluster_id r) db) = Inr assets"
    by (metis sum.exhaust)
  then show ?thesis
    using majority_free_conflicts actions articles xs
    by (auto simp: merge_event_def inputs_of_def build_local_event_def event_of_def list_ex_iff)
qed

definition race_db :: "nlp_backend \<Rightarrow> ClusterState \<Rightarrow> cleansing_db" where
  \<comment> \<open>after the first article, its cluster in the given state, and after the second article was read\<close>
  "race_db b st =
     \<lparr>cl_fingerprints = [\<lparr>fp_article_id = 7, fp_simhash = 4, fp_source_id = ''dn'', fp_published_at = 0, fp_version = ''v1''\<rparr>,
                         \<lparr>fp_article_id = 8, fp_simhash = 5, fp_source_id = ''dn'', fp_published_at = 0, fp_version = ''v1''\<rparr>],
      cl_embeddings = [\<lparr>em_article_id = 7, em_vector = run_vector, em_version = ''v1''\<rparr>,
                       \<lparr>em_article_id = 8, em_vector = run_vector, em_version = ''v1''\<rparr>],
      cl_actions = [\<lparr>ar_article_id = 7, ar_action = action_of (run_env b) (run_facts 7 ''war''), ar_language = ''en''\<rparr>,
                    \<lparr>ar_article_id = 8, ar_action = action_of (run_env b) (run_facts 8 ''wars''), ar_language = ''en''\<rparr>],
      cl_clusters = [\<lparr>cr_cluster_id = 0, cr_event_type = MILITARY_CONFLICT, cr_state = st, cr_article_count = 1,
        cr_first_seen_at = 0, cr_last_seen_at = 0, cr_quiet_deadline = minutes 30, cr_lifetime_deadline = minutes 1440,
        cr_centroid = run_vector, cr_version = ''v1''\<rparr>],
      cl_members = [member_of 0 (clean_facts (run_env b) (run_facts 7 ''war''))], cl_events = [], cl_outbox = [], cl_next_uuid = 1\<rparr>"

definition race_join :: "nlp_backend \<Rightarrow> assignment" where
  "race_join b =
     \<lparr>an_facts = clean_facts (run_env b) (run_facts 8 ''wars''), an_event_type = MILITARY_CONFLICT, an_vector = run_vector,
      an_cluster = Some 0, an_quiet_at = minutes 30, an_lifetime_at = minutes 1440\<rparr>"

definition race_first :: "nlp_backend \<Rightarrow> cleansing_db" where
  \<comment> \<open>after the first article\<close>
  "race_first b = (race_db b CS_OPEN)\<lparr>cl_fingerprints := take 1 (cl_fingerprints (race_db b CS_OPEN)),
     cl_embeddings := take 1 (cl_embeddings (race_db b CS_OPEN)), cl_actions := take 1 (cl_actions (race_db b CS_OPEN))\<rparr>"

lemma run_fingerprints:
  "fingerprint_of (run_env b) (run_facts 7 ''war'') = 4" "fingerprint_of (run_env b) (run_facts 8 ''wars'') = 5"
  using run_texts by (simp_all add: fingerprint_of_def run_env_def simhash_single)

lemma race_process_first: "process_article (run_env b) 0 (run_article 7 ''war'') empty_cleansing = (Inr (), race_first b)"
proof -
  let ?f = "run_facts 7 ''war''"
  have stored: "stored_article (run_env b) ?f run_vector empty_cleansing =
      (race_first b)\<lparr>cl_clusters := [], cl_members := [], cl_next_uuid := 0\<rparr>"
    by (simp add: stored_article_def store_fingerprint_def store_embedding_def store_action_def prog_simps empty_cleansing_def
        race_first_def race_db_def insert_new_def run_fingerprints)
  have none: "find_candidate_clusters (run_env b) run_vector MILITARY_CONFLICT 5 (stored_article (run_env b) ?f run_vector empty_cleansing) = Inr []"
    by (simp add: find_candidate_clusters_def stored by_distance_def)
  have new: "\<not> article_already_processed (af_article_id ?f) empty_cleansing" "\<not> near_duplicate (run_env b) 0 ?f empty_cleansing"
    by (simp_all add: article_already_processed_def near_duplicate_def recent_fingerprints_def empty_cleansing_def)
  have "begin_article (run_env b) 0 (run_article 7 ''war'') empty_cleansing =
      (Inr (Some ((race_join b)\<lparr>an_facts := clean_facts (run_env b) ?f, an_cluster := None\<rparr>)), stored_article (run_env b) ?f run_vector empty_cleansing)"
    using begin_article_new [OF new _ run_vector_ok run_types(1) _ none]
    by (simp add: race_join_def decide_assignment_def quiet_deadline_def lifetime_deadline_def)
  then show ?thesis
    by (simp add: process_article_def prog_simps stored apply_assignment_def race_join_def create_cluster_def insert_membership_def
        insert_new_def race_first_def race_db_def)
qed

lemma hamming_run: "hamming_distance (5 :: 64 word) 4 \<noteq> 0"
  unfolding hamming_zero by simp

lemma race_begin_second:
  "begin_article (run_env b) 0 (run_article 8 ''wars'') (race_first b) = (Inr (Some (race_join b)), race_db b CS_OPEN)"
proof -
  let ?f = "run_facts 8 ''wars''"
  have stored: "stored_article (run_env b) ?f run_vector (race_first b) = race_db b CS_OPEN"
    by (simp add: stored_article_def store_fingerprint_def store_embedding_def store_action_def prog_simps
        race_first_def race_db_def insert_new_def run_fingerprints)
  have found: "find_candidate_clusters (run_env b) run_vector MILITARY_CONFLICT 5 (stored_article (run_env b) ?f run_vector (race_first b)) =
      Inr [\<lparr>cc_cluster_id = 0, cc_event_type = MILITARY_CONFLICT, cc_similarity = Some 1\<rparr>]"
    by (simp add: find_candidate_clusters_def stored by_distance_def race_db_def)
  have new: "\<not> article_already_processed (af_article_id ?f) (race_first b)" "\<not> near_duplicate (run_env b) 0 ?f (race_first b)"
    using hamming_run
    by (simp_all add: article_already_processed_def near_duplicate_def recent_fingerprints_def race_first_def race_db_def
        is_near_duplicate_def run_fingerprints minutes_def)
  show ?thesis
    using begin_article_new [OF new _ run_vector_ok run_types(2) _ found] stored
    by (simp add: race_join_def decide_assignment_def better_candidate_def flt_less_def gate2_compatible_def
        NON_CLUSTERING_EVENT_TYPES_def NON_FINANCIAL_EVENT_TYPES_def quiet_deadline_def lifetime_deadline_def)
qed

definition race_claim :: "nlp_backend \<Rightarrow> ClusterRecord" where
  "race_claim b = hd (cl_clusters (race_db b CS_MERGING))"

lemma race_claim_first:
  "claim_ready_clusters (run_env b) (minutes 30) 20 (race_db b CS_OPEN) = (Inr [race_claim b], race_db b CS_MERGING)"
  by (simp add: claim_ready_clusters_def select_ordered_def cluster_due_def race_claim_def race_db_def set_cluster_state_def
      update_cluster_def)

lemma race_rows:
  "\<forall>a \<in> set (cl_actions (race_db KEYWORD st)). ea_actor (ar_action a) = None \<and> ea_affected_asset_ids (ar_action a) = []"
  "\<forall>m \<in> set (cl_members (race_db KEYWORD st)). strip (mr_title m) \<noteq> [] \<and> strip (mr_source_id m) \<noteq> []"
  by (simp_all add: race_db_def run_no_actor run_assets member_of_def clean_facts_def run_titles run_strips)

lemma race_event:
  obtains e where "close_one (run_env KEYWORD) (minutes 30) (race_claim KEYWORD) 0 (race_db KEYWORD CS_MERGING) =
      (Inr 1, store_event_with_outbox (minutes 30) e ((race_db KEYWORD CS_MERGING)\<lparr>cl_next_uuid := 4\<rparr>))"
    "ed_cluster_id e = 0" "message_id e = 1"
proof -
  obtain e where e: "merge_event (run_env KEYWORD) (minutes 30) (race_claim KEYWORD) (race_db KEYWORD CS_MERGING) = Inr e"
    using local_event_exists [OF race_rows, of "member_of 0 (clean_facts (run_env KEYWORD) (run_facts 7 ''war''))" CS_MERGING "race_claim KEYWORD" "run_env KEYWORD"]
    by (auto simp: race_db_def race_claim_def member_of_def)
  obtain summary triple conflicts meth metadata where
    "event_of (run_env KEYWORD) (minutes 30) (cl_next_uuid (race_db KEYWORD CS_MERGING)) (inputs_of (race_claim KEYWORD) (race_db KEYWORD CS_MERGING))
       summary triple conflicts meth metadata = Inr e"
    using merge_event_Inr [OF e] .
  note of_e = event_of_Inr [OF this]
  have ids: "cl_next_uuid (race_db KEYWORD CS_MERGING) = 1" "cr_cluster_id (race_claim KEYWORD) = 0"
    by (simp_all add: race_db_def race_claim_def)
  show thesis using of_e(1,4) by (intro that [of e]) (simp_all add: close_one_def e inputs_of_def ids)
qed

lemma race_reopened:
  fixes e
  assumes "ed_cluster_id e = 0" "message_id e = 1"
  defines "db4 \<equiv> store_event_with_outbox (minutes 30) e ((race_db KEYWORD CS_MERGING)\<lparr>cl_next_uuid := 4\<rparr>)"
  obtains db5 where "apply_assignment (run_env KEYWORD) (race_join KEYWORD) db4 = (Inr (), db5)" "emitted db5 = [0]" "cl_next_uuid db5 = 4"
    "map ob_message_id (cl_outbox db5) = [1]"
    "cl_clusters db5 = [(hd (cl_clusters (race_db KEYWORD CS_OPEN)))\<lparr>cr_article_count := 2\<rparr>]"
    "cl_actions db5 = cl_actions (race_db KEYWORD CS_OPEN)"
    "cl_members db5 = cl_members (race_db KEYWORD CS_OPEN) @ [member_of 0 (clean_facts (run_env KEYWORD) (run_facts 8 ''wars''))]"
proof -
  have clusters: "cl_clusters db4 = [(hd (cl_clusters (race_db KEYWORD CS_OPEN)))\<lparr>cr_state := CS_MERGED\<rparr>]"
    and rest: "cl_outbox db4 = [new_outbox_row 1 (ed_event_id e) e (minutes 30)]" "cl_next_uuid db4 = 4"
      "cl_actions db4 = cl_actions (race_db KEYWORD CS_OPEN)" "cl_members db4 = cl_members (race_db KEYWORD CS_OPEN)"
    using assms(1,2)
    by (simp_all add: db4_def store_event_with_outbox_def set_cluster_state_def update_cluster_def race_db_def insert_new_def)
  have row: "cluster_row 0 db4 = Some ((hd (cl_clusters (race_db KEYWORD CS_OPEN)))\<lparr>cr_state := CS_MERGED\<rparr>)"
    by (simp add: cluster_row_def clusters fetch_first_def race_db_def)
  have fresh: "(0, 8) \<notin> (\<lambda>m. (mr_cluster_id m, mr_article_id m)) ` set (cl_members (race_db KEYWORD CS_OPEN))"
    by (simp add: race_db_def member_of_def)
  have run: "apply_assignment (run_env KEYWORD) (race_join KEYWORD) db4 = (Inr (),
      db4\<lparr>cl_clusters := [(hd (cl_clusters (race_db KEYWORD CS_OPEN)))\<lparr>cr_article_count := 2\<rparr>],
          cl_members := cl_members (race_db KEYWORD CS_OPEN) @ [member_of 0 (clean_facts (run_env KEYWORD) (run_facts 8 ''wars''))]\<rparr>)"
    using row clusters rest fresh
    by (simp add: apply_assignment_def race_join_def add_article_to_cluster_def prog_simps
        insert_membership_def insert_new_def update_cluster_def race_db_def member_of_def)
  show thesis using assms(1) by (intro that [OF run]) (simp_all add: emitted_def rest new_outbox_row_def)
qed

lemma close_one_emits:
  assumes "merge_event env now r db = Inr e" "cl_next_uuid db \<notin> set (map ob_message_id (cl_outbox db))"
  shows "emitted (snd (close_one env now r n db)) = emitted db @ [cr_cluster_id r]"
proof -
  obtain summary triple conflicts meth metadata where
    "event_of env now (cl_next_uuid db) (inputs_of r db) summary triple conflicts meth metadata = Inr e"
    using merge_event_Inr [OF assms(1)] .
  note of_e = event_of_Inr [OF this]
  have "message_id e \<notin> ob_message_id ` set (cl_outbox db)" using of_e(4) assms(2) by simp
  then show ?thesis using of_e(1)
    by (simp add: close_one_def assms(1) store_event_with_outbox_def emitted_def set_cluster_state_def insert_new_def
        inputs_of_def new_outbox_row_def)
qed

lemma race_closed_again:
  fixes db5
  assumes "emitted db5 = [0]" "cl_next_uuid db5 = 4" "map ob_message_id (cl_outbox db5) = [1]"
    "cl_clusters db5 = [(hd (cl_clusters (race_db KEYWORD CS_OPEN)))\<lparr>cr_article_count := 2\<rparr>]"
    "cl_actions db5 = cl_actions (race_db KEYWORD CS_OPEN)"
    "cl_members db5 = cl_members (race_db KEYWORD CS_OPEN) @ [member_of 0 (clean_facts (run_env KEYWORD) (run_facts 8 ''wars''))]"
  obtains c6 db6 where "claim_ready_clusters (run_env KEYWORD) (minutes 30) 20 db5 = (Inr [c6], db6)"
    "emitted (snd (close_one (run_env KEYWORD) (minutes 30) c6 0 db6)) = [0, 0]"
proof -
  let ?c6 = "(hd (cl_clusters (race_db KEYWORD CS_OPEN)))\<lparr>cr_article_count := 2, cr_state := CS_MERGING\<rparr>"
  let ?db6 = "set_cluster_state 0 CS_MERGING db5"
  have claim: "claim_ready_clusters (run_env KEYWORD) (minutes 30) 20 db5 = (Inr [?c6], ?db6)"
    by (simp add: claim_ready_clusters_def assms(4) select_ordered_def cluster_due_def race_db_def)
  have same: "cl_actions ?db6 = cl_actions db5" "cl_members ?db6 = cl_members db5" "cl_outbox ?db6 = cl_outbox db5"
    "cl_next_uuid ?db6 = 4" "emitted ?db6 = [0]"
    using assms(1,2) by (simp_all add: set_cluster_state_def)
  have "\<exists>e. merge_event (run_env KEYWORD) (minutes 30) ?c6 ?db6 = Inr e"
    by (rule local_event_exists [of _ "member_of 0 (clean_facts (run_env KEYWORD) (run_facts 7 ''war''))"])
      (simp_all add: same assms(5,6) race_db_def run_no_actor run_assets member_of_def clean_facts_def run_titles run_strips)
  then obtain e where e: "merge_event (run_env KEYWORD) (minutes 30) ?c6 ?db6 = Inr e" by blast
  have "emitted (snd (close_one (run_env KEYWORD) (minutes 30) ?c6 0 ?db6)) = emitted ?db6 @ [cr_cluster_id ?c6]"
    by (rule close_one_emits [OF e]) (simp only: same assms(3), simp)
  then show thesis using same by (intro that [OF claim]) (simp add: race_db_def)
qed

abbreviation race_sys :: "cleansing_db \<Rightarrow> ClusterRecord list \<Rightarrow> cleansing_sys" where
  "race_sys db claims \<equiv> \<lparr>sy_db = db, sy_joins = [race_join KEYWORD], sy_claims = claims\<rparr>"

lemma race_closed:
  obtains e where "ed_cluster_id e = 0" "message_id e = 1"
    "cl_reachable (race_sys (store_event_with_outbox (minutes 30) e ((race_db KEYWORD CS_MERGING)\<lparr>cl_next_uuid := 4\<rparr>)) [])"
proof -
  have r1: "cl_reachable (quiescent (race_first KEYWORD))"
    using cl_serial.article [OF race_process_first] by (intro serial_reachable) blast
  have s2: "cl_step (quiescent (race_first KEYWORD)) (race_sys (race_db KEYWORD CS_OPEN) [])"
    using cl_step.decided [of "run_env KEYWORD" 0 "run_article 8 ''wars''" "quiescent (race_first KEYWORD)" "race_join KEYWORD"
        "race_db KEYWORD CS_OPEN"] race_begin_second by (simp add: quiescent_def)
  have s3: "cl_step (race_sys (race_db KEYWORD CS_OPEN) []) (race_sys (race_db KEYWORD CS_MERGING) [race_claim KEYWORD])"
    using cl_step.claimed [of "run_env KEYWORD" "minutes 30" 20 "race_sys (race_db KEYWORD CS_OPEN) []" "[race_claim KEYWORD]"
        "race_db KEYWORD CS_MERGING"] race_claim_first by simp
  obtain e where e: "close_one (run_env KEYWORD) (minutes 30) (race_claim KEYWORD) 0 (race_db KEYWORD CS_MERGING) =
      (Inr 1, store_event_with_outbox (minutes 30) e ((race_db KEYWORD CS_MERGING)\<lparr>cl_next_uuid := 4\<rparr>))"
    "ed_cluster_id e = 0" "message_id e = 1" by (rule race_event)
  have s4: "cl_step (race_sys (race_db KEYWORD CS_MERGING) [race_claim KEYWORD])
      (race_sys (store_event_with_outbox (minutes 30) e ((race_db KEYWORD CS_MERGING)\<lparr>cl_next_uuid := 4\<rparr>)) [])"
    using cl_step.closed [of "race_sys (race_db KEYWORD CS_MERGING) [race_claim KEYWORD]" "race_claim KEYWORD" "[]"
        "run_env KEYWORD" "minutes 30" 0] e(1) by simp
  show thesis using e(2,3) r1 s2 s3 s4 by (intro that [of e]) (auto intro: rtranclp.rtrancl_into_rtrancl)
qed


subsection \<open>Sources that disagree\<close>

definition stuck_db :: "ClusterState \<Rightarrow> cleansing_db" where
  \<comment> \<open>both articles in one cluster\<close>
  "stuck_db st = (race_db SPACY st)\<lparr>cl_clusters := [(hd (cl_clusters (race_db SPACY st)))\<lparr>cr_article_count := 2\<rparr>],
     cl_members := cl_members (race_db SPACY st) @ [member_of 0 (clean_facts (run_env SPACY) (run_facts 8 ''wars''))]\<rparr>"

lemma stuck_second: "process_article (run_env SPACY) 0 (run_article 8 ''wars'') (race_first SPACY) = (Inr (), stuck_db CS_OPEN)"
  using race_begin_second [of SPACY]
  by (simp add: process_article_def prog_simps apply_assignment_def race_join_def add_article_to_cluster_def cluster_row_def
      fetch_first_def race_db_def stuck_db_def insert_membership_def insert_new_def update_cluster_def member_of_def)

definition stuck_claim :: ClusterRecord where
  "stuck_claim = hd (cl_clusters (stuck_db CS_MERGING))"

lemma stuck_claimed: "claim_ready_clusters (run_env SPACY) (minutes 30) 20 (stuck_db CS_OPEN) = (Inr [stuck_claim], stuck_db CS_MERGING)"
  by (simp add: claim_ready_clusters_def select_ordered_def cluster_due_def stuck_claim_def stuck_db_def race_db_def set_cluster_state_def
      update_cluster_def)

lemma stuck_conflict: "\<exists>c cs. detect_fact_conflicts (run_env SPACY) (cl_actions (stuck_db st)) = Inr (c # cs)"
  by (simp add: detect_fact_conflicts_def stuck_db_def race_db_def actors_def present_def distinct_nonempty_def add_new_def
      List.map_filter_simps run_actors run_strips)

lemma stuck_closed:
  "close_one (run_env SPACY) (minutes 30) stuck_claim 0 (stuck_db CS_MERGING) = (Inr 0, stuck_db CS_ERROR_RETRYABLE)"
proof -
  have actions: "load_cluster_actions 0 (stuck_db CS_MERGING) = cl_actions (stuck_db CS_MERGING)"
    by (simp add: load_cluster_actions_def stuck_db_def race_db_def member_of_def)
  have "cr_cluster_id stuck_claim = 0" by (simp add: stuck_claim_def stuck_db_def race_db_def)
  then have "merge_event (run_env SPACY) (minutes 30) stuck_claim (stuck_db CS_MERGING) =
      Inl (AmbiguousMergeError ''ambiguous cluster and no LLM merger configured'')"
    using stuck_conflict [of CS_MERGING] by (auto simp: merge_event_def inputs_of_def actions)
  then show ?thesis
    by (simp add: close_one_def)
      (simp add: stuck_claim_def stuck_db_def race_db_def set_cluster_state_def update_cluster_def)
qed

lemma stuck_serial: "cl_serial\<^sup>*\<^sup>* empty_cleansing (stuck_db CS_ERROR_RETRYABLE)"
proof -
  have "close_ready_clusters (run_env SPACY) (minutes 30) (stuck_db CS_OPEN) = (Inr 0, stuck_db CS_ERROR_RETRYABLE)"
    using stuck_claimed stuck_closed by (simp add: close_ready_clusters_def prog_simps)
  then show ?thesis
    using cl_serial.article [OF race_process_first [of SPACY]] cl_serial.article [OF stuck_second] cl_serial.sweep
    by (meson r_into_rtranclp rtranclp.rtrancl_into_rtrancl)
qed

subsection \<open>An article that no rule maps\<close>

lemma unmapped_article:
  "ea_event_type (action_of (run_env KEYWORD) (run_facts 9 ''hi'')) = OTHER"
  "ea_affected_asset_ids (action_of (run_env KEYWORD) (run_facts 9 ''hi'')) = []"
  "title_usable (run_env KEYWORD) (run_facts 9 ''hi'') = ''hi''" "strip ''hi'' = ''hi''"
  by code_simp+

definition other_db :: "ClusterState \<Rightarrow> cleansing_db" where
  "other_db st =
     \<lparr>cl_fingerprints = [\<lparr>fp_article_id = 9, fp_simhash = fingerprint_of (run_env KEYWORD) (run_facts 9 ''hi''), fp_source_id = ''dn'',
        fp_published_at = 0, fp_version = ''v1''\<rparr>],
      cl_embeddings = [\<lparr>em_article_id = 9, em_vector = run_vector, em_version = ''v1''\<rparr>],
      cl_actions = [\<lparr>ar_article_id = 9, ar_action = action_of (run_env KEYWORD) (run_facts 9 ''hi''), ar_language = ''en''\<rparr>],
      cl_clusters = [\<lparr>cr_cluster_id = 0, cr_event_type = OTHER, cr_state = st, cr_article_count = 1,
        cr_first_seen_at = 0, cr_last_seen_at = 0, cr_quiet_deadline = minutes 30, cr_lifetime_deadline = minutes 1440,
        cr_centroid = run_vector, cr_version = ''v1''\<rparr>],
      cl_members = [member_of 0 (clean_facts (run_env KEYWORD) (run_facts 9 ''hi''))], cl_events = [], cl_outbox = [], cl_next_uuid = 1\<rparr>"

lemma other_processed: "process_article (run_env KEYWORD) 0 (run_article 9 ''hi'') empty_cleansing = (Inr (), other_db CS_OPEN)"
  by (simp add: process_article_def begin_article_def prog_simps article_already_processed_def near_duplicate_def
      recent_fingerprints_def empty_cleansing_def Let_def store_embedding_def store_fingerprint_def store_action_def
      assign_decision_def unmapped_article decide_assignment_def apply_assignment_def create_cluster_def insert_membership_def
      insert_new_def other_db_def quiet_deadline_def lifetime_deadline_def)

lemma other_closed:
  obtains db e where "cl_serial\<^sup>*\<^sup>* empty_cleansing db" "map ob_payload (cl_outbox db) = [e]" "ed_event_type e = OTHER"
    "emitted db = [0]" "map cr_cluster_id (cl_clusters db) = [0]"
proof -
  let ?c = "hd (cl_clusters (other_db CS_MERGING))"
  have claim: "claim_ready_clusters (run_env KEYWORD) (minutes 30) 20 (other_db CS_OPEN) = (Inr [?c], other_db CS_MERGING)"
    by (simp add: claim_ready_clusters_def select_ordered_def cluster_due_def other_db_def set_cluster_state_def update_cluster_def)
  have "\<exists>e. merge_event (run_env KEYWORD) (minutes 30) ?c (other_db CS_MERGING) = Inr e"
    by (rule local_event_exists [of _ "member_of 0 (clean_facts (run_env KEYWORD) (run_facts 9 ''hi''))"])
      (simp_all add: other_db_def run_no_actor unmapped_article member_of_def clean_facts_def run_strips)
  then obtain e where e: "merge_event (run_env KEYWORD) (minutes 30) ?c (other_db CS_MERGING) = Inr e" by blast
  obtain summary triple conflicts meth metadata where
    "event_of (run_env KEYWORD) (minutes 30) (cl_next_uuid (other_db CS_MERGING)) (inputs_of ?c (other_db CS_MERGING))
       summary triple conflicts meth metadata = Inr e"
    using merge_event_Inr [OF e] .
  from event_of_Inr(1,2) [OF this] have e_of: "ed_cluster_id e = 0" "ed_event_type e = OTHER"
    by (simp_all add: inputs_of_def other_db_def)
  obtain r db' where closed: "close_ready_clusters (run_env KEYWORD) (minutes 30) (other_db CS_OPEN) = (r, db')"
    by (cases "close_ready_clusters (run_env KEYWORD) (minutes 30) (other_db CS_OPEN)")
  then have "db' = store_event_with_outbox (minutes 30) e ((other_db CS_MERGING)\<lparr>cl_next_uuid := cl_next_uuid (other_db CS_MERGING) + 3\<rparr>)"
    using claim e by (simp add: close_ready_clusters_def prog_simps close_one_def)
  then have "map ob_payload (cl_outbox db') = [e]" "emitted db' = [0]" "map cr_cluster_id (cl_clusters db') = [0]"
    using e_of(1) by (simp_all add: store_event_with_outbox_def set_cluster_state_def other_db_def insert_new_def new_outbox_row_def
        emitted_def update_cluster_def)
  moreover have "cl_serial\<^sup>*\<^sup>* empty_cleansing db'"
    using cl_serial.article [OF other_processed] cl_serial.sweep [OF closed] by (meson r_into_rtranclp rtranclp.rtrancl_into_rtrancl)
  ultimately show thesis using e_of(2) by (intro that [of db' e])
qed

subsection \<open>What holds in every run\<close>

lemma race_first_serial: "cl_serial\<^sup>*\<^sup>* empty_cleansing (race_first KEYWORD)"
  using cl_serial.article [OF race_process_first] by blast

text \<open>
  C15: however the consumer and the close sweep interleave, crash and are redeployed, every article in a
  cluster was classified with the event type of that cluster, and a cluster of a type that must not be
  clustered (OTHER, sport, entertainment, lifestyle) holds one article only.
\<close>

theorem clusters_share_one_type:
  assumes "cl_reachable s" "c \<in> set (cl_clusters (sy_db s))" "m \<in> set (cl_members (sy_db s))"
    "mr_cluster_id m = cr_cluster_id c"
  shows "typed_action (sy_db s) (mr_article_id m) (cr_event_type c) \<and>
    (cr_event_type c \<notin> NON_CLUSTERING_EVENT_TYPES \<or> alone (sy_db s) (cr_cluster_id c))"
proof -
  have good: "good_db (sy_db s)" using good_reachable [OF assms(1)] by (simp add: good_sys_def)
  have c: "(cr_cluster_id c, cr_event_type c) \<in> set (cluster_types (sy_db s))"
    using assms(2) by (auto simp: cluster_types_def)
  obtain k where k: "(cr_cluster_id c, k) \<in> set (cluster_types (sy_db s))" "typed_action (sy_db s) (mr_article_id m) k"
    using good_dbD(6) [OF good assms(3)] assms(4) by (auto simp: member_ok_def)
  then show ?thesis using type_unique [OF good k(1) c] good_dbD(7) [OF good c] by blast
qed

theorem clusters_share_one_type_witness:
  "typed_action (race_first KEYWORD) 7 MILITARY_CONFLICT"
  using clusters_share_one_type [OF serial_reachable [OF race_first_serial],
      of "hd (cl_clusters (race_first KEYWORD))" "hd (cl_members (race_first KEYWORD))"]
  by (simp add: quiescent_def race_first_def race_db_def member_of_def)

text \<open>
  C16: every EventDetected ever put in the outbox, in every interleaving, is about a cluster of the table, has
  the event type of that cluster and names only articles of that cluster as sources; one of a type that must
  not be clustered carries no asset, so it can never lead to a prediction.
\<close>

theorem events_describe_their_cluster:
  assumes "cl_reachable s" "e \<in> ob_payload ` set (cl_outbox (sy_db s))"
  shows "(\<exists>c \<in> set (cl_clusters (sy_db s)). cr_cluster_id c = ed_cluster_id e \<and> cr_event_type c = ed_event_type e) \<and>
    (\<forall>x \<in> set (ed_sources e). \<exists>m \<in> set (cl_members (sy_db s)).
       mr_cluster_id m = ed_cluster_id e \<and> mr_article_id m = sr_article_id x) \<and>
    (ed_event_type e \<notin> NON_CLUSTERING_EVENT_TYPES \<or> ed_affected_asset_ids e = [])"
proof -
  have "event_ok (sy_db s) e"
    using good_reachable [OF assms(1)] assms(2) by (intro good_dbD(8)) (simp_all add: good_sys_def)
  then show ?thesis by (auto simp: event_ok_def cluster_types_def)
qed

theorem events_describe_their_cluster_witness:
  "\<exists>s e. cl_reachable s \<and> e \<in> ob_payload ` set (cl_outbox (sy_db s)) \<and>
     (\<exists>c \<in> set (cl_clusters (sy_db s)). cr_cluster_id c = ed_cluster_id e \<and> cr_event_type c = ed_event_type e) \<and>
     (ed_event_type e \<notin> NON_CLUSTERING_EVENT_TYPES \<or> ed_affected_asset_ids e = [])"
proof -
  obtain e where e: "message_id e = 1" and reached:
    "cl_reachable (race_sys (store_event_with_outbox (minutes 30) e ((race_db KEYWORD CS_MERGING)\<lparr>cl_next_uuid := 4\<rparr>)) [])"
      (is "cl_reachable ?s")
    using race_closed by metis
  have "e \<in> ob_payload ` set (cl_outbox (sy_db ?s))"
    by (simp add: store_event_with_outbox_def set_cluster_state_def race_db_def insert_new_def new_outbox_row_def)
  with events_describe_their_cluster [OF reached this] reached show ?thesis by blast
qed

text \<open>
  C14: when handlers do not overlap, every cluster leads to at most one EventDetected: the clusters of the
  messages put in the outbox are pairwise different, they are exactly the MERGED ones, and every message has
  its row in the events table.
\<close>

theorem one_event_per_cluster:
  assumes "cl_serial\<^sup>*\<^sup>* empty_cleansing db"
  shows "distinct (emitted db) \<and>
    (\<forall>c \<in> set (cl_clusters db). cr_state c = CS_MERGED \<longleftrightarrow> cr_cluster_id c \<in> set (emitted db)) \<and>
    map er_payload (cl_events db) = map ob_payload (cl_outbox db)"
  using serial_once [OF assms] by (simp add: once_db_def)

theorem one_event_per_cluster_witness:
  "\<exists>db. emitted db = [0] \<and> distinct (emitted db) \<and> map er_payload (cl_events db) = map ob_payload (cl_outbox db) \<and>
     map cr_state (cl_clusters db) = [CS_MERGED]"
proof -
  obtain db where db: "cl_serial\<^sup>*\<^sup>* empty_cleansing db" "emitted db = [0]" "map cr_cluster_id (cl_clusters db) = [0]"
    by (rule other_closed)
  then obtain c where "cl_clusters db = [c]" "cr_cluster_id c = 0" by (cases "cl_clusters db") auto
  then show ?thesis using one_event_per_cluster [OF db(1)] db(2) by (intro exI [of _ db]) simp
qed



subsection \<open>A delivery that fails half-way\<close>

lemma processed_no_op:
  "article_already_processed (ai_article_id m) db \<Longrightarrow> process_article env now m db = (Inr (), db)"
  by (simp add: process_article_def begin_article_def Let_def prog_simps facts_from_message_def)

lemma fingerprint_processed:
  "article_already_processed aid (snd (store_fingerprint env aid h src pub db))"
  using insert_new_key [of fp_article_id "\<lparr>fp_article_id = aid, fp_simhash = h, fp_source_id = src, fp_published_at = pub,
      fp_version = cs_processing_version (ce_settings env)\<rparr>" "cl_fingerprints db"]
  by (simp add: article_already_processed_def store_fingerprint_def prog_simps)

lemma stored_processed: "article_already_processed (af_article_id f) (stored_article env f v db)"
proof -
  have "cl_fingerprints (stored_article env f v db) =
      cl_fingerprints (snd (store_fingerprint env (af_article_id f) (fingerprint_of env f) (af_source_id f) (af_published_at f) db))"
    by (auto simp: stored_article_def store_action_def store_embedding_def prog_simps split: prod.splits sum.splits)
  then show ?thesis using fingerprint_processed by (simp add: article_already_processed_def)
qed

lemma apply_assignment_raises: "apply_assignment env a db = (Inl e, db') \<Longrightarrow> db' = db"
  by (cases "an_cluster a")
    (auto simp: apply_assignment_def prog_simps split: prod.splits sum.splits elim!: create_cluster_cases add_article_cases)

text \<open>
  C22: taking in an article is not one transaction.  When a delivery raises, it either left the database
  unchanged, or the article is lost: it has a fingerprint but is in no cluster, and every later delivery of it
  is skipped as a replay, in whatever environment.
\<close>

theorem failed_article_lost:
  assumes "process_article env now m db = (Inl e, db')"
  shows "db' = db \<or>
    (cl_members db' = cl_members db \<and> cl_clusters db' = cl_clusters db \<and>
     (\<forall>env' now'. process_article env' now' m db' = (Inr (), db')))"
proof -
  obtain r1 db1 where begun: "begin_article env now m db = (r1, db1)" by (cases "begin_article env now m db")
  have "db' = db1"
    using assms begun apply_assignment_raises
    by (auto simp: process_article_def prog_simps split: sum.splits option.splits)
  moreover have "ai_article_id m = af_article_id (facts_from_message m)" by (simp add: facts_from_message_def)
  moreover from begun have "db1 = db \<or> article_already_processed (af_article_id (facts_from_message m)) db1"
    by (cases rule: begin_article_cases) (auto intro: fingerprint_processed stored_processed)
  ultimately show ?thesis using begin_article_frame [OF begun] processed_no_op by metis
qed

definition narrow_env :: cleansing_env where
  \<comment> \<open>an embedding backend of another dimension than the column\<close>
  "narrow_env = (run_env KEYWORD)\<lparr>ce_embed := (\<lambda>_. Inr [1])\<rparr>"

theorem failed_article_lost_witness:
  "\<exists>e db'. process_article narrow_env 0 (run_article 7 ''war'') empty_cleansing = (Inl e, db') \<and> db' \<noteq> empty_cleansing \<and>
     cl_members db' = [] \<and> process_article (run_env KEYWORD) 1 (run_article 7 ''war'') db' = (Inr (), db')"
proof -
  let ?f = "run_facts 7 ''war''"
  let ?db = "snd (store_fingerprint narrow_env 7 (fingerprint_of narrow_env ?f) ''dn'' 0 empty_cleansing)"
  have run: "process_article narrow_env 0 (run_article 7 ''war'') empty_cleansing = (Inl (DatabaseError ''expected 1024 dimensions''), ?db)"
    by (simp add: process_article_def begin_article_def prog_simps article_already_processed_def near_duplicate_def
        recent_fingerprints_def empty_cleansing_def Let_def store_embedding_def pg_vector_def EMBEDDING_DIM_def narrow_env_def
        store_fingerprint_def)
  have "?db \<noteq> empty_cleansing" by (simp add: store_fingerprint_def prog_simps empty_cleansing_def insert_new_def)
  then show ?thesis using failed_article_lost [OF run] run by (intro exI conjI) (auto simp: empty_cleansing_def)
qed

end
