(* ===== verification/Network.thy ===== *)
theory Network
  imports Registry "HOL-Library.Word"
begin

text \<open>
  Addresses and the checks of \<^verbatim>\<open>services/ingestion/ingestion/fetcher.py\<close> on a destination.

  The first part is what the fetcher uses of Python's \<^verbatim>\<open>ipaddress\<close> (3.12): parsing of the two address formats
  and the special-purpose networks behind \<^verbatim>\<open>is_private\<close> and its siblings.  An IPv4 address is a 32-bit word,
  an IPv6 address a 128-bit word; host names are ASCII.
\<close>

subsection \<open>Address texts\<close>

datatype ip = IPv4 "32 word" | IPv6 "128 word"

fun int_of_digits :: "int \<Rightarrow> string \<Rightarrow> int" where
  "int_of_digits acc [] = acc"
| "int_of_digits acc (c # cs) = int_of_digits (10 * acc + (of_char c - 48)) cs"

definition parse_octet :: "string \<Rightarrow> int option" where
  "parse_octet s =
     (if s = [] \<or> \<not> list_all is_digit s \<or> 3 < length s \<or> (s \<noteq> ''0'' \<and> hd s = CHR ''0'') then None
      else if 255 < int_of_digits 0 s then None else Some (int_of_digits 0 s))"

definition parse_ipv4 :: "string \<Rightarrow> int option" where
  "parse_ipv4 s =
     (case those (map parse_octet (split_char (CHR ''.'') s)) of
        Some [a, b, c, d] \<Rightarrow> Some (((a * 256 + b) * 256 + c) * 256 + d)
      | _ \<Rightarrow> None)"

definition hex_val :: "char \<Rightarrow> int option" where
  "hex_val c =
     (let n = of_char c :: int
      in if is_digit c then Some (n - 48)
         else if 65 \<le> n \<and> n \<le> 70 then Some (n - 55)
         else if 97 \<le> n \<and> n \<le> 102 then Some (n - 87) else None)"

definition parse_hextet :: "string \<Rightarrow> int option" where
  "parse_hextet s =
     (if s = [] \<or> 4 < length s then None
      else map_option (foldl (\<lambda>acc d. acc * 16 + d) 0) (those (map hex_val s)))"

definition ipv6_parts :: "string list \<Rightarrow> (int list) option" where
  \<comment> \<open>the parts between the colons, the text of an IPv4 suffix replaced by its two halves\<close>
  "ipv6_parts parts =
     (if CHR ''.'' \<in> set (last parts)
      then (case (those (map (\<lambda>p. if p = [] then Some 65536 else parse_hextet p) (butlast parts)), parse_ipv4 (last parts)) of
              (Some hs, Some n) \<Rightarrow> Some (hs @ [n div 65536, n mod 65536])
            | _ \<Rightarrow> None)
      else those (map (\<lambda>p. if p = [] then Some 65536 else parse_hextet p) parts))"

text \<open>In \<open>ipv6_parts\<close> the value 65536 stands for an empty part; it is never the value of a part.\<close>

abbreviation gap :: int where
  "gap \<equiv> 65536"

definition expand_gap :: "int list \<Rightarrow> (int list) option" where
  \<comment> \<open>eight numbers, with the one run of zeros that \<open>::\<close> stands for written out\<close>
  "expand_gap hs =
     (if 9 < length hs then None
      else case filter (\<lambda>i. hs ! i = gap) [1..<length hs - 1] of
        [] \<Rightarrow> if length hs = 8 \<and> gap \<notin> set hs then Some hs else None
      | [k] \<Rightarrow>
          (let hi = take k hs; lo = drop (k + 1) hs;
               hi = (if hd hs = gap then tl hi else hi); lo = (if last hs = gap then butlast lo else lo)
           in if (hd hs = gap \<and> hi \<noteq> []) \<or> (last hs = gap \<and> lo \<noteq> []) \<or> 8 \<le> length hi + length lo then None
              else Some (hi @ replicate (8 - (length hi + length lo)) 0 @ lo))
      | _ \<Rightarrow> None)"

definition parse_ipv6 :: "string \<Rightarrow> int option" where
  "parse_ipv6 s =
     (let parts = split_char (CHR '':'') s
      in if length parts < 3 then None
         else Option.bind (ipv6_parts parts)
                (\<lambda>hs. map_option (foldl (\<lambda>acc h. acc * 65536 + h) 0) (expand_gap hs)))"

definition ip_address :: "string \<Rightarrow> ip option" where
  "ip_address s =
     (case parse_ipv4 s of
        Some n \<Rightarrow> Some (IPv4 (word_of_int n))
      | None \<Rightarrow>
          (let (addr, scoped, scope) = partition_at ''%'' s
           in if CHR ''/'' \<in> set s \<or> (scoped \<and> (scope = [] \<or> CHR ''%'' \<in> set scope)) then None
              else map_option (\<lambda>n. IPv6 (word_of_int n)) (parse_ipv6 addr)))"

subsection \<open>Special-purpose networks\<close>

definition in_net :: "'a::len word \<Rightarrow> 'a word \<times> nat \<Rightarrow> bool" where
  "in_net a net = (drop_bit (LENGTH('a) - snd net) a = drop_bit (LENGTH('a) - snd net) (fst net))"

definition quad :: "int \<Rightarrow> int \<Rightarrow> int \<Rightarrow> int \<Rightarrow> 32 word" where
  "quad a b c d = word_of_int (((a * 256 + b) * 256 + c) * 256 + d)"

definition v6 :: "int list \<Rightarrow> 128 word" where
  \<comment> \<open>leading 16-bit groups, the rest zero\<close>
  "v6 hs = word_of_int (foldl (\<lambda>acc h. acc * 65536 + h) 0 (hs @ replicate (8 - length hs) 0))"

definition private_v4 :: "(32 word \<times> nat) list" where
  "private_v4 =
     [(quad 0 0 0 0, 8), (quad 10 0 0 0, 8), (quad 127 0 0 0, 8), (quad 169 254 0 0, 16), (quad 172 16 0 0, 12),
      (quad 192 0 0 0, 24), (quad 192 0 0 170, 31), (quad 192 0 2 0, 24), (quad 192 168 0 0, 16), (quad 198 18 0 0, 15),
      (quad 198 51 100 0, 24), (quad 203 0 113 0, 24), (quad 240 0 0 0, 4), (quad 255 255 255 255, 32)]"

definition private_v4_exceptions :: "(32 word \<times> nat) list" where
  "private_v4_exceptions = [(quad 192 0 0 9, 32), (quad 192 0 0 10, 32)]"

definition private_v6 :: "(128 word \<times> nat) list" where
  "private_v6 =
     [(v6 [0, 0, 0, 0, 0, 0, 0, 1], 128), (v6 [], 128), (v6 [0, 0, 0, 0, 0, 0xFFFF], 96), (v6 [0x64, 0xFF9B, 1], 48),
      (v6 [0x100], 64), (v6 [0x2001], 23), (v6 [0x2001, 0xDB8], 32), (v6 [0x2002], 16), (v6 [0xFC00], 7),
      (v6 [0xFE80], 10)]"

definition private_v6_exceptions :: "(128 word \<times> nat) list" where
  "private_v6_exceptions =
     [(v6 [0x2001, 1, 0, 0, 0, 0, 0, 1], 128), (v6 [0x2001, 1, 0, 0, 0, 0, 0, 2], 128), (v6 [0x2001, 3], 32),
      (v6 [0x2001, 4, 0x112], 48), (v6 [0x2001, 0x20], 28), (v6 [0x2001, 0x30], 28)]"

definition reserved_v6 :: "(128 word \<times> nat) list" where
  "reserved_v6 =
     [(v6 [], 8), (v6 [0x100], 8), (v6 [0x200], 7), (v6 [0x400], 6), (v6 [0x800], 5), (v6 [0x1000], 4), (v6 [0x4000], 3),
      (v6 [0x6000], 3), (v6 [0x8000], 3), (v6 [0xA000], 3), (v6 [0xC000], 3), (v6 [0xE000], 4), (v6 [0xF000], 5),
      (v6 [0xF800], 6), (v6 [0xFE00], 9)]"

definition is_private_v4 :: "32 word \<Rightarrow> bool" where
  "is_private_v4 a \<longleftrightarrow> list_ex (in_net a) private_v4 \<and> \<not> list_ex (in_net a) private_v4_exceptions"

fun is_private :: "ip \<Rightarrow> bool" where
  "is_private (IPv4 a) = is_private_v4 a"
| "is_private (IPv6 a) =
     (if in_net a (v6 [0, 0, 0, 0, 0, 0xFFFF], 96) then is_private_v4 (ucast a)
      else list_ex (in_net a) private_v6 \<and> \<not> list_ex (in_net a) private_v6_exceptions)"

fun is_loopback :: "ip \<Rightarrow> bool" where
  "is_loopback (IPv4 a) = in_net a (quad 127 0 0 0, 8)"
| "is_loopback (IPv6 a) = (a = 1)"

fun is_link_local :: "ip \<Rightarrow> bool" where
  "is_link_local (IPv4 a) = in_net a (quad 169 254 0 0, 16)"
| "is_link_local (IPv6 a) = in_net a (v6 [0xFE80], 10)"

fun is_multicast :: "ip \<Rightarrow> bool" where
  "is_multicast (IPv4 a) = in_net a (quad 224 0 0 0, 4)"
| "is_multicast (IPv6 a) = in_net a (v6 [0xFF00], 8)"

fun is_reserved :: "ip \<Rightarrow> bool" where
  "is_reserved (IPv4 a) = in_net a (quad 240 0 0 0, 4)"
| "is_reserved (IPv6 a) = list_ex (in_net a) reserved_v6"

fun is_unspecified :: "ip \<Rightarrow> bool" where
  "is_unspecified (IPv4 a) = (a = 0)"
| "is_unspecified (IPv6 a) = (a = 0)"

definition ip_is_blocked :: "ip \<Rightarrow> bool" where
  "ip_is_blocked a \<longleftrightarrow>
     is_private a \<or> is_loopback a \<or> is_link_local a \<or> is_multicast a \<or> is_reserved a \<or> is_unspecified a"

end
