(* ===== verification/Fetcher.thy ===== *)
theory Fetcher
  imports Network Text
begin

text \<open>
  The body fetcher (\<^verbatim>\<open>services/ingestion/ingestion/fetcher.py\<close>).

  The network is the record \<open>network\<close>: what \<^verbatim>\<open>httpx.URL\<close> reads from a URL, the answers of the resolver and of
  the servers (both may change from one hop to the next, so they take the number of the hop), the codec registry
  and the points at which the overall timer fires.  Bytes are characters.  Next to its result a fetch reports the
  requests it sent, in order.  The texts of the errors carry neither the quoting of \<^verbatim>\<open>repr\<close> nor the address.
\<close>

datatype fetch_error =
    BodyFetchError string
  | SsrfBlockedError string
  | HttpError string
  | UrlError string
  | BadAddress string

datatype await = Resolving nat | Requesting nat | Reading nat

record response =
  rs_is_redirect :: bool
  rs_location :: "string option"
  rs_status_error :: "string option" \<comment> \<open>what \<^verbatim>\<open>raise_for_status\<close> raises\<close>
  rs_content_type :: string
  rs_encoding :: "string option"
  rs_chunks :: "string list"

record 'u network =
  nw_url :: "string \<Rightarrow> (string, 'u) result"
  nw_join :: "'u \<Rightarrow> string \<Rightarrow> (string, 'u) result"
  nw_scheme :: "'u \<Rightarrow> string"
  nw_host :: "'u \<Rightarrow> string"
  nw_getaddrinfo :: "nat \<Rightarrow> string \<Rightarrow> (string, string list) result"
  nw_get :: "nat \<Rightarrow> 'u \<Rightarrow> (string, response) result"
  nw_expires :: "await \<Rightarrow> bool"
  nw_codec :: "string \<Rightarrow> bool option" \<comment> \<open>is it a text encoding; \<open>None\<close> when unknown\<close>
  nw_decode :: "string \<Rightarrow> bool \<Rightarrow> string \<Rightarrow> string option" \<comment> \<open>strict decoding, with the final flag\<close>

record BodyFetcher =
  bf_max_bytes :: nat
  bf_max_redirects :: nat
  bf_allowed_content_types :: "string list"
  bf_overall_timeout_seconds :: string

definition ALLOWED_SCHEMES :: "string list" where
  "ALLOWED_SCHEMES = [''http'', ''https'']"

subsection \<open>Decoding\<close>

definition boms :: "(string \<times> string) list" where
  "boms =
     [([CHR 0xFF, CHR 0xFE, CHR 0x00, CHR 0x00], ''utf-32''), ([CHR 0x00, CHR 0x00, CHR 0xFE, CHR 0xFF], ''utf-32''),
      ([CHR 0xEF, CHR 0xBB, CHR 0xBF], ''utf-8-sig''), ([CHR 0xFF, CHR 0xFE], ''utf-16''),
      ([CHR 0xFE, CHR 0xFF], ''utf-16'')]"

definition bom_encoding :: "string \<Rightarrow> string option" where
  "bom_encoding data = map_option snd (find (\<lambda>(bom, name). prefix bom data) boms)"

definition encoding_candidates :: "string \<Rightarrow> string option \<Rightarrow> string list" where
  "encoding_candidates data encoding =
     (let first = (case bom_encoding data of
                     Some n \<Rightarrow> n
                   | None \<Rightarrow> (case encoding of Some e \<Rightarrow> if e = [] then ''utf-8'' else e | None \<Rightarrow> ''utf-8''))
      in if first = ''utf-8'' then [first] else [first, ''utf-8''])"

fun decode_with :: "'u network \<Rightarrow> bool \<Rightarrow> string \<Rightarrow> string list \<Rightarrow> string option" where
  "decode_with N final data [] = None"
| "decode_with N final data (c # cs) =
     (if nw_codec N c = Some True \<and> nw_decode N c final data \<noteq> None then nw_decode N c final data
      else decode_with N final data cs)"

definition decode_body :: "'u network \<Rightarrow> string \<Rightarrow> string option \<Rightarrow> bool \<Rightarrow> (fetch_error, string) result" where
  "decode_body N data encoding truncated =
     (case decode_with N (\<not> truncated) data (encoding_candidates data encoding) of
        Some s \<Rightarrow> Inr s
      | None \<Rightarrow> Inl (BodyFetchError ''article encoding could not be decoded without data loss''))"

subsection \<open>Destinations\<close>

definition resolve_host_ips :: "'u network \<Rightarrow> nat \<Rightarrow> string \<Rightarrow> (fetch_error, ip list) result" where
  "resolve_host_ips N n host =
     (case nw_getaddrinfo N n host of
        Inl e \<Rightarrow> Inl (SsrfBlockedError (''cannot resolve host '' @ host @ '': '' @ e))
      | Inr infos \<Rightarrow>
          map_result (\<lambda>info. let raw = fst (partition_at ''%'' info)
                             in case ip_address raw of None \<Rightarrow> Inl (BadAddress raw) | Some a \<Rightarrow> Inr a) infos)"

definition host_ips :: "'u network \<Rightarrow> nat \<Rightarrow> string \<Rightarrow> (fetch_error, ip list) result" where
  "host_ips N n host =
     (case ip_address host of Some literal \<Rightarrow> Inr [literal] | None \<Rightarrow> resolve_host_ips N n host)"

definition validate_public_url :: "'u network \<Rightarrow> nat \<Rightarrow> 'u \<Rightarrow> (fetch_error, unit) result" where
  "validate_public_url N n url =
     (if nw_scheme N url \<notin> set ALLOWED_SCHEMES
      then Inl (SsrfBlockedError (''scheme '' @ nw_scheme N url @ '' is not permitted''))
      else if nw_host N url = [] then Inl (SsrfBlockedError ''url has no host'')
      else bind_result (host_ips N n (nw_host N url)) (\<lambda>ips.
        if ips = [] then Inl (SsrfBlockedError (''host '' @ nw_host N url @ '' did not resolve''))
        else if list_ex ip_is_blocked ips then Inl (SsrfBlockedError ''destination is not a permitted public address'')
        else Inr ()))"

subsection \<open>Fetching\<close>

fun read_chunks :: "nat \<Rightarrow> string list \<Rightarrow> string list \<Rightarrow> nat \<Rightarrow> string list \<times> nat" where
  \<comment> \<open>the chunks kept and the number of bytes seen, stopping once \<open>max_bytes\<close> is reached\<close>
  "read_chunks max_bytes [] chunks got = (chunks, got)"
| "read_chunks max_bytes (c # cs) chunks got =
     (let chunks = chunks @ [take (max_bytes - got) c]; got = got + length c
      in if max_bytes \<le> got then (chunks, got) else read_chunks max_bytes cs chunks got)"

definition media_type :: "string \<Rightarrow> string" where
  "media_type raw = lower (strip (fst (partition_at '';'' raw)))"

definition read_body :: "BodyFetcher \<Rightarrow> 'u network \<Rightarrow> nat \<Rightarrow> response \<Rightarrow> (fetch_error, string) result" where
  "read_body bf N n r =
     (case rs_status_error r of
        Some e \<Rightarrow> Inl (HttpError e)
      | None \<Rightarrow>
          (let ty = media_type (rs_content_type r)
           in if ty \<noteq> [] \<and> ty \<notin> set (bf_allowed_content_types bf)
              then Inl (BodyFetchError (''content-type '' @ ty @ '' is not permitted''))
              else if nw_expires N (Reading n) then Inl (BodyFetchError (''body fetch exceeded '' @ bf_overall_timeout_seconds bf @ ''s''))
              else let (chunks, got) = read_chunks (bf_max_bytes bf) (rs_chunks r) [] 0
                   in decode_body N (take (bf_max_bytes bf) (concat chunks)) (rs_encoding r) (bf_max_bytes bf \<le> got)))"

fun fetch_hops ::
  "BodyFetcher \<Rightarrow> 'u network \<Rightarrow> nat \<Rightarrow> nat \<Rightarrow> 'u \<Rightarrow> (nat \<times> 'u) list \<Rightarrow> (fetch_error, string) result \<times> (nat \<times> 'u) list" where
  \<comment> \<open>\<open>fuel\<close> hops are left, \<open>n\<close> is the number of the next one\<close>
  "fetch_hops bf N 0 n current sent = (Inl (BodyFetchError ''exceeded redirects''), sent)"
| "fetch_hops bf N (Suc fuel) n current sent =
     (if nw_expires N (Resolving n) then (Inl (BodyFetchError (''body fetch exceeded '' @ bf_overall_timeout_seconds bf @ ''s'')), sent)
      else case validate_public_url N n current of
        Inl e \<Rightarrow> (Inl e, sent)
      | Inr _ \<Rightarrow>
          (let sent = sent @ [(n, current)]
           in if nw_expires N (Requesting n)
              then (Inl (BodyFetchError (''body fetch exceeded '' @ bf_overall_timeout_seconds bf @ ''s'')), sent)
              else case nw_get N n current of
                Inl e \<Rightarrow> (Inl (HttpError e), sent)
              | Inr r \<Rightarrow>
                  if rs_is_redirect r
                  then (case rs_location r of
                          None \<Rightarrow> (Inl (BodyFetchError ''redirect response missing Location header''), sent)
                        | Some loc \<Rightarrow>
                            if loc = [] then (Inl (BodyFetchError ''redirect response missing Location header''), sent)
                            else (case nw_join N current loc of
                                    Inl e \<Rightarrow> (Inl (UrlError e), sent)
                                  | Inr target \<Rightarrow> fetch_hops bf N fuel (n + 1) target sent))
                  else (read_body bf N n r, sent)))"

definition fetch :: "BodyFetcher \<Rightarrow> 'u network \<Rightarrow> string \<Rightarrow> (fetch_error, string) result \<times> (nat \<times> 'u) list" where
  "fetch bf N url =
     (case nw_url N url of
        Inl e \<Rightarrow> (Inl (UrlError e), [])
      | Inr current \<Rightarrow> fetch_hops bf N (bf_max_redirects bf + 1) 0 current [])"

definition STRIPPED_REQUEST_HEADERS :: "string list" where
  "STRIPPED_REQUEST_HEADERS = [''authorization'', ''cookie'', ''proxy-authorization'']"

definition sanitize_headers_for_request :: "(string, string) dict \<Rightarrow> (string, string) dict" where
  "sanitize_headers_for_request headers = filter (\<lambda>(k, v). lower k \<notin> set STRIPPED_REQUEST_HEADERS) headers"

subsection \<open>What an accepted address is not\<close>

lemma uint_drop_bit_div: "uint (drop_bit n (a :: 'a::len word)) = uint a div 2 ^ n"
  unfolding unsigned_drop_bit_eq by (simp add: drop_bit_eq_div take_bit_eq_mod)

lemma in_net_uint:
  "in_net (a :: 'a::len word) (b, p) \<longleftrightarrow> uint a div 2 ^ (LENGTH('a) - p) = uint b div 2 ^ (LENGTH('a) - p)"
  by (simp add: in_net_def word_uint_eq_iff uint_drop_bit_div)

text \<open>Plain ranges, written without the library's tables.\<close>

definition public_v4 :: "32 word \<Rightarrow> bool" where
  "public_v4 a \<longleftrightarrow>
     uint a div 2 ^ 24 \<notin> {0, 10, 127} \<and> uint a div 2 ^ 24 < 224 \<and>
     uint a div 2 ^ 16 \<notin> {169 * 256 + 254, 192 * 256 + 168} \<and> uint a div 2 ^ 20 \<noteq> 172 * 16 + 1"

lemma uint_quad [simp]: "uint (quad a b c d) = (((a * 256 + b) * 256 + c) * 256 + d) mod 2 ^ 32"
  unfolding quad_def uint_word_of_int by simp

lemma not_in_private_v4:
  assumes "\<not> list_ex (in_net a) private_v4" "\<not> in_net a (quad 224 0 0 0, 4)"
  shows "public_v4 a"
proof -
  have nets: "uint a div 16777216 \<noteq> 0" "uint a div 16777216 \<noteq> 10" "uint a div 16777216 \<noteq> 127" "uint a div 65536 \<noteq> 43518"
    "uint a div 65536 \<noteq> 49320" "uint a div 1048576 \<noteq> 2753" "uint a div 268435456 \<noteq> 14" "uint a div 268435456 \<noteq> 15"
    using assms by (simp_all add: private_v4_def in_net_uint)
  have "uint a div 268435456 < 16" using uint_lt2p [of a] by simp
  then have "uint a div 268435456 < 14" using nets(7,8) by linarith
  then have "uint a div 16777216 < 224" by linarith
  then show ?thesis using nets(1-6) by (simp add: public_v4_def)
qed

lemma accepted_v4: "\<not> ip_is_blocked (IPv4 a) \<Longrightarrow> public_v4 a"
proof -
  assume ok: "\<not> ip_is_blocked (IPv4 a)"
  show "public_v4 a"
  proof (cases "list_ex (in_net a) private_v4_exceptions")
    case True
    then have "uint a \<in> {3221225481, 3221225482}" by (auto simp: private_v4_exceptions_def in_net_uint)
    then show ?thesis by (auto simp: public_v4_def)
  next
    case False
    then show ?thesis using ok by (intro not_in_private_v4) (auto simp: ip_is_blocked_def is_private_v4_def)
  qed
qed

lemma in_net_v6_head:
  assumes "p \<le> 10"
  shows "in_net (a :: 128 word) (b, p) \<longleftrightarrow> (uint a div 2 ^ 118) div 2 ^ (10 - p) = (uint b div 2 ^ 118) div 2 ^ (10 - p)"
proof -
  have "128 - p = 118 + (10 - p)" using assms by linarith
  then have "(2::int) ^ (128 - p) = 2 ^ 118 * 2 ^ (10 - p)" by (metis power_add)
  then show ?thesis by (simp add: in_net_uint zdiv_zmult2_eq)
qed

lemma replicate_numeral [simp]: "replicate (numeral k) x = x # replicate (pred_numeral k) x"
  by (simp add: numeral_eq_Suc)

lemma uint_v6 [simp]: "uint (v6 hs) = foldl (\<lambda>acc h. acc * 65536 + h) 0 (hs @ replicate (8 - length hs) 0) mod 2 ^ 128"
  unfolding v6_def uint_word_of_int by simp

lemma in_net_v6_hextet:
  assumes "p \<le> 10" "0 \<le> h" "h < 65536"
  shows "in_net a (v6 [h], p) \<longleftrightarrow> (uint a div 2 ^ 118) div 2 ^ (10 - p) = (h div 64) div 2 ^ (10 - p)"
proof -
  have "uint (v6 [h]) = h * 2 ^ 112" using assms(2,3) by simp
  also have "\<dots> div 2 ^ 118 = h div 64" using zdiv_zmult2_eq [of "64" "h * 2 ^ 112" "2 ^ 112"] by simp
  finally show ?thesis unfolding in_net_v6_head [OF assms(1)] by simp
qed

lemma v6_Nil: "v6 [] = v6 [0]"
  by (simp add: v6_def)

lemma outside_reserved_v6:
  fixes n :: int
  assumes "0 \<le> n" "n < 1024" "n div 4 \<noteq> 0" "n div 4 \<noteq> 1" "n div 8 \<noteq> 1" "n div 16 \<noteq> 1" "n div 32 \<noteq> 1" "n div 64 \<noteq> 1"
    "n div 128 \<notin> {2, 3, 4, 5, 6}" "n div 64 \<noteq> 14" "n div 32 \<noteq> 30" "n div 16 \<noteq> 62" "n div 2 \<noteq> 508"
    "n div 8 \<noteq> 126" "n \<noteq> 1018" "n div 4 \<noteq> 255"
  shows "n div 128 = 1 \<or> n = 1019"
proof -
  have "4 \<le> n" using assms(1,3) by linarith
  then have "8 \<le> n" using assms(4) by linarith
  then have "16 \<le> n" using assms(5) by linarith
  then have "32 \<le> n" using assms(6) by linarith
  then have "64 \<le> n" using assms(7) by linarith
  then have "128 \<le> n" using assms(8) by linarith
  moreover have "n = 1019" if "256 \<le> n"
  proof -
    have "2 \<le> n div 128" using that by linarith
    then have "7 \<le> n div 128" using assms(9) by auto
    then have "896 \<le> n" by linarith
    then have "960 \<le> n" using assms(10) by linarith
    then have "992 \<le> n" using assms(11) by linarith
    then have "1008 \<le> n" using assms(12) by linarith
    then have "1016 \<le> n" using assms(14) by linarith
    then have "1018 \<le> n" using assms(13) by linarith
    moreover have "n < 1020" using assms(2,16) calculation by linarith
    ultimately show ?thesis using assms(15) by linarith
  qed
  ultimately show ?thesis by linarith
qed

text \<open>An accepted IPv6 address is global unicast (2000::/3) or in the deprecated site-local block fec0::/10.\<close>

lemma accepted_v6:
  assumes ok: "\<not> ip_is_blocked (IPv6 a)"
  shows "uint a div 2 ^ 125 = 1 \<or> uint a div 2 ^ 118 = 1019"
proof -
  let ?n = "uint a div 2 ^ 118"
  have split: "uint a div 2 ^ 125 = ?n div 128" using zdiv_zmult2_eq [of "2 ^ 7" "uint a" "2 ^ 118"] by simp
  have range: "0 \<le> ?n" "?n < 1024" using uint_lt2p [of a] by (simp_all add: pos_imp_zdiv_nonneg_iff)
  have reserved: "\<not> list_ex (in_net a) reserved_v6" "\<not> in_net a (v6 [0xFF00], 8)" "\<not> in_net a (v6 [0xFE80], 10)"
    using ok by (auto simp: ip_is_blocked_def)
  have mapped: "\<not> in_net a (v6 [0, 0, 0, 0, 0, 0xFFFF], 96)"
  proof
    assume "in_net a (v6 [0, 0, 0, 0, 0, 0xFFFF], 96)"
    then have "uint a div 2 ^ 32 = 0xFFFF" by (simp add: in_net_uint)
    then have "(uint a div 2 ^ 32) div 2 ^ 88 = 0" by simp
    then have "in_net a (v6 [], 8)" using zdiv_zmult2_eq [of "2 ^ 88" "uint a" "2 ^ 32"] by (simp add: in_net_uint)
    then show False using reserved(1) by (simp add: reserved_v6_def)
  qed
  show ?thesis
  proof (cases "list_ex (in_net a) private_v6_exceptions")
    case True
    have "uint a div 2 ^ 112 = 0x2001"
    proof -
      have shift: "uint a div 2 ^ 112 = (uint a div 2 ^ (128 - p)) div 2 ^ (p - 16)" if "16 \<le> p" "p \<le> 128" for p
      proof -
        have "112 = (128 - p) + (p - 16)" using that by linarith
        then have "(2::int) ^ 112 = 2 ^ (128 - p) * 2 ^ (p - 16)" by (metis power_add)
        then show ?thesis by (simp only: zdiv_zmult2_eq zero_le_power zero_le_numeral)
      qed
      from True obtain b p where net: "(b, p) \<in> set private_v6_exceptions" "in_net a (b, p)" by (auto simp: list_ex_iff)
      then have "16 \<le> p" "p \<le> 128" "(uint b div 2 ^ (128 - p)) div 2 ^ (p - 16) = 0x2001"
        by (auto simp: private_v6_exceptions_def)
      then show ?thesis using net(2) shift by (simp add: in_net_uint)
    qed
    then have "(uint a div 2 ^ 112) div 2 ^ 13 = 1" by simp
    then show ?thesis using zdiv_zmult2_eq [of "2 ^ 13" "uint a" "2 ^ 112"] by simp
  next
    case False
    then have "\<not> list_ex (in_net a) private_v6" using ok mapped by (auto simp: ip_is_blocked_def)
    then have "?n div 8 \<noteq> 126" by (simp add: private_v6_def in_net_v6_hextet del: uint_v6)
    moreover have "?n div 4 \<noteq> 0 \<and> ?n div 4 \<noteq> 1 \<and> ?n div 8 \<noteq> 1 \<and> ?n div 16 \<noteq> 1 \<and> ?n div 32 \<noteq> 1 \<and> ?n div 64 \<noteq> 1 \<and>
      ?n div 128 \<notin> {2, 3, 4, 5, 6} \<and> ?n div 64 \<noteq> 14 \<and> ?n div 32 \<noteq> 30 \<and> ?n div 16 \<noteq> 62 \<and> ?n div 2 \<noteq> 508 \<and>
      ?n \<noteq> 1018 \<and> ?n div 4 \<noteq> 255"
      using reserved by (simp add: reserved_v6_def in_net_v6_hextet v6_Nil del: uint_v6)
    ultimately show ?thesis using outside_reserved_v6 [OF range] unfolding split by blast
  qed
qed

subsection \<open>Every request goes to a public address\<close>

definition public_ip :: "ip \<Rightarrow> bool" where
  "public_ip a \<longleftrightarrow>
     (case a of IPv4 w \<Rightarrow> public_v4 w | IPv6 w \<Rightarrow> uint w div 2 ^ 125 = 1 \<or> uint w div 2 ^ 118 = 1019)"

lemma accepted_public: "\<not> ip_is_blocked a \<Longrightarrow> public_ip a"
  using accepted_v4 accepted_v6 by (cases a) (auto simp: public_ip_def)

definition public_request :: "'u network \<Rightarrow> nat \<times> 'u \<Rightarrow> bool" where
  "public_request N q \<longleftrightarrow>
     nw_scheme N (snd q) \<in> set ALLOWED_SCHEMES \<and>
     (\<exists>ips. host_ips N (fst q) (nw_host N (snd q)) = Inr ips \<and> ips \<noteq> [] \<and> (\<forall>a \<in> set ips. public_ip a))"

lemma validated_public: "validate_public_url N n url = Inr () \<Longrightarrow> public_request N (n, url)"
  by (auto simp: validate_public_url_def public_request_def bind_result_Inr_iff list_ex_iff intro: accepted_public split: if_splits)

lemma read_chunks_prefix:
  "read_chunks m cs chunks got = (out, seen) \<Longrightarrow> got < m \<Longrightarrow> length (concat chunks) = got \<Longrightarrow>
     prefix (take m (concat out)) (concat chunks @ concat cs)"
proof (induction cs arbitrary: chunks got)
  case Nil
  then show ?case by (auto simp: take_is_prefix)
next
  case (Cons c cs)
  show ?case
  proof (cases "m \<le> got + length c")
    case True
    then have "take m (concat out) = concat chunks @ take (m - got) c" using Cons.prems by auto
    then show ?thesis by (metis concat.simps(2) append_assoc append_prefixD prefix_append same_prefix_prefix take_is_prefix)
  next
    case False
    then have "read_chunks m cs (chunks @ [c]) (got + length c) = (out, seen)" "got + length c < m"
      "length (concat (chunks @ [c])) = got + length c"
      using Cons.prems by (auto simp: Let_def)
    from Cons.IH [OF this] show ?thesis by simp
  qed
qed

definition served :: "BodyFetcher \<Rightarrow> 'u network \<Rightarrow> nat \<times> 'u \<Rightarrow> string \<Rightarrow> bool" where
  \<comment> \<open>the text is a lossless decoding of at most \<open>max_bytes\<close> leading bytes of that response\<close>
  "served bf N q body \<longleftrightarrow>
     (\<exists>r data truncated. nw_get N (fst q) (snd q) = Inr r \<and> \<not> rs_is_redirect r \<and> rs_status_error r = None \<and>
        prefix data (concat (rs_chunks r)) \<and> length data \<le> bf_max_bytes bf \<and>
        decode_body N data (rs_encoding r) truncated = Inr body)"

lemma read_body_served:
  assumes "read_body bf N n r = Inr body" "nw_get N n u = Inr r" "\<not> rs_is_redirect r" "0 < bf_max_bytes bf"
  shows "served bf N (n, u) body"
proof -
  obtain chunks got where c: "read_chunks (bf_max_bytes bf) (rs_chunks r) [] 0 = (chunks, got)" by fastforce
  let ?data = "take (bf_max_bytes bf) (concat chunks)"
  have "prefix ?data (concat (rs_chunks r))" using read_chunks_prefix [OF c assms(4)] by simp
  moreover have "rs_status_error r = None" "decode_body N ?data (rs_encoding r) (bf_max_bytes bf \<le> got) = Inr body"
    using assms(1) c by (auto simp: read_body_def Let_def split: option.splits if_splits)
  ultimately show ?thesis using assms(2,3) unfolding served_def by (metis fst_conv snd_conv length_take min.cobounded2)
qed

lemma fetch_hops_sound:
  assumes "fetch_hops bf N fuel n current sent = (r, sent')" "\<forall>q \<in> set sent. public_request N q" "0 < bf_max_bytes bf"
  shows "length sent' \<le> length sent + fuel \<and> (\<forall>q \<in> set sent'. public_request N q) \<and>
    (\<forall>body. r = Inr body \<longrightarrow> sent' \<noteq> [] \<and> served bf N (last sent') body)"
  using assms(1,2)
proof (induction fuel arbitrary: n current sent)
  case 0
  then show ?case by auto
next
  case (Suc fuel)
  show ?case
  proof (cases "nw_expires N (Resolving n) \<or> (\<exists>e. validate_public_url N n current = Inl e)")
    case True
    then have "sent' = sent" "\<exists>e. r = Inl e" using Suc.prems(1) by (auto split: if_splits)
    then show ?thesis using Suc.prems(2) by auto
  next
    case False
    then have valid: "validate_public_url N n current = Inr ()" "\<not> nw_expires N (Resolving n)"
      using False by (cases "validate_public_url N n current"; auto)+
    have sent: "\<forall>q \<in> set (sent @ [(n, current)]). public_request N q"
      using Suc.prems(2) validated_public [OF valid(1)] by auto
    show ?thesis
    proof (cases "\<exists>resp loc target. \<not> nw_expires N (Requesting n) \<and> nw_get N n current = Inr resp \<and> rs_is_redirect resp \<and>
        rs_location resp = Some loc \<and> loc \<noteq> [] \<and> nw_join N current loc = Inr target")
      case True
      then obtain target where "fetch_hops bf N fuel (n + 1) target (sent @ [(n, current)]) = (r, sent')"
        using valid Suc.prems(1) by (auto simp: Let_def)
      from Suc.IH [OF this sent] show ?thesis by auto
    next
      case stop: False
      then have "sent' = sent @ [(n, current)] \<and> (\<forall>body. r = Inr body \<longrightarrow> served bf N (n, current) body)"
        using valid Suc.prems(1) assms(3)
        by (auto simp: Let_def intro: read_body_served split: if_splits sum.splits option.splits)
      then show ?thesis using sent by auto
    qed
  qed
qed


definition sample_network :: "string network" where
  \<comment> \<open>a news site that redirects once\<close>
  "sample_network =
     \<lparr>nw_url = Inr, nw_join = (\<lambda>_ loc. Inr loc), nw_scheme = (\<lambda>_. ''https''), nw_host = (\<lambda>_. ''8.8.8.8''),
      nw_getaddrinfo = (\<lambda>_ _. Inl ''unknown''),
      nw_get = (\<lambda>n _. Inr \<lparr>rs_is_redirect = (n = 0), rs_location = Some ''/b'', rs_status_error = None,
         rs_content_type = ''text/plain'', rs_encoding = None, rs_chunks = [''bo'', ''dy'']\<rparr>),
      nw_expires = (\<lambda>_. False), nw_codec = (\<lambda>_. Some True), nw_decode = (\<lambda>_ _ d. Some d)\<rparr>"

definition sample_fetcher :: BodyFetcher where
  "sample_fetcher = \<lparr>bf_max_bytes = 3, bf_max_redirects = 3, bf_allowed_content_types = [''text/plain''],
     bf_overall_timeout_seconds = ''20.0''\<rparr>"


end
