(* ===== verification/Urls.thy ===== *)
theory Urls
  imports Network "HOL-Library.Char_ord" "HOL-Library.List_Lexorder" "HOL-Library.Product_Lexorder" "HOL-Library.Multiset"
begin

text \<open>
  Canonical URLs (\<^verbatim>\<open>services/ingestion/ingestion/urls.py\<close>).

  The parts of \<^verbatim>\<open>urllib.parse\<close> the module uses are written out for ASCII URLs, the form in which
  \<^verbatim>\<open>HttpUrl\<close> renders them.  A percent-decoded text is the list of its UTF-8 bytes, whose order is the order
  of the code points; a \<^verbatim>\<open>ValueError\<close> is an \<open>Inl\<close> value.
\<close>

subsection \<open>Splitting\<close>

record SplitResult =
  sp_scheme :: string
  sp_netloc :: string
  sp_path :: string
  sp_query :: string
  sp_fragment :: string

definition is_letter :: "char \<Rightarrow> bool" where
  "is_letter c = (is_upper c \<or> is_lower c)"

definition is_scheme_char :: "char \<Rightarrow> bool" where
  "is_scheme_char c = (is_alnum c \<or> c \<in> set ''+-.'')"

definition split_scheme :: "string \<Rightarrow> string \<times> string" where
  "split_scheme url =
     (let (l, found, r) = partition_at '':'' url
      in if found \<and> l \<noteq> [] \<and> is_letter (hd l) \<and> list_all is_scheme_char l then (lower l, r) else ([], url))"

definition hostinfo_text :: "string \<Rightarrow> string" where
  \<comment> \<open>\<^verbatim>\<open>netloc.rpartition('@')[2]\<close>\<close>
  "hostinfo_text netloc = last (split_char (CHR ''@'') netloc)"

definition is_ipv_future :: "string \<Rightarrow> bool" where
  "is_ipv_future h =
     (let (v, found, rest) = partition_at ''.'' (tl h) in found \<and> v \<noteq> [] \<and> list_all (\<lambda>c. hex_val c \<noteq> None) v \<and> rest \<noteq> [])"

definition check_bracketed_host :: "string \<Rightarrow> (string, unit) result" where
  "check_bracketed_host h =
     (if h \<noteq> [] \<and> hd h = CHR ''v'' then require (is_ipv_future h) ''IPvFuture address is invalid''
      else case ip_address h of
        None \<Rightarrow> Inl ''does not appear to be an IPv4 or IPv6 address''
      | Some (IPv4 _) \<Rightarrow> Inl ''An IPv4 address cannot be in brackets''
      | Some (IPv6 _) \<Rightarrow> Inr ())"

definition check_bracketed_netloc :: "string \<Rightarrow> (string, unit) result" where
  "check_bracketed_netloc netloc =
     (let (ahead, have_open, bracketed) = partition_at ''['' (hostinfo_text netloc)
      in if have_open
         then (let (h, _, port) = partition_at '']'' bracketed
               in if ahead \<noteq> [] \<or> (port \<noteq> [] \<and> hd port \<noteq> CHR '':'') then Inl ''Invalid IPv6 URL''
                  else check_bracketed_host h)
         else check_bracketed_host (fst (partition_at '':'' (hostinfo_text netloc))))"

definition check_netloc :: "string \<Rightarrow> (string, unit) result" where
  "check_netloc netloc =
     (if (CHR ''['' \<in> set netloc) \<noteq> (CHR '']'' \<in> set netloc) then Inl ''Invalid IPv6 URL''
      else if CHR ''['' \<in> set netloc then check_bracketed_netloc netloc else Inr ())"

abbreviation ends_netloc :: "char \<Rightarrow> bool" where
  "ends_netloc c \<equiv> c \<in> set ''/?#''"

definition urlsplit :: "string \<Rightarrow> (string, SplitResult) result" where
  "urlsplit url =
     (let url = filter (\<lambda>c. (of_char c :: nat) \<notin> {9, 10, 13}) (dropWhile (\<lambda>c. (of_char c :: nat) \<le> 32) url);
          (scheme, url) = split_scheme url;
          (netloc, url) = (if take 2 url = ''//''
             then (takeWhile (Not \<circ> ends_netloc) (drop 2 url), dropWhile (Not \<circ> ends_netloc) (drop 2 url)) else ([], url));
          (url, _, fragment) = partition_at ''#'' url;
          (path, _, query) = partition_at ''?'' url
      in bind_result (check_netloc netloc) (\<lambda>_.
           Inr \<lparr>sp_scheme = scheme, sp_netloc = netloc, sp_path = path, sp_query = query, sp_fragment = fragment\<rparr>))"

definition hostinfo :: "string \<Rightarrow> string \<times> string" where
  "hostinfo netloc =
     (let (_, have_open, bracketed) = partition_at ''['' (hostinfo_text netloc)
      in if have_open
         then (let (h, _, port) = partition_at '']'' bracketed; (_, _, port) = partition_at '':'' port in (h, port))
         else (let (h, _, port) = partition_at '':'' (hostinfo_text netloc) in (h, port)))"

definition hostname :: "SplitResult \<Rightarrow> string" where
  \<comment> \<open>the empty string for \<^verbatim>\<open>None\<close>\<close>
  "hostname p = (let (h, found, zone) = partition_at ''%'' (fst (hostinfo (sp_netloc p)))
                 in lower h @ (if found then ''%'' else []) @ zone)"

definition port :: "SplitResult \<Rightarrow> (string, int option) result" where
  "port p =
     (let s = snd (hostinfo (sp_netloc p))
      in if s = [] then Inr None
         else if \<not> list_all is_digit s then Inl ''Port could not be cast to integer value''
         else if 65535 < int_of_digits 0 s then Inl ''Port out of range 0-65535''
         else Inr (Some (int_of_digits 0 s)))"

definition urlunsplit :: "SplitResult \<Rightarrow> string" where
  \<comment> \<open>for a scheme that uses a network location, such as http and https\<close>
  "urlunsplit p =
     (let url = sp_path p;
          url = (if sp_netloc p \<noteq> [] \<or> take 2 url \<noteq> ''//''
                 then ''//'' @ sp_netloc p @ (if url \<noteq> [] \<and> hd url \<noteq> CHR ''/'' then ''/'' @ url else url) else url);
          url = sp_scheme p @ '':'' @ url;
          url = (if sp_query p \<noteq> [] then url @ ''?'' @ sp_query p else url)
      in if sp_fragment p \<noteq> [] then url @ ''#'' @ sp_fragment p else url)"

subsection \<open>Query strings\<close>

definition is_safe :: "char \<Rightarrow> bool" where
  "is_safe c = (is_alnum c \<or> c \<in> set ''_.-~'')"

definition hex_digit :: "nat \<Rightarrow> char" where
  "hex_digit d = char_of (if d < 10 then 48 + d else 55 + d)"

definition quote_char :: "char \<Rightarrow> string" where
  "quote_char c =
     (if is_safe c then [c] else if c = CHR '' '' then ''+''
      else [CHR ''%'', hex_digit (of_char c div 16), hex_digit (of_char c mod 16)])"

definition quote_plus :: "string \<Rightarrow> string" where
  "quote_plus s = concat (map quote_char s)"

fun percent_decode :: "string \<Rightarrow> string" where
  "percent_decode (c # a # b # cs) =
     (case (c = CHR ''%'', hex_val a, hex_val b) of
        (True, Some h, Some l) \<Rightarrow> char_of (nat (16 * h + l)) # percent_decode cs
      | _ \<Rightarrow> c # percent_decode (a # b # cs))"
| "percent_decode cs = cs"

text \<open>\<^verbatim>\<open>bytes.decode('utf-8', 'replace')\<close>: what may follow a first byte, and one U+FFFD for each maximal damaged part.\<close>

definition utf8_follow :: "char \<Rightarrow> (nat \<times> nat) list option" where
  "utf8_follow c =
     (let n = of_char c :: nat; tail = (0x80, 0xBF)
      in if n < 0x80 then Some []
         else if 0xC2 \<le> n \<and> n \<le> 0xDF then Some [tail]
         else if n = 0xE0 then Some [(0xA0, 0xBF), tail]
         else if n = 0xED then Some [(0x80, 0x9F), tail]
         else if 0xE1 \<le> n \<and> n \<le> 0xEF then Some [tail, tail]
         else if n = 0xF0 then Some [(0x90, 0xBF), tail, tail]
         else if 0xF1 \<le> n \<and> n \<le> 0xF3 then Some [tail, tail, tail]
         else if n = 0xF4 then Some [(0x80, 0x8F), tail, tail]
         else None)"

fun matching :: "(nat \<times> nat) list \<Rightarrow> string \<Rightarrow> nat" where
  "matching ((lo, hi) # rs) (c # cs) = (if lo \<le> of_char c \<and> of_char c \<le> hi then Suc (matching rs cs) else 0)"
| "matching _ _ = 0"

definition replacement :: string where
  "replacement = [CHR 0xEF, CHR 0xBF, CHR 0xBD]"

function utf8_replace :: "string \<Rightarrow> string" where
  "utf8_replace [] = []"
| "utf8_replace (c # cs) =
     (case utf8_follow c of
        None \<Rightarrow> replacement @ utf8_replace cs
      | Some rs \<Rightarrow>
          (let k = matching rs cs
           in (if k = length rs then c # take k cs else replacement) @ utf8_replace (drop k cs)))"
  by pat_completeness auto
termination
  by (relation "measure length") auto

definition unquote_plus :: "string \<Rightarrow> string" where
  "unquote_plus s = utf8_replace (percent_decode (map (\<lambda>c. if c = CHR ''+'' then CHR '' '' else c) s))"

definition parse_qsl :: "string \<Rightarrow> (string \<times> string) list" where
  "parse_qsl qs =
     concat (map (\<lambda>nv. let (name, _, v) = partition_at ''='' nv
                       in if nv \<noteq> [] \<and> v \<noteq> [] then [(unquote_plus name, unquote_plus v)] else [])
       (if qs = [] then [] else split_char (CHR ''&'') qs))"

fun join_with :: "string \<Rightarrow> string list \<Rightarrow> string" where
  "join_with sep [] = []"
| "join_with sep [x] = x"
| "join_with sep (x # y # xs) = x @ sep @ join_with sep (y # xs)"

definition urlencode :: "(string \<times> string) list \<Rightarrow> string" where
  "urlencode kvs = join_with ''&'' (map (\<lambda>(k, v). quote_plus k @ ''='' @ quote_plus v) kvs)"

subsection \<open>The canonical form\<close>

definition TRACKING_KEYS :: "string list" where
  "TRACKING_KEYS = [''fbclid'', ''gclid'', ''igshid'', ''mc_cid'', ''mc_eid'', ''ref'', ''ref_src'', ''cmpid'']"

definition DEFAULT_PORTS :: "(string, int) dict" where
  "DEFAULT_PORTS = [(''http'', 80), (''https'', 443)]"

definition is_tracking_param :: "string \<Rightarrow> bool" where
  "is_tracking_param key = (lower key \<in> set TRACKING_KEYS \<or> take 4 (lower key) = ''utm_'')"

definition str_nat :: "nat \<Rightarrow> string" where
  "str_nat n = map char_of (digits10 n)"

definition kept_params :: "SplitResult \<Rightarrow> (string \<times> string) list" where
  "kept_params p = filter (\<lambda>(k, v). \<not> is_tracking_param k) (parse_qsl (sp_query p))"

definition shown_port :: "SplitResult \<Rightarrow> (string, int option) result" where
  "shown_port p =
     bind_result (port p) (\<lambda>n. Inr (if n \<noteq> None \<and> n = dict_get DEFAULT_PORTS (lower (sp_scheme p)) then None else n))"

definition trimmed_path :: "string \<Rightarrow> string" where
  "trimmed_path path =
     (if 1 < length path \<and> last path = CHR ''/'' then rev (dropWhile (\<lambda>c. c = CHR ''/'') (rev path)) else path)"

definition canonicalize_url :: "string \<Rightarrow> (string, string) result" where
  "canonicalize_url url =
     bind_result (urlsplit (strip url)) (\<lambda>p.
     bind_result (shown_port p) (\<lambda>n.
       Inr (urlunsplit
         \<lparr>sp_scheme = lower (sp_scheme p),
          sp_netloc = hostname p @ (case n of None \<Rightarrow> [] | Some n \<Rightarrow> '':'' @ str_nat (nat n)),
          sp_path = trimmed_path (sp_path p), sp_query = urlencode (sort (kept_params p)), sp_fragment = []\<rparr>)))"

end
