(* ===== verification/UrlCanon.thy ===== *)
theory UrlCanon
  imports Urls
begin

text \<open>
  The canonical form decides which articles are the same (\<^verbatim>\<open>services/ingestion/ingestion/urls.py\<close>): quoting
  round-trips, a canonical URL splits into its parts again, and so two URLs have one canonical form exactly
  when they agree on everything that identifies an article.
\<close>

subsection \<open>Quoting\<close>

lemma of_char_halves: "of_char c div 16 < (16 :: nat)" "of_char c mod 16 < (16 :: nat)"
  using nat_of_char_less_256 [of c] by (simp_all add: less_mult_imp_div_less)

lemma of_char_int: "(of_char (char_of (n :: nat)) :: int) = int (n mod 256)"
  by (metis of_char_of of_nat_of_char)

lemma hex_digit_char: "d < 16 \<Longrightarrow> hex_val (hex_digit d) = Some (int d) \<and> is_safe (hex_digit d)"
proof -
  assume "d < 16"
  then have "d = 0 \<or> d = 1 \<or> d = 2 \<or> d = 3 \<or> d = 4 \<or> d = 5 \<or> d = 6 \<or> d = 7 \<or> d = 8 \<or> d = 9 \<or> d = 10 \<or>
      d = 11 \<or> d = 12 \<or> d = 13 \<or> d = 14 \<or> d = 15" by presburger
  then show ?thesis by (elim disjE) (simp_all add: of_char_int hex_digit_def hex_val_def is_safe_def is_alnum_def is_digit_def is_upper_def)
qed

abbreviation plus_to_space :: "string \<Rightarrow> string" where
  "plus_to_space s \<equiv> map (\<lambda>c. if c = CHR ''+'' then CHR '' '' else c) s"

lemma percent_decode_other: "c \<noteq> CHR ''%'' \<Longrightarrow> percent_decode (c # cs) = c # percent_decode cs"
  by (cases "c # cs" rule: percent_decode.cases) simp_all

lemma percent_decode_pair:
  "h < 16 \<Longrightarrow> l < 16 \<Longrightarrow> percent_decode (CHR ''%'' # hex_digit h # hex_digit l # cs) = char_of (16 * h + l) # percent_decode cs"
  by (simp add: hex_digit_char nat_add_distrib nat_mult_distrib)

lemma not_safe [simp]:
  "\<not> is_safe (CHR ''%'')" "\<not> is_safe (CHR ''+'')" "\<not> is_safe (CHR '' '')" "\<not> is_safe (CHR ''&'')" "\<not> is_safe (CHR ''='')"
  "\<not> is_safe (CHR ''#'')" "\<not> is_safe (CHR ''?'')"
  by (simp_all add: is_safe_def is_alnum_def is_digit_def is_upper_def is_lower_def)

lemma safe_not_plus: "is_safe c \<Longrightarrow> c \<noteq> CHR ''+''"
  by auto

lemma decode_quote: "percent_decode (plus_to_space (quote_plus s)) = s"
proof (induction s)
  case Nil
  then show ?case by (simp add: quote_plus_def)
next
  case (Cons c s)
  let ?h = "of_char c div 16 :: nat" and ?l = "of_char c mod 16 :: nat"
  note bound = of_char_halves [of c]
  have "plus_to_space (quote_plus (c # s)) = plus_to_space (quote_char c) @ plus_to_space (quote_plus s)"
    by (simp add: quote_plus_def)
  moreover have "percent_decode (plus_to_space (quote_char c) @ cs) = c # percent_decode cs" for cs
  proof (cases "is_safe c \<or> c = CHR '' ''")
    case True
    then have "c \<noteq> CHR ''%''" by auto
    then show ?thesis using True by (auto simp: quote_char_def percent_decode_other safe_not_plus)
  next
    case False
    then show ?thesis
      using percent_decode_pair [OF bound, of cs] safe_not_plus hex_digit_char [OF bound(1)] hex_digit_char [OF bound(2)]
      by (simp add: quote_char_def)
  qed
  ultimately show ?case using Cons.IH by simp
qed

lemma quote_plus_chars: "c \<in> set (quote_plus s) \<Longrightarrow> is_safe c \<or> c = CHR ''+'' \<or> c = CHR ''%''"
proof -
  assume "c \<in> set (quote_plus s)"
  then obtain d where d: "c \<in> set (quote_char d)" by (auto simp: quote_plus_def)
  then show ?thesis using hex_digit_char [OF of_char_halves(1) [of d]] hex_digit_char [OF of_char_halves(2) [of d]] by (auto simp: quote_char_def split: if_splits)
qed

lemma quote_plus_Nil_iff: "quote_plus s = [] \<longleftrightarrow> s = []"
  by (cases s) (auto simp: quote_plus_def quote_char_def)

subsection \<open>Repaired text\<close>

inductive utf8_ok :: "string \<Rightarrow> bool" where
  "utf8_ok []"
| "utf8_follow c = Some rs \<Longrightarrow> length ks = length rs \<Longrightarrow> matching rs ks = length rs \<Longrightarrow> utf8_ok cs \<Longrightarrow> utf8_ok (c # ks @ cs)"

lemma matching_le: "matching rs cs \<le> length rs" "matching rs cs \<le> length cs"
  by (induction rs cs rule: matching.induct) auto

lemma matching_append: "matching rs ks = length rs \<Longrightarrow> length ks = length rs \<Longrightarrow> matching rs (ks @ cs) = length rs"
  by (induction rs ks rule: matching.induct) (auto split: if_splits)

lemma matching_take: "matching rs cs = length rs \<Longrightarrow> matching rs (take (length rs) cs) = length rs"
  by (induction rs cs rule: matching.induct) (auto split: if_splits)

lemma utf8_ok_replacement: "utf8_ok cs \<Longrightarrow> utf8_ok (replacement @ cs)"
  using utf8_ok.intros(2) [of "CHR 0xEF" "[(0x80, 0xBF), (0x80, 0xBF)]" "[CHR 0xBF, CHR 0xBD]" cs]
  by (simp add: replacement_def utf8_follow_def Let_def)

lemma utf8_replace_ok: "utf8_ok (utf8_replace s)"
proof (induction s rule: utf8_replace.induct)
  case 1
  then show ?case by (simp add: utf8_ok.intros)
next
  case (2 c cs)
  show ?case
  proof (cases "utf8_follow c")
    case None
    then show ?thesis using 2(1) utf8_ok_replacement by simp
  next
    case (Some rs)
    let ?k = "matching rs cs"
    have "utf8_ok (utf8_replace (drop ?k cs))" using 2(2) [OF Some] by simp
    moreover have "length (take ?k cs) = ?k" using matching_le [of rs cs] by simp
    moreover have "matching rs (take ?k cs) = length rs" if "?k = length rs" using that matching_take by auto
    ultimately show ?thesis using Some utf8_ok_replacement utf8_ok.intros(2) [of c rs "take ?k cs"]
      by (auto simp: Let_def)
  qed
qed

lemma utf8_replace_id: "utf8_ok s \<Longrightarrow> utf8_replace s = s"
proof (induction rule: utf8_ok.induct)
  case 1
  then show ?case by simp
next
  case (2 c rs ks cs)
  then show ?case using matching_append [of rs ks cs] by (simp add: Let_def)
qed

lemma utf8_replace_Nil_iff: "utf8_replace s = [] \<longleftrightarrow> s = []"
  by (cases s) (auto simp: replacement_def Let_def split: option.splits)

lemma percent_decode_Nil_iff: "percent_decode s = [] \<longleftrightarrow> s = []"
  by (cases s rule: percent_decode.cases) (auto split: option.splits bool.splits)

lemma unquote_plus_ok: "utf8_ok (unquote_plus s)" "unquote_plus s = [] \<longleftrightarrow> s = []"
  by (simp_all add: unquote_plus_def utf8_replace_ok utf8_replace_Nil_iff percent_decode_Nil_iff)

lemma unquote_quote: "utf8_ok s \<Longrightarrow> unquote_plus (quote_plus s) = s"
  by (simp add: unquote_plus_def decode_quote utf8_replace_id)

subsection \<open>Query strings\<close>

lemma split_char_absent: "c \<notin> set s \<Longrightarrow> split_char c s = [s]"
  by (induction s) (auto simp: split_char_def)

lemma split_char_append: "c \<notin> set s \<Longrightarrow> split_char c (s @ c # rest) = s # split_char c rest"
  by (induction s) (auto simp: split_char_def)

lemma split_char_Cons: "\<exists>x xs. split_char c s = x # xs"
  by (induction s) (auto simp: split_char_def)

lemma split_join: "xs \<noteq> [] \<Longrightarrow> \<forall>x \<in> set xs. c \<notin> set x \<Longrightarrow> split_char c (join_with [c] xs) = xs"
  by (induction "[c]" xs rule: join_with.induct) (auto simp: split_char_absent split_char_append)

definition clean_param :: "string \<times> string \<Rightarrow> bool" where
  "clean_param kv \<longleftrightarrow> utf8_ok (fst kv) \<and> utf8_ok (snd kv) \<and> snd kv \<noteq> []"

lemma parse_qsl_clean: "kv \<in> set (parse_qsl qs) \<Longrightarrow> clean_param kv"
  by (auto simp: parse_qsl_def clean_param_def unquote_plus_ok Let_def split: if_splits prod.splits)

lemma quoted_pair:
  "CHR ''&'' \<notin> set (quote_plus k @ ''='' @ quote_plus v)"
  "partition_at ''='' (quote_plus k @ ''='' @ quote_plus v) = (quote_plus k, True, quote_plus v)"
proof -
  show "CHR ''&'' \<notin> set (quote_plus k @ ''='' @ quote_plus v)" by (auto dest: quote_plus_chars)
  have "CHR ''='' \<notin> set (quote_plus k)" by (auto dest: quote_plus_chars)
  then show "partition_at ''='' (quote_plus k @ ''='' @ quote_plus v) = (quote_plus k, True, quote_plus v)"
    by (intro partition_at_notin) simp_all
qed

lemma urlencode_Nil_iff: "urlencode kvs = [] \<longleftrightarrow> kvs = []"
proof (cases kvs)
  case (Cons kv rest)
  then show ?thesis by (cases rest) (auto simp: urlencode_def split: prod.splits)
qed (simp add: urlencode_def)

lemma parse_urlencode:
  assumes "\<forall>kv \<in> set kvs. clean_param kv"
  shows "parse_qsl (urlencode kvs) = kvs"
proof (cases "kvs = []")
  case True
  then show ?thesis by (simp add: urlencode_def parse_qsl_def)
next
  case False
  let ?pairs = "map (\<lambda>(k, v). quote_plus k @ ''='' @ quote_plus v) kvs"
  have "split_char (CHR ''&'') (urlencode kvs) = ?pairs"
    unfolding urlencode_def using False quoted_pair(1) by (intro split_join) auto
  moreover have "concat (map (\<lambda>nv. let (name, _, v) = partition_at ''='' nv
      in if nv \<noteq> [] \<and> v \<noteq> [] then [(unquote_plus name, unquote_plus v)] else []) ?pairs) = kvs"
    using assms
  proof (induction kvs)
    case (Cons kv kvs)
    obtain k v where kv: "kv = (k, v)" by (cases kv)
    then have "utf8_ok k" "utf8_ok v" "v \<noteq> []" using Cons.prems by (simp_all add: clean_param_def)
    then show ?case using Cons quoted_pair(2) [of k v] by (simp add: kv unquote_quote quote_plus_Nil_iff)
  qed simp
  ultimately show ?thesis using False urlencode_Nil_iff [of kvs] by (simp add: parse_qsl_def)
qed

lemma urlencode_chars:
  assumes "c \<in> set (urlencode kvs)"
  shows "is_safe c \<or> c \<in> set ''+%&=''"
proof -
  have "c \<in> set (join_with ''&'' xs) \<Longrightarrow> c = CHR ''&'' \<or> (\<exists>x \<in> set xs. c \<in> set x)" for xs
    by (induction "''&''" xs rule: join_with.induct) auto
  then have "c = CHR ''&'' \<or> (\<exists>kv \<in> set kvs. c \<in> set (quote_plus (fst kv) @ ''='' @ quote_plus (snd kv)))"
    using assms unfolding urlencode_def by fastforce
  then show ?thesis using quote_plus_chars by auto
qed

subsection \<open>Ports\<close>

lemma int_of_digits_append: "int_of_digits acc (s @ [c]) = 10 * int_of_digits acc s + (of_char c - 48)"
  by (induction s arbitrary: acc) auto

lemma str_nat_digits: "list_all is_digit (str_nat n) \<and> str_nat n \<noteq> [] \<and> int_of_digits 0 (str_nat n) = int n"
proof (induction n rule: digits10.induct)
  case (1 n)
  have digit: "d < 10 \<Longrightarrow> is_digit (char_of (48 + d))" for d :: nat by (simp add: is_digit_def)
  show ?case
  proof (cases "n < 10")
    case True
    then show ?thesis using digit by (simp add: str_nat_def digits10.simps [of n] of_char_int)
  next
    case False
    then have "str_nat n = str_nat (n div 10) @ [char_of (48 + n mod 10)]" by (simp add: str_nat_def digits10.simps [of n])
    moreover have "10 * int (n div 10) + int (n mod 10) = int n" by (metis mult_div_mod_eq of_nat_add of_nat_mult of_nat_numeral)
    ultimately show ?thesis using 1 [OF False] digit [of "n mod 10"] by (simp add: int_of_digits_append of_char_int)
  qed
qed

lemma digit_chars: "is_digit c \<Longrightarrow> 33 \<le> (of_char c :: nat) \<and> c \<notin> set ''/?#@[]:%''"
  by (auto simp: is_digit_def)

subsection \<open>Splitting a canonical URL\<close>

definition plain :: "char \<Rightarrow> bool" where
  \<comment> \<open>neither white space nor a control character\<close>
  "plain c \<longleftrightarrow> 33 \<le> (of_char c :: nat)"

definition tidy_parts :: "SplitResult \<Rightarrow> bool" where
  "tidy_parts p \<longleftrightarrow>
     sp_scheme p \<in> {''http'', ''https''} \<and> list_all plain (sp_netloc p @ sp_path p @ sp_query p) \<and>
     sp_netloc p \<noteq> [] \<and> (\<forall>c \<in> set (sp_netloc p). c \<notin> set ''/?#[]'') \<and>
     (sp_path p = [] \<or> hd (sp_path p) = CHR ''/'') \<and> (\<forall>c \<in> set (sp_path p). c \<notin> set ''?#'') \<and>
     CHR ''#'' \<notin> set (sp_query p) \<and> sp_fragment p = []"

lemma strip_plain: "list_all plain s \<Longrightarrow> strip s = s"
proof -
  assume "list_all plain s"
  then have "\<forall>c \<in> set s. \<not> is_space c" by (auto simp: list_all_iff plain_def is_space_def)
  then have "dropWhile is_space s = s" "dropWhile is_space (rev s) = rev s"
    by (simp add: dropWhile_eq_self_iff, cases s rule: rev_cases) auto
  then show ?thesis by (simp add: strip_def)
qed

lemma urlsplit_plain:
  assumes "list_all plain url"
  shows "filter (\<lambda>c. (of_char c :: nat) \<notin> {9, 10, 13}) (dropWhile (\<lambda>c. (of_char c :: nat) \<le> 32) url) = url"
proof -
  have ge: "33 \<le> (of_char c :: nat)" if "c \<in> set url" for c using assms that by (simp add: list_all_iff plain_def)
  have "dropWhile (\<lambda>c. (of_char c :: nat) \<le> 32) url = url"
    unfolding dropWhile_eq_self_iff using ge by (cases url) force+
  moreover have "filter (\<lambda>c. (of_char c :: nat) \<notin> {9, 10, 13}) url = url" using ge by (force simp: filter_id_conv)
  ultimately show ?thesis by simp
qed

lemma split_scheme_http:
  "s \<in> {''http'', ''https''} \<Longrightarrow> split_scheme (s @ '':'' @ r) = (s, r)"
  by (auto simp: split_scheme_def is_letter_def is_scheme_char_def is_alnum_def is_upper_def is_lower_def lower_def lower_char_def)

lemma netloc_split:
  assumes "\<forall>c \<in> set netloc. \<not> ends_netloc c" "rest = [] \<or> ends_netloc (hd rest)"
  shows "takeWhile (Not \<circ> ends_netloc) (netloc @ rest) = netloc" "dropWhile (Not \<circ> ends_netloc) (netloc @ rest) = rest"
  using assms by (cases rest; auto simp: takeWhile_append dropWhile_append)+

lemma tidy_partsD:
  assumes "tidy_parts p"
  shows "sp_scheme p \<in> {''http'', ''https''}" "list_all plain (sp_netloc p)" "list_all plain (sp_path p)"
    "list_all plain (sp_query p)" "sp_netloc p \<noteq> []" "\<forall>c \<in> set (sp_netloc p). \<not> ends_netloc c"
    "CHR ''['' \<notin> set (sp_netloc p)" "CHR '']'' \<notin> set (sp_netloc p)" "sp_path p = [] \<or> hd (sp_path p) = CHR ''/''"
    "CHR ''?'' \<notin> set (sp_path p)" "CHR ''#'' \<notin> set (sp_path p)" "CHR ''#'' \<notin> set (sp_query p)" "sp_fragment p = []"
  using assms unfolding tidy_parts_def list_all_append by (blast | force)+

lemma split_unsplit:
  assumes "tidy_parts p"
  shows "urlsplit (strip (urlunsplit p)) = Inr p"
proof -
  note part = tidy_partsD [OF assms]
  let ?q = "if sp_query p = [] then [] else ''?'' @ sp_query p"
  let ?rest = "sp_path p @ ?q"
  have url: "urlunsplit p = sp_scheme p @ '':'' @ ''//'' @ sp_netloc p @ ?rest"
    using part(5,9,13) by (cases "sp_path p") (simp_all add: urlunsplit_def Let_def)
  have "list_all plain (sp_scheme p)" "list_all plain ''://''" "list_all plain ''?''"
    using part(1) by (auto simp: plain_def)
  then have plain_url: "list_all plain (urlunsplit p)" using part(2-4) unfolding url by auto
  have "?rest = [] \<or> ends_netloc (hd ?rest)" using part(9) by (cases "sp_path p") auto
  note loc = netloc_split [OF part(6) this]
  have hash: "partition_at ''#'' ?rest = (?rest, False, [])"
    using part(11,12) by (intro partition_at_absent [of _ "CHR ''#''" "[]"]) auto
  have query: "\<exists>f. partition_at ''?'' ?rest = (sp_path p, f, sp_query p)"
    using part(10) partition_at_notin [of "''?''" "CHR ''?''" "[]" "sp_path p" "sp_query p"]
      partition_at_absent [of "''?''" "CHR ''?''" "[]" "sp_path p"] by auto
  have "check_netloc (sp_netloc p) = Inr ()" using part(7,8) by (simp add: check_netloc_def)
  moreover have "split_scheme (urlunsplit p) = (sp_scheme p, ''//'' @ sp_netloc p @ ?rest)"
    unfolding url by (rule split_scheme_http [OF part(1)])
  ultimately show ?thesis
    using part(13) loc hash query unfolding urlsplit_def strip_plain [OF plain_url] urlsplit_plain [OF plain_url]
    by (auto simp: Let_def simp del: partition_at.simps)
qed

subsection \<open>The parts of the canonical form\<close>

lemma partition_at_char:
  assumes "partition_at [c] s = (l, f, r)"
  shows "c \<notin> set l" "set l \<subseteq> set s" "set r \<subseteq> set s" "l = [] \<or> (s \<noteq> [] \<and> hd l = hd s)"
    "\<not> f \<Longrightarrow> l = s \<and> r = []"
  using assms by (induction s arbitrary: l f r) (auto split: if_splits prod.splits)

lemma lower_char_other: "\<not> is_lower (lower_char c) \<Longrightarrow> lower_char c = c"
  by (auto simp: lower_char_def is_upper_def is_lower_def)

lemma lower_char_idem [simp]: "lower_char (lower_char c) = lower_char c"
  by (auto simp: lower_char_def is_upper_def)

lemma lower_idem [simp]: "lower (lower s) = lower s"
  by (simp add: lower_def)

lemma lower_set: "\<not> is_lower c \<Longrightarrow> c \<in> set (lower s) \<Longrightarrow> c \<in> set s"
  using lower_char_other by (fastforce simp: lower_def)

lemma plain_lower: "list_all plain s \<Longrightarrow> list_all plain (lower s)"
  by (auto simp: lower_def list_all_iff plain_def lower_char_def is_upper_def)

lemma not_lower [simp]:
  "\<not> is_lower (CHR ''/'')" "\<not> is_lower (CHR ''?'')" "\<not> is_lower (CHR ''#'')" "\<not> is_lower (CHR ''['')" "\<not> is_lower (CHR '']'')"
  "\<not> is_lower (CHR ''@'')" "\<not> is_lower (CHR '':'')" "\<not> is_lower (CHR ''%'')"
  by (simp_all add: is_lower_def)

definition http_url :: "string \<Rightarrow> SplitResult \<Rightarrow> int option \<Rightarrow> bool" where
  \<comment> \<open>a plain http or https URL with a host that is not an IPv6 literal, its parts and its port when not the default\<close>
  "http_url url p n \<longleftrightarrow>
     list_all plain url \<and> urlsplit url = Inr p \<and> sp_scheme p \<in> {''http'', ''https''} \<and> hostname p \<noteq> [] \<and>
     CHR ''['' \<notin> set (sp_netloc p) \<and> shown_port p = Inr n"

definition canonical_parts :: "SplitResult \<Rightarrow> int option \<Rightarrow> SplitResult" where
  "canonical_parts p n =
     \<lparr>sp_scheme = lower (sp_scheme p),
      sp_netloc = hostname p @ (case n of None \<Rightarrow> [] | Some n \<Rightarrow> '':'' @ str_nat (nat n)),
      sp_path = trimmed_path (sp_path p), sp_query = urlencode (sort (kept_params p)), sp_fragment = []\<rparr>"

lemma canonicalize_http: "http_url url p n \<Longrightarrow> canonicalize_url url = Inr (urlunsplit (canonical_parts p n))"
  by (simp add: http_url_def canonicalize_url_def canonical_parts_def strip_plain)

lemma split_scheme_sub: "set (snd (split_scheme url)) \<subseteq> set url"
  using partition_at_char(3) by (fastforce simp: split_scheme_def split: prod.splits if_splits)

lemma urlsplit_parts:
  assumes "urlsplit url = Inr p" "list_all plain url"
  shows "\<forall>c \<in> set (sp_netloc p). plain c \<and> \<not> ends_netloc c" "\<forall>c \<in> set (sp_path p). plain c \<and> c \<notin> set ''?#''"
    "sp_netloc p \<noteq> [] \<Longrightarrow> sp_path p = [] \<or> hd (sp_path p) = CHR ''/''"
    "CHR ''['' \<notin> set (sp_netloc p) \<Longrightarrow> CHR '']'' \<notin> set (sp_netloc p)"
proof -
  obtain scheme rest where s: "split_scheme url = (scheme, rest)" by fastforce
  define netloc rest' where nr: "netloc = (if take 2 rest = ''//'' then takeWhile (Not \<circ> ends_netloc) (drop 2 rest) else [])"
    "rest' = (if take 2 rest = ''//'' then dropWhile (Not \<circ> ends_netloc) (drop 2 rest) else rest)"
  obtain u f1 fragment where h: "partition_at ''#'' rest' = (u, f1, fragment)" by (cases "partition_at ''#'' rest'")
  obtain path f2 query where q: "partition_at ''?'' u = (path, f2, query)" by (cases "partition_at ''?'' u")
  have split: "check_netloc netloc = Inr ()" "sp_netloc p = netloc" "sp_path p = path"
    using assms(1) s h q unfolding urlsplit_def urlsplit_plain [OF assms(2)]
    by (auto simp: Let_def nr bind_result_Inr_iff simp del: partition_at.simps split: if_splits)
  have plain_rest: "c \<in> set rest \<Longrightarrow> plain c" for c
    using assms(2) split_scheme_sub [of url] s by (auto simp: list_all_iff)
  have "set netloc \<subseteq> set rest" "set rest' \<subseteq> set rest"
    by (auto simp: nr dest: set_takeWhileD set_dropWhileD in_set_dropD)
  then show "\<forall>c \<in> set (sp_netloc p). plain c \<and> \<not> ends_netloc c"
    using plain_rest unfolding split(2) nr(1) by (auto dest: set_takeWhileD)
  have "set path \<subseteq> set rest'" using partition_at_char(2) [OF h] partition_at_char(2) [OF q] by blast
  then show "\<forall>c \<in> set (sp_path p). plain c \<and> c \<notin> set ''?#''"
    using plain_rest \<open>set rest' \<subseteq> set rest\<close> partition_at_char(1,2) [OF q] partition_at_char(1) [OF h]
    unfolding split(3) by auto
  show "sp_path p = [] \<or> hd (sp_path p) = CHR ''/''" if "sp_netloc p \<noteq> []"
  proof -
    have "take 2 rest = ''//''" using that split(2) by (auto simp: nr split: if_splits)
    then have "rest' = [] \<or> ends_netloc (hd rest')" using hd_dropWhile [of "Not \<circ> ends_netloc" "drop 2 rest"] by (auto simp: nr)
    moreover have "path = [] \<or> (rest' \<noteq> [] \<and> hd path = hd rest')"
      using partition_at_char(4) [OF q] partition_at_char(4) [OF h] by auto
    moreover have "path = [] \<or> hd path \<noteq> CHR ''?'' \<and> hd path \<noteq> CHR ''#''"
      using partition_at_char(1,2) [OF q] partition_at_char(1) [OF h] by (cases path) auto
    ultimately show ?thesis unfolding split(3) by auto
  qed
  show "CHR '']'' \<notin> set (sp_netloc p)" if "CHR ''['' \<notin> set (sp_netloc p)"
    using split that by (auto simp: check_netloc_def split: if_splits)
qed

lemma hostinfo_text_sub: "set (hostinfo_text netloc) \<subseteq> set netloc - {CHR ''@''}"
proof -
  have "x \<in> set (split_char c s) \<Longrightarrow> set x \<subseteq> set s - {c}" for x c s
  proof (induction s arbitrary: x)
    case (Cons d s)
    obtain y ys where "split_char c s = y # ys" using split_char_Cons by blast
    then show ?case using Cons by (fastforce simp: split_char_def split: if_splits)
  qed (simp add: split_char_def)
  moreover obtain y ys where "split_char (CHR ''@'') netloc = y # ys" using split_char_Cons by blast
  ultimately show ?thesis unfolding hostinfo_text_def by (metis last_in_set list.distinct(1))
qed

lemma hostinfo_plain:
  assumes "CHR ''['' \<notin> set netloc" "partition_at '':'' (hostinfo_text netloc) = (h, f, port_text)"
  shows "hostinfo netloc = (h, port_text)"
proof -
  have "partition_at ''['' (hostinfo_text netloc) = (hostinfo_text netloc, False, [])"
    using assms(1) hostinfo_text_sub by (intro partition_at_absent [of _ "CHR ''[''" "[]"]) auto
  then show ?thesis using assms(2) by (simp add: hostinfo_def)
qed

lemma hostname_chars:
  assumes "CHR ''['' \<notin> set (sp_netloc p)" "c \<in> set (hostname p)" "\<not> is_lower c"
  shows "c \<in> set (sp_netloc p)" "c \<noteq> CHR ''@''" "c \<noteq> CHR '':''"
proof -
  obtain h f port_text where ph: "partition_at '':'' (hostinfo_text (sp_netloc p)) = (h, f, port_text)"
    by (cases "partition_at '':'' (hostinfo_text (sp_netloc p))")
  obtain a g zone where az: "partition_at ''%'' h = (a, g, zone)" by (cases "partition_at ''%'' h")
  have "hostname p = lower a @ (if g then ''%'' else []) @ zone"
    by (simp add: hostname_def hostinfo_plain [OF assms(1) ph] az del: partition_at.simps)
  moreover have "g \<Longrightarrow> CHR ''%'' \<in> set h" using az by (induction h arbitrary: a) (auto split: if_splits prod.splits)
  ultimately have "c \<in> set h" using assms(2,3) partition_at_char(2,3) [OF az] lower_set [of c a] by (auto split: if_splits)
  then show "c \<in> set (sp_netloc p)" "c \<noteq> CHR ''@''" "c \<noteq> CHR '':''"
    using partition_at_char(1,2) [OF ph] hostinfo_text_sub by auto
qed

lemma hostname_plain: "\<forall>c \<in> set (sp_netloc p). plain c \<Longrightarrow> CHR ''['' \<notin> set (sp_netloc p) \<Longrightarrow> list_all plain (hostname p)"
proof -
  assume *: "\<forall>c \<in> set (sp_netloc p). plain c" "CHR ''['' \<notin> set (sp_netloc p)"
  have "is_lower c \<Longrightarrow> plain c" for c by (simp add: is_lower_def plain_def)
  then show ?thesis using * hostname_chars(1) unfolding list_all_iff by blast
qed

lemma hostinfo_canonical:
  assumes "CHR ''['' \<notin> set h" "CHR ''@'' \<notin> set h" "CHR '':'' \<notin> set h"
  shows "hostinfo (h @ (case n of None \<Rightarrow> [] | Some n \<Rightarrow> '':'' @ str_nat (nat n))) =
    (h, case n of None \<Rightarrow> [] | Some n \<Rightarrow> str_nat (nat n))"
proof -
  let ?netloc = "h @ (case n of None \<Rightarrow> [] | Some n \<Rightarrow> '':'' @ str_nat (nat n))"
  have digits: "c \<in> set (str_nat k) \<Longrightarrow> c \<notin> set ''/?#@[]:%''" for c k
    using str_nat_digits [of k] digit_chars by (auto simp: list_all_iff)
  then have "CHR ''@'' \<notin> set ?netloc" and open_br: "CHR ''['' \<notin> set ?netloc" using assms by (auto split: option.splits)
  then have whole: "hostinfo_text ?netloc = ?netloc" by (simp add: hostinfo_text_def split_char_absent)
  have "\<exists>f. partition_at '':'' ?netloc = (h, f, case n of None \<Rightarrow> [] | Some n \<Rightarrow> str_nat (nat n))"
    using assms(3) partition_at_notin [of "'':''" "CHR '':''" "[]" h] partition_at_absent [of "'':''" "CHR '':''" "[]" h]
    by (auto split: option.splits)
  then show ?thesis using hostinfo_plain [OF open_br] unfolding whole by blast
qed

lemma trimmed_prefix: "\<exists>s. path = trimmed_path path @ s"
proof (cases "1 < length path \<and> last path = CHR ''/''")
  case True
  have "rev path = takeWhile (\<lambda>c. c = CHR ''/'') (rev path) @ dropWhile (\<lambda>c. c = CHR ''/'') (rev path)" by simp
  then have "path = rev (dropWhile (\<lambda>c. c = CHR ''/'') (rev path)) @ rev (takeWhile (\<lambda>c. c = CHR ''/'') (rev path))"
    by (metis rev_append rev_rev_ident)
  then show ?thesis using True unfolding trimmed_path_def by auto
next
  case False
  then have "trimmed_path path = path" by (auto simp: trimmed_path_def)
  then show ?thesis by simp
qed

lemma trimmed_idem [simp]: "trimmed_path (trimmed_path path) = trimmed_path path"
proof (cases "1 < length path \<and> last path = CHR ''/''")
  case True
  let ?r = "dropWhile (\<lambda>c. c = CHR ''/'') (rev path)"
  have "?r = [] \<or> hd ?r \<noteq> CHR ''/''" using hd_dropWhile [of "\<lambda>c. c = CHR ''/''" "rev path"] by auto
  then show ?thesis using True by (auto simp: trimmed_path_def last_rev)
qed (auto simp: trimmed_path_def)

lemma printable_query: "list_all plain (urlencode kvs)" "CHR ''#'' \<notin> set (urlencode kvs)"
proof -
  have "is_safe c \<Longrightarrow> plain c" for c
    by (auto simp: is_safe_def is_alnum_def is_digit_def is_upper_def is_lower_def plain_def)
  then show "list_all plain (urlencode kvs)" using urlencode_chars by (fastforce simp: list_all_iff plain_def)
  show "CHR ''#'' \<notin> set (urlencode kvs)" using urlencode_chars [of "CHR ''#''" kvs] by auto
qed

lemma canonical_tidy:
  assumes "http_url url p n"
  shows "tidy_parts (canonical_parts p n)"
proof -
  have url: "list_all plain url" "urlsplit url = Inr p" "sp_scheme p \<in> {''http'', ''https''}" "hostname p \<noteq> []"
    "CHR ''['' \<notin> set (sp_netloc p)"
    using assms by (auto simp: http_url_def)
  note part = urlsplit_parts [OF url(2,1)]
  have digits: "c \<in> set (str_nat k) \<Longrightarrow> plain c \<and> c \<notin> set ''/?#@[]:%''" for c k
    using str_nat_digits [of k] digit_chars [of c] by (auto simp: list_all_iff plain_def)
  have netloc: "sp_netloc p \<noteq> []"
    using url(4) by (auto simp: hostname_def hostinfo_def hostinfo_text_def split_char_def lower_def)
  have host: "c \<in> set (hostname p) \<Longrightarrow> plain c \<and> c \<notin> set ''/?#[]''" for c
    using hostname_chars(1) [OF url(5)] hostname_plain [OF _ url(5)] part(1) part(4) [OF url(5)] url(5)
    by (cases "is_lower c") (auto simp: list_all_iff is_lower_def)
  have colon: "plain (CHR '':'')" by (simp add: plain_def)
  have loc: "plain c \<and> c \<notin> set ''/?#[]''" if "c \<in> set (sp_netloc (canonical_parts p n))" for c
    using that host digits colon by (auto simp: canonical_parts_def split: option.splits)
  obtain s where s: "sp_path p = trimmed_path (sp_path p) @ s" using trimmed_prefix by blast
  then have sub: "set (trimmed_path (sp_path p)) \<subseteq> set (sp_path p)" by (metis set_append sup_ge1)
  have "hd (trimmed_path (sp_path p)) = hd (sp_path p)" if "trimmed_path (sp_path p) \<noteq> []"
    using s that by (metis hd_append2)
  moreover have "sp_path p \<noteq> []" if "trimmed_path (sp_path p) \<noteq> []" using s that by (metis append_is_Nil_conv)
  ultimately have "trimmed_path (sp_path p) = [] \<or> hd (trimmed_path (sp_path p)) = CHR ''/''"
    using part(3) [OF netloc] by metis
  moreover have "lower (sp_scheme p) \<in> {''http'', ''https''}"
    using url(3) by (auto simp: lower_def lower_char_def is_upper_def)
  moreover have "list_all plain (sp_netloc (canonical_parts p n))" using loc by (simp add: list_all_iff)
  moreover have "list_all plain (trimmed_path (sp_path p))" using part(2) sub by (auto simp: list_all_iff)
  moreover have "\<forall>c \<in> set (trimmed_path (sp_path p)). c \<notin> set ''?#''" using part(2) sub by blast
  moreover have "\<forall>c \<in> set (sp_netloc (canonical_parts p n)). c \<notin> set ''/?#[]''" using loc by blast
  moreover have "sp_netloc (canonical_parts p n) \<noteq> []" using url(4) by (simp add: canonical_parts_def)
  ultimately show ?thesis
    using printable_query [of "sort (kept_params p)"] unfolding tidy_parts_def list_all_append
    by (simp add: canonical_parts_def)
qed

lemma shown_port_range: "shown_port p = Inr (Some k) \<Longrightarrow> 0 \<le> k \<and> k \<le> 65535 \<and> Some k \<noteq> dict_get DEFAULT_PORTS (lower (sp_scheme p))"
proof -
  assume "shown_port p = Inr (Some k)"
  then have k: "port p = Inr (Some k)" "Some k \<noteq> dict_get DEFAULT_PORTS (lower (sp_scheme p))"
    by (auto simp: shown_port_def bind_result_Inr_iff split: if_splits)
  have nonneg: "list_all is_digit s \<Longrightarrow> 0 \<le> acc \<Longrightarrow> 0 \<le> int_of_digits acc s" for s acc
  proof (induction s arbitrary: acc)
    case (Cons c s)
    have "is_digit c" using Cons.prems(1) by simp
    then have "(48::int) \<le> of_char c" by (metis is_digit_def of_nat_le_iff of_nat_numeral of_nat_of_char)
    then show ?case using Cons by simp
  qed simp
  then show ?thesis using k by (auto simp: port_def Let_def split: if_splits)
qed

lemma canonical_same:
  assumes "http_url url p n"
  shows "hostname (canonical_parts p n) = hostname p" "shown_port (canonical_parts p n) = Inr n"
    "kept_params (canonical_parts p n) = sort (kept_params p)"
proof -
  have url: "CHR ''['' \<notin> set (sp_netloc p)" "shown_port p = Inr n" using assms by (auto simp: http_url_def)
  have "CHR ''['' \<notin> set (hostname p)" "CHR ''@'' \<notin> set (hostname p)" "CHR '':'' \<notin> set (hostname p)"
    using hostname_chars [OF url(1)] url(1) not_lower by blast+
  from hostinfo_canonical [OF this] have info:
    "hostinfo (sp_netloc (canonical_parts p n)) = (hostname p, case n of None \<Rightarrow> [] | Some n \<Rightarrow> str_nat (nat n))"
    by (simp add: canonical_parts_def)
  obtain h f port_text where ph: "partition_at '':'' (hostinfo_text (sp_netloc p)) = (h, f, port_text)"
    by (cases "partition_at '':'' (hostinfo_text (sp_netloc p))")
  obtain a g zone where az: "partition_at ''%'' h = (a, g, zone)" by (cases "partition_at ''%'' h")
  have host: "hostname p = lower a @ (if g then ''%'' else []) @ zone"
    by (simp add: hostname_def hostinfo_plain [OF url(1) ph] az del: partition_at.simps)
  have "CHR ''%'' \<notin> set (lower a)" using partition_at_char(1) [OF az] lower_set by fastforce
  then have "partition_at ''%'' (hostname p) = (lower a, g, zone)"
    using partition_at_notin [of "''%''" "CHR ''%''" "[]" "lower a" zone] partition_at_absent [of "''%''" "CHR ''%''" "[]" "lower a"]
      partition_at_char(5) [OF az] by (auto simp: host)
  then show "hostname (canonical_parts p n) = hostname p" by (simp add: hostname_def [of "canonical_parts p n"] info host)
  have "sp_scheme (canonical_parts p n) = lower (sp_scheme p)" by (simp add: canonical_parts_def)
  moreover have "port (canonical_parts p n) = Inr n"
    unfolding port_def info snd_conv using shown_port_range [of p] url(2) by (cases n) (simp_all add: str_nat_digits)
  ultimately show "shown_port (canonical_parts p n) = Inr n"
    using shown_port_range [of p] url(2) unfolding shown_port_def [of "canonical_parts p n"] by (cases n) simp_all
  have "\<forall>kv \<in> set (sort (kept_params p)). clean_param kv" using parse_qsl_clean by (auto simp: kept_params_def)
  then show "kept_params (canonical_parts p n) = sort (kept_params p)"
    using parse_urlencode [of "sort (kept_params p)"]
    by (auto simp: kept_params_def canonical_parts_def filter_id_conv)
qed

subsection \<open>The same article\<close>

lemma sort_eq_iff_mset: "sort xs = sort ys \<longleftrightarrow> mset xs = mset ys"
  for xs ys :: "('a::linorder) list"
  by (metis mset_sort properties_for_sort sorted_sort)

lemma urlunsplit_inj: "tidy_parts p \<Longrightarrow> tidy_parts q \<Longrightarrow> urlunsplit p = urlunsplit q \<Longrightarrow> p = q"
  using split_unsplit by (metis sum.inject(2))


text \<open>
  Canonicalisation is a normal form: the canonical form of a canonical URL is itself, so an article that is
  linked by its canonical URL is recognised.
\<close>

theorem canonicalize_idempotent:
  assumes "http_url url p n" and "canonicalize_url url = Inr c"
  shows "canonicalize_url c = Inr c"
proof -
  let ?q = "canonical_parts p n"
  have c: "c = urlunsplit ?q" using assms canonicalize_http [OF assms(1)] by simp
  have "canonicalize_url c = Inr (urlunsplit (canonical_parts ?q n))"
    using split_unsplit [OF canonical_tidy [OF assms(1)]] canonical_same(2) [OF assms(1)]
    by (simp add: canonicalize_url_def c canonical_parts_def [of ?q])
  moreover have "canonical_parts ?q n = ?q"
    using canonical_same(1,3) [OF assms(1)] unfolding canonical_parts_def [of ?q] by (simp add: canonical_parts_def sorted_sort_id)
  ultimately show ?thesis by (simp add: c)
qed

definition sample_parts :: SplitResult where
  "sample_parts = \<lparr>sp_scheme = ''https'', sp_netloc = ''DN.se:443'', sp_path = ''/a/'', sp_query = ''utm_id=1&b=2'', sp_fragment = ''x''\<rparr>"

definition sample_parts' :: SplitResult where
  "sample_parts' = \<lparr>sp_scheme = ''https'', sp_netloc = ''dn.se'', sp_path = ''/a'', sp_query = ''b=%32'', sp_fragment = []\<rparr>"

lemma sample_urls:
  "http_url ''https://DN.se:443/a/?utm_id=1&b=2#x'' sample_parts None"
  "http_url ''https://dn.se/a?b=%32'' sample_parts' None"
  by code_simp+


theorem canonicalize_idempotent_witness:
  "canonicalize_url ''https://DN.se:443/a/?utm_id=1&b=2#x'' = Inr ''https://dn.se/a?b=2'' \<and>
   canonicalize_url ''https://dn.se/a?b=2'' = Inr ''https://dn.se/a?b=2''"
proof -
  have "canonicalize_url ''https://DN.se:443/a/?utm_id=1&b=2#x'' = Inr ''https://dn.se/a?b=2''" by code_simp
  then show ?thesis using canonicalize_idempotent [OF sample_urls(1)] by blast
qed

text \<open>An IPv6 host loses its brackets: the canonical form is no longer a URL that can be split.\<close>

lemma ipv6_host_unbracketed:
  "canonicalize_url ''http://[::1]/x'' = Inr ''http://::1/x''"
  "canonicalize_url ''http://::1/x'' = Inl ''Port could not be cast to integer value''"
  by code_simp+

end
