(* ===== verification/Ingestion.thy ===== *)
theory Ingestion
  imports Fetcher UrlCanon Outbox
begin

text \<open>
  The Ingestion service (\<^verbatim>\<open>services/ingestion/ingestion\<close>: \<^verbatim>\<open>models.py\<close>, \<^verbatim>\<open>normalize.py\<close>, \<^verbatim>\<open>adapters\<close>,
  \<^verbatim>\<open>resilience.py\<close>, \<^verbatim>\<open>storage.py\<close>, \<^verbatim>\<open>pipeline.py\<close>, \<^verbatim>\<open>retention.py\<close> and the callbacks of \<^verbatim>\<open>app.py\<close>).

  Outside the service are: \<^verbatim>\<open>HttpUrl\<close> (\<open>ig_http_url\<close>, the rendered URL or \<open>None\<close>), the expression for an HTML page
  (\<open>ig_is_page\<close>), SHA-256, \<^verbatim>\<open>str()\<close> of a JSON value, \<^verbatim>\<open>datetime.fromisoformat\<close> and the text tools.  Feeds and the
  news API answer through parameters; \<^verbatim>\<open>time.monotonic\<close> readings are arguments.  An exception that is not an
  \<^verbatim>\<open>AdapterError\<close> is \<open>OtherError\<close>.
\<close>

datatype ingestion_error = AdapterError string | CircuitOpenError string | OtherError string

fun is_adapter_error :: "ingestion_error \<Rightarrow> bool" where
  "is_adapter_error (OtherError _) = False"
| "is_adapter_error _ = True"

datatype iso_instant = IsoInstant instant | IsoInvalid | IsoOverflow

record ingestion_env =
  ig_text :: text_tools
  ig_http_url :: "string \<Rightarrow> string option"
  ig_is_page :: "string \<Rightarrow> bool"
  ig_sha256 :: "string \<Rightarrow> string"
  ig_pystr :: "json \<Rightarrow> string"
  ig_fromisoformat :: "string \<Rightarrow> iso_instant"

subsection \<open>Articles\<close>

record RawArticle =
  ra_source_id :: string
  ra_url :: string
  ra_title :: string
  ra_summary :: string
  ra_published_at :: instant
  ra_language :: string
  ra_country :: string

definition two_letters :: "(char \<Rightarrow> bool) \<Rightarrow> string \<Rightarrow> bool" where
  "two_letters P s \<longleftrightarrow> length s = 2 \<and> list_all P s"

definition validated_raw :: "ingestion_env \<Rightarrow> RawArticle \<Rightarrow> RawArticle option" where
  \<comment> \<open>the model validation: texts are stripped, the URL is parsed; \<open>None\<close> for a \<^verbatim>\<open>ValidationError\<close>\<close>
  "validated_raw E r =
     (case ig_http_url E (strip (ra_url r)) of
        None \<Rightarrow> None
      | Some url \<Rightarrow>
          if strip (ra_source_id r) = [] \<or> strip (ra_title r) = [] \<or> \<not> two_letters is_lower (strip (ra_language r)) \<or>
             \<not> two_letters is_upper (strip (ra_country r)) then None
          else Some \<lparr>ra_source_id = strip (ra_source_id r), ra_url = url, ra_title = strip (ra_title r),
                 ra_summary = strip (ra_summary r), ra_published_at = ra_published_at r,
                 ra_language = strip (ra_language r), ra_country = strip (ra_country r)\<rparr>)"

fun squeeze_spaces :: "(char \<Rightarrow> bool) \<Rightarrow> bool \<Rightarrow> string \<Rightarrow> string" where
  "squeeze_spaces sp inside [] = []"
| "squeeze_spaces sp inside (c # cs) =
     (if sp c then (if inside then [] else '' '') @ squeeze_spaces sp True cs else c # squeeze_spaces sp False cs)"

definition normalize_text :: "ingestion_env \<Rightarrow> string \<Rightarrow> string" where
  "normalize_text E s =
     strip_by (tt_is_space (ig_text E)) (squeeze_spaces (tt_is_space (ig_text E)) False (clean_text (ig_text E) s))"

definition truncate_text :: "string \<Rightarrow> nat \<Rightarrow> string" where
  "truncate_text s max_chars = (if length s \<le> max_chars then s else take max_chars s)"

definition strip_html_page :: "ingestion_env \<Rightarrow> string \<Rightarrow> string" where
  "strip_html_page E body = (if ig_is_page E (take 200 body) then [] else body)"

definition content_hash :: "ingestion_env \<Rightarrow> string \<Rightarrow> string \<Rightarrow> string" where
  "content_hash E title body = ig_sha256 E (normalize_text E title @ [CHR 0x00] @ normalize_text E body)"

subsection \<open>RSS feeds\<close>

record RssSource =
  rs_source_id :: string
  rs_feed_url :: string
  rs_language :: string
  rs_country :: string

definition SWEDISH_SOURCES :: "RssSource list" where
  "SWEDISH_SOURCES =
     [\<lparr>rs_source_id = ''di'', rs_feed_url = ''https://www.di.se/rss'', rs_language = ''sv'', rs_country = ''SE''\<rparr>,
      \<lparr>rs_source_id = ''dn'', rs_feed_url = ''https://www.dn.se/rss/'', rs_language = ''sv'', rs_country = ''SE''\<rparr>,
      \<lparr>rs_source_id = ''svd'', rs_feed_url = ''https://www.svd.se/feed/articles.rss'', rs_language = ''sv'', rs_country = ''SE''\<rparr>,
      \<lparr>rs_source_id = ''aftonbladet'', rs_feed_url = ''https://rss.aftonbladet.se/rss2/small/pages/sections/senastenytt/'',
       rs_language = ''sv'', rs_country = ''SE''\<rparr>]"

record feed_entry =
  fe_link :: string \<comment> \<open>empty when absent\<close>
  fe_title :: string
  fe_summary :: string
  fe_published :: "int option" \<comment> \<open>\<^verbatim>\<open>calendar.timegm\<close> of the parsed time\<close>
  fe_updated :: "int option"

definition struct_time_to_utc :: "int \<Rightarrow> (ingestion_error, instant) result" where
  \<comment> \<open>\<^verbatim>\<open>datetime.fromtimestamp\<close> knows the years 1 to 9999\<close>
  "struct_time_to_utc ts =
     (if - 62135596800 \<le> ts \<and> ts \<le> 253402300799 then Inr (ts * 1000000) else Inl (OtherError ''year is out of range''))"

definition entry_to_article :: "ingestion_env \<Rightarrow> RssSource \<Rightarrow> feed_entry \<Rightarrow> (ingestion_error, RawArticle option) result" where
  "entry_to_article E src entry =
     (let published = (case fe_published entry of Some t \<Rightarrow> Some t | None \<Rightarrow> fe_updated entry)
      in case published of
           None \<Rightarrow> Inr None
         | Some ts \<Rightarrow>
             if fe_link entry = [] \<or> fe_title entry = [] then Inr None
             else bind_result (struct_time_to_utc ts) (\<lambda>published_at.
               Inr (validated_raw E
                 \<lparr>ra_source_id = rs_source_id src, ra_url = fe_link entry, ra_title = fe_title entry, ra_summary = fe_summary entry,
                  ra_published_at = published_at, ra_language = rs_language src, ra_country = rs_country src\<rparr>)))"

fun collect_some :: "('a \<Rightarrow> ('e, 'b option) result) \<Rightarrow> 'a list \<Rightarrow> ('e, 'b list) result" where
  "collect_some f [] = Inr []"
| "collect_some f (x # xs) =
     bind_result (f x) (\<lambda>y. bind_result (collect_some f xs) (\<lambda>ys. Inr (case y of None \<Rightarrow> ys | Some y \<Rightarrow> y # ys)))"

definition rss_fetch ::
  "ingestion_env \<Rightarrow> RssSource \<Rightarrow> (string, feed_entry list) result \<Rightarrow> (ingestion_error, RawArticle list) result" where
  "rss_fetch E src response =
     (case response of
        Inl e \<Rightarrow> Inl (AdapterError (''rss fetch failed for '' @ rs_source_id src @ '': '' @ e))
      | Inr entries \<Rightarrow> collect_some (entry_to_article E src) entries)"

subsection \<open>The news API\<close>

record FreeNewsApiAdapter =
  fn_language :: string
  fn_page_size :: string
  fn_default_country :: string

datatype http_failure = HttpTimeout string | HttpTransport string

record http_answer =
  ha_status :: int
  ha_json :: "(string, json) result" \<comment> \<open>the error of \<^verbatim>\<open>json()\<close> when the body is not JSON\<close>

type_synonym news_api = "string \<Rightarrow> (string, string) dict \<Rightarrow> (http_failure, http_answer) result"

definition text_or_empty :: "ingestion_env \<Rightarrow> json option \<Rightarrow> string" where
  \<comment> \<open>\<^verbatim>\<open>str(x or "").strip()\<close>\<close>
  "text_or_empty E j = (case j of None \<Rightarrow> [] | Some v \<Rightarrow> if truthy v then strip (json_str (ig_pystr E) v) else [])"

definition first_of :: "json option \<Rightarrow> json option \<Rightarrow> json option" where
  \<comment> \<open>\<^verbatim>\<open>a or b\<close>\<close>
  "first_of a b = (case a of Some v \<Rightarrow> if truthy v then a else b | None \<Rightarrow> b)"

definition first_iso2 :: "ingestion_env \<Rightarrow> json option \<Rightarrow> bool \<Rightarrow> string option" where
  "first_iso2 E values upper =
     (case values of
        Some (JList (v # _)) \<Rightarrow>
          (let first = strip (json_str (ig_pystr E) v)
           in if length first < 2 \<or> \<not> list_all is_letter (take 2 first) then None
              else Some (if upper then map (\<lambda>c. if is_lower c then char_of ((of_char c :: nat) - 32) else c) (take 2 first)
                         else lower (take 2 first)))
      | _ \<Rightarrow> None)"

definition news_get :: "news_api \<Rightarrow> string \<Rightarrow> (string, string) dict \<Rightarrow> (ingestion_error, http_answer) result" where
  "news_get api path params =
     (case api path params of
        Inl (HttpTimeout e) \<Rightarrow> Inl (AdapterError (''freenewsapi request timeout: '' @ e))
      | Inl (HttpTransport e) \<Rightarrow> Inl (AdapterError (''freenewsapi transport error: '' @ e))
      | Inr a \<Rightarrow> Inr a)"

definition request_json :: "news_api \<Rightarrow> string \<Rightarrow> (string, string) dict \<Rightarrow> (ingestion_error, json) result" where
  "request_json api path params =
     bind_result (news_get api path params) (\<lambda>a.
       if ha_status a = 429 then Inl (AdapterError ''freenewsapi rate-limited (HTTP 429)'')
       else if ha_status a = 401 then Inl (AdapterError ''freenewsapi rejected the API key (HTTP 401)'')
       else if ha_status a \<ge> 400 then Inl (AdapterError (''freenewsapi returned HTTP '' @ str_nat (nat (ha_status a))))
       else (case ha_json a of
               Inl e \<Rightarrow> Inl (AdapterError (''freenewsapi returned non-JSON: '' @ e))
             | Inr j \<Rightarrow> Inr (if is_obj j then j else JObj [])))"

definition search_news :: "FreeNewsApiAdapter \<Rightarrow> news_api \<Rightarrow> (ingestion_error, json list) result" where
  "search_news fn api =
     bind_result (request_json api ''/news''
         [(''language'', fn_language fn), (''order_by'', ''recent''), (''page_size'', fn_page_size fn)]) (\<lambda>d.
       Inr (case jget d ''data'' of Some (JList items) \<Rightarrow> filter is_obj items | _ \<Rightarrow> []))"

definition news_details :: "news_api \<Rightarrow> string \<Rightarrow> (ingestion_error, json) result" where
  "news_details api uuid_value =
     bind_result (request_json api ''/details'' [(''uuid'', uuid_value)]) (\<lambda>d.
       let detail = (case jget d ''data'' of Some j \<Rightarrow> j | None \<Rightarrow> d) in Inr (if is_obj detail then detail else JObj []))"

definition to_article ::
  "ingestion_env \<Rightarrow> FreeNewsApiAdapter \<Rightarrow> json \<Rightarrow> json \<Rightarrow> (ingestion_error, RawArticle option) result" where
  "to_article E fn item detail =
     (let url = text_or_empty E (jget detail ''original_url'');
          title = text_or_empty E (first_of (jget item ''title'') (jget detail ''title''));
          published_raw = text_or_empty E (first_of (jget item ''published_at'') (jget detail ''published_at''))
      in if url = [] \<or> title = [] \<or> published_raw = [] then Inr None
         else case ig_fromisoformat E published_raw of
           IsoInvalid \<Rightarrow> Inr None
         | IsoOverflow \<Rightarrow> Inl (OtherError ''date value out of range'')
         | IsoInstant published_at \<Rightarrow>
             Inr (validated_raw E
               \<lparr>ra_source_id = ''freenewsapi'', ra_url = url, ra_title = title,
                ra_summary = text_or_empty E (first_of (jget detail ''body'') (jget detail ''incipit'')), ra_published_at = published_at,
                ra_language = (case first_iso2 E (jget detail ''languages'') False of Some l \<Rightarrow> l | None \<Rightarrow> fn_language fn),
                ra_country = (case first_iso2 E (jget detail ''countries'') True of Some c \<Rightarrow> c | None \<Rightarrow> fn_default_country fn)\<rparr>))"

definition news_item :: "ingestion_env \<Rightarrow> FreeNewsApiAdapter \<Rightarrow> news_api \<Rightarrow> json \<Rightarrow> (ingestion_error, RawArticle option) result" where
  "news_item E fn api item =
     (let uuid_value = text_or_empty E (jget item ''uuid'')
      in if uuid_value = [] then Inr None
         else bind_result (news_details api uuid_value) (to_article E fn item))"

definition freenews_fetch :: "ingestion_env \<Rightarrow> FreeNewsApiAdapter \<Rightarrow> news_api \<Rightarrow> (ingestion_error, RawArticle list) result" where
  "freenews_fetch E fn api = bind_result (search_news fn api) (collect_some (news_item E fn api))"

subsection \<open>Circuit breakers\<close>

datatype CircuitState = CB_CLOSED | CB_OPEN | CB_HALF_OPEN

record CircuitBreaker =
  cb_failure_threshold :: nat
  cb_reset_timeout_seconds :: flt
  cb_name :: string
  cb_state :: CircuitState
  cb_failures :: nat
  cb_opened_at :: flt

definition allows_request :: "flt \<Rightarrow> CircuitBreaker \<Rightarrow> bool \<times> CircuitBreaker" where
  "allows_request now b =
     (if cb_state b = CB_OPEN
      then (if cb_reset_timeout_seconds b \<le> fl64 (now - cb_opened_at b) then (True, b\<lparr>cb_state := CB_HALF_OPEN\<rparr>) else (False, b))
      else (True, b))"

definition breaker_record_success :: "CircuitBreaker \<Rightarrow> CircuitBreaker" where
  "breaker_record_success b = b\<lparr>cb_failures := 0, cb_state := CB_CLOSED\<rparr>"

definition breaker_record_failure :: "flt \<Rightarrow> CircuitBreaker \<Rightarrow> CircuitBreaker" where
  "breaker_record_failure now b =
     (let b = b\<lparr>cb_failures := cb_failures b + 1\<rparr>
      in if cb_state b = CB_HALF_OPEN \<or> cb_failure_threshold b \<le> cb_failures b
         then b\<lparr>cb_state := CB_OPEN, cb_opened_at := now\<rparr> else b)"

definition circuit_open_error :: "string \<Rightarrow> ingestion_error" where
  "circuit_open_error source_id =
     CircuitOpenError (''circuit open for source '' @ [CHR 0x27] @ source_id @ [CHR 0x27] @ ''; skipping fetch'')"

definition resilient_fetch ::
  "flt \<Rightarrow> flt \<Rightarrow> (ingestion_error, RawArticle list) result \<Rightarrow> CircuitBreaker \<Rightarrow>
   (ingestion_error, RawArticle list) result \<times> CircuitBreaker" where
  \<comment> \<open>the readings of the clock before and after the wrapped call, and the call's outcome\<close>
  "resilient_fetch t t' outcome b =
     (case allows_request t b of
        (False, b) \<Rightarrow> (Inl (circuit_open_error (cb_name b)), b)
      | (True, b) \<Rightarrow>
          (case outcome of
             Inl e \<Rightarrow> (Inl e, if is_adapter_error e then breaker_record_failure t' b else b)
           | Inr articles \<Rightarrow> (Inr articles, breaker_record_success b)))"

definition wrap_with_breakers :: "nat \<Rightarrow> flt \<Rightarrow> string list \<Rightarrow> CircuitBreaker list" where
  "wrap_with_breakers threshold timeout source_ids =
     map (\<lambda>s. \<lparr>cb_failure_threshold = threshold, cb_reset_timeout_seconds = timeout, cb_name = s, cb_state = CB_CLOSED,
                cb_failures = 0, cb_opened_at = 0\<rparr>) source_ids"

subsection \<open>Storage\<close>

record article_row =
  at_article_id :: uuid
  at_source_id :: string
  at_canonical_url :: string
  at_title :: string
  at_body :: string
  at_published_at :: instant
  at_language :: string
  at_country :: string
  at_content_hash :: string
  at_ingested_at :: instant

record ingestion_db =
  in_articles :: "article_row list"
  in_outbox :: "ArticleIngested outbox_row list"
  in_next_uuid :: uuid

type_synonym 'a ingestion_prog = "(ingestion_db, string, 'a) prog"

definition article_message ::
  "ingestion_env \<Rightarrow> instant \<Rightarrow> uuid \<Rightarrow> uuid \<Rightarrow> RawArticle \<Rightarrow> string \<Rightarrow> string \<Rightarrow> string \<Rightarrow> (string, ArticleIngested) result" where
  \<comment> \<open>the construction of the message with its validation; identifiers are \<open>fresh\<close> and \<open>fresh + 1\<close>\<close>
  "article_message E now correlation fresh raw canonical title body =
     (case ig_http_url E canonical of
        None \<Rightarrow> Inl ''validation error: canonical_url''
      | Some url \<Rightarrow>
          if strip title = [] \<or> strip (ra_source_id raw) = [] \<or> \<not> two_letters is_lower (strip (ra_language raw)) \<or>
             \<not> two_letters is_upper (strip (ra_country raw)) \<or> strip (content_hash E title body) = []
          then Inl ''validation error''
          else Inr \<lparr>message_id = fresh + 1, correlation_id = correlation, causation_id = None, occurred_at = now,
                 ai_article_id = fresh, ai_source_id = strip (ra_source_id raw),
                 ai_canonical_url = url, ai_title = strip title, ai_body = strip body, ai_published_at = ra_published_at raw,
                 ai_language = strip (ra_language raw), ai_country = strip (ra_country raw),
                 ai_content_hash = strip (content_hash E title body)\<rparr>)"

definition store_new_article ::
  "ingestion_env \<Rightarrow> instant \<Rightarrow> uuid \<Rightarrow> nat \<Rightarrow> RawArticle \<Rightarrow> string \<Rightarrow> (ArticleIngested option) ingestion_prog" where
  "store_new_article E now correlation max_body_chars raw body db =
     (case canonicalize_url (ra_url raw) of
        Inl e \<Rightarrow> (Inl e, db)
      | Inr canonical \<Rightarrow>
          (let title = normalize_text E (ra_title raw);
               clean_body = truncate_text (normalize_text E body) max_body_chars;
               fresh = in_next_uuid db; db = db\<lparr>in_next_uuid := fresh + 2\<rparr>
           in case article_message E now correlation fresh raw canonical title clean_body of
                Inl e \<Rightarrow> (Inl e, db)
              | Inr m \<Rightarrow>
                  if canonical \<in> set (map at_canonical_url (in_articles db)) then (Inr None, db)
                  else (Inr (Some m), db\<lparr>
                    in_articles := in_articles db @
                      [\<lparr>at_article_id = fresh, at_source_id = ra_source_id raw, at_canonical_url = canonical, at_title = title,
                        at_body = clean_body, at_published_at = ra_published_at raw, at_language = ra_language raw,
                        at_country = ra_country raw, at_content_hash = content_hash E title clean_body, at_ingested_at = now\<rparr>],
                    in_outbox := in_outbox db @ [new_outbox_row (message_id m) fresh m now]\<rparr>)))"

definition ingestion_publish_pending ::
  "(ArticleIngested \<Rightarrow> string option) \<Rightarrow> instant \<Rightarrow> nat \<Rightarrow> ingestion_db \<Rightarrow> (uuid \<times> ArticleIngested) list \<times> ingestion_db" where
  "ingestion_publish_pending send now batch_size db =
     (let (rows, sent) = relay Inr send now batch_size (in_outbox db) in (sent, db\<lparr>in_outbox := rows\<rparr>))"

definition run_retention_cleaner :: "int \<Rightarrow> int \<Rightarrow> instant \<Rightarrow> ingestion_db \<Rightarrow> (nat \<times> nat) \<times> ingestion_db" where
  "run_retention_cleaner article_days outbox_days now db =
     (let old_article = (\<lambda>a. at_ingested_at a < now - days article_days);
          old_row = (\<lambda>r. ob_status r = DS_DELIVERED \<and>
             (case ob_delivered_at r of None \<Rightarrow> False | Some d \<Rightarrow> d < now - days outbox_days))
      in ((length (filter old_article (in_articles db)), length (filter old_row (in_outbox db))),
          db\<lparr>in_articles := filter (Not \<circ> old_article) (in_articles db),
             in_outbox := filter (Not \<circ> old_row) (in_outbox db)\<rparr>))"

subsection \<open>A poll\<close>

record 'u poll_env =
  pl_env :: ingestion_env
  pl_fetcher :: "BodyFetcher option"
  pl_body_fetch_enabled :: bool
  pl_network :: "string \<Rightarrow> 'u network" \<comment> \<open>what the fetch of a URL meets\<close>
  pl_max_body_chars :: nat
  pl_now :: instant
  pl_send :: "ArticleIngested \<Rightarrow> string option"

record feed_source =
  src_source_id :: string
  src_before :: flt
  src_after :: flt
  src_outcome :: "(ingestion_error, RawArticle list) result"

record PollResult =
  pr_per_source_counts :: "(string, nat) dict"
  pr_published :: nat

definition total_new :: "PollResult \<Rightarrow> nat" where
  "total_new r = sum_list (dict_values (pr_per_source_counts r))"

definition resolve_body :: "'u poll_env \<Rightarrow> RawArticle \<Rightarrow> string" where
  "resolve_body P raw =
     (case pl_fetcher P of
        None \<Rightarrow> ra_summary raw
      | Some bf \<Rightarrow>
          if \<not> pl_body_fetch_enabled P then ra_summary raw
          else case fst (fetch bf (pl_network P (ra_url raw)) (ra_url raw)) of
            Inl _ \<Rightarrow> ra_summary raw
          | Inr fetched \<Rightarrow> (let clean = strip_html_page (pl_env P) fetched in if clean = [] then ra_summary raw else clean))"

definition fetch_bodies :: "'u poll_env \<Rightarrow> RawArticle list \<Rightarrow> (RawArticle \<times> string) list" where
  "fetch_bodies P raws = map (\<lambda>raw. (raw, resolve_body P raw)) raws"

fun store_fetched :: "'u poll_env \<Rightarrow> (RawArticle \<times> string) list \<Rightarrow> nat \<Rightarrow> ingestion_db \<Rightarrow> nat \<times> ingestion_db" where
  \<comment> \<open>an exception of one article is logged and the next one is stored\<close>
  "store_fetched P [] stored db = (stored, db)"
| "store_fetched P ((raw, body) # rest) stored db =
     (let correlation = in_next_uuid db
      in case store_new_article (pl_env P) (pl_now P) correlation (pl_max_body_chars P) raw body (db\<lparr>in_next_uuid := correlation + 1\<rparr>) of
           (Inl _, db) \<Rightarrow> store_fetched P rest stored db
         | (Inr None, db) \<Rightarrow> store_fetched P rest stored db
         | (Inr (Some _), db) \<Rightarrow> store_fetched P rest (stored + 1) db)"

fun poll_sources ::
  "'u poll_env \<Rightarrow> (feed_source \<times> CircuitBreaker) list \<Rightarrow> (string, nat) dict \<Rightarrow> ingestion_db \<Rightarrow>
   (ingestion_error, (string, nat) dict) result \<times> CircuitBreaker list \<times> ingestion_db" where
  \<comment> \<open>the loop over the adapters, each wrapped in its breaker\<close>
  "poll_sources P [] counts db = (Inr counts, [], db)"
| "poll_sources P ((s, b) # rest) counts db =
     (case resilient_fetch (src_before s) (src_after s) (src_outcome s) b of
        (Inl e, b) \<Rightarrow>
          if is_adapter_error e
          then (let (r, bs, db) = poll_sources P rest (dict_set counts (src_source_id s) 0) db in (r, b # bs, db))
          else (Inl e, b # map snd rest, db)
      | (Inr raws, b) \<Rightarrow>
          (let (stored, db) = store_fetched P (fetch_bodies P raws) 0 db;
               (r, bs, db) = poll_sources P rest (dict_set counts (src_source_id s) stored) db
           in (r, b # bs, db)))"

definition run_once ::
  "'u poll_env \<Rightarrow> (feed_source \<times> CircuitBreaker) list \<Rightarrow> ingestion_db \<Rightarrow>
   (ingestion_error, PollResult) result \<times> CircuitBreaker list \<times> ingestion_db" where
  "run_once P sources db =
     (case poll_sources P sources [] (db\<lparr>in_next_uuid := in_next_uuid db + 1\<rparr>) of
        (Inl e, bs, db) \<Rightarrow> (Inl e, bs, db)
      | (Inr counts, bs, db) \<Rightarrow>
          (let (sent, db) = ingestion_publish_pending (pl_send P) (pl_now P) 100 db
           in (Inr \<lparr>pr_per_source_counts = counts, pr_published = length sent\<rparr>, bs, db)))"

record PollState =
  ps_last_poll_at :: "instant option"
  ps_per_source_counts :: "(string, nat) dict"
  ps_consecutive_empty_polls :: nat
  ps_last_published :: nat

definition run_poll ::
  "'u poll_env \<Rightarrow> (feed_source \<times> CircuitBreaker) list \<Rightarrow> PollState \<Rightarrow> ingestion_db \<Rightarrow> PollState \<times> CircuitBreaker list \<times> ingestion_db" where
  \<comment> \<open>\<^verbatim>\<open>_run_poll\<close>: an exception is logged and leaves the state of the health endpoint alone\<close>
  "run_poll P sources st db =
     (case run_once P sources db of
        (Inl _, bs, db) \<Rightarrow> (st, bs, db)
      | (Inr r, bs, db) \<Rightarrow>
          (\<lparr>ps_last_poll_at = Some (pl_now P), ps_per_source_counts = pr_per_source_counts r,
            ps_consecutive_empty_polls = (if total_new r = 0 then ps_consecutive_empty_polls st + 1 else 0),
            ps_last_published = pr_published r\<rparr>, bs, db))"

end
