(* ===== verification/IngestionSafety.thy ===== *)
theory IngestionSafety
  imports Ingestion
begin

text \<open>
  What the Ingestion service guarantees: a circuit breaker against its specification, the isolation of sources
  within a poll and its limit, and that one article is announced once within the retention window.
\<close>

subsection \<open>The circuit breaker against its specification\<close>

type_synonym call = "flt \<times> flt \<times> (ingestion_error, RawArticle list) result"

fun breaker_run :: "call list \<Rightarrow> CircuitBreaker \<Rightarrow> (ingestion_error, RawArticle list) result list" where
  "breaker_run [] b = []"
| "breaker_run ((t, t', outcome) # calls) b =
     (let (r, b) = resilient_fetch t t' outcome b in r # breaker_run calls b)"

text \<open>
  The specification keeps the number of failures in a row and the time of the last one: a call is rejected
  when the threshold is reached and the reset time has not passed since the last failure.
\<close>

fun spec_run :: "nat \<Rightarrow> flt \<Rightarrow> string \<Rightarrow> call list \<Rightarrow> nat \<times> flt \<Rightarrow> (ingestion_error, RawArticle list) result list" where
  "spec_run threshold timeout name [] s = []"
| "spec_run threshold timeout name ((t, t', outcome) # calls) (failures, last_at) =
     (if threshold \<le> failures \<and> fl64 (t - last_at) < timeout
      then Inl (circuit_open_error name) #
        spec_run threshold timeout name calls (failures, last_at)
      else outcome # spec_run threshold timeout name calls
        (case outcome of
           Inr _ \<Rightarrow> (0, last_at)
         | Inl e \<Rightarrow> if is_adapter_error e then (failures + 1, t') else (failures, last_at)))"

fun clock_ordered :: "flt \<Rightarrow> call list \<Rightarrow> bool" where
  "clock_ordered now [] = True"
| "clock_ordered now ((t, t', _) # calls) \<longleftrightarrow> now \<le> t \<and> t \<le> t' \<and> clock_ordered t' calls"

definition fresh_breaker :: "nat \<Rightarrow> flt \<Rightarrow> string \<Rightarrow> CircuitBreaker" where
  "fresh_breaker threshold timeout name = hd (wrap_with_breakers threshold timeout [name])"

definition breaker_abs :: "flt \<Rightarrow> CircuitBreaker \<Rightarrow> nat \<times> flt \<Rightarrow> bool" where
  "breaker_abs now b s \<longleftrightarrow>
     cb_failures b = fst s \<and>
     (case cb_state b of
        CB_CLOSED \<Rightarrow> cb_failures b < cb_failure_threshold b
      | CB_OPEN \<Rightarrow> cb_failure_threshold b \<le> cb_failures b \<and> cb_opened_at b = snd s
      | CB_HALF_OPEN \<Rightarrow> cb_failure_threshold b \<le> cb_failures b \<and> cb_opened_at b = snd s \<and>
          cb_reset_timeout_seconds b \<le> fl64 (now - cb_opened_at b))"

lemma breaker_refines:
  assumes "breaker_abs now b s" "0 < cb_failure_threshold b" "clock_ordered now calls"
  shows "breaker_run calls b = spec_run (cb_failure_threshold b) (cb_reset_timeout_seconds b) (cb_name b) calls s"
  using assms
proof (induction calls arbitrary: now b s)
  case Nil
  then show ?case by simp
next
  case (Cons call calls)
  obtain t t' outcome where call: "call = (t, t', outcome)" by (cases call)
  obtain failures last_at where s: "s = (failures, last_at)" by (cases s)
  have order: "now \<le> t" "t \<le> t'" "clock_ordered t' calls" using Cons.prems(3) by (simp_all add: call)
  obtain r b' where f: "resilient_fetch t t' outcome b = (r, b')" by fastforce
  have keep: "cb_failure_threshold b' = cb_failure_threshold b" "cb_reset_timeout_seconds b' = cb_reset_timeout_seconds b"
    "cb_name b' = cb_name b"
    using f by (auto simp: resilient_fetch_def allows_request_def breaker_record_success_def breaker_record_failure_def Let_def
        split: if_splits sum.splits)
  show ?case
  proof (cases "cb_failure_threshold b \<le> failures \<and> fl64 (t - last_at) < cb_reset_timeout_seconds b")
    case True
    have "fl64 (now - last_at) < cb_reset_timeout_seconds b"
      using True b64.rnd_mono [of "now - last_at" "t - last_at"] order(1) by linarith
    then have "cb_state b = CB_OPEN" "cb_opened_at b = last_at"
      using True Cons.prems(1) by (auto simp: breaker_abs_def s split: CircuitState.splits)
    then have rb: "r = Inl (circuit_open_error (cb_name b))" "b' = b"
      using True f by (auto simp: resilient_fetch_def allows_request_def)
    have "breaker_abs t' b s" using Cons.prems(1) \<open>cb_state b = CB_OPEN\<close> by (simp add: breaker_abs_def)
    from Cons.IH [OF this Cons.prems(2) order(3)] show ?thesis using True by (simp add: call s f rb)
  next
    case False
    let ?s = "case outcome of Inr _ \<Rightarrow> (0, last_at)
      | Inl e \<Rightarrow> if is_adapter_error e then (failures + 1, t') else (failures, last_at)"
    have allowed: "fst (allows_request t b)"
      using False Cons.prems(1) by (auto simp: allows_request_def breaker_abs_def s split: if_splits CircuitState.splits)
    then have "r = outcome" using f by (auto simp: resilient_fetch_def split: prod.splits sum.splits bool.splits)
    moreover have "breaker_abs t' b' ?s"
    proof -
      have mono: "fl64 (t - last_at) \<le> fl64 (t' - last_at)" using order(2) by (simp add: b64.rnd_mono)
      show ?thesis
        using f allowed False Cons.prems(1,2) mono
        by (cases "cb_state b")
          (auto simp: resilient_fetch_def allows_request_def breaker_record_success_def breaker_record_failure_def breaker_abs_def s Let_def
            split: if_splits sum.splits)
    qed
    ultimately show ?thesis
      using Cons.IH [of t' b' ?s] Cons.prems(2) order(3) False by (auto simp: call s f keep)
  qed
qed

lemma fresh_breaker_abs: "0 < threshold \<Longrightarrow> breaker_abs now (fresh_breaker threshold timeout name) (0, 0)"
  by (simp add: breaker_abs_def fresh_breaker_def wrap_with_breakers_def)

lemma fresh_breaker_fields [simp]:
  "cb_failure_threshold (fresh_breaker threshold timeout name) = threshold"
  "cb_reset_timeout_seconds (fresh_breaker threshold timeout name) = timeout" "cb_name (fresh_breaker threshold timeout name) = name"
  by (simp_all add: fresh_breaker_def wrap_with_breakers_def)

text \<open>
  C26: the circuit breaker implements its specification.  For every sequence of calls whose clock readings do not run
  backwards, whatever each call of the wrapped adapter returns or raises, the breaker answers exactly as the two
  numbers of the specification say: it rejects a call without reaching the adapter if and only if the last
  \<^verbatim>\<open>failure_threshold\<close> or more calls failed in a row and less than the reset time passed since the last failure.
\<close>

theorem breaker_meets_spec:
  assumes "0 < threshold" and "clock_ordered now calls"
  shows "breaker_run calls (fresh_breaker threshold timeout name) = spec_run threshold timeout name calls (0, 0)"
  using breaker_refines [of now "fresh_breaker threshold timeout name" "(0, 0)" calls] fresh_breaker_abs assms by simp

theorem breaker_meets_spec_witness:
  "breaker_run [(1, 2, Inl (AdapterError ''x'')), (3, 4, Inr []), (70, 71, Inr [])] (fresh_breaker 1 60 ''dn'') =
     [Inl (AdapterError ''x''), Inl (circuit_open_error ''dn''), Inr []]"
proof -
  have "fl64 (3 - 2) = 1" "60 \<le> fl64 (70 - 2)"
    using b64.rnd_ge_int [of 60 "70 - 2"] by simp_all
  then show ?thesis
    using breaker_meets_spec [of 1 0 "[(1, 2, Inl (AdapterError ''x'')), (3, 4, Inr []), (70, 71, Inr [])]" 60 "''dn''"]
    by (simp add: not_less)
qed

fun spaced :: "flt \<Rightarrow> call list \<Rightarrow> bool" where
  \<comment> \<open>each call starts at least the given time after the end of the one before\<close>
  "spaced gap_seconds ((_, t', _) # (u, u', o') # calls) \<longleftrightarrow> t' + gap_seconds \<le> u \<and> spaced gap_seconds ((u, u', o') # calls)"
| "spaced gap_seconds _ \<longleftrightarrow> True"

lemma spec_spaced:
  assumes "is_flt timeout" "spaced timeout calls" "\<forall>t. calls \<noteq> [] \<and> t = fst (hd calls) \<longrightarrow> failures < threshold \<or> last_at + timeout \<le> t"
    "clock_ordered now calls" "0 \<le> timeout"
  shows "spec_run threshold timeout name calls (failures, last_at) = map (snd \<circ> snd) calls"
  using assms(2-4)
proof (induction calls arbitrary: failures last_at now)
  case Nil
  then show ?case by simp
next
  case (Cons call calls)
  obtain t t' outcome where call: "call = (t, t', outcome)" by (cases call)
  have "timeout \<le> fl64 (t - last_at)" if "last_at + timeout \<le> t"
    using that b64.rnd_mono [of timeout "t - last_at"] assms(1) by (simp add: is_flt_def)
  then have allowed: "\<not> (threshold \<le> failures \<and> fl64 (t - last_at) < timeout)" using Cons.prems(2) by (auto simp: call)
  obtain f' l' where next_state: "(case outcome of Inr _ \<Rightarrow> (0, last_at)
      | Inl e \<Rightarrow> if is_adapter_error e then (failures + 1, t') else (failures, last_at)) = (f', l')" by fastforce
  have later: "spaced timeout calls" "clock_ordered t' calls"
    using Cons.prems(1,3) by (cases calls; auto simp: call)+
  have "f' < threshold \<or> l' + timeout \<le> u" if ne: "calls \<noteq> []" "u = fst (hd calls)" for u
  proof -
    obtain u' o' rest where calls: "calls = (u, u', o') # rest" using ne by (cases calls) auto
    then have u: "t' + timeout \<le> u" "t \<le> t'" using Cons.prems(1,3) by (auto simp: call)
    have "failures < threshold \<or> last_at + timeout \<le> t" using Cons.prems(2) by (auto simp: call)
    then have old: "failures < threshold \<or> last_at + timeout \<le> u" using u assms(5) by linarith
    show ?thesis
    proof (cases outcome)
      case (Inl e)
      then show ?thesis using next_state old u by (auto split: if_splits)
    next
      case (Inr rs)
      then have "f' = 0" "l' = last_at" using next_state by auto
      then show ?thesis using old by auto
    qed
  qed
  then show ?case using Cons.IH [of f' l' t'] later allowed next_state by (auto simp: call)
qed

text \<open>
  A breaker whose source is polled no more often than the reset time never opens for a caller: every call
  reaches the adapter and returns the adapter's own outcome, however often it failed before.  With the default
  poll interval of 3600 seconds and the default reset time of 60 seconds this is every scheduled poll.
\<close>

theorem breaker_transparent_when_spaced:
  assumes "0 < threshold" and "is_flt timeout" and "0 \<le> timeout" and "clock_ordered now calls" and "spaced timeout calls"
  shows "breaker_run calls (fresh_breaker threshold timeout name) = map (snd \<circ> snd) calls"
  using breaker_refines [of now "fresh_breaker threshold timeout name" "(0, 0)" calls] fresh_breaker_abs assms(1,4)
    spec_spaced [OF assms(2,5) _ assms(4,3), of 0 threshold 0 name] assms(1) by simp

theorem breaker_transparent_when_spaced_witness:
  "breaker_run [(0, 1, Inl (AdapterError ''x'')), (3600, 3601, Inl (AdapterError ''x'')), (7200, 7201, Inr [])]
     (fresh_breaker 1 60 ''dn'') = [Inl (AdapterError ''x''), Inl (AdapterError ''x''), Inr []]"
proof -
  have "is_flt 60" using b64.rnd_int [of 60] by (simp add: is_flt_def)
  then show ?thesis
    using breaker_transparent_when_spaced [of 1 60 0
        "[(0, 1, Inl (AdapterError ''x'')), (3600, 3601, Inl (AdapterError ''x'')), (7200, 7201, Inr [])]" "''dn''"] by simp
qed

subsection \<open>One poll\<close>

definition fetched_by :: "feed_source \<times> CircuitBreaker \<Rightarrow> (ingestion_error, RawArticle list) result" where
  "fetched_by sb = fst (resilient_fetch (src_before (fst sb)) (src_after (fst sb)) (src_outcome (fst sb)) (snd sb))"

definition answered :: "feed_source \<times> CircuitBreaker \<Rightarrow> bool" where
  "answered sb \<longleftrightarrow> (\<exists>raws. fetched_by sb = Inr raws)"

definition degraded :: "feed_source \<times> CircuitBreaker \<Rightarrow> bool" where
  "degraded sb \<longleftrightarrow> (\<exists>e. fetched_by sb = Inl e \<and> is_adapter_error e)"

definition source_ids :: "(feed_source \<times> CircuitBreaker) list \<Rightarrow> string set" where
  "source_ids sources = set (map (src_source_id \<circ> fst) sources)"

lemma source_ids_simps [simp]:
  "source_ids [] = {}" "source_ids (sb # sources) = insert (src_source_id (fst sb)) (source_ids sources)"
  by (simp_all add: source_ids_def)

lemma poll_sources_answered:
  assumes "\<forall>sb \<in> set sources. answered sb \<or> degraded sb"
  shows "\<exists>counts'. fst (poll_sources P sources counts db) = Inr counts' \<and>
    snd (snd (poll_sources P sources counts db)) = snd (snd (poll_sources P (filter answered sources) counts0 db)) \<and>
    (\<forall>s. s \<notin> source_ids (filter answered sources) \<longrightarrow> s \<in> source_ids sources \<longrightarrow>
       dict_get counts' s = Some 0) \<and>
    (\<forall>s. s \<notin> source_ids sources \<longrightarrow> dict_get counts' s = dict_get counts s)"
  using assms
proof (induction sources arbitrary: counts counts0 db)
  case Nil
  then show ?case by simp
next
  case (Cons sb sources)
  obtain s b where sb: "sb = (s, b)" by (cases sb)
  obtain r b' where f: "resilient_fetch (src_before s) (src_after s) (src_outcome s) b = (r, b')" by fastforce
  have rest: "\<forall>sb \<in> set sources. answered sb \<or> degraded sb" using Cons.prems by simp
  show ?case
  proof (cases r)
    case (Inl e)
    then have "\<not> answered sb" "is_adapter_error e"
      using Cons.prems f by (auto simp: sb answered_def degraded_def fetched_by_def)
    moreover obtain r1 bs1 db1 where p: "poll_sources P sources (dict_set counts (src_source_id s) 0) db = (r1, bs1, db1)"
      by (cases "poll_sources P sources (dict_set counts (src_source_id s) 0) db")
    ultimately have polled: "poll_sources P (sb # sources) counts db = (r1, b' # bs1, db1)" "filter answered (sb # sources) = filter answered sources"
      using f Inl by (simp_all add: sb)
    show ?thesis
      unfolding polled using Cons.IH [OF rest, of "dict_set counts (src_source_id s) 0" db counts0] p
      by (cases "src_source_id s \<in> source_ids sources") (auto simp: sb dict_get_set)
  next
    case (Inr raws)
    then have "answered sb" using f by (simp add: sb answered_def fetched_by_def)
    moreover obtain stored db1 where "store_fetched P (fetch_bodies P raws) 0 db = (stored, db1)" by fastforce
    moreover obtain r1 bs1 db2 where p: "poll_sources P sources (dict_set counts (src_source_id s) stored) db1 = (r1, bs1, db2)"
      by (cases "poll_sources P sources (dict_set counts (src_source_id s) stored) db1")
    moreover obtain r2 bs2 db3 where q: "poll_sources P (filter answered sources) (dict_set counts0 (src_source_id s) stored) db1 = (r2, bs2, db3)"
      by (cases "poll_sources P (filter answered sources) (dict_set counts0 (src_source_id s) stored) db1")
    ultimately have polled: "poll_sources P (sb # sources) counts db = (r1, b' # bs1, db2)"
      "poll_sources P (sb # filter answered sources) counts0 db = (r2, b' # bs2, db3)"
      "filter answered (sb # sources) = sb # filter answered sources"
      using f Inr by (simp_all add: sb)
    show ?thesis
      unfolding polled using Cons.IH [OF rest, of "dict_set counts (src_source_id s) stored" db1 "dict_set counts0 (src_source_id s) stored"] p q
      by (auto simp: sb dict_get_set)
  qed
qed

lemma poll_sources_split:
  assumes "poll_sources P pre counts db = (Inr counts1, bs, db1)"
  shows "poll_sources P (pre @ post) counts db =
    (let (r, bs', db') = poll_sources P post counts1 db1 in (r, bs @ bs', db'))"
  using assms
proof (induction pre arbitrary: counts db bs)
  case Nil
  then show ?case by (auto split: prod.splits)
next
  case (Cons sb pre)
  obtain s b where sb: "sb = (s, b)" by (cases sb)
  show ?case using Cons
    by (fastforce simp: sb Let_def split: prod.splits sum.splits if_splits)
qed

text \<open>
  C27: a source that fails as an adapter does not touch the others.  When every fetch either answers or raises an
  AdapterError (its own or that of its open breaker), the poll returns, leaves the articles and the outbox exactly
  as a poll of the answering sources alone, and reports no new article for a source that did not answer.
\<close>

theorem poll_isolates_sources:
  assumes "\<forall>sb \<in> set sources. answered sb \<or> degraded sb"
  shows "\<exists>r bs r' bs' db'. run_once P sources db = (Inr r, bs, db') \<and> run_once P (filter answered sources) db = (Inr r', bs', db') \<and>
    (\<forall>sb \<in> set sources. src_source_id (fst sb) \<notin> source_ids (filter answered sources) \<longrightarrow>
       dict_get (pr_per_source_counts r) (src_source_id (fst sb)) = Some 0)"
proof -
  let ?db = "db\<lparr>in_next_uuid := in_next_uuid db + 1\<rparr>"
  obtain r bs db1 where p: "poll_sources P sources [] ?db = (r, bs, db1)" by (cases "poll_sources P sources [] ?db")
  obtain r' bs' db2 where q: "poll_sources P (filter answered sources) [] ?db = (r', bs', db2)"
    by (cases "poll_sources P (filter answered sources) [] ?db")
  obtain counts where c: "r = Inr counts" "db1 = db2"
    "\<forall>s. s \<notin> source_ids (filter answered sources) \<longrightarrow> s \<in> source_ids sources \<longrightarrow>
       dict_get counts s = Some 0"
    using poll_sources_answered [OF assms, of P "[]" ?db "[]"] p q by auto
  obtain counts' where c': "r' = Inr counts'"
    using poll_sources_answered [of "filter answered sources" P "[]" ?db "[]"] q by auto
  obtain sent db3 where "ingestion_publish_pending (pl_send P) (pl_now P) 100 db2 = (sent, db3)" by fastforce
  moreover have "src_source_id (fst sb) \<in> source_ids sources" if "sb \<in> set sources" for sb
    using that by (auto simp: source_ids_def)
  ultimately show ?thesis using p q c c' by (auto simp: run_once_def)
qed

text \<open>
  C28: an exception of another class ends the poll for everybody.  When the fetch of one source raises something that
  is not an AdapterError, the poll raises it: the sources before it were stored, the sources after it are not
  fetched (their breakers are untouched), and the outbox is not relayed, so nothing is published.
\<close>

theorem foreign_error_aborts_poll:
  assumes "poll_sources P pre [] (db\<lparr>in_next_uuid := in_next_uuid db + 1\<rparr>) = (Inr counts, bs, db1)"
    and "fetched_by (s, b) = Inl e" and "\<not> is_adapter_error e"
  shows "\<exists>b'. run_once P (pre @ (s, b) # post) db = (Inl e, bs @ b' # map snd post, db1)"
  using assms(2,3) poll_sources_split [OF assms(1), of "(s, b) # post"]
  by (auto simp: run_once_def fetched_by_def split: prod.splits)

subsection \<open>One announcement per article\<close>

text \<open>
  Histories of the service: whole polls, the store of a single article (the part of a poll a crash can leave
  behind), relay runs and retention runs, with a clock that does not run backwards.
\<close>

inductive ing_step :: "int \<Rightarrow> instant \<Rightarrow> ingestion_db \<Rightarrow> ingestion_db \<Rightarrow> bool" for article_days where
  polled: "run_once (P :: string poll_env) sources db = (r, bs, db') \<Longrightarrow> ing_step article_days (pl_now P) db db'"
| stored: "store_new_article E now correlation max_chars raw body db = (r, db') \<Longrightarrow> ing_step article_days now db db'"
| relayed: "ingestion_publish_pending send now batch_size db = (sent, db') \<Longrightarrow> ing_step article_days now db db'"
| cleaned: "run_retention_cleaner article_days outbox_days now db = (deleted, db') \<Longrightarrow> ing_step article_days now db db'"

inductive ing_run :: "int \<Rightarrow> instant \<Rightarrow> ingestion_db \<Rightarrow> instant \<Rightarrow> ingestion_db \<Rightarrow> bool" for article_days t db where
  start: "ing_run article_days t db t db"
| step: "ing_run article_days t db t' db' \<Longrightarrow> t' \<le> t'' \<Longrightarrow> ing_step article_days t'' db' db'' \<Longrightarrow> ing_run article_days t db t'' db''"

definition keeps_articles :: "ingestion_db \<Rightarrow> ingestion_db \<Rightarrow> bool" where
  "keeps_articles db db' \<longleftrightarrow> set (in_articles db) \<subseteq> set (in_articles db')"

lemma store_keeps: "store_new_article E now c n raw body db = (r, db') \<Longrightarrow> keeps_articles db db'"
  by (auto simp: store_new_article_def keeps_articles_def Let_def split: sum.splits if_splits)

lemma store_fetched_keeps: "store_fetched P raws k db = (k', db') \<Longrightarrow> keeps_articles db db'"
proof (induction P raws k db rule: store_fetched.induct)
  case (1 P stored db)
  then show ?case by (simp add: keeps_articles_def)
next
  case (2 P raw body rest stored db)
  let ?db = "db\<lparr>in_next_uuid := in_next_uuid db + 1\<rparr>"
  obtain r db1 where s: "store_new_article (pl_env P) (pl_now P) (in_next_uuid db) (pl_max_body_chars P) raw body ?db = (r, db1)"
    by fastforce
  have "keeps_articles db db1" using store_keeps [OF s] by (simp add: keeps_articles_def)
  moreover have "keeps_articles db1 db'"
    using 2 s by (auto simp: Let_def split: sum.splits option.splits)
  ultimately show ?case by (auto simp: keeps_articles_def)
qed

lemma poll_sources_keeps: "poll_sources P sources counts db = (r, bs, db') \<Longrightarrow> keeps_articles db db'"
proof (induction sources arbitrary: counts db bs)
  case Nil
  then show ?case by (simp add: keeps_articles_def)
next
  case (Cons sb sources)
  obtain s b where sb: "sb = (s, b)" by (cases sb)
  obtain o' b' where f: "resilient_fetch (src_before s) (src_after s) (src_outcome s) b = (o', b')" by fastforce
  show ?case
  proof (cases o')
    case (Inl e)
    then show ?thesis using Cons f by (auto simp: sb keeps_articles_def split: if_splits prod.splits)
  next
    case (Inr raws)
    obtain stored db1 where st: "store_fetched P (fetch_bodies P raws) 0 db = (stored, db1)" by fastforce
    then have "keeps_articles db1 db'" using Cons f Inr by (auto simp: sb split: prod.splits)
    then show ?thesis using store_fetched_keeps [OF st] by (auto simp: keeps_articles_def)
  qed
qed

lemma ing_step_keeps:
  assumes "ing_step article_days now db db'" "a \<in> set (in_articles db)" "now \<le> at_ingested_at a + days article_days"
  shows "a \<in> set (in_articles db')"
  using assms
proof (cases rule: ing_step.cases)
  case (polled P sources r bs)
  then obtain r1 bs1 db1 where p: "poll_sources P sources [] (db\<lparr>in_next_uuid := in_next_uuid db + 1\<rparr>) = (r1, bs1, db1)"
    by (cases "poll_sources P sources [] (db\<lparr>in_next_uuid := in_next_uuid db + 1\<rparr>)")
  have "in_articles db' = in_articles db1"
    using polled(2) p by (auto simp: run_once_def ingestion_publish_pending_def split: sum.splits prod.splits)
  then show ?thesis using poll_sources_keeps [OF p] assms(2) by (auto simp: keeps_articles_def)
next
  case (stored E correlation max_chars raw body r)
  then show ?thesis using assms(2) by (auto simp: keeps_articles_def dest!: store_keeps)
next
  case (relayed send batch_size sent)
  then show ?thesis using assms(2) by (auto simp: ingestion_publish_pending_def split: prod.splits)
next
  case (cleaned outbox_days deleted)
  then show ?thesis using assms(2,3) by (auto simp: run_retention_cleaner_def Let_def)
qed

lemma ing_run_later: "ing_run article_days t db t' db' \<Longrightarrow> t \<le> t'"
  by (induction rule: ing_run.induct) auto

lemma ing_run_keeps:
  assumes "ing_run article_days t db t' db'" "a \<in> set (in_articles db)" "t' \<le> at_ingested_at a + days article_days"
  shows "a \<in> set (in_articles db')"
  using assms
proof (induction rule: ing_run.induct)
  case start
  then show ?case by simp
next
  case (step t' db' t'' db'')
  then show ?case using ing_step_keeps by fastforce
qed

text \<open>
  C25: an article is announced once.  After an article was stored and its ArticleIngested queued, no history of
  polls, crashes, relay and retention runs leads within the article retention to a second one: storing anything
  with the same canonical URL inserts no row and queues no message, whatever its title and body are.
\<close>

theorem article_announced_once:
  assumes "store_new_article E t correlation max_chars raw body db = (Inr (Some m), db1)"
    and "ing_run article_days t db1 t' db2" and "t' \<le> t + days article_days"
    and "canonicalize_url (ra_url raw') = canonicalize_url (ra_url raw)"
    and "store_new_article E' t' correlation' max_chars' raw' body' db2 = (r, db3)"
  shows "(\<nexists>m'. r = Inr (Some m')) \<and> in_articles db3 = in_articles db2 \<and> in_outbox db3 = in_outbox db2"
proof -
  let ?a = "last (in_articles db1)"
  obtain c where c: "canonicalize_url (ra_url raw) = Inr c" and a: "?a \<in> set (in_articles db1)" "at_canonical_url ?a = c"
    "at_ingested_at ?a = t"
    using assms(1) by (auto simp: store_new_article_def Let_def split: sum.splits if_splits)
  have "?a \<in> set (in_articles db2)" using ing_run_keeps [OF assms(2) a(1)] a(3) assms(3) by simp
  then show ?thesis
    using assms(5) a(2) c assms(4) by (auto simp: store_new_article_def Let_def split: sum.splits if_splits)
qed

subsection \<open>Concrete inputs\<close>

definition plain_ingestion :: ingestion_env where
  "plain_ingestion =
     \<lparr>ig_text = plain_tools, ig_http_url = Some, ig_is_page = (\<lambda>_. False), ig_sha256 = (\<lambda>s. ''sha''),
      ig_pystr = (\<lambda>_. ''?''), ig_fromisoformat = (\<lambda>_. IsoInvalid)\<rparr>"

definition plain_poll :: "string poll_env" where
  "plain_poll =
     \<lparr>pl_env = plain_ingestion, pl_fetcher = None, pl_body_fetch_enabled = False,
      pl_network = (\<lambda>_. sample_network), pl_max_body_chars = 100,
      pl_now = 1000000, pl_send = (\<lambda>_. None)\<rparr>"

definition sample_raw :: "string \<Rightarrow> RawArticle" where
  "sample_raw url =
     \<lparr>ra_source_id = ''dn'', ra_url = url, ra_title = ''Cut'', ra_summary = ''The bank cuts'', ra_published_at = 0,
      ra_language = ''sv'', ra_country = ''SE''\<rparr>"

definition empty_ingestion :: ingestion_db where
  "empty_ingestion = \<lparr>in_articles = [], in_outbox = [], in_next_uuid = 0\<rparr>"

definition sample_source :: "string \<Rightarrow> (ingestion_error, RawArticle list) result \<Rightarrow> feed_source \<times> CircuitBreaker" where
  "sample_source name outcome =
     (\<lparr>src_source_id = name, src_before = 0, src_after = 1, src_outcome = outcome\<rparr>, fresh_breaker 3 60 name)"

definition far_entry :: feed_entry where
  \<comment> \<open>an entry dated in the year 10000\<close>
  "far_entry = \<lparr>fe_link = ''https://dn.se/a'', fe_title = ''Cut'', fe_summary = [], fe_published = Some 253402300800,
     fe_updated = None\<rparr>"

lemma sample_source_fetched [simp]: "fetched_by (sample_source name outcome) = outcome"
  by (auto simp: fetched_by_def sample_source_def fresh_breaker_def wrap_with_breakers_def resilient_fetch_def
      allows_request_def split: sum.splits)

theorem poll_isolates_sources_witness:
  "\<exists>r bs r' bs' db'.
     run_once plain_poll [sample_source ''svd'' (Inl (AdapterError ''x'')), sample_source ''dn'' (Inr [sample_raw ''https://dn.se/a''])]
       empty_ingestion = (Inr r, bs, db') \<and>
     run_once plain_poll [sample_source ''dn'' (Inr [sample_raw ''https://dn.se/a''])] empty_ingestion = (Inr r', bs', db') \<and>
     dict_get (pr_per_source_counts r) ''svd'' = Some 0"
  using poll_isolates_sources [of "[sample_source ''svd'' (Inl (AdapterError ''x'')),
      sample_source ''dn'' (Inr [sample_raw ''https://dn.se/a''])]" plain_poll empty_ingestion]
  by (auto simp: answered_def degraded_def) (auto simp: sample_source_def)

theorem foreign_error_aborts_poll_witness:
  "\<exists>b b'. run_once plain_poll [sample_source ''dn'' (rss_fetch plain_ingestion (SWEDISH_SOURCES ! 1) (Inr [far_entry])),
      sample_source ''svd'' (Inr [sample_raw ''https://dn.se/a''])] empty_ingestion =
    (Inl (OtherError ''year is out of range''), [b, b'], empty_ingestion\<lparr>in_next_uuid := 1\<rparr>)"
proof -
  let ?s = "sample_source ''dn'' (rss_fetch plain_ingestion (SWEDISH_SOURCES ! 1) (Inr [far_entry]))"
  have "rss_fetch plain_ingestion (SWEDISH_SOURCES ! 1) (Inr [far_entry]) = Inl (OtherError ''year is out of range'')"
    by (simp add: rss_fetch_def entry_to_article_def far_entry_def struct_time_to_utc_def)
  then have "fetched_by (fst ?s, snd ?s) = Inl (OtherError ''year is out of range'')" by simp
  from foreign_error_aborts_poll [OF _ this, of plain_poll "[]" empty_ingestion "[]" "[]" "empty_ingestion\<lparr>in_next_uuid := 1\<rparr>"
      "[sample_source ''svd'' (Inr [sample_raw ''https://dn.se/a''])]"]
  show ?thesis by (auto simp: empty_ingestion_def)
qed

lemma sample_canonical:
  "canonicalize_url ''https://DN.se:443/a/?utm_id=1'' = Inr ''https://dn.se/a''"
  "canonicalize_url ''https://dn.se/a'' = Inr ''https://dn.se/a''"
  by code_simp+

lemma sample_texts: "normalize_text plain_ingestion ''Cut'' = ''Cut''" "normalize_text plain_ingestion ''b'' = ''b''"
  by code_simp+

lemma sample_languages: "two_letters is_lower (strip ''sv'')" "two_letters is_upper (strip ''SE'')" "strip ''dn'' \<noteq> []"
  "strip ''sha'' \<noteq> []" "strip ''Cut'' \<noteq> []"
  by code_simp+

lemma sample_hash: "content_hash plain_ingestion title body = ''sha''" "ig_http_url plain_ingestion = Some"
  by (simp_all add: content_hash_def plain_ingestion_def)

lemma sample_stored:
  "\<exists>m. store_new_article plain_ingestion 0 7 100 (sample_raw ''https://DN.se:443/a/?utm_id=1'') ''b'' empty_ingestion =
    (Inr (Some m), snd (store_new_article plain_ingestion 0 7 100 (sample_raw ''https://DN.se:443/a/?utm_id=1'') ''b'' empty_ingestion))"
  using sample_languages sample_texts
  by (simp add: store_new_article_def sample_raw_def sample_canonical article_message_def empty_ingestion_def sample_hash
      truncate_text_def Let_def)

theorem article_announced_once_witness:
  "\<exists>m db1 r db2. store_new_article plain_ingestion 0 7 100 (sample_raw ''https://DN.se:443/a/?utm_id=1'') ''b'' empty_ingestion =
       (Inr (Some m), db1) \<and>
     store_new_article plain_ingestion 5 8 100 (sample_raw ''https://dn.se/a'') ''other'' db1 = (r, db2) \<and>
     (\<nexists>m'. r = Inr (Some m')) \<and> in_articles db2 = in_articles db1 \<and> in_outbox db2 = in_outbox db1"
proof -
  obtain m db1 where s: "store_new_article plain_ingestion 0 7 100 (sample_raw ''https://DN.se:443/a/?utm_id=1'') ''b''
      empty_ingestion = (Inr (Some m), db1)" using sample_stored by blast
  obtain r db2 where s2: "store_new_article plain_ingestion 5 8 100 (sample_raw ''https://dn.se/a'') ''other'' db1 = (r, db2)"
    by fastforce
  have "ing_step 30 5 db1 db1"
    by (rule ing_step.relayed [where batch_size = 0])
      (simp add: ingestion_publish_pending_def relay_def pending_batch_def select_ordered_def)
  then have run: "ing_run 30 0 db1 5 db1" using ing_run.step [OF ing_run.start, of 0 5 30 db1 db1] by simp
  have "canonicalize_url (ra_url (sample_raw ''https://dn.se/a'')) =
      canonicalize_url (ra_url (sample_raw ''https://DN.se:443/a/?utm_id=1''))" by (simp add: sample_raw_def sample_canonical)
  from article_announced_once [OF s run _ this s2] s s2 show ?thesis by (simp add: days_def)
qed

end
