(* ===== verification/Spec2Isabelle.thy ===== *)
theory Spec2Isabelle
  imports PredictionSafety Credibility Sampled Settlement CleansingRuns IngestionSafety
begin

text \<open>
  \<^bold>\<open>Feed Analyzer: a verification library for the prediction loop.\<close>

  The program reads news, turns it into events, predicts the next session's price direction of the assets
  an event touches from a causal graph, scores each prediction against the closes, and moves the weights
  of the graph's edges.  The services exchange messages over a broker: \<^verbatim>\<open>article.ingested\<close> (Ingestion),
  \<^verbatim>\<open>event.detected\<close> (Cleansing),
  \<^verbatim>\<open>prediction.made\<close> (Prediction), \<^verbatim>\<open>price.requested\<close> and \<^verbatim>\<open>price.observed\<close> (Verification, Market Data),
  \<^verbatim>\<open>prediction.scored\<close> (Verification, read by Credibility).  Every service keeps its own tables and publishes
  through an outbox table that a relay empties.  Paths below are relative to \<^verbatim>\<open>src/src\<close>.

  \<^bold>\<open>Conventions.\<close>  Instants and local times are integers of microseconds, dates are proleptic ordinals,
  identifiers are natural numbers drawn from a counter in the state where the code calls \<^verbatim>\<open>uuid4\<close>.  A
  float is the rational it denotes, and every float operation rounds once with \<open>fl64\<close> (binary64, ties to
  even); a \<^verbatim>\<open>Decimal\<close> operation rounds with \<open>dec28\<close>.  Overflow to infinity and NaN do not occur on the
  bounded quantities of the model and are left out, except for the similarity of two vectors, where \<open>None\<close> is
  the NaN of a zero vector.  Text is a list of characters below 256 and bytes are characters.  A raised exception is an \<open>Inl\<close> value, an operation on
  a store is a function from the store to a result and a store, and a transaction that raises returns the
  store unchanged.  A table is a list of rows in insertion order; \<open>update_where\<close>, \<open>fetch_first\<close>,
  \<open>fetch_latest\<close> and \<open>select_ordered\<close> are the query shapes the repositories use.  Code outside the
  repository is a parameter: the IANA zone database, the exchange calendars, the broker's publish call, the
  C math library, \<^verbatim>\<open>uuid5\<close> and hash functions, the settings, ftfy, spaCy, the HTML tokeniser, the embedding
  model, the LLM, the word lists of the taxonomy and the regular expressions over them, httpx and the resolver.
  Each is a record of functions, and every property quantifies over it.

  \<^bold>\<open>Theories and what they model.\<close>
  \<^item> \<^verbatim>\<open>Prelude\<close>, \<^verbatim>\<open>Rounding\<close>: results, the store monad, dictionaries, tables, code points; \<^verbatim>\<open>fround\<close> and the
    locale of a rounding (monotone, odd, exact on small integers), interpreted for both formats, with
    Python's \<^verbatim>\<open>round\<close> and the compensated \<^verbatim>\<open>sum\<close>.
  \<^item> \<^verbatim>\<open>Calendar\<close>: \<^verbatim>\<open>shared/shared/calendar/sessions.py\<close>; \<^verbatim>\<open>Schemas\<close>: \<^verbatim>\<open>shared/shared/schemas/messages.py\<close> and
    its validators; \<^verbatim>\<open>Registry\<close>: \<^verbatim>\<open>shared/shared/reference\<close>; \<^verbatim>\<open>Graph\<close>: \<^verbatim>\<open>shared/shared/graph\<close>, the Cypher
    queries as functions on a store of relationships.
  \<^item> \<^verbatim>\<open>Decision\<close>: \<^verbatim>\<open>services/prediction/prediction/decision.py\<close>; \<^verbatim>\<open>Windows\<close>: \<^verbatim>\<open>context.py\<close>; \<^verbatim>\<open>PredictionRepo\<close>:
    \<^verbatim>\<open>db.py\<close>, \<^verbatim>\<open>models.py\<close>, \<^verbatim>\<open>repository.py\<close>; \<^verbatim>\<open>PredictionPipeline\<close>: \<^verbatim>\<open>pipeline.py\<close>; \<^verbatim>\<open>PredictionSafety\<close>: the step
    relation of the service (events, sweeps, relay runs) and its invariants.
  \<^item> \<^verbatim>\<open>Outbox\<close>: the relays of the services, one loop with the decoder and the
    publish call as arguments, and a locale for what a relay run guarantees.
  \<^item> \<^verbatim>\<open>Verification\<close>: scoring, evaluations, observations and the daily pipeline; \<^verbatim>\<open>IntradayPolicy\<close> and
    \<^verbatim>\<open>Intraday\<close>: \<^verbatim>\<open>intraday_policy.py\<close> and \<^verbatim>\<open>intraday.py\<close>; \<^verbatim>\<open>Sampled\<close>: \<^verbatim>\<open>sampled_policy.py\<close> and \<^verbatim>\<open>sampled.py\<close>.
    The two shadow services share the locale \<open>tombstoned\<close>.
  \<^item> \<^verbatim>\<open>CredibleInterval\<close>: \<^verbatim>\<open>history.py\<close>; \<^verbatim>\<open>Credits\<close>: \<^verbatim>\<open>updater.py\<close> and the parsing of edge identifiers;
    \<^verbatim>\<open>Credibility\<close>: \<^verbatim>\<open>repository.py\<close> and \<^verbatim>\<open>pipeline.py\<close> of \<^verbatim>\<open>services/credibility/credibility\<close>, with every
    point at which a delivery can fail.
  \<^item> Market Data (\<^verbatim>\<open>services/market-data/market_data\<close>): \<^verbatim>\<open>Providers\<close>: the Yahoo and biquote adapters and the router
    of \<^verbatim>\<open>adapters\<close>; \<^verbatim>\<open>Avanza\<close>: \<^verbatim>\<open>avanza.py\<close>, the listings and slots of \<^verbatim>\<open>snapshots\<close>; \<^verbatim>\<open>MarketData\<close>: \<^verbatim>\<open>storage.py\<close>,
    \<^verbatim>\<open>handler.py\<close> and the callbacks of \<^verbatim>\<open>app.py\<close>, a step relation for the service, the abstract promise of a
    request and the locale \<open>simulation\<close> through which the service refines it.
  \<^item> \<^verbatim>\<open>Settlement\<close>: Verification and Market Data composed over their outboxes, with a broker that may reorder
    and repeat; a concrete run from a prediction to an accepted price.
  \<^item> Cleansing (\<^verbatim>\<open>services/cleansing/cleansing\<close>): \<^verbatim>\<open>Text\<close>: \<^verbatim>\<open>shared/shared/text.py\<close>; \<^verbatim>\<open>Taxonomy\<close>: \<^verbatim>\<open>taxonomy.py\<close>,
    \<^verbatim>\<open>sections.py\<close> and \<^verbatim>\<open>evidence.py\<close>; \<^verbatim>\<open>Dedup\<close>: \<^verbatim>\<open>dedup.py\<close>; \<^verbatim>\<open>ActionExtraction\<close>: \<^verbatim>\<open>extraction.py\<close> and
    \<^verbatim>\<open>classify.py\<close>; \<^verbatim>\<open>Clustering\<close>: \<^verbatim>\<open>models.py\<close>, \<^verbatim>\<open>clustering.py\<close>; \<^verbatim>\<open>Cleansing\<close>: \<^verbatim>\<open>repository.py\<close>,
    \<^verbatim>\<open>merge.py\<close>, \<^verbatim>\<open>pipeline.py\<close> and the callbacks of \<^verbatim>\<open>app.py\<close>; \<^verbatim>\<open>CleansingSafety\<close>, \<^verbatim>\<open>CleansingSerial\<close> and
    \<^verbatim>\<open>CleansingRuns\<close>: the step relations of the service, with the consumer and the sweep interleaved between
    their transactions and with handlers that do not overlap, and their invariants.
  \<^item> Ingestion (\<^verbatim>\<open>services/ingestion/ingestion\<close>): \<^verbatim>\<open>Network\<close>: the address classes of \<^verbatim>\<open>ipaddress\<close>; \<^verbatim>\<open>Fetcher\<close>:
    \<^verbatim>\<open>fetcher.py\<close>; \<^verbatim>\<open>Urls\<close> and \<^verbatim>\<open>UrlCanon\<close>: \<^verbatim>\<open>urls.py\<close> over \<^verbatim>\<open>urllib.parse\<close>, and its normal forms; \<^verbatim>\<open>Ingestion\<close>:
    \<^verbatim>\<open>models.py\<close>, \<^verbatim>\<open>normalize.py\<close>, the adapters, \<^verbatim>\<open>resilience.py\<close>, \<^verbatim>\<open>storage.py\<close>, \<^verbatim>\<open>retention.py\<close>,
    \<^verbatim>\<open>pipeline.py\<close> and the poll callback of \<^verbatim>\<open>app.py\<close>; \<^verbatim>\<open>IngestionSafety\<close>: the breaker against its specification
    and histories of the service.
  \<^item> This theory: what Prediction, Verification and Credibility agree on.

  \<^bold>\<open>What is shown.\<close>
  \<^item> Prediction: no history exceeds the daily cap; the schema keeps its keys, foreign keys and one outbox
    row per prediction, also when a sweep raises; a sweep that returns settles every context it claimed; a
    decision on valid edges never raises, is symmetric under flipping all edges and bounded as documented;
    own edges shadow group edges; windows agree with integer bucketing.
  \<^item> Messages: a relay hands each message over at most once per recorded success and drains its queue with an
    accepting broker.
  \<^item> Verification: no look-ahead in the chosen sessions; one price request per evaluation, at most one score
    per prediction, scores only on the evaluated sessions; redelivery changes nothing; withdrawn evaluations
    are never scored; the shadow services do not depend on message order and claim only what they observed.
  \<^item> Market Data: a request is answered at most once, for exactly its sessions, from one kind of close, never
    before its settlement session is over, and an answer or an abandonment is final; Verification accepts every
    price Market Data sends it.
  \<^item> Credibility: a delivery is absorbed after the first, moves only the edges it names and by the whole
    clamped step where one edge is responsible; weights stay in [0, 1]; identifiers round-trip; the credible
    interval terminates and is ordered.
  \<^item> Cleansing: an article joins a cluster only through both gates; a cluster holds one event type in every
    interleaving; its event has that type and names its own articles; without overlap a cluster leads to one
    event; the scope of an article meets its specification; news of a rejected type changes nothing downstream.
  \<^item> Ingestion: the body fetcher sends requests to public addresses only; the canonical URL identifies exactly
    the articles it is meant to; an article is announced once within its retention; a failing source does not
    touch the others; the breaker implements its specification.
  \<^item> Deviations found: a zero deadband, a context deferred and never retried, a blocked outbox head, a
    withdrawal lost to message order, a scheduler tick ended by one provider outage, a merged cluster that a
    late article reopens, clusters no sweep claims again, an article lost between two transactions, a poll ended by
    one badly dated entry.

  \<^bold>\<open>Termination and bounds.\<close>  All definitions are total; there is no fuel.  Loops over sessions and slots have
  measures, the quantile bisection has the 200 iterations of its constant and stops after 40 halvings, the
  continued fraction the 200 of its own constant; text decoding has the 8 rounds of the source and the body fetcher
  its \<^verbatim>\<open>max_redirects + 1\<close> hops.

  \<^bold>\<open>Not modelled.\<close>  Network and process code (service runtimes, broker connection, drivers, HTTP and
  browser sessions, notification channels), the LLM clients, research capture, the offline learning job, the
  proofs of concept and the scripts.  Of Cleansing the embedding backends are parameters.  Of Market Data the
  intraday streams and the snapshot collector are not modelled; the samples they store are a table of the
  request model.  Reporting queries, log output and the JSON codec are left out: a stored payload is the value that
  was dumped.  Concurrency between two workers of one service is modelled for Cleansing, whose consumer and
  sweep share rows; elsewhere each operation is one atomic step where the code runs it in one transaction.
\<close>

section \<open>From a decision to the edge that learns\<close>

text \<open>The groups a graph mentions are groups of the registry.\<close>

definition known_groups :: "Registry \<Rightarrow> graph_store \<Rightarrow> bool" where
  "known_groups reg gs \<longleftrightarrow> list_all (\<lambda>(a, g). g \<noteq> [] \<and> g \<in> set (dict_keys (rg_groups reg))) (gs_members gs)"

lemma fired_edge_addressable:
  assumes "wf_registry reg" "wf_graph gs" "known_targets reg gs" "known_groups reg gs"
    and "get_firing_edges reg gs f (Some [a]) conds True = Inr es" and "e \<in> set es"
  shows "\<exists>c t. parse_edge_id reg (edge_id e) = Inr (f, c, t) \<and> causes_counts gs (f, t, c) \<noteq> None"
proof -
  obtain x grp r where e: "e = firing_edge_of x grp r"
    and row: "(x, grp, r) \<in> set (own_rows gs f (Some [a]) conds @ group_rows gs f (Some [a]) conds)"
    using assms(6) assms(5) unfolding get_firing_edges_ok [OF assms(2,3)] by auto
  define t where "t = (case grp of None \<Rightarrow> AssetNode x | Some g \<Rightarrow> GroupNode g)"
  have r: "r \<in> set (gs_causes gs)" "causes_key r = (f, t, cr_condition r)"
    using row by (auto simp: t_def set_own_rows set_group_rows causes_key_def)
  have reg: "registered reg t"
  proof (cases grp)
    case None
    then have "cr_target r = AssetNode x" using row by (auto simp: set_own_rows set_group_rows)
    then show ?thesis using None r(1) assms(3) by (force simp: t_def registered_def known_targets_def list_all_iff)
  next
    case (Some g)
    then have "(x, g) \<in> set (gs_members gs)" using row by (auto simp: set_own_rows set_group_rows)
    then show ?thesis using Some assms(4) by (force simp: t_def registered_def known_groups_def list_all_iff)
  qed
  have "edge_id e = edge_key_text (EventType_value f) (cr_condition r) (case t of AssetNode a \<Rightarrow> a | GroupNode g \<Rightarrow> g)"
    using row reg by (auto simp: e t_def edge_id_def fe_prefix_def fe_target_def firing_edge_of_def set_own_rows
        set_group_rows registered_def)
  moreover have "causes_counts gs (f, t, cr_condition r) \<noteq> None"
    using r by (auto simp: causes_counts_def fetch_first_None_iff split: option.splits)
  ultimately show ?thesis using parse_registered [OF assms(1) reg, of f "cr_condition r"] by auto
qed


lemma sample_fires:
  "get_firing_edges sample_registry sample_graph MILITARY_CONFLICT (Some [''NEM'']) (Some [SAFE_HAVEN_ONLY]) True =
     Inr [firing_edge_of ''NEM'' None (sample_rel MILITARY_CONFLICT (AssetNode ''NEM'') (Some SAFE_HAVEN_ONLY) UP 1)]"
  unfolding get_firing_edges_ok [OF sample_graph_wf]
  by (simp add: own_rows_def group_rows_def sample_graph_def sample_rel_def has_own_edge_def asset_selected_def
      condition_active_def)

definition scored_evaluation :: "ContributingEdge list \<Rightarrow> EvaluationRecord" where
  "scored_evaluation edges =
     \<lparr>er_prediction_id = 5, er_context_id = 6, er_asset_id = ''NEM'', er_predicted_direction = UP,
      er_predicted_magnitude = SMALL, er_confidence = 1 / 2, er_decision_at = 0, er_baseline_session = 739000,
      er_settlement_session = 739000, er_market_calendar = ''America/New_York'', er_registry_version = ''1'',
      er_request_id = 7, er_correlation_id = 8, er_contributing_edges = edges, er_source_ids = [''reuters.com''],
      er_propagation_chain = [], er_status = EV_SCORED\<rparr>"


section \<open>From an article that is not market news to no prediction\<close>

text \<open>
  C17: Rejected news never reaches a prediction.  In every interleaving of Cleansing's consumer and sweep, an
  EventDetected of a type that must not be clustered (OTHER, sport, entertainment, lifestyle) leaves
  Prediction's contexts, predictions and outbox as they are when it is processed there: only the research log
  sees it.
\<close>

theorem rejected_news_never_predicted:
  assumes "cl_reachable s" and "e \<in> ob_payload ` set (cl_outbox (sy_db s))"
    and "ed_event_type e \<in> NON_CLUSTERING_EVENT_TYPES"
  shows "process_event env e db = research_log env (RecordEvent e) db"
proof -
  have "event_ok (sy_db s) e"
    using good_reachable [OF assms(1)] assms(2) by (intro good_dbD(8)) (simp_all add: good_sys_def)
  then show ?thesis using assms(3) by (simp add: event_ok_def process_event_def)
qed

theorem rejected_news_never_predicted_witness:
  "\<exists>s e. cl_reachable s \<and> e \<in> ob_payload ` set (cl_outbox (sy_db s)) \<and> ed_event_type e = OTHER \<and>
     process_event sample_env e empty_db = research_log sample_env (RecordEvent e) empty_db"
proof -
  obtain db e where db: "cl_serial\<^sup>*\<^sup>* empty_cleansing db" "map ob_payload (cl_outbox db) = [e]" "ed_event_type e = OTHER"
    by (rule other_closed)
  have "e \<in> ob_payload ` set (cl_outbox (sy_db (quiescent db)))" using db(2) by (auto simp: quiescent_def simp flip: set_map)
  moreover have "ed_event_type e \<in> NON_CLUSTERING_EVENT_TYPES" using db(3) by (simp add: NON_CLUSTERING_EVENT_TYPES_def)
  ultimately show ?thesis
    using rejected_news_never_predicted [OF serial_reachable [OF db(1)], of e sample_env empty_db] serial_reachable [OF db(1)] db(3)
    by blast
qed

end
